(* ===== verification/Prelude.thy ===== *)
theory Prelude
  imports Main "HOL-Library.Word"
begin

unbundle bit_operations_syntax

text \<open>
  Shared vocabulary of the development.

  \<^item> Rust's unsigned integers are words of their width; the firmware profile inherits
    \<^verbatim>\<open>release\<close>, so plain arithmetic wraps, exactly as on words.
  \<^item> \<open>outcome\<close> is what a call ends in: a value, a \<open>CaliptraError\<close> code, a jump to the
    control-flow-integrity panic handler with its code, or a Rust panic. A register access that the
    bus refuses and a wait that never ends do not return to the caller either; both are \<open>RustPanic\<close>.
  \<^item> \<open>('s, 'a) action\<close> is a computation over the mutable state \<open>'s\<close>; \<open>bindE\<close> is the
    \<^verbatim>\<open>?\<close> operator followed by the rest of the function.
  \<^item> \<open>frame\<close> and \<open>calm\<close> are the two shared contracts: an action relates its start and end
    states, and an action does not panic.
\<close>

section \<open>Machine integers\<close>

type_synonym u8 = "8 word"
type_synonym u16 = "16 word"
type_synonym u32 = "32 word"
type_synonym u64 = "64 word"
type_synonym u128 = "128 word"

text \<open>Rust's \<^verbatim>\<open>checked_add\<close>, \<^verbatim>\<open>overflowing_add\<close>, \<^verbatim>\<open>overflowing_sub\<close> and \<^verbatim>\<open>leading_zeros\<close>.\<close>

definition checked_add :: "'a::len word \<Rightarrow> 'a word \<Rightarrow> 'a word option" where
  "checked_add a b = (if unat a + unat b < 2 ^ LENGTH('a) then Some (a + b) else None)"

definition overflowing_add :: "'a::len word \<Rightarrow> 'a word \<Rightarrow> 'a word \<times> bool" where
  "overflowing_add a b = (a + b, 2 ^ LENGTH('a) \<le> unat a + unat b)"

definition overflowing_sub :: "'a::len word \<Rightarrow> 'a word \<Rightarrow> 'a word \<times> bool" where
  "overflowing_sub a b = (a - b, a < b)"

lemma checked_add_Some_iff:
  "checked_add a b = Some c \<longleftrightarrow> c = a + b \<and> unat c = unat a + unat b"
  for a b c :: "'a::len word"
proof
  assume "checked_add a b = Some c"
  then show "c = a + b \<and> unat c = unat a + unat b"
    by (auto simp: checked_add_def unat_word_ariths split: if_splits)
next
  assume c: "c = a + b \<and> unat c = unat a + unat b"
  then have "unat a + unat b < 2 ^ LENGTH('a)"
    by (metis unsigned_less)
  with c show "checked_add a b = Some c"
    by (simp add: checked_add_def)
qed

lemma unat_add_no_overflow:
  "unat a + unat b < 2 ^ LENGTH('a) \<Longrightarrow> unat (a + b) = unat a + unat b"
  for a b :: "'a::len word"
  by (simp add: unat_word_ariths)

section \<open>Outcomes and actions\<close>

datatype 'a outcome =
    Ok 'a
  | Err u32
  | CfiPanic u32
  | RustPanic

type_synonym ('s, 'a) action = "'s \<Rightarrow> 'a outcome \<times> 's"

definition ret :: "'a \<Rightarrow> ('s, 'a) action" where
  "ret x = (\<lambda>s. (Ok x, s))"

definition throw :: "u32 \<Rightarrow> ('s, 'a) action" where
  "throw e = (\<lambda>s. (Err e, s))"

definition liftO :: "'a outcome \<Rightarrow> ('s, 'a) action" where
  "liftO r = (\<lambda>s. (r, s))"

definition gets :: "('s \<Rightarrow> 'a) \<Rightarrow> ('s, 'a) action" where
  "gets f = (\<lambda>s. (Ok (f s), s))"

definition bindE :: "('s, 'a) action \<Rightarrow> ('a \<Rightarrow> ('s, 'b) action) \<Rightarrow> ('s, 'b) action" where
  "bindE m f = (\<lambda>s. case m s of
      (Ok x, t) \<Rightarrow> f x t
    | (Err e, t) \<Rightarrow> (Err e, t)
    | (CfiPanic p, t) \<Rightarrow> (CfiPanic p, t)
    | (RustPanic, t) \<Rightarrow> (RustPanic, t))"

definition bindO :: "'a outcome \<Rightarrow> ('a \<Rightarrow> 'b outcome) \<Rightarrow> 'b outcome" where
  "bindO r f = (case r of Ok x \<Rightarrow> f x | Err e \<Rightarrow> Err e | CfiPanic p \<Rightarrow> CfiPanic p | RustPanic \<Rightarrow> RustPanic)"

text \<open>The guard \<^verbatim>\<open>if c { Err(e)? }\<close>, \<^verbatim>\<open>ok_or\<close> and \<^verbatim>\<open>map_err(|_| e)\<close>.\<close>

definition failIf :: "bool \<Rightarrow> u32 \<Rightarrow> ('s, unit) action" where
  "failIf c e = (if c then throw e else ret ())"

definition okOr :: "'a option \<Rightarrow> u32 \<Rightarrow> ('s, 'a) action" where
  "okOr x e = (case x of None \<Rightarrow> throw e | Some y \<Rightarrow> ret y)"

definition mapErr :: "u32 \<Rightarrow> ('s, 'a) action \<Rightarrow> ('s, 'a) action" where
  "mapErr e m = (\<lambda>s. case m s of (Err _, t) \<Rightarrow> (Err e, t) | r \<Rightarrow> r)"

text \<open>A method call on a field: the action runs on the part that \<open>get\<close> reads and \<open>put\<close> writes back.\<close>

definition zoom :: "('s \<Rightarrow> 'd) \<Rightarrow> ('d \<Rightarrow> 's \<Rightarrow> 's) \<Rightarrow> ('d, 'a) action \<Rightarrow> ('s, 'a) action" where
  "zoom get put m s = (case m (get s) of (x, d) \<Rightarrow> (x, put d s))"

named_theorems action_simps \<open>evaluation of the action combinators\<close>
named_theorems frame_rules \<open>introduction rules for frame\<close>
named_theorems calm_rules \<open>introduction rules for calm\<close>

lemma ret_apply [simp, action_simps]: "ret x s = (Ok x, s)"
  by (simp add: ret_def)

lemma throw_apply [simp, action_simps]: "throw e s = (Err e, s)"
  by (simp add: throw_def)

lemma liftO_apply [simp, action_simps]: "liftO r s = (r, s)"
  by (simp add: liftO_def)

lemma gets_apply [simp, action_simps]: "gets f s = (Ok (f s), s)"
  by (simp add: gets_def)

lemma failIf_apply [action_simps]: "failIf c e s = (if c then Err e else Ok (), s)"
  by (simp add: failIf_def)

lemma okOr_apply [action_simps]: "okOr x e s = (case x of None \<Rightarrow> Err e | Some y \<Rightarrow> Ok y, s)"
  by (simp add: okOr_def split: option.splits)

lemma bindE_Ok [action_simps]: "m s = (Ok x, t) \<Longrightarrow> bindE m f s = f x t"
  by (simp add: bindE_def)

lemma bindE_Err [action_simps]: "m s = (Err e, t) \<Longrightarrow> bindE m f s = (Err e, t)"
  by (simp add: bindE_def)

lemma bindE_CfiPanic [action_simps]: "m s = (CfiPanic p, t) \<Longrightarrow> bindE m f s = (CfiPanic p, t)"
  by (simp add: bindE_def)

lemma bindE_RustPanic [action_simps]: "m s = (RustPanic, t) \<Longrightarrow> bindE m f s = (RustPanic, t)"
  by (simp add: bindE_def)

lemma bindE_ret [simp]: "bindE (ret x) f = f x"
  by (simp add: bindE_def fun_eq_iff)

lemma bindE_throw [simp]: "bindE (throw e) f = throw e"
  by (simp add: bindE_def fun_eq_iff)

lemma bindE_gets [simp]: "bindE (gets g) f s = f (g s) s"
  by (simp add: bindE_def)

lemma bindE_assoc: "bindE (bindE m f) g = bindE m (\<lambda>x. bindE (f x) g)"
  by (auto simp: bindE_def fun_eq_iff split: prod.splits outcome.splits)

lemma failIf_True [simp]: "failIf True e = throw e"
  by (simp add: failIf_def)

lemma failIf_False [simp]: "failIf False e = ret ()"
  by (simp add: failIf_def)

text \<open>Inversion of a successful run: the backbone of every soundness proof.\<close>

lemma bindE_eq_Ok:
  "bindE m f s = (Ok y, u) \<longleftrightarrow> (\<exists>x t. m s = (Ok x, t) \<and> f x t = (Ok y, u))"
  by (auto simp: bindE_def split: prod.splits outcome.splits)

lemma failIf_eq_Ok [simp]: "failIf c e s = (Ok x, t) \<longleftrightarrow> \<not> c \<and> t = s"
  by (auto simp: failIf_def)

lemma okOr_eq_Ok [simp]: "okOr x e s = (Ok y, t) \<longleftrightarrow> x = Some y \<and> t = s"
  by (auto simp: okOr_def split: option.splits)

lemma mapErr_eq_Ok [simp]: "mapErr e m s = (Ok y, t) \<longleftrightarrow> m s = (Ok y, t)"
  by (auto simp: mapErr_def split: prod.splits outcome.splits)

lemma bindO_eq_Ok: "bindO r f = Ok y \<longleftrightarrow> (\<exists>x. r = Ok x \<and> f x = Ok y)"
  by (auto simp: bindO_def split: outcome.splits)

lemma bindO_simps [simp]:
  "bindO (Ok x) f = f x" "bindO (Err e) f = Err e"
  "bindO (CfiPanic p) f = CfiPanic p" "bindO RustPanic f = RustPanic"
  by (simp_all add: bindO_def)

text \<open>
  \<open>mapO f xs\<close> runs the fallible \<open>f\<close> on each element in order and stops at the first failure:
  a \<^verbatim>\<open>for\<close> loop whose body ends in \<^verbatim>\<open>?\<close>.
\<close>

primrec mapO :: "('a \<Rightarrow> 'b outcome) \<Rightarrow> 'a list \<Rightarrow> 'b list outcome" where
  "mapO f [] = Ok []"
| "mapO f (x # xs) = bindO (f x) (\<lambda>y. bindO (mapO f xs) (\<lambda>ys. Ok (y # ys)))"

lemma mapO_Ok: "(\<And>x. x \<in> set xs \<Longrightarrow> f x = Ok (g x)) \<Longrightarrow> mapO f xs = Ok (map g xs)"
  by (induction xs) auto

section \<open>Frames and panic freedom\<close>

definition frame :: "('s \<Rightarrow> 's \<Rightarrow> bool) \<Rightarrow> ('s, 'a) action \<Rightarrow> bool" where
  "frame R m \<longleftrightarrow> (\<forall>s r t. m s = (r, t) \<longrightarrow> R s t)"

lemma frameI: "(\<And>s r t. m s = (r, t) \<Longrightarrow> R s t) \<Longrightarrow> frame R m"
  by (simp add: frame_def)

lemma frameD: "frame R m \<Longrightarrow> m s = (r, t) \<Longrightarrow> R s t"
  by (simp add: frame_def)

lemma frame_ret [frame_rules]: "reflp R \<Longrightarrow> frame R (ret x)"
  by (simp add: frame_def reflp_def)

lemma frame_throw [frame_rules]: "reflp R \<Longrightarrow> frame R (throw e)"
  by (simp add: frame_def reflp_def)

lemma frame_liftO [frame_rules]: "reflp R \<Longrightarrow> frame R (liftO r)"
  by (simp add: frame_def reflp_def)

lemma frame_gets [frame_rules]: "reflp R \<Longrightarrow> frame R (gets f)"
  by (simp add: frame_def reflp_def)

lemma frame_failIf [frame_rules]: "reflp R \<Longrightarrow> frame R (failIf c e)"
  by (simp add: failIf_def frame_rules)

lemma frame_okOr [frame_rules]: "reflp R \<Longrightarrow> frame R (okOr x e)"
  by (auto simp: okOr_def frame_rules split: option.splits)

lemma frame_mapErr [frame_rules]: "frame R m \<Longrightarrow> frame R (mapErr e m)"
  by (fastforce simp: frame_def mapErr_def split: prod.splits outcome.splits)

lemma frame_bindE [frame_rules]:
  assumes "transp R" "frame R m" "\<And>x. frame R (f x)"
  shows "frame R (bindE m f)"
proof (rule frameI)
  fix s r t
  assume "bindE m f s = (r, t)"
  then show "R s t"
    using assms by (auto simp: bindE_def split: prod.splits outcome.splits
        dest: frameD elim: transpE)
qed

lemma frame_if [frame_rules]: "frame R a \<Longrightarrow> frame R b \<Longrightarrow> frame R (if c then a else b)"
  by simp

definition is_panic :: "'a outcome \<Rightarrow> bool" where
  "is_panic r = (case r of CfiPanic _ \<Rightarrow> True | RustPanic \<Rightarrow> True | _ \<Rightarrow> False)"

lemma is_panic_simps [simp]:
  "\<not> is_panic (Ok x)" "\<not> is_panic (Err e)" "is_panic (CfiPanic p)" "is_panic RustPanic"
  by (simp_all add: is_panic_def)

definition calm :: "('s, 'a) action \<Rightarrow> 's \<Rightarrow> bool" where
  "calm m s \<longleftrightarrow> \<not> is_panic (fst (m s))"

lemma calm_ret [calm_rules]: "calm (ret x) s" and calm_throw [calm_rules]: "calm (throw e) s"
  and calm_gets [calm_rules]: "calm (gets f) s" and calm_failIf [calm_rules]: "calm (failIf c e) s"
  and calm_okOr [calm_rules]: "calm (okOr x e) s"
  by (simp_all add: calm_def failIf_def okOr_def split: option.splits)

lemma calm_mapErr [calm_rules]: "calm m s \<Longrightarrow> calm (mapErr e m) s"
  by (auto simp: calm_def mapErr_def split: prod.splits outcome.splits)

lemma calm_bindE [calm_rules]:
  "calm m s \<Longrightarrow> (\<And>x t. m s = (Ok x, t) \<Longrightarrow> calm (f x) t) \<Longrightarrow> calm (bindE m f) s"
  by (auto simp: calm_def bindE_def split: prod.splits outcome.splits)

lemma calm_if [calm_rules]:
  "(c \<Longrightarrow> calm a s) \<Longrightarrow> (\<not> c \<Longrightarrow> calm b s) \<Longrightarrow> calm (if c then a else b) s"
  by simp

end
