(* ===== verification/Bytes.thy ===== *)
theory Bytes
  imports Prelude
begin

unbundle bit_operations_syntax

text \<open>
  Byte representations. The firmware moves between words and bytes all the time: zerocopy's
  \<^verbatim>\<open>as_bytes\<close> of a \<^verbatim>\<open>repr(C)\<close> structure, \<^verbatim>\<open>to_be_bytes\<close>/\<^verbatim>\<open>from_be_bytes\<close>, and the
  \<open>Array4xN\<close>/\<open>LEArray4xN\<close> conversions of \<^verbatim>\<open>drivers/src/array.rs\<close>. The locale \<open>codec\<close> is
  the contract a fixed-width representation satisfies: encoding has a fixed length, decoding
  a prefix inverts encoding, and encoding inverts decoding. Its array rule builds the
  codecs of fixed-length arrays; the structure codecs are interpretations of it.
\<close>

section \<open>Little- and big-endian words\<close>

definition le_bytes :: "nat \<Rightarrow> 'a::len word \<Rightarrow> u8 list" where
  "le_bytes n w = map (\<lambda>i. ucast (drop_bit (8 * i) w)) [0..<n]"

definition from_le_bytes :: "u8 list \<Rightarrow> 'a::len word" where
  "from_le_bytes bs = foldr (\<lambda>b acc. ucast b OR push_bit 8 acc) bs 0"

definition be_bytes :: "nat \<Rightarrow> 'a::len word \<Rightarrow> u8 list" where
  "be_bytes n w = rev (le_bytes n w)"

definition from_be_bytes :: "u8 list \<Rightarrow> 'a::len word" where
  "from_be_bytes bs = from_le_bytes (rev bs)"

lemma length_le_bytes [simp]: "length (le_bytes n w) = n"
  by (simp add: le_bytes_def)

lemma length_be_bytes [simp]: "length (be_bytes n w) = n"
  by (simp add: be_bytes_def)

lemma nth_le_bytes: "i < n \<Longrightarrow> le_bytes n w ! i = ucast (drop_bit (8 * i) w)"
  by (simp add: le_bytes_def)

lemma bit_from_le_bytes:
  "bit (from_le_bytes bs :: 'a::len word) i \<longleftrightarrow>
     i < LENGTH('a) \<and> i < 8 * length bs \<and> bit (bs ! (i div 8)) (i mod 8)"
proof (induction bs arbitrary: i)
  case Nil
  then show ?case by (simp add: from_le_bytes_def)
next
  case (Cons b bs)
  let ?t = "from_le_bytes bs :: 'a word"
  have step: "from_le_bytes (b # bs) = (ucast b OR push_bit 8 ?t :: 'a word)"
    by (simp add: from_le_bytes_def)
  show ?case
  proof (cases "i < 8")
    case True
    then show ?thesis by (auto simp: step bit_simps)
  next
    case False
    then have "bit (b :: u8) i = False"
      using bit_imp_le_length [of b i] by auto
    moreover have "(i - 8) div 8 = i div 8 - 1" "(i - 8) mod 8 = i mod 8" "0 < i div 8"
      "i - 8 < 8 * length bs \<longleftrightarrow> i < 8 + 8 * length bs"
      using False by (auto simp: le_mod_geq div_greater_zero_iff)
    ultimately show ?thesis
      using False Cons.IH [of "i - 8"]
      by (auto simp: step bit_simps nth_Cons')
  qed
qed

lemma from_le_le_bytes: "LENGTH('a) = 8 * n \<Longrightarrow> from_le_bytes (le_bytes n w) = w"
  for w :: "'a::len word"
proof (rule bit_word_eqI)
  fix i assume len: "LENGTH('a) = 8 * n" and i: "i < LENGTH('a)"
  then have "i div 8 < n" by auto
  moreover have "i mod 8 < 8" "8 * (i div 8) + i mod 8 = i" by auto
  ultimately show "bit (from_le_bytes (le_bytes n w) :: 'a word) i = bit w i"
    using len i by (auto simp: bit_from_le_bytes nth_le_bytes bit_simps)
qed

lemma le_from_le_bytes:
  assumes "length bs = n" "LENGTH('a) = 8 * n"
  shows "le_bytes n (from_le_bytes bs :: 'a::len word) = bs"
proof (rule nth_equalityI)
  show "length (le_bytes n (from_le_bytes bs :: 'a word)) = length bs"
    using assms by simp
next
  fix i assume "i < length (le_bytes n (from_le_bytes bs :: 'a word))"
  then have i: "i < n" by simp
  have "bit (ucast (drop_bit (8 * i) (from_le_bytes bs :: 'a word)) :: u8) j = bit (bs ! i) j"
    if "j < 8" for j
    using that i assms by (auto simp: bit_simps bit_from_le_bytes)
  then show "le_bytes n (from_le_bytes bs :: 'a word) ! i = bs ! i"
    using i by (auto simp: nth_le_bytes intro!: bit_word_eqI)
qed

lemma from_be_be_bytes: "LENGTH('a) = 8 * n \<Longrightarrow> from_be_bytes (be_bytes n w) = w"
  for w :: "'a::len word"
  by (simp add: from_be_bytes_def be_bytes_def from_le_le_bytes)

lemma be_from_be_bytes:
  "length bs = n \<Longrightarrow> LENGTH('a) = 8 * n \<Longrightarrow> be_bytes n (from_be_bytes bs :: 'a::len word) = bs"
  by (simp add: from_be_bytes_def be_bytes_def le_from_le_bytes)

text \<open>The widths the firmware uses.\<close>

abbreviation le16 :: "u16 \<Rightarrow> u8 list" where "le16 \<equiv> le_bytes 2"
abbreviation le32 :: "u32 \<Rightarrow> u8 list" where "le32 \<equiv> le_bytes 4"
abbreviation be16 :: "u16 \<Rightarrow> u8 list" where "be16 \<equiv> be_bytes 2"
abbreviation be32 :: "u32 \<Rightarrow> u8 list" where "be32 \<equiv> be_bytes 4"
abbreviation be64 :: "u64 \<Rightarrow> u8 list" where "be64 \<equiv> be_bytes 8"

section \<open>Fixed-width codecs\<close>

text \<open>A decoder returns the value and the bytes it did not consume.\<close>

type_synonym 'a decoder = "u8 list \<Rightarrow> 'a \<times> u8 list"

definition dec_le :: "nat \<Rightarrow> 'a::len word decoder" where
  "dec_le n bs = (from_le_bytes (take n bs), drop n bs)"

definition dec_be :: "nat \<Rightarrow> 'a::len word decoder" where
  "dec_be n bs = (from_be_bytes (take n bs), drop n bs)"

definition dec_raw :: "nat \<Rightarrow> u8 list decoder" where
  "dec_raw n bs = (take n bs, drop n bs)"

definition enc_array :: "('a \<Rightarrow> u8 list) \<Rightarrow> 'a list \<Rightarrow> u8 list" where
  "enc_array enc xs = concat (map enc xs)"

primrec dec_array :: "nat \<Rightarrow> 'a decoder \<Rightarrow> 'a list decoder" where
  "dec_array 0 dec bs = ([], bs)"
| "dec_array (Suc n) dec bs =
     (let (x, bs1) = dec bs; (xs, bs2) = dec_array n dec bs1 in (x # xs, bs2))"

locale codec =
  fixes enc :: "'a \<Rightarrow> u8 list" and dec :: "'a decoder" and wf :: "'a \<Rightarrow> bool" and sz :: nat
  assumes enc_len: "wf x \<Longrightarrow> length (enc x) = sz"
    and dec_enc: "wf x \<Longrightarrow> dec (enc x @ rest) = (x, rest)"
    and dec_wf: "sz \<le> length bs \<Longrightarrow> wf (fst (dec bs))"
    and enc_dec: "sz \<le> length bs \<Longrightarrow> enc (fst (dec bs)) @ snd (dec bs) = bs"
begin

lemma enc_inj: "wf x \<Longrightarrow> wf y \<Longrightarrow> enc x = enc y \<Longrightarrow> x = y"
  by (metis dec_enc prod.inject)

lemma enc_append_inj:
  "wf x \<Longrightarrow> wf y \<Longrightarrow> enc x @ bs = enc y @ cs \<longleftrightarrow> x = y \<and> bs = cs"
  by (metis dec_enc prod.inject)

lemma dec_snd: "sz \<le> length bs \<Longrightarrow> snd (dec bs) = drop sz bs"
  by (metis append_eq_conv_conj dec_wf enc_dec enc_len)

lemma dec_snd_len: "sz \<le> length bs \<Longrightarrow> length (snd (dec bs)) = length bs - sz"
  by (simp add: dec_snd)

lemma enc_fst_dec: "sz \<le> length bs \<Longrightarrow> enc (fst (dec bs)) = take sz bs"
  by (metis append_eq_conv_conj dec_wf enc_dec enc_len)

lemma enc_array_len: "list_all wf xs \<Longrightarrow> length (enc_array enc xs) = sz * length xs"
  by (induction xs) (auto simp: enc_array_def enc_len)

lemma dec_enc_array:
  "list_all wf xs \<Longrightarrow> dec_array (length xs) dec (enc_array enc xs @ rest) = (xs, rest)"
  by (induction xs) (auto simp: enc_array_def dec_enc)

lemma dec_array_sound:
  "n * sz \<le> length bs \<Longrightarrow>
     length (fst (dec_array n dec bs)) = n \<and> list_all wf (fst (dec_array n dec bs)) \<and>
     enc_array enc (fst (dec_array n dec bs)) @ snd (dec_array n dec bs) = bs"
proof (induction n arbitrary: bs)
  case 0
  then show ?case by (simp add: enc_array_def)
next
  case (Suc n)
  have sz: "sz \<le> length bs" using Suc.prems by simp
  obtain x bs1 where x: "dec bs = (x, bs1)" by fastforce
  have "n * sz \<le> length bs1"
    using Suc.prems dec_snd_len [OF sz] x by simp
  note IH = Suc.IH [OF this]
  show ?case
    using IH x dec_wf [OF sz] enc_dec [OF sz]
    by (auto simp: enc_array_def split: prod.splits)
qed

lemma array_codec:
  "codec (enc_array enc) (dec_array n dec) (\<lambda>xs. length xs = n \<and> list_all wf xs) (n * sz)"
  by unfold_locales (auto simp: enc_array_len dec_enc_array dec_array_sound)

end

lemma word_le_codec:
  "LENGTH('a) = 8 * n \<Longrightarrow> codec (le_bytes n) (dec_le n :: 'a::len word decoder) (\<lambda>_. True) n"
  by unfold_locales (auto simp: dec_le_def from_le_le_bytes le_from_le_bytes)

lemma word_be_codec:
  "LENGTH('a) = 8 * n \<Longrightarrow> codec (be_bytes n) (dec_be n :: 'a::len word decoder) (\<lambda>_. True) n"
  by unfold_locales (auto simp: dec_be_def from_be_be_bytes be_from_be_bytes)

lemma raw_codec: "codec (\<lambda>bs. bs) (dec_raw n) (\<lambda>bs. length bs = n) n"
  by unfold_locales (auto simp: dec_raw_def)

interpretation u16le: codec le16 "dec_le 2" "\<lambda>_. True" 2
  by (rule word_le_codec) simp

interpretation u32le: codec le32 "dec_le 4" "\<lambda>_. True" 4
  by (rule word_le_codec) simp

interpretation u32be: codec be32 "dec_be 4" "\<lambda>_. True" 4
  by (rule word_be_codec) simp

interpretation u64be: codec be64 "dec_be 8" "\<lambda>_. True" 8
  by (rule word_be_codec) simp

interpretation rawb: codec "\<lambda>bs. bs" "dec_raw n" "\<lambda>bs. length bs = n" n for n
  by (rule raw_codec)

interpretation u32les: codec "enc_array le32" "dec_array n (dec_le 4)"
  "\<lambda>xs. length xs = n \<and> list_all (\<lambda>_. True) xs" "n * 4" for n
  by (rule u32le.array_codec)

interpretation u32bes: codec "enc_array be32" "dec_array n (dec_be 4)"
  "\<lambda>xs. length xs = n \<and> list_all (\<lambda>_. True) xs" "n * 4" for n
  by (rule u32be.array_codec)

lemma list_all_True [simp]: "list_all (\<lambda>_. True) xs"
  by (simp add: list_all_iff)

text \<open>
  The pieces a structure codec is made of: the encoding of a well-formed field is split off
  the front of a concatenation, and the lengths of the fields add up.
\<close>

lemmas field_dec = u16le.dec_enc u32le.dec_enc u32be.dec_enc rawb.dec_enc u32les.dec_enc

lemmas field_len = u32les.enc_len

definition byte_dec :: "u8 decoder" where
  "byte_dec bs = (hd bs, tl bs)"

interpretation byte1: codec "\<lambda>b. [b]" byte_dec "\<lambda>_. True" 1
  by unfold_locales (auto simp: byte_dec_def Suc_le_length_iff)

text \<open>
  Structures: a \<^verbatim>\<open>repr(C)\<close> structure without padding is the concatenation of its fields, so its
  codec is the image of nested pair codecs under the record's constructor and its fields.
\<close>

definition pair_enc :: "('a \<Rightarrow> u8 list) \<Rightarrow> ('b \<Rightarrow> u8 list) \<Rightarrow> 'a \<times> 'b \<Rightarrow> u8 list" where
  "pair_enc e1 e2 p = e1 (fst p) @ e2 (snd p)"

definition pair_dec :: "'a decoder \<Rightarrow> 'b decoder \<Rightarrow> ('a \<times> 'b) decoder" where
  "pair_dec d1 d2 bs = (let (x, bs1) = d1 bs; (y, bs2) = d2 bs1 in ((x, y), bs2))"

definition pair_wf :: "('a \<Rightarrow> bool) \<Rightarrow> ('b \<Rightarrow> bool) \<Rightarrow> 'a \<times> 'b \<Rightarrow> bool" where
  "pair_wf w1 w2 p \<longleftrightarrow> w1 (fst p) \<and> w2 (snd p)"

lemma codec_pair:
  assumes "codec e1 d1 w1 n1" "codec e2 d2 w2 n2"
  shows "codec (pair_enc e1 e2) (pair_dec d1 d2) (pair_wf w1 w2) (n1 + n2)"
proof -
  note c1 = codec.enc_len [OF assms(1)] codec.dec_enc [OF assms(1)]
  note c2 = codec.enc_len [OF assms(2)] codec.dec_enc [OF assms(2)]
  have round: "pair_wf w1 w2 (fst (pair_dec d1 d2 bs)) \<and>
      pair_enc e1 e2 (fst (pair_dec d1 d2 bs)) @ snd (pair_dec d1 d2 bs) = bs"
    if le: "n1 + n2 \<le> length bs" for bs
  proof -
    obtain x b where x: "d1 bs = (x, b)" by fastforce
    have n1: "n1 \<le> length bs" and n2: "n2 \<le> length b"
      using le x codec.dec_snd_len [OF assms(1), of bs] by simp_all
    obtain y c where y: "d2 b = (y, c)" by fastforce
    show ?thesis
      using x y codec.dec_wf [OF assms(1) n1] codec.dec_wf [OF assms(2) n2]
        codec.enc_dec [OF assms(1) n1] codec.enc_dec [OF assms(2) n2]
      by (simp add: pair_dec_def pair_enc_def pair_wf_def)
  qed
  have forth: "length (pair_enc e1 e2 p) = n1 + n2 \<and> pair_dec d1 d2 (pair_enc e1 e2 p @ rest) = (p, rest)"
    if "pair_wf w1 w2 p" for p rest
    using that by (simp add: c1 c2 pair_enc_def pair_dec_def pair_wf_def)
  show ?thesis
    by unfold_locales (simp_all add: forth round)
qed

lemma codec_iso:
  assumes "codec e d w n" "\<And>x. g (f x) = x" "\<And>y. f (g y) = y"
    and "\<And>x. enc x = e (f x)" "\<And>bs. dec bs = (g (fst (d bs)), snd (d bs))" "\<And>x. valid x = w (f x)"
  shows "codec enc dec valid n"
  by unfold_locales
    (auto simp: assms(2-) codec.enc_len [OF assms(1)] codec.dec_enc [OF assms(1)]
      codec.dec_wf [OF assms(1)] codec.enc_dec [OF assms(1)])

lemmas codec_defs = pair_enc_def pair_dec_def pair_wf_def

text \<open>
  zerocopy's \<^verbatim>\<open>ref_from_prefix\<close>: the structure at the front of a byte slice, or an error when
  the slice is too short. (Its alignment check cannot fail where the firmware calls it: the
  LMS structures are unaligned and the others sit at word offsets of the manifest.)
\<close>

definition ref_from_prefix :: "nat \<Rightarrow> 'a decoder \<Rightarrow> u8 list \<Rightarrow> 'a option" where
  "ref_from_prefix sz dec bs = (if length bs < sz then None else Some (fst (dec bs)))"

section \<open>Big-endian and little-endian register arrays\<close>

text \<open>
  \<open>Array4xN\<close> holds a byte string as big-endian words, \<open>LEArray4xN\<close> as little-endian words.
\<close>

definition u32_be_to_u8 :: "u32 list \<Rightarrow> u8 list" where
  "u32_be_to_u8 src = concat (map be32 src)"

definition u8_to_u32_be :: "nat \<Rightarrow> u8 list \<Rightarrow> u32 list" where
  "u8_to_u32_be W src = map (\<lambda>i. from_be_bytes (take 4 (drop (i * 4) src))) [0..<W]"

definition u32_le_to_u8 :: "u32 list \<Rightarrow> u8 list" where
  "u32_le_to_u8 src = concat (map le32 src)"

definition u8_to_u32_le :: "nat \<Rightarrow> u8 list \<Rightarrow> u32 list" where
  "u8_to_u32_le W src = map (\<lambda>i. from_le_bytes (take 4 (drop (i * 4) src))) [0..<W]"

text \<open>\<^verbatim>\<open>LEArray4xN::from(Array4xN)\<close> and back.\<close>

definition be_array_to_le :: "nat \<Rightarrow> u32 list \<Rightarrow> u32 list" where
  "be_array_to_le W v = u8_to_u32_le W (u32_be_to_u8 v)"

definition le_array_to_be :: "nat \<Rightarrow> u32 list \<Rightarrow> u32 list" where
  "le_array_to_be W v = u8_to_u32_be W (u32_le_to_u8 v)"

lemma length_u32_be_to_u8 [simp]: "length (u32_be_to_u8 v) = 4 * length v"
  by (induction v) (auto simp: u32_be_to_u8_def)

lemma length_u32_le_to_u8 [simp]: "length (u32_le_to_u8 v) = 4 * length v"
  by (induction v) (auto simp: u32_le_to_u8_def)

lemma chunk4_concat:
  assumes "\<And>x. length (f x) = 4" "i < length xs"
  shows "take 4 (drop (i * 4) (concat (map f xs))) = f (xs ! i)"
  using assms(2)
proof (induction xs arbitrary: i)
  case Nil
  then show ?case by simp
next
  case (Cons x xs)
  then show ?case using assms(1) by (cases i) auto
qed

lemma u8_to_u32_be_inverse: "length v = W \<Longrightarrow> u8_to_u32_be W (u32_be_to_u8 v) = v"
  by (rule nth_equalityI)
    (auto simp: u8_to_u32_be_def u32_be_to_u8_def chunk4_concat from_be_be_bytes)

lemma u8_to_u32_le_inverse: "length v = W \<Longrightarrow> u8_to_u32_le W (u32_le_to_u8 v) = v"
  by (rule nth_equalityI)
    (auto simp: u8_to_u32_le_def u32_le_to_u8_def chunk4_concat from_le_le_bytes)

lemma u8_to_u32_be_Suc:
  "u8_to_u32_be (Suc W) bs = from_be_bytes (take 4 bs) # u8_to_u32_be W (drop 4 bs)"
  unfolding u8_to_u32_be_def by (subst map_upt_Suc) (simp add: algebra_simps)

lemma u8_to_u32_le_Suc:
  "u8_to_u32_le (Suc W) bs = from_le_bytes (take 4 bs) # u8_to_u32_le W (drop 4 bs)"
  unfolding u8_to_u32_le_def by (subst map_upt_Suc) (simp add: algebra_simps)

lemma u32_be_to_u8_inverse:
  "length bs = 4 * W \<Longrightarrow> u32_be_to_u8 (u8_to_u32_be W bs) = bs"
proof (induction W arbitrary: bs)
  case 0
  then show ?case by (simp add: u8_to_u32_be_def u32_be_to_u8_def)
next
  case (Suc W)
  then have "u32_be_to_u8 (u8_to_u32_be W (drop 4 bs)) = drop 4 bs" by simp
  with Suc.prems show ?case
    by (simp add: u8_to_u32_be_Suc u32_be_to_u8_def be_from_be_bytes)
qed

lemma u32_le_to_u8_inverse:
  "length bs = 4 * W \<Longrightarrow> u32_le_to_u8 (u8_to_u32_le W bs) = bs"
proof (induction W arbitrary: bs)
  case 0
  then show ?case by (simp add: u8_to_u32_le_def u32_le_to_u8_def)
next
  case (Suc W)
  then have "u32_le_to_u8 (u8_to_u32_le W (drop 4 bs)) = drop 4 bs" by simp
  with Suc.prems show ?case
    by (simp add: u8_to_u32_le_Suc u32_le_to_u8_def le_from_le_bytes)
qed

lemma length_u8_to_u32 [simp]: "length (u8_to_u32_be W bs) = W" "length (u8_to_u32_le W bs) = W"
  by (simp_all add: u8_to_u32_be_def u8_to_u32_le_def)

lemma u32_be_to_u8_append [simp]: "u32_be_to_u8 (xs @ ys) = u32_be_to_u8 xs @ u32_be_to_u8 ys"
  by (simp add: u32_be_to_u8_def)

lemma u32_be_to_u8_Cons [simp]: "u32_be_to_u8 (x # xs) = be32 x @ u32_be_to_u8 xs"
  by (simp add: u32_be_to_u8_def)

lemma u32_be_to_u8_Nil [simp]: "u32_be_to_u8 [] = []"
  by (simp add: u32_be_to_u8_def)

end
