(* ===== verification/EmuBus.thy ===== *)
theory EmuBus
  imports Bytes
begin

unbundle bit_operations_syntax

text \<open>
  The emulated memory of \<^verbatim>\<open>sw-emulator/lib/bus\<close>: the byte, half-word and word accesses of
  \<open>Mem\<close>, and the RAM device over it in its unaligned and aligned forms. A memory is the list
  of its bytes; an access returns the error it raises or the value, and a write the new memory.
  The lemmas show that a word access reads and writes a little-endian slice, that a read
  returns what was written, and that an access out of range faults and changes nothing.

  The second part is the view of a driver: \<open>mmio\<close> is a register access, \<open>wait_until\<close> the
  polling loop of \<^verbatim>\<open>drivers/src/wait.rs\<close> over a device that is clocked between two reads, and
  the locale \<open>timed_device\<close> is the contract under which such a loop returns: the device has
  scheduled a completion that sets the awaited flag.
\<close>

section \<open>Access sizes and errors\<close>

datatype RvSize = Byte | HalfWord | Word | Invalid

datatype MemError = ReadAddrMisaligned | ReadAccessFault | WriteAddrMisaligned | WriteAccessFault

datatype BusError =
  InstrAccessFault | LoadAddrMisaligned | LoadAccessFault | StoreAddrMisaligned | StoreAccessFault

definition BusError_from :: "MemError \<Rightarrow> BusError" where
  "BusError_from e = (case e of
     ReadAddrMisaligned \<Rightarrow> LoadAddrMisaligned | ReadAccessFault \<Rightarrow> LoadAccessFault
   | WriteAddrMisaligned \<Rightarrow> StoreAddrMisaligned | WriteAccessFault \<Rightarrow> StoreAccessFault)"

type_synonym mem = "u8 list"

section \<open>Reads\<close>

definition mem_read_byte :: "mem \<Rightarrow> nat \<Rightarrow> MemError + u32" where
  "mem_read_byte m addr = (if addr < length m then Inr (ucast (m ! addr)) else Inl ReadAccessFault)"

definition mem_read_half_word :: "mem \<Rightarrow> nat \<Rightarrow> MemError + u32" where
  "mem_read_half_word m addr =
     (if addr < length m \<and> addr + 1 < length m
      then Inr (ucast (m ! addr) OR push_bit 8 (ucast (m ! (addr + 1))))
      else Inl ReadAccessFault)"

definition mem_read_word :: "mem \<Rightarrow> nat \<Rightarrow> MemError + u32" where
  "mem_read_word m addr =
     (if addr < length m \<and> addr + 3 < length m
      then Inr (ucast (m ! addr) OR push_bit 8 (ucast (m ! (addr + 1))) OR
             push_bit 16 (ucast (m ! (addr + 2))) OR push_bit 24 (ucast (m ! (addr + 3))))
      else Inl ReadAccessFault)"

definition mem_read_aligned_half_word :: "mem \<Rightarrow> nat \<Rightarrow> MemError + u32" where
  "mem_read_aligned_half_word m addr =
     (if addr < length m
      then if addr AND 1 = 0 then mem_read_half_word m addr else Inl ReadAddrMisaligned
      else Inl ReadAccessFault)"

definition mem_read_aligned_word :: "mem \<Rightarrow> nat \<Rightarrow> MemError + u32" where
  "mem_read_aligned_word m addr =
     (if addr < length m
      then if addr AND 3 = 0 then mem_read_word m addr else Inl ReadAddrMisaligned
      else Inl ReadAccessFault)"

definition mem_read :: "mem \<Rightarrow> RvSize \<Rightarrow> u32 \<Rightarrow> MemError + u32" where
  "mem_read m sz addr = (case sz of
     Byte \<Rightarrow> mem_read_byte m (unat addr)
   | HalfWord \<Rightarrow> mem_read_half_word m (unat addr)
   | Word \<Rightarrow> mem_read_word m (unat addr)
   | Invalid \<Rightarrow> Inl ReadAccessFault)"

definition mem_read_aligned :: "mem \<Rightarrow> RvSize \<Rightarrow> u32 \<Rightarrow> MemError + u32" where
  "mem_read_aligned m sz addr = (case sz of
     Byte \<Rightarrow> mem_read_byte m (unat addr)
   | HalfWord \<Rightarrow> mem_read_aligned_half_word m (unat addr)
   | Word \<Rightarrow> mem_read_aligned_word m (unat addr)
   | Invalid \<Rightarrow> Inl ReadAccessFault)"

section \<open>Writes\<close>

definition mem_write_byte :: "mem \<Rightarrow> nat \<Rightarrow> u32 \<Rightarrow> MemError + mem" where
  "mem_write_byte m addr data =
     (if addr < length m then Inr (m[addr := ucast data]) else Inl WriteAccessFault)"

definition mem_write_half_word :: "mem \<Rightarrow> nat \<Rightarrow> u32 \<Rightarrow> MemError + mem" where
  "mem_write_half_word m addr data =
     (if addr < length m \<and> addr + 1 < length m
      then Inr (m[addr := ucast (data AND 0xff), addr + 1 := ucast (drop_bit 8 data AND 0xff)])
      else Inl WriteAccessFault)"

definition mem_write_word :: "mem \<Rightarrow> nat \<Rightarrow> u32 \<Rightarrow> MemError + mem" where
  "mem_write_word m addr data =
     (if addr < length m \<and> addr + 3 < length m
      then Inr (m[addr := ucast (data AND 0xff), addr + 1 := ucast (drop_bit 8 data AND 0xff),
             addr + 2 := ucast (drop_bit 16 data AND 0xff), addr + 3 := ucast (drop_bit 24 data AND 0xff)])
      else Inl WriteAccessFault)"

definition mem_write_aligned_half_word :: "mem \<Rightarrow> nat \<Rightarrow> u32 \<Rightarrow> MemError + mem" where
  "mem_write_aligned_half_word m addr data =
     (if addr < length m
      then if addr AND 1 = 0 then mem_write_half_word m addr data else Inl WriteAddrMisaligned
      else Inl WriteAccessFault)"

definition mem_write_aligned_word :: "mem \<Rightarrow> nat \<Rightarrow> u32 \<Rightarrow> MemError + mem" where
  "mem_write_aligned_word m addr data =
     (if addr < length m
      then if addr AND 3 = 0 then mem_write_word m addr data else Inl WriteAddrMisaligned
      else Inl WriteAccessFault)"

definition mem_write :: "mem \<Rightarrow> RvSize \<Rightarrow> u32 \<Rightarrow> u32 \<Rightarrow> MemError + mem" where
  "mem_write m sz addr val = (case sz of
     Byte \<Rightarrow> mem_write_byte m (unat addr) val
   | HalfWord \<Rightarrow> mem_write_half_word m (unat addr) val
   | Word \<Rightarrow> mem_write_word m (unat addr) val
   | Invalid \<Rightarrow> Inl WriteAccessFault)"

definition mem_write_aligned :: "mem \<Rightarrow> RvSize \<Rightarrow> u32 \<Rightarrow> u32 \<Rightarrow> MemError + mem" where
  "mem_write_aligned m sz addr val = (case sz of
     Byte \<Rightarrow> mem_write_byte m (unat addr) val
   | HalfWord \<Rightarrow> mem_write_aligned_half_word m (unat addr) val
   | Word \<Rightarrow> mem_write_aligned_word m (unat addr) val
   | Invalid \<Rightarrow> Inl WriteAccessFault)"

section \<open>RAM devices\<close>

text \<open>The access trait is a flag: \<open>AlignedRam\<close> checks alignment and \<open>Ram\<close> does not.\<close>

record RamImpl =
  ram_aligned :: bool
  error_injection :: u8
  ram_data :: mem

definition Ram_new :: "bool \<Rightarrow> u8 list \<Rightarrow> RamImpl" where
  "Ram_new aligned data = \<lparr>ram_aligned = aligned, error_injection = 0, ram_data = data\<rparr>"

definition Ram_read :: "RamImpl \<Rightarrow> RvSize \<Rightarrow> u32 \<Rightarrow> BusError + u32" where
  "Ram_read ram sz addr =
     (if error_injection ram = 2 then Inl InstrAccessFault
      else if error_injection ram = 8 then Inl LoadAccessFault
      else map_sum BusError_from id
             (if ram_aligned ram then mem_read_aligned (ram_data ram) sz addr
              else mem_read (ram_data ram) sz addr))"

definition Ram_write :: "RamImpl \<Rightarrow> RvSize \<Rightarrow> u32 \<Rightarrow> u32 \<Rightarrow> BusError + RamImpl" where
  "Ram_write ram sz addr val =
     map_sum BusError_from (\<lambda>m. ram\<lparr>ram_data := m\<rparr>)
       (if ram_aligned ram then mem_write_aligned (ram_data ram) sz addr val
        else mem_write (ram_data ram) sz addr val)"

section \<open>Words are little-endian slices\<close>

lemma and_1_eq_0: "addr AND 1 = 0 \<longleftrightarrow> 2 dvd addr" for addr :: nat
  by (simp add: and_one_eq even_iff_mod_2_eq_zero)

lemma and_3_eq_0: "addr AND 3 = 0 \<longleftrightarrow> 4 dvd addr" for addr :: nat
  using take_bit_eq_mask [of 2 addr] by (simp add: mask_eq_exp_minus_1 take_bit_eq_mod mod_eq_0_iff_dvd [symmetric])

lemma take4_drop:
  "addr + 3 < length m \<Longrightarrow> take 4 (drop addr m) = [m ! addr, m ! (addr + 1), m ! (addr + 2), m ! (addr + 3)]"
  by (rule nth_equalityI) (auto simp: less_Suc_eq numeral_eq_Suc)

lemma from_le_bytes_4:
  "from_le_bytes [a, b, c, d] =
     (ucast a OR push_bit 8 (ucast b) OR push_bit 16 (ucast c) OR push_bit 24 (ucast d) :: u32)"
  by (simp add: from_le_bytes_def push_bit_or)

lemma mem_read_word_slice:
  "addr + 4 \<le> length m \<Longrightarrow> mem_read_word m addr = Inr (from_le_bytes (take 4 (drop addr m)))"
  by (simp add: mem_read_word_def take4_drop from_le_bytes_4)

lemma le32_unfold:
  "le32 w = [ucast w, ucast (drop_bit 8 w), ucast (drop_bit 16 w), ucast (drop_bit 24 w)]"
  by (simp add: le_bytes_def upt_rec)

lemma ucast_and_ff: "ucast (w AND 0xff) = (ucast w :: u8)" for w :: u32
proof -
  have "w AND 0xff = take_bit 8 w" by (simp add: take_bit_eq_mask mask_eq_exp_minus_1)
  then show ?thesis by (auto intro!: bit_word_eqI simp: bit_simps)
qed

lemma mem_write_word_slice:
  "addr + 4 \<le> length m \<Longrightarrow>
     mem_write_word m addr w = Inr (take addr m @ le32 w @ drop (addr + 4) m)"
  by (simp add: mem_write_word_def le32_unfold ucast_and_ff list_eq_iff_nth_eq)
    (auto simp: nth_append nth_list_update nth_Cons' )

text \<open>Alignment and range are the only ways an access fails.\<close>

lemma Ram_read_word:
  assumes "error_injection ram = 0" "4 dvd unat addr" "unat addr + 4 \<le> length (ram_data ram)"
  shows "Ram_read ram Word addr = Inr (from_le_bytes (take 4 (drop (unat addr) (ram_data ram))))"
  using assms
  by (simp add: Ram_read_def mem_read_aligned_def mem_read_def mem_read_aligned_word_def and_3_eq_0
      mem_read_word_slice)

lemma Ram_write_word:
  assumes "4 dvd unat addr" "unat addr + 4 \<le> length (ram_data ram)"
  shows "Ram_write ram Word addr val =
    Inr (ram\<lparr>ram_data := take (unat addr) (ram_data ram) @ le32 val @ drop (unat addr + 4) (ram_data ram)\<rparr>)"
  using assms
  by (simp add: Ram_write_def mem_write_aligned_def mem_write_def mem_write_aligned_word_def and_3_eq_0
      mem_write_word_slice)

lemma Ram_write_keeps:
  "Ram_write ram sz addr val = Inr ram' \<Longrightarrow>
     length (ram_data ram') = length (ram_data ram) \<and> ram_aligned ram' = ram_aligned ram \<and>
     error_injection ram' = error_injection ram"
  by (cases sz)
    (auto simp: Ram_write_def mem_write_aligned_def mem_write_def mem_write_byte_def
      mem_write_half_word_def mem_write_word_def mem_write_aligned_half_word_def
      mem_write_aligned_word_def split: if_splits)

lemma Ram_read_write_word:
  assumes "error_injection ram = 0" "4 dvd unat addr" "unat addr + 4 \<le> length (ram_data ram)"
    and "Ram_write ram Word addr val = Inr ram'"
  shows "Ram_read ram' Word addr = Inr val"
proof -
  have d: "ram_data ram' = take (unat addr) (ram_data ram) @ le32 val @ drop (unat addr + 4) (ram_data ram)"
    using assms by (auto simp: Ram_write_word)
  have "take 4 (drop (unat addr) (ram_data ram')) = le32 val"
    unfolding d using assms(3) by simp
  moreover have "Ram_read ram' Word addr = Inr (from_le_bytes (take 4 (drop (unat addr) (ram_data ram'))))"
    using assms Ram_write_keeps [OF assms(4)] by (intro Ram_read_word) auto
  ultimately show ?thesis by (simp add: from_le_le_bytes)
qed

section \<open>Register accesses of a driver\<close>

text \<open>
  A register callback ends in a bus error or a value; a bus error is a trap and the access never
  returns to the driver.
\<close>

type_synonym ('s, 'a) bus_io = "('s, BusError + 'a) action"

definition bus_fault :: "BusError \<Rightarrow> ('s, 'a) bus_io" where
  "bus_fault e = ret (Inl e)"

definition mmio :: "('s, 'a) bus_io \<Rightarrow> ('s, 'a) action" where
  "mmio m r = (case m r of
     (Ok (Inr x), t) \<Rightarrow> (Ok x, t)
   | (_, t) \<Rightarrow> (RustPanic, t))"

lemma bus_fault_apply [simp]: "bus_fault e s = (Ok (Inl e), s)"
  by (simp add: bus_fault_def)

lemma mmio_Inr [simp]: "m r = (Ok (Inr x), t) \<Longrightarrow> mmio m r = (Ok x, t)"
  by (simp add: mmio_def)

lemma bindE_mmio: "m r = (Ok (Inr x), t) \<Longrightarrow> bindE (mmio m) f r = f x t"
  by (simp add: bindE_def)

section \<open>Waiting for a device\<close>

partial_function (option) wait_until :: "('s \<Rightarrow> bool) \<Rightarrow> ('s \<Rightarrow> 's) \<Rightarrow> 's \<Rightarrow> 's option" where
  "wait_until predicate tick s =
     (if predicate s then Some s else wait_until predicate tick (tick s))"

declare wait_until.simps [code]

definition wait_for :: "('s \<Rightarrow> bool) \<Rightarrow> ('s \<Rightarrow> 's) \<Rightarrow> ('s, unit) action" where
  "wait_for predicate tick s =
     (case wait_until predicate tick s of Some t \<Rightarrow> (Ok (), t) | None \<Rightarrow> (RustPanic, s))"

lemma wait_for_now: "predicate s \<Longrightarrow> wait_for predicate tick s = (Ok (), s)"
  by (simp add: wait_for_def wait_until.simps)

locale timed_device =
  fixes pending :: "'s \<Rightarrow> nat option" and countdown :: "'s \<Rightarrow> nat \<Rightarrow> 's"
    and complete :: "'s \<Rightarrow> 's" and tick :: "'s \<Rightarrow> 's" and flag :: "'s \<Rightarrow> bool"
  assumes tick_fires: "pending s = Some n \<Longrightarrow> n \<le> 1 \<Longrightarrow> tick s = complete s"
    and tick_counts: "pending s = Some (Suc (Suc n)) \<Longrightarrow> tick s = countdown s (Suc n)"
    and pending_countdown: "pending s = Some m \<Longrightarrow> pending (countdown s n) = Some n"
    and complete_countdown: "pending s = Some m \<Longrightarrow> complete (countdown s n) = complete s"
    and flag_countdown: "flag (countdown s n) = flag s"
    and flag_complete: "pending s = Some m \<Longrightarrow> flag (complete s)"
begin

lemma wait_until_completes:
  "pending s = Some (Suc n) \<Longrightarrow> \<not> flag s \<Longrightarrow> wait_until flag tick s = Some (complete s)"
proof (induction n arbitrary: s)
  case 0
  then show ?case using tick_fires [of s 1] flag_complete by (simp add: wait_until.simps)
next
  case (Suc n)
  then have "wait_until flag tick (countdown s (Suc n)) = Some (complete s)"
    by (simp add: pending_countdown flag_countdown complete_countdown)
  then show ?case using Suc.prems by (subst wait_until.simps) (simp add: tick_counts)
qed

lemma wait_completes:
  "pending s = Some n \<Longrightarrow> 0 < n \<Longrightarrow> \<not> flag s \<Longrightarrow> wait_for flag tick s = (Ok (), complete s)"
  by (cases n) (simp_all add: wait_for_def wait_until_completes)

end

section \<open>What a RAM device guarantees\<close>

lemma word_slots_disjoint:
  "4 dvd a \<Longrightarrow> 4 dvd b \<Longrightarrow> a \<noteq> b \<Longrightarrow> a + 4 \<le> b \<or> b + 4 \<le> (a::nat)"
  by (elim dvdE) auto

lemma take_drop_splice_other:
  fixes m ws :: "'a list"
  assumes "length ws = 4" "a + 4 \<le> length m" "b + 4 \<le> a \<or> a + 4 \<le> b"
  shows "take 4 (drop b (take a m @ ws @ drop (a + 4) m)) = take 4 (drop b m)"
  using assms by (auto simp: drop_take min_def)

text \<open>A word written to a RAM device is read back, and no other word changes: after a successful
  write, a read at any aligned address yields the value written there, or what was there before the
  write.\<close>

theorem ram_read_after_write:
  assumes ram: "error_injection ram = 0" and a: "4 dvd unat addr" "unat addr + 4 \<le> length (ram_data ram)"
    and b: "4 dvd unat addr'" "unat addr' + 4 \<le> length (ram_data ram)"
  shows "\<exists>ram'. Ram_write ram Word addr val = Inr ram' \<and>
    Ram_read ram' Word addr' = (if addr' = addr then Inr val else Ram_read ram Word addr')"
proof (cases "addr' = addr")
  case True
  then show ?thesis using Ram_write_word [OF a] Ram_read_write_word [OF ram a] by auto
next
  case False
  then have "unat addr + 4 \<le> unat addr' \<or> unat addr' + 4 \<le> unat addr"
    using word_slots_disjoint [OF a(1) b(1)] by (simp add: word_unat_eq_iff)
  moreover define ram' where
    "ram' = ram\<lparr>ram_data := take (unat addr) (ram_data ram) @ le32 val @ drop (unat addr + 4) (ram_data ram)\<rparr>"
  ultimately have "take 4 (drop (unat addr') (ram_data ram')) = take 4 (drop (unat addr') (ram_data ram))"
    using take_drop_splice_other [of "le32 val" "unat addr" "ram_data ram" "unat addr'"] a(2)
    by (simp add: ram'_def disj_commute)
  then have "Ram_read ram' Word addr' = Ram_read ram Word addr'"
    using Ram_read_word [OF _ b(1), of ram] Ram_read_word [OF _ b(1), of ram'] ram a(2) b(2) by (simp add: ram'_def)
  then show ?thesis using Ram_write_word [OF a] False by (simp add: ram'_def)
qed

theorem ram_read_after_write_witness:
  "\<exists>ram'. Ram_write (Ram_new True (replicate 16 0)) Word 4 0xAABBCCDD = Inr ram' \<and>
     Ram_read ram' Word 4 = Inr 0xAABBCCDD"
  using ram_read_after_write [of "Ram_new True (replicate 16 0)" 4 4 "0xAABBCCDD"] by (simp add: Ram_new_def)

end
