(* ===== verification/KeyVault.thy ===== *)
theory KeyVault
  imports Bytes EmuBus
begin

unbundle bit_operations_syntax

text \<open>
  The key vault, PCR vault and data vault of the emulator,
  \<^verbatim>\<open>sw-emulator/lib/periph/src/key_vault.rs\<close>: control registers with sticky locks, the internal
  interface of the crypto engines, and the resets. The lemmas show what a lock protects, and for
  how long.
\<close>

section \<open>Register fields\<close>

text \<open>\<^verbatim>\<open>register_bitfields!\<close>: a field of \<open>n\<close> bits at bit \<open>off\<close>, its \<^verbatim>\<open>read\<close> and \<^verbatim>\<open>modify\<close>.\<close>

definition field_read :: "nat \<Rightarrow> nat \<Rightarrow> u32 \<Rightarrow> u32" where
  "field_read off n reg = take_bit n (drop_bit off reg)"

definition field_modify :: "nat \<Rightarrow> nat \<Rightarrow> u32 \<Rightarrow> u32 \<Rightarrow> u32" where
  "field_modify off n v reg = (reg AND NOT (push_bit off (mask n))) OR push_bit off (take_bit n v)"

lemma bit_field_modify:
  "bit (field_modify off n v reg) i \<longleftrightarrow> i < 32 \<and>
     (if off \<le> i \<and> i < off + n then bit v (i - off) else bit reg i)"
  by (auto simp: field_modify_def bit_simps dest: bit_imp_le_length)

lemma bit_field_read: "bit (field_read off n reg) i \<longleftrightarrow> i < n \<and> bit reg (off + i)"
  by (simp add: field_read_def bit_simps)

lemma field_read_bit: "field_read off (Suc 0) reg = 0 \<longleftrightarrow> \<not> bit reg off"
  by (simp add: field_read_def take_bit_eq_mod mod_2_eq_odd bit_iff_odd_drop_bit)

abbreviation LOCK_read :: "u32 \<Rightarrow> u32" where "LOCK_read \<equiv> field_read 0 1"

text \<open>Setting a sticky lock bit: the old bit or the written one.\<close>

definition lock_modify :: "nat \<Rightarrow> u32 \<Rightarrow> u32 \<Rightarrow> u32" where
  "lock_modify off val reg = field_modify off 1 (field_read off 1 reg OR field_read off 1 val) reg"

lemma bit_lock_modify:
  "bit (lock_modify off val reg) i \<longleftrightarrow> bit reg i \<or> (i = off \<and> bit val off)"
  by (cases "i = off") (auto simp: lock_modify_def bit_field_modify bit_field_read bit_simps dest: bit_imp_le_length)

section \<open>The vault\<close>

abbreviation (input) KEY_COUNT :: nat where "KEY_COUNT \<equiv> 24"
abbreviation (input) KEY_SIZE :: nat where "KEY_SIZE \<equiv> 64"
abbreviation (input) KEY_REG_SIZE :: nat where "KEY_REG_SIZE \<equiv> 0x800"
abbreviation (input) PCR_COUNT :: nat where "PCR_COUNT \<equiv> 32"
abbreviation (input) PCR_SIZE_WORDS :: nat where "PCR_SIZE_WORDS \<equiv> 12"
abbreviation (input) ENTRY_SIZE_WORDS :: nat where "ENTRY_SIZE_WORDS \<equiv> 12"

record KeyVaultRegs =
  key_control :: "u32 list"
  keys :: "u8 list"
  pcr_control :: "u32 list"
  pcrs :: "u32 list"
  sticky_datavault_control :: "u32 list"
  sticky_datavault_entry :: "u32 list"
  datavault_control :: "u32 list"
  datavault_entry :: "u32 list"
  lockable_scratch_control :: "u32 list"
  lockable_scratch :: "u32 list"
  nonsticky_generic_scratch :: "u32 list"
  sticky_lockable_scratch_control :: "u32 list"
  sticky_lockable_scratch :: "u32 list"

definition KeyVaultRegs_new :: KeyVaultRegs where
  "KeyVaultRegs_new = \<lparr>key_control = replicate KEY_COUNT 0, keys = replicate KEY_REG_SIZE 0,
     pcr_control = replicate PCR_COUNT 0, pcrs = replicate (PCR_COUNT * PCR_SIZE_WORDS) 0,
     sticky_datavault_control = replicate 10 0, sticky_datavault_entry = replicate 120 0,
     datavault_control = replicate 10 0, datavault_entry = replicate 120 0,
     lockable_scratch_control = replicate 10 0, lockable_scratch = replicate 10 0,
     nonsticky_generic_scratch = replicate 8 0,
     sticky_lockable_scratch_control = replicate 8 0, sticky_lockable_scratch = replicate 8 0\<rparr>"

type_synonym 'a kv_io = "(KeyVaultRegs, 'a) bus_io"

text \<open>An index beyond an array is a panic.\<close>

definition in_range :: "bool \<Rightarrow> ('s, 'a) action \<Rightarrow> ('s, 'a) action" where
  "in_range b m = (if b then m else liftO RustPanic)"

text \<open>\<^verbatim>\<open>copy_from_slice\<close> into the slice that starts at \<open>off\<close>.\<close>

definition splice :: "nat \<Rightarrow> 'a list \<Rightarrow> 'a list \<Rightarrow> 'a list" where
  "splice off new xs = take off xs @ new @ drop (off + length new) xs"

definition unlock_vault_registers :: "KeyVaultRegs \<Rightarrow> KeyVaultRegs" where
  "unlock_vault_registers r = r\<lparr>
     pcr_control := map (field_modify 0 1 0) (pcr_control r),
     key_control := map (field_modify 1 1 0 \<circ> field_modify 0 1 0) (key_control r),
     datavault_control := map (field_modify 0 1 0) (datavault_control r),
     lockable_scratch_control := map (field_modify 0 1 0) (lockable_scratch_control r)\<rparr>"

definition kv_warm_reset :: "KeyVaultRegs \<Rightarrow> KeyVaultRegs" where
  "kv_warm_reset r = unlock_vault_registers r"

definition kv_update_reset :: "KeyVaultRegs \<Rightarrow> KeyVaultRegs" where
  "kv_update_reset r = unlock_vault_registers r"

section \<open>PCRs and keys\<close>

definition write_pcr_ctrl :: "nat \<Rightarrow> u32 \<Rightarrow> unit kv_io" where
  "write_pcr_ctrl index val r =
     in_range (index < length (pcr_control r)) (\<lambda>r.
       let ctrl = lock_modify 0 val (pcr_control r ! index);
           r = r\<lparr>pcr_control := (pcr_control r)[index := ctrl]\<rparr>
       in (Ok (Inr ()),
           if LOCK_read ctrl = 0 \<and> bit val 1
           then r\<lparr>pcrs := splice (index * PCR_SIZE_WORDS) (replicate PCR_SIZE_WORDS 0) (pcrs r)\<rparr> else r)) r"

definition write_key_ctrl :: "nat \<Rightarrow> u32 \<Rightarrow> unit kv_io" where
  "write_key_ctrl index val r =
     in_range (index < length (key_control r)) (\<lambda>r.
       let ctrl = lock_modify 1 val (lock_modify 0 val (key_control r ! index));
           r = r\<lparr>key_control := (key_control r)[index := ctrl]\<rparr>
       in (Ok (Inr ()),
           if LOCK_read ctrl = 0 \<and> bit val 2
           then r\<lparr>keys := splice (index * KEY_SIZE) (replicate KEY_SIZE 0) (keys r)\<rparr> else r)) r"

abbreviation kv_usage :: "u32 \<Rightarrow> u32" where "kv_usage \<equiv> field_read 9 8"

definition read_key :: "nat \<Rightarrow> u32 \<Rightarrow> u8 list kv_io" where
  "read_key key_id desired_usage r =
     in_range (key_id < length (key_control r)) (\<lambda>r.
       let ctrl = key_control r ! key_id
       in if field_read 1 1 ctrl \<noteq> 0 \<or> kv_usage ctrl AND desired_usage = 0
          then bus_fault LoadAccessFault r
          else (Ok (Inr (take KEY_SIZE (drop (key_id * KEY_SIZE) (keys r)))), r)) r"

definition read_key_locked :: "nat \<Rightarrow> u32 \<Rightarrow> u8 list kv_io" where
  "read_key_locked key_id desired_usage r =
     in_range (key_id < length (key_control r)) (\<lambda>r.
       let ctrl = key_control r ! key_id
       in if kv_usage ctrl AND desired_usage = 0
          then bus_fault LoadAccessFault r
          else (Ok (Inr (take KEY_SIZE (drop (key_id * KEY_SIZE) (keys r)))), r)) r"

definition read_key_as_data :: "nat \<Rightarrow> u32 \<Rightarrow> u8 list kv_io" where
  "read_key_as_data key_id desired_usage =
     bindE (read_key key_id desired_usage) (\<lambda>res.
       case res of Inl e \<Rightarrow> bus_fault e
       | Inr key \<Rightarrow> (\<lambda>r. let n = (unat (field_read 17 4 (key_control r ! key_id)) + 1) * 4
           in (Ok (Inr (take n key @ replicate (n - length key) 0)), r)))"

definition write_key :: "nat \<Rightarrow> u8 list \<Rightarrow> u32 \<Rightarrow> unit kv_io" where
  "write_key key_id key key_usage r =
     (if length key > KEY_SIZE \<or> length key mod 4 \<noteq> 0 then bus_fault StoreAccessFault r
      else in_range (key_id < length (key_control r)) (\<lambda>r.
        let ctrl = key_control r ! key_id
        in if LOCK_read ctrl \<noteq> 0 \<or> field_read 1 1 ctrl \<noteq> 0 then bus_fault StoreAccessFault r
           else (Ok (Inr ()), r\<lparr>
             keys := splice (key_id * KEY_SIZE) key (keys r),
             key_control := (key_control r)[key_id :=
               field_modify 17 4 (of_nat (length key div 4) - 1) (field_modify 9 8 key_usage ctrl)]\<rparr>)) r)"

definition clear_with_debug_values :: "bool \<Rightarrow> KeyVaultRegs \<Rightarrow> KeyVaultRegs" where
  "clear_with_debug_values sel_debug_value r =
     r\<lparr>keys := replicate (length (keys r)) (if sel_debug_value then 0x55 else 0xaa)\<rparr>"

definition read_pcr :: "nat \<Rightarrow> u8 list kv_io" where
  "read_pcr pcr_id r =
     in_range (pcr_id * PCR_SIZE_WORDS + PCR_SIZE_WORDS \<le> length (pcrs r)) (\<lambda>r.
       (Ok (Inr (u32_le_to_u8 (take PCR_SIZE_WORDS (drop (pcr_id * PCR_SIZE_WORDS) (pcrs r))))), r)) r"

definition write_pcr :: "nat \<Rightarrow> u8 list \<Rightarrow> unit kv_io" where
  "write_pcr pcr_id pcr r =
     in_range (pcr_id * PCR_SIZE_WORDS + PCR_SIZE_WORDS \<le> length (pcrs r)) (\<lambda>r.
       (Ok (Inr ()), r\<lparr>pcrs := splice (pcr_id * PCR_SIZE_WORDS) (u8_to_u32_le PCR_SIZE_WORDS pcr) (pcrs r)\<rparr>)) r"

section \<open>Lockable entries\<close>

definition write_sticky_datavault_ctrl :: "nat \<Rightarrow> u32 \<Rightarrow> unit kv_io" where
  "write_sticky_datavault_ctrl index val r =
     in_range (index < length (sticky_datavault_control r)) (\<lambda>r.
       (Ok (Inr ()), r\<lparr>sticky_datavault_control := (sticky_datavault_control r)
          [index := lock_modify 0 val (sticky_datavault_control r ! index)]\<rparr>)) r"

definition write_sticky_datavault_entry :: "nat \<Rightarrow> u32 \<Rightarrow> unit kv_io" where
  "write_sticky_datavault_entry word_index val r =
     in_range (word_index div ENTRY_SIZE_WORDS < length (sticky_datavault_control r)) (\<lambda>r.
       if LOCK_read (sticky_datavault_control r ! (word_index div ENTRY_SIZE_WORDS)) \<noteq> 0
       then bus_fault StoreAccessFault r
       else in_range (word_index < length (sticky_datavault_entry r)) (\<lambda>r.
         (Ok (Inr ()), r\<lparr>sticky_datavault_entry := (sticky_datavault_entry r)[word_index := val]\<rparr>)) r) r"

definition write_nonsticky_datavault_ctrl :: "nat \<Rightarrow> u32 \<Rightarrow> unit kv_io" where
  "write_nonsticky_datavault_ctrl index val r =
     in_range (index < length (datavault_control r)) (\<lambda>r.
       (Ok (Inr ()), r\<lparr>datavault_control := (datavault_control r)
          [index := lock_modify 0 val (datavault_control r ! index)]\<rparr>)) r"

definition write_nonsticky_datavault_entry :: "nat \<Rightarrow> u32 \<Rightarrow> unit kv_io" where
  "write_nonsticky_datavault_entry word_index val r =
     in_range (word_index div ENTRY_SIZE_WORDS < length (datavault_control r)) (\<lambda>r.
       if LOCK_read (datavault_control r ! (word_index div ENTRY_SIZE_WORDS)) \<noteq> 0
       then bus_fault StoreAccessFault r
       else in_range (word_index < length (datavault_entry r)) (\<lambda>r.
         (Ok (Inr ()), r\<lparr>datavault_entry := (datavault_entry r)[word_index := val]\<rparr>)) r) r"

definition write_nonsticky_lockable_scratch_ctrl :: "nat \<Rightarrow> u32 \<Rightarrow> unit kv_io" where
  "write_nonsticky_lockable_scratch_ctrl index val r =
     in_range (index < length (lockable_scratch_control r)) (\<lambda>r.
       (Ok (Inr ()), r\<lparr>lockable_scratch_control := (lockable_scratch_control r)
          [index := lock_modify 0 val (lockable_scratch_control r ! index)]\<rparr>)) r"

definition write_nonsticky_lockable_scratch :: "nat \<Rightarrow> u32 \<Rightarrow> unit kv_io" where
  "write_nonsticky_lockable_scratch word_index val r =
     in_range (word_index < length (lockable_scratch_control r)) (\<lambda>r.
       if LOCK_read (lockable_scratch_control r ! word_index) \<noteq> 0
       then bus_fault StoreAccessFault r
       else in_range (word_index < length (lockable_scratch r)) (\<lambda>r.
         (Ok (Inr ()), r\<lparr>lockable_scratch := (lockable_scratch r)[word_index := val]\<rparr>)) r) r"

definition write_sticky_lockable_scratch_ctrl :: "nat \<Rightarrow> u32 \<Rightarrow> unit kv_io" where
  "write_sticky_lockable_scratch_ctrl index val r =
     in_range (index < length (sticky_lockable_scratch_control r)) (\<lambda>r.
       (Ok (Inr ()), r\<lparr>sticky_lockable_scratch_control := (sticky_lockable_scratch_control r)
          [index := lock_modify 0 val (sticky_lockable_scratch_control r ! index)]\<rparr>)) r"

definition write_sticky_lockable_scratch :: "nat \<Rightarrow> u32 \<Rightarrow> unit kv_io" where
  "write_sticky_lockable_scratch word_index val r =
     in_range (word_index < length (sticky_lockable_scratch_control r)) (\<lambda>r.
       if LOCK_read (sticky_lockable_scratch_control r ! word_index) \<noteq> 0
       then bus_fault StoreAccessFault r
       else in_range (word_index < length (sticky_lockable_scratch r)) (\<lambda>r.
         (Ok (Inr ()), r\<lparr>sticky_lockable_scratch := (sticky_lockable_scratch r)[word_index := val]\<rparr>)) r) r"

text \<open>The arrays with no callback take every write.\<close>

definition write_nonsticky_generic_scratch :: "nat \<Rightarrow> u32 \<Rightarrow> unit kv_io" where
  "write_nonsticky_generic_scratch word_index val r =
     in_range (word_index < length (nonsticky_generic_scratch r)) (\<lambda>r.
       (Ok (Inr ()), r\<lparr>nonsticky_generic_scratch := (nonsticky_generic_scratch r)[word_index := val]\<rparr>)) r"

definition write_pcr_reg :: "nat \<Rightarrow> u32 \<Rightarrow> unit kv_io" where
  "write_pcr_reg word_index val r =
     in_range (word_index < length (pcrs r)) (\<lambda>r.
       (Ok (Inr ()), r\<lparr>pcrs := (pcrs r)[word_index := val]\<rparr>)) r"

section \<open>Runs of the vault\<close>

text \<open>
  The accesses: register writes of the processor and the internal interface of the engines. A
  faulting access leaves the vault as it is; one that panics has no successor. A step is an
  access, a reset, or the overwriting of all keys with debug values.
\<close>

inductive kv_access :: "KeyVaultRegs \<Rightarrow> KeyVaultRegs \<Rightarrow> bool" where
  pcr_ctrl: "write_pcr_ctrl i v r = (Ok x, t) \<Longrightarrow> kv_access r t"
| key_ctrl: "write_key_ctrl i v r = (Ok x, t) \<Longrightarrow> kv_access r t"
| key_write: "write_key k key u r = (Ok x, t) \<Longrightarrow> kv_access r t"
| pcr_write: "write_pcr k pcr r = (Ok x, t) \<Longrightarrow> kv_access r t"
| sticky_dv_ctrl: "write_sticky_datavault_ctrl i v r = (Ok x, t) \<Longrightarrow> kv_access r t"
| sticky_dv_entry: "write_sticky_datavault_entry i v r = (Ok x, t) \<Longrightarrow> kv_access r t"
| dv_ctrl: "write_nonsticky_datavault_ctrl i v r = (Ok x, t) \<Longrightarrow> kv_access r t"
| dv_entry: "write_nonsticky_datavault_entry i v r = (Ok x, t) \<Longrightarrow> kv_access r t"
| scratch_ctrl: "write_nonsticky_lockable_scratch_ctrl i v r = (Ok x, t) \<Longrightarrow> kv_access r t"
| scratch: "write_nonsticky_lockable_scratch i v r = (Ok x, t) \<Longrightarrow> kv_access r t"
| sticky_scratch_ctrl: "write_sticky_lockable_scratch_ctrl i v r = (Ok x, t) \<Longrightarrow> kv_access r t"
| sticky_scratch: "write_sticky_lockable_scratch i v r = (Ok x, t) \<Longrightarrow> kv_access r t"
| generic_scratch: "write_nonsticky_generic_scratch i v r = (Ok x, t) \<Longrightarrow> kv_access r t"
| pcr_reg: "write_pcr_reg i v r = (Ok x, t) \<Longrightarrow> kv_access r t"

inductive kv_step :: "KeyVaultRegs \<Rightarrow> KeyVaultRegs \<Rightarrow> bool" where
  access: "kv_access r t \<Longrightarrow> kv_step r t"
| warm: "kv_step r (kv_warm_reset r)"
| update: "kv_step r (kv_update_reset r)"
| debug_values: "kv_step r (clear_with_debug_values b r)"

lemmas kv_ops = write_pcr_ctrl_def write_key_ctrl_def write_key_def write_pcr_def
  write_sticky_datavault_ctrl_def write_sticky_datavault_entry_def write_nonsticky_datavault_ctrl_def
  write_nonsticky_datavault_entry_def write_nonsticky_lockable_scratch_ctrl_def
  write_nonsticky_lockable_scratch_def write_sticky_lockable_scratch_ctrl_def
  write_sticky_lockable_scratch_def write_nonsticky_generic_scratch_def write_pcr_reg_def
  clear_with_debug_values_def

lemmas kv_access_simps = kv_ops in_range_def Let_def field_read_bit

text \<open>
  A store whose entries are protected by lock bits, \<open>per\<close> words to an entry: no step clears a
  lock bit or changes a word of a locked entry.
\<close>

locale lockable_store =
  fixes control :: "'s \<Rightarrow> u32 list" and entry :: "'s \<Rightarrow> 'e list" and per :: nat
    and step :: "'s \<Rightarrow> 's \<Rightarrow> bool"
  assumes step_lock: "step r t \<Longrightarrow> k < length (control r) \<Longrightarrow> bit (control r ! k) 0 \<Longrightarrow>
      k < length (control t) \<and> bit (control t ! k) 0"
    and step_entry: "step r t \<Longrightarrow> i div per < length (control r) \<Longrightarrow> bit (control r ! (i div per)) 0 \<Longrightarrow>
      entry t ! i = entry r ! i"
begin

lemma locked_keeps:
  assumes "step\<^sup>*\<^sup>* r t" "i div per < length (control r)" "bit (control r ! (i div per)) 0"
  shows "i div per < length (control t) \<and> bit (control t ! (i div per)) 0 \<and> entry t ! i = entry r ! i"
  using assms
  by (induction rule: rtranclp_induct) (use step_lock step_entry in fastforce)+

end

interpretation dv_store: lockable_store datavault_control datavault_entry ENTRY_SIZE_WORDS kv_access
  by unfold_locales
    (erule kv_access.cases; auto simp: kv_access_simps nth_list_update bit_lock_modify split: if_splits)+

interpretation scratch_store: lockable_store lockable_scratch_control lockable_scratch 1 kv_access
  by unfold_locales
    (erule kv_access.cases; auto simp: kv_access_simps nth_list_update bit_lock_modify split: if_splits)+

interpretation sticky_dv_store: lockable_store sticky_datavault_control sticky_datavault_entry ENTRY_SIZE_WORDS kv_step
  by unfold_locales
    (erule kv_step.cases; (erule kv_access.cases)?;
      auto simp: kv_access_simps kv_warm_reset_def kv_update_reset_def unlock_vault_registers_def
        nth_list_update bit_lock_modify split: if_splits)+

interpretation sticky_scratch_store: lockable_store sticky_lockable_scratch_control sticky_lockable_scratch 1 kv_step
  by unfold_locales
    (erule kv_step.cases; (erule kv_access.cases)?;
      auto simp: kv_access_simps kv_warm_reset_def kv_update_reset_def unlock_vault_registers_def
        nth_list_update bit_lock_modify split: if_splits)+

section \<open>Keys\<close>

text \<open>The shape of the vault: every access and every reset keeps it.\<close>

definition kv_wf :: "KeyVaultRegs \<Rightarrow> bool" where
  "kv_wf r \<longleftrightarrow> length (key_control r) = KEY_COUNT \<and> length (keys r) = KEY_REG_SIZE \<and>
     length (pcr_control r) = PCR_COUNT \<and> length (pcrs r) = PCR_COUNT * PCR_SIZE_WORDS \<and>
     length (sticky_datavault_control r) = 10 \<and> length (sticky_datavault_entry r) = 120 \<and>
     length (datavault_control r) = 10 \<and> length (datavault_entry r) = 120 \<and>
     length (lockable_scratch_control r) = 10 \<and> length (lockable_scratch r) = 10 \<and>
     length (nonsticky_generic_scratch r) = 8 \<and>
     length (sticky_lockable_scratch_control r) = 8 \<and> length (sticky_lockable_scratch r) = 8"

lemma kv_wf_new: "kv_wf KeyVaultRegs_new"
  by (simp add: kv_wf_def KeyVaultRegs_new_def)

lemma length_splice [simp]: "off + length new \<le> length xs \<Longrightarrow> length (splice off new xs) = length xs"
  by (simp add: splice_def)

lemma kv_access_wf: "kv_access r t \<Longrightarrow> kv_wf r \<Longrightarrow> kv_wf t"
  by (erule kv_access.cases; auto simp: kv_access_simps kv_wf_def split: if_splits)

lemma kv_step_wf:
  assumes "kv_step r t" "kv_wf r"
  shows "kv_wf t"
  using assms(1)
proof cases
  case access
  then show ?thesis using assms(2) by (rule kv_access_wf)
qed (use assms(2) in \<open>auto simp: kv_warm_reset_def kv_update_reset_def unlock_vault_registers_def
    clear_with_debug_values_def kv_wf_def\<close>)

lemma nth_splice_outside:
  "i < off \<or> off + length new \<le> i \<Longrightarrow> off + length new \<le> length xs \<Longrightarrow> i < length xs \<Longrightarrow> splice off new xs ! i = xs ! i"
  by (auto simp: splice_def nth_append)

lemma slots_disjoint:
  assumes "(j::nat) \<noteq> k" "i div n = k" "0 < n" "m \<le> n"
  shows "i < j * n \<or> j * n + m \<le> i"
proof (cases "k < j")
  case True
  then have "Suc (i div n) * n \<le> j * n" using assms(2) by (intro mult_le_mono1) simp
  moreover have "i < Suc (i div n) * n" using dividend_less_div_times [OF assms(3), of i] by simp
  ultimately show ?thesis by linarith
next
  case False
  then have "Suc j * n \<le> k * n" using assms(1) by (intro mult_le_mono1) simp
  moreover have "k * n \<le> i" using assms(2) by (simp flip: assms(2))
  ultimately show ?thesis using assms(4) by simp
qed

lemma splice_other_key:
  assumes "j \<noteq> k" "i div KEY_SIZE = k" "j < KEY_COUNT" "k < KEY_COUNT" "length new \<le> KEY_SIZE" "length xs = KEY_REG_SIZE"
  shows "splice (j * KEY_SIZE) new xs ! i = xs ! i"
proof (rule nth_splice_outside)
  show "i < j * KEY_SIZE \<or> j * KEY_SIZE + length new \<le> i" using slots_disjoint [OF assms(1,2) _ assms(5)] by simp
  show "j * KEY_SIZE + length new \<le> length xs" using assms(3,5,6) by simp
  show "i < length xs" using assms(2,4,6) div_less_iff_less_mult [of 64 i 24] by simp
qed

lemma write_key_ctrl_keeps:
  assumes "write_key_ctrl j v r = (Ok x, t)" "kv_wf r" "bit (key_control r ! k) 0" "k < KEY_COUNT"
  shows "bit (key_control t ! k) 0" "i div KEY_SIZE = k \<Longrightarrow> keys t ! i = keys r ! i"
proof -
  show "bit (key_control t ! k) 0"
    using assms by (auto simp: kv_access_simps kv_wf_def nth_list_update bit_lock_modify split: if_splits)
  have "keys t = keys r \<or> j \<noteq> k \<and> j < KEY_COUNT \<and> keys t = splice (j * KEY_SIZE) (replicate KEY_SIZE 0) (keys r)"
    using assms by (auto simp: kv_access_simps kv_wf_def bit_lock_modify split: if_splits)
  then show "i div KEY_SIZE = k \<Longrightarrow> keys t ! i = keys r ! i"
    using splice_other_key [of j k i "replicate KEY_SIZE 0" "keys r"] assms(2,4) by (auto simp: kv_wf_def)
qed

lemma write_key_keeps:
  assumes "write_key j key u r = (Ok x, t)" "kv_wf r" "bit (key_control r ! k) 0" "k < KEY_COUNT"
  shows "bit (key_control t ! k) 0" "i div KEY_SIZE = k \<Longrightarrow> keys t ! i = keys r ! i"
proof -
  show "bit (key_control t ! k) 0"
    using assms by (auto simp: kv_access_simps kv_wf_def nth_list_update bit_field_modify split: if_splits)
  have "keys t = keys r \<or> j \<noteq> k \<and> j < KEY_COUNT \<and> length key \<le> KEY_SIZE \<and> keys t = splice (j * KEY_SIZE) key (keys r)"
    using assms by (auto simp: kv_access_simps kv_wf_def split: if_splits)
  then show "i div KEY_SIZE = k \<Longrightarrow> keys t ! i = keys r ! i"
    using splice_other_key [of j k i key "keys r"] assms(2,4) by (auto simp: kv_wf_def)
qed

text \<open>The key slots are a lockable store of bytes, with the lock bit \<^verbatim>\<open>WRITE_LOCK\<close>.\<close>

lemma kv_access_keys:
  assumes "kv_access r t" "kv_wf r" "bit (key_control r ! k) 0" "k < KEY_COUNT"
  shows "bit (key_control t ! k) 0 \<and> (i div KEY_SIZE = k \<longrightarrow> keys t ! i = keys r ! i)"
  using assms(1)
proof cases
  case key_ctrl
  then show ?thesis using write_key_ctrl_keeps [OF _ assms(2-4)] by blast
next
  case key_write
  then show ?thesis using write_key_keeps [OF _ assms(2-4)] by blast
qed (use assms(3) in \<open>auto simp: kv_access_simps split: if_splits\<close>)

interpretation key_store: lockable_store key_control keys KEY_SIZE "\<lambda>r t. kv_access r t \<and> kv_wf r"
  by unfold_locales (use kv_access_keys kv_access_wf in \<open>auto simp: kv_wf_def\<close>)

text \<open>A key with \<^verbatim>\<open>USE_LOCK\<close> set is not read, one without the wanted usage neither.\<close>

lemma use_lock_step:
  assumes "kv_access r t" "kv_wf r" "bit (key_control r ! k) 1" "k < KEY_COUNT"
  shows "bit (key_control t ! k) 1"
  using assms(1)
  by cases (use assms(2-4) in \<open>auto simp: kv_access_simps kv_wf_def nth_list_update bit_lock_modify bit_field_modify
      split: if_splits\<close>)

lemma use_lock_keeps:
  assumes "kv_access\<^sup>*\<^sup>* r t" "kv_wf r" "bit (key_control r ! k) 1" "k < KEY_COUNT"
  shows "kv_wf t \<and> bit (key_control t ! k) 1"
  using assms(1)
  by (induction rule: rtranclp_induct) (use assms(2-4) use_lock_step kv_access_wf in auto)

lemma read_key_locked_faults:
  "kv_wf r \<Longrightarrow> k < KEY_COUNT \<Longrightarrow> bit (key_control r ! k) 1 \<Longrightarrow> read_key k u r = (Ok (Inl LoadAccessFault), r)"
  by (simp add: read_key_def in_range_def kv_wf_def Let_def field_read_bit)

text \<open>A key that was written is read back for the usages it was written with.\<close>

lemma nth_splice_slot:
  "off + length new \<le> length xs \<Longrightarrow> take (length new) (drop off (splice off new xs)) = new"
  by (simp add: splice_def)

lemma field_read_modify: "off + n \<le> 32 \<Longrightarrow> field_read off n (field_modify off n v reg) = take_bit n v"
  by (rule bit_word_eqI) (auto simp: bit_field_read bit_field_modify bit_simps)

lemma field_read_modify_other:
  "off + n \<le> off' \<or> off' + n' \<le> off \<Longrightarrow> field_read off n (field_modify off' n' v reg) = field_read off n reg"
  by (rule bit_word_eqI) (auto simp: bit_field_read bit_field_modify bit_simps dest: bit_imp_le_length)

lemma read_key_write_key:
  assumes wf: "kv_wf r" and k: "k < KEY_COUNT" and key: "length key = KEY_SIZE"
    and unlocked: "\<not> bit (key_control r ! k) 0" "\<not> bit (key_control r ! k) 1"
    and usage: "take_bit 8 u AND desired \<noteq> 0"
  shows "\<exists>t. write_key k key u r = (Ok (Inr ()), t) \<and> read_key k desired t = (Ok (Inr key), t)"
proof -
  let ?ctrl = "field_modify 17 4 (of_nat (length key div 4) - 1) (field_modify 9 8 u (key_control r ! k))"
  let ?t = "r\<lparr>keys := splice (k * KEY_SIZE) key (keys r), key_control := (key_control r)[k := ?ctrl]\<rparr>"
  have w: "write_key k key u r = (Ok (Inr ()), ?t)"
    using wf k key unlocked by (simp add: kv_access_simps kv_wf_def)
  have "k * KEY_SIZE + length key \<le> length (keys r)" using wf k key by (simp add: kv_wf_def)
  then have "take KEY_SIZE (drop (k * KEY_SIZE) (keys ?t)) = key"
    using nth_splice_slot [of "k * KEY_SIZE" key "keys r"] key by simp
  moreover have "kv_usage ?ctrl = take_bit 8 u" "\<not> bit ?ctrl 1"
    using unlocked(2) by (simp_all add: field_read_modify field_read_modify_other bit_field_modify)
  ultimately have "read_key k desired ?t = (Ok (Inr key), ?t)"
    using wf k usage by (simp add: read_key_def in_range_def kv_wf_def Let_def field_read_bit)
  with w show ?thesis by blast
qed

text \<open>The usage field holds eight flags: the ninth flag of \<^verbatim>\<open>KeyUsage\<close>, \<^verbatim>\<open>dma_data\<close>, is lost.\<close>

lemma dma_data_usage_lost:
  assumes "kv_wf r" "k < KEY_COUNT"
  shows "read_key k (push_bit 8 1) r = (Ok (Inl LoadAccessFault), r)"
proof -
  have "(256 :: u32) = 2 ^ 8" by simp
  then have b: "bit (256 :: u32) n \<longleftrightarrow> n = 8" for n by (simp only: bit_exp_iff) auto
  have "\<not> (bit (kv_usage ctrl) n \<and> bit (256 :: u32) n)" for ctrl n
    unfolding b by (simp add: bit_field_read)
  then have "kv_usage ctrl AND push_bit 8 1 = 0" for ctrl
    by (intro bit_word_eqI) (simp add: bit_and_iff)
  then show ?thesis using assms by (simp add: read_key_def in_range_def kv_wf_def Let_def)
qed

section \<open>What the vault guarantees\<close>

lemma kv_single: "kv_step r t \<Longrightarrow> kv_step\<^sup>*\<^sup>* r t" "kv_access r t \<Longrightarrow> kv_access\<^sup>*\<^sup>* r t"
  by blast+

lemma kv_steps_wf: "kv_step\<^sup>*\<^sup>* r t \<Longrightarrow> kv_wf r \<Longrightarrow> kv_wf t"
  by (induction rule: rtranclp_induct) (use kv_step_wf in auto)

lemma key_store_steps: "kv_access\<^sup>*\<^sup>* r t \<Longrightarrow> kv_wf r \<Longrightarrow> (\<lambda>r t. kv_access r t \<and> kv_wf r)\<^sup>*\<^sup>* r t"
proof (induction rule: rtranclp_induct)
  case (step t u)
  have "kv_wf t" using step(1) step.prems by (induction rule: rtranclp_induct) (use kv_access_wf in auto)
  with step show ?case by (auto intro: rtranclp.rtrancl_into_rtrancl)
qed simp

text \<open>A vault with entry 0 of both data vaults, and the key 3, locked.\<close>

definition sample_vault :: KeyVaultRegs where
  "sample_vault = snd (write_key_ctrl 3 3 (snd (write_sticky_datavault_ctrl 0 1 (snd (write_nonsticky_datavault_ctrl 0 1 KeyVaultRegs_new)))))"

lemma sample_vault_eq: "sample_vault = KeyVaultRegs_new\<lparr>datavault_control := (replicate 10 0)[0 := 1],
    sticky_datavault_control := (replicate 10 0)[0 := 1], key_control := (replicate 24 0)[3 := 3]\<rparr>"
  by (simp add: sample_vault_def kv_access_simps KeyVaultRegs_new_def lock_modify_def field_modify_def field_read_def)

lemma sample_vault_wf: "kv_wf sample_vault"
  by (simp add: sample_vault_eq kv_wf_def KeyVaultRegs_new_def)

text \<open>C25: A sticky lock lasts: once an entry of the sticky data vault, or a sticky scratch register, is
  locked, no sequence of register writes, engine accesses, warm resets and update resets unlocks it or
  changes a word of it.\<close>

theorem sticky_lock_lasts:
  assumes "kv_step\<^sup>*\<^sup>* r t"
  shows "(i div ENTRY_SIZE_WORDS < length (sticky_datavault_control r) \<and> bit (sticky_datavault_control r ! (i div ENTRY_SIZE_WORDS)) 0 \<longrightarrow>
      bit (sticky_datavault_control t ! (i div ENTRY_SIZE_WORDS)) 0 \<and> sticky_datavault_entry t ! i = sticky_datavault_entry r ! i) \<and>
    (j < length (sticky_lockable_scratch_control r) \<and> bit (sticky_lockable_scratch_control r ! j) 0 \<longrightarrow>
      bit (sticky_lockable_scratch_control t ! j) 0 \<and> sticky_lockable_scratch t ! j = sticky_lockable_scratch r ! j)"
  using sticky_dv_store.locked_keeps [OF assms, of i] sticky_scratch_store.locked_keeps [OF assms, of j] by simp

theorem sticky_lock_lasts_witness:
  "bit (sticky_datavault_control (kv_warm_reset sample_vault) ! 0) 0 \<and>
     sticky_datavault_entry (kv_warm_reset sample_vault) ! 5 = sticky_datavault_entry sample_vault ! 5"
  using sticky_lock_lasts [OF kv_single(1) [OF kv_step.warm], of 5 sample_vault 0]
  by (simp add: sample_vault_eq KeyVaultRegs_new_def)

text \<open>C18: A lock protects until the next reset: once an entry of the data vault is locked, or a key is
  write-locked, no sequence of register writes and engine accesses unlocks it, changes a word of the
  entry, or changes a byte of the key.\<close>

theorem lock_protects_until_reset:
  assumes "kv_access\<^sup>*\<^sup>* r t" "kv_wf r"
  shows "(i div ENTRY_SIZE_WORDS < 10 \<and> bit (datavault_control r ! (i div ENTRY_SIZE_WORDS)) 0 \<longrightarrow>
      bit (datavault_control t ! (i div ENTRY_SIZE_WORDS)) 0 \<and> datavault_entry t ! i = datavault_entry r ! i) \<and>
    (j div KEY_SIZE < KEY_COUNT \<and> bit (key_control r ! (j div KEY_SIZE)) 0 \<longrightarrow>
      bit (key_control t ! (j div KEY_SIZE)) 0 \<and> keys t ! j = keys r ! j)"
  using dv_store.locked_keeps [OF assms(1), of i] key_store.locked_keeps [OF key_store_steps [OF assms], of j] assms(2)
  by (simp add: kv_wf_def)

theorem lock_protects_until_reset_witness:
  "keys (snd (write_key_ctrl 3 4 sample_vault)) ! 200 = keys sample_vault ! 200 \<and>
     bit (key_control (snd (write_key_ctrl 3 4 sample_vault)) ! 3) 0"
proof -
  have "kv_access sample_vault (snd (write_key_ctrl 3 4 sample_vault))"
    using sample_vault_wf by (intro kv_access.key_ctrl [of 3 4 _ "Inr ()"]) (simp add: kv_access_simps kv_wf_def)
  from lock_protects_until_reset [OF kv_single(2) [OF this] sample_vault_wf, of 0 200] show ?thesis
    by (simp add: sample_vault_eq KeyVaultRegs_new_def)
qed

text \<open>C24: The use lock hides a key until the next reset from every read that checks it: once it is set, after
  any sequence of register writes and engine accesses, reading the key with the checked read faults
  for any usage and changes nothing. The one read that ignores the lock is the unchecked one, which
  the ECC and the ML-DSA engine use for the keys that sign PCRs.\<close>

theorem use_lock_hides_key:
  assumes "kv_access\<^sup>*\<^sup>* r t" "kv_wf r" "k < KEY_COUNT" "bit (key_control r ! k) 1"
  shows "read_key k usage t = (Ok (Inl LoadAccessFault), t)"
  using use_lock_keeps [OF assms(1,2,4,3)] assms(3) by (simp add: read_key_locked_faults)

theorem use_lock_hides_key_witness:
  "read_key 3 0xFF sample_vault = (Ok (Inl LoadAccessFault), sample_vault)"
  by (rule use_lock_hides_key [OF rtranclp.rtrancl_refl sample_vault_wf])
    (simp_all add: sample_vault_eq bit_numeral_rec)

lemma write_key_usage:
  assumes "kv_wf r" "k < KEY_COUNT" "length key = KEY_SIZE" "\<not> bit (key_control r ! k) 0" "\<not> bit (key_control r ! k) 1"
    and "take_bit 8 usage AND desired = 0"
  shows "\<exists>t. write_key k key usage r = (Ok (Inr ()), t) \<and> read_key k desired t = (Ok (Inl LoadAccessFault), t)"
  using assms
  by (simp add: kv_access_simps kv_wf_def read_key_def field_read_modify field_read_modify_other)

text \<open>C40: A key of 64 bytes written to a slot with neither lock set is read back, by the engines whose usage
  it was written for, and only by them: a read for usages that were not given faults. Only the low
  eight bits of the usage are kept, so that a key written for the ninth usage alone is not readable.\<close>

theorem key_roundtrip:
  assumes wf: "kv_wf r" and k: "k < KEY_COUNT" and key: "length key = KEY_SIZE"
    and unlocked: "\<not> bit (key_control r ! k) 0" "\<not> bit (key_control r ! k) 1"
  shows "\<exists>t. write_key k key usage r = (Ok (Inr ()), t) \<and>
    read_key k desired t = (if take_bit 8 usage AND desired = 0 then (Ok (Inl LoadAccessFault), t) else (Ok (Inr key), t))"
  using read_key_write_key [OF wf k key unlocked, of usage desired] write_key_usage [OF wf k key unlocked, of usage desired]
  by auto

theorem key_roundtrip_witness:
  "\<exists>t. write_key 3 (replicate 64 7) 2 KeyVaultRegs_new = (Ok (Inr ()), t) \<and>
     read_key 3 2 t = (Ok (Inr (replicate 64 7)), t)"
  using key_roundtrip [OF kv_wf_new, of 3 "replicate 64 7" 2 2] by (simp add: KeyVaultRegs_new_def)

end
