(* ===== verification/MailboxPeriph.thy ===== *)
theory MailboxPeriph
  imports KeyVault
begin

unbundle bit_operations_syntax

text \<open>
  The emulated mailbox, \<^verbatim>\<open>sw-emulator/lib/periph/src/mailbox.rs\<close>: a FIFO over the mailbox memory, the
  state machine of a transaction, and the register accesses of the microcontroller and of the users
  of the SoC. The register callbacks ignore the access size. The invariant holds after every sequence
  of accesses, from either side, and no access panics.
\<close>

section \<open>FIFO\<close>

definition MBOX_RAM_SIZE :: "bool \<Rightarrow> nat" where
  "MBOX_RAM_SIZE subsystem_mode = (if subsystem_mode then 16 * 1024 else 256 * 1024)"

definition MailboxRam_new :: "bool \<Rightarrow> RamImpl" where
  "MailboxRam_new subsystem_mode = Ram_new True (replicate (MBOX_RAM_SIZE subsystem_mode) 0)"

record Fifo =
  latched_dlen :: u32
  fifo_capacity :: nat
  read_index :: nat
  write_index :: nat
  fifo_ram :: RamImpl

definition Fifo_new :: "RamImpl \<Rightarrow> Fifo" where
  "Fifo_new ram = \<lparr>latched_dlen = 0, fifo_capacity = length (ram_data ram), read_index = 0, write_index = 0, fifo_ram = ram\<rparr>"

definition latch_dlen :: "nat \<Rightarrow> Fifo \<Rightarrow> Fifo" where
  "latch_dlen dlen f = f\<lparr>latched_dlen := of_nat (if dlen > fifo_capacity f then fifo_capacity f else dlen)\<rparr>"

text \<open>\<open>None\<close> is the panic of \<^verbatim>\<open>unwrap\<close>.\<close>

definition Fifo_enqueue :: "u32 \<Rightarrow> Fifo \<Rightarrow> Fifo option" where
  "Fifo_enqueue element f =
     (if write_index f < fifo_capacity f
      then case Ram_write (fifo_ram f) Word (of_nat (write_index f)) element of
          Inr ram \<Rightarrow> Some (f\<lparr>fifo_ram := ram, write_index := write_index f + 4\<rparr>)
        | Inl _ \<Rightarrow> None
      else Some f)"

definition Fifo_dequeue :: "Fifo \<Rightarrow> (u32 option \<times> Fifo) option" where
  "Fifo_dequeue f =
     (if read_index f \<ge> unat (latched_dlen f) then Some (None, f)
      else case Ram_read (fifo_ram f) Word (of_nat (read_index f)) of
          Inr element \<Rightarrow> Some (Some element, f\<lparr>read_index := read_index f + 4\<rparr>)
        | Inl _ \<Rightarrow> None)"

definition Fifo_reset :: "Fifo \<Rightarrow> Fifo" where
  "Fifo_reset f = f\<lparr>read_index := 0, write_index := 0\<rparr>"

section \<open>State machine\<close>

datatype MailboxRequester = Caliptra | SocUser u32

definition requester_from :: "u32 \<Rightarrow> MailboxRequester" where
  "requester_from value = (if value = 0xFFFFFFFF then Caliptra else SocUser value)"

definition requester_u32 :: "MailboxRequester \<Rightarrow> u32" where
  "requester_u32 val = (case val of Caliptra \<Rightarrow> 0xFFFFFFFF | SocUser pauser \<Rightarrow> pauser)"

datatype MboxStates = MbIdle | MbRdyForCmd | MbRdyForDlen | MbRdyForData | MbExecUc | MbExecSoc | MbError

datatype MboxEvents =
    RdMboxLock MailboxRequester | CmdWrite u32 | DlenWrite u32 | DataWrite u32 | DataRead
  | SocExecSet | UcExecSet | SocExecClear | UcExecClear | SetStatus | WrUnlock | EvError

record MboxContext =
  mb_locked :: u32
  mb_user :: MailboxRequester
  mb_dlen :: u32
  mb_fifo :: Fifo
  mb_status :: u32
  mb_cmd :: u32
  mb_data_out :: u32
  mb_unlock :: u32

definition MboxContext_new :: "RamImpl \<Rightarrow> MboxContext" where
  "MboxContext_new ram = \<lparr>mb_locked = 0, mb_user = Caliptra, mb_dlen = 0, mb_fifo = Fifo_new ram, mb_status = 0,
     mb_cmd = 0, mb_data_out = 0, mb_unlock = 0\<rparr>"

definition ctx_is_not_locked :: "MboxContext \<Rightarrow> bool" where "ctx_is_not_locked c \<longleftrightarrow> mb_locked c \<noteq> 1"
definition ctx_is_locked :: "MboxContext \<Rightarrow> bool" where "ctx_is_locked c \<longleftrightarrow> mb_locked c \<noteq> 0"

definition init_dlen :: "u32 \<Rightarrow> MboxContext \<Rightarrow> MboxContext" where
  "init_dlen data_len c = c\<lparr>mb_dlen := data_len, mb_fifo := latch_dlen (unat data_len) (Fifo_reset (mb_fifo c))\<rparr>"

definition ctx_set_cmd :: "u32 \<Rightarrow> MboxContext \<Rightarrow> MboxContext" where
  "ctx_set_cmd cmd c = c\<lparr>mb_cmd := cmd\<rparr>"

definition ctx_lock :: "MailboxRequester \<Rightarrow> MboxContext \<Rightarrow> MboxContext" where
  "ctx_lock user c = c\<lparr>mb_fifo := Fifo_reset (mb_fifo c), mb_locked := 1, mb_user := user\<rparr>"

definition ctx_unlock :: "MboxContext \<Rightarrow> MboxContext" where
  "ctx_unlock c = c\<lparr>mb_locked := 0, mb_status := 0\<rparr>"

definition ctx_dequeue :: "MboxContext \<Rightarrow> MboxContext option" where
  "ctx_dequeue c = (case Fifo_dequeue (mb_fifo c) of
     None \<Rightarrow> None
   | Some (element, f) \<Rightarrow> Some (c\<lparr>mb_data_out := (case element of None \<Rightarrow> 0 | Some w \<Rightarrow> w), mb_fifo := f\<rparr>))"

definition ctx_enqueue :: "u32 \<Rightarrow> MboxContext \<Rightarrow> MboxContext option" where
  "ctx_enqueue data_in c = map_option (\<lambda>f. c\<lparr>mb_fifo := f\<rparr>) (Fifo_enqueue data_in (mb_fifo c))"

definition unlock_and_reset :: "MboxContext \<Rightarrow> MboxContext" where
  "unlock_and_reset c = (let c = ctx_unlock c in c\<lparr>mb_fifo := Fifo_reset (mb_fifo c)\<rparr>)"

text \<open>
  The transitions. An event without a transition from the current state, or whose guard fails, leaves
  the machine as it is; \<open>None\<close> is a panic in an action.
\<close>

definition mbox_process_event :: "MboxEvents \<Rightarrow> MboxStates \<times> MboxContext \<Rightarrow> (MboxStates \<times> MboxContext) option" where
  "mbox_process_event event m = (case m of (state, c) \<Rightarrow> (case (state, event) of
      (MbIdle, RdMboxLock user) \<Rightarrow> Some (if ctx_is_not_locked c then (MbRdyForCmd, ctx_lock user c) else (MbIdle, c))
    | (MbRdyForCmd, CmdWrite cmd) \<Rightarrow> Some (MbRdyForDlen, ctx_set_cmd cmd c)
    | (MbRdyForCmd, WrUnlock) \<Rightarrow> Some (MbIdle, unlock_and_reset c)
    | (MbRdyForDlen, DlenWrite len) \<Rightarrow> Some (MbRdyForData, init_dlen len c)
    | (MbRdyForDlen, WrUnlock) \<Rightarrow> Some (MbIdle, c)
    | (MbRdyForData, DataWrite w) \<Rightarrow> map_option (Pair MbRdyForData) (ctx_enqueue w c)
    | (MbRdyForData, WrUnlock) \<Rightarrow> Some (MbIdle, unlock_and_reset c)
    | (MbRdyForData, SocExecSet) \<Rightarrow> Some (MbExecUc, c)
    | (MbRdyForData, UcExecSet) \<Rightarrow> Some (MbExecSoc, c)
    | (MbExecUc, DataRead) \<Rightarrow> map_option (Pair MbExecUc) (ctx_dequeue c)
    | (MbExecUc, DlenWrite len) \<Rightarrow> Some (MbExecUc, init_dlen len c)
    | (MbExecUc, DataWrite w) \<Rightarrow> map_option (Pair MbExecUc) (ctx_enqueue w c)
    | (MbExecUc, SocExecClear) \<Rightarrow> Some (if ctx_is_locked c then (MbIdle, ctx_unlock c) else (MbExecUc, c))
    | (MbExecUc, UcExecClear) \<Rightarrow> Some (if ctx_is_locked c then (MbIdle, ctx_unlock c) else (MbExecUc, c))
    | (MbExecUc, SetStatus) \<Rightarrow> Some (MbExecSoc, c)
    | (MbExecUc, WrUnlock) \<Rightarrow> Some (MbIdle, unlock_and_reset c)
    | (MbExecSoc, DataRead) \<Rightarrow> map_option (Pair MbExecSoc) (ctx_dequeue c)
    | (MbExecSoc, DlenWrite len) \<Rightarrow> Some (MbExecSoc, init_dlen len c)
    | (MbExecSoc, DataWrite w) \<Rightarrow> map_option (Pair MbExecSoc) (ctx_enqueue w c)
    | (MbExecSoc, UcExecClear) \<Rightarrow> Some (if ctx_is_locked c then (MbIdle, ctx_unlock c) else (MbExecSoc, c))
    | (MbExecSoc, SocExecClear) \<Rightarrow> Some (if ctx_is_locked c then (MbIdle, ctx_unlock c) else (MbExecSoc, c))
    | (MbExecSoc, EvError) \<Rightarrow> Some (MbError, c)
    | (MbExecSoc, SetStatus) \<Rightarrow> Some (MbExecUc, c)
    | (MbExecSoc, WrUnlock) \<Rightarrow> Some (MbIdle, unlock_and_reset c)
    | (MbError, WrUnlock) \<Rightarrow> Some (MbIdle, unlock_and_reset c)
    | _ \<Rightarrow> Some (state, c)))"

section \<open>Registers\<close>

record MailboxRegs =
  mb_machine :: "MboxStates \<times> MboxContext"
  mb_requester :: MailboxRequester
  mb_execute :: u32
  mb_tap_mode :: u32
  mb_irq :: bool

abbreviation mb_state :: "MailboxRegs \<Rightarrow> MboxStates" where "mb_state r \<equiv> fst (mb_machine r)"
abbreviation mb_ctx :: "MailboxRegs \<Rightarrow> MboxContext" where "mb_ctx r \<equiv> snd (mb_machine r)"

type_synonym 'a mbox_io = "(MailboxRegs, 'a) bus_io"

definition MailboxRegs_new :: "RamImpl \<Rightarrow> MailboxRegs" where
  "MailboxRegs_new ram = \<lparr>mb_machine = (MbIdle, MboxContext_new ram), mb_requester = Caliptra, mb_execute = 0,
     mb_tap_mode = 0, mb_irq = False\<rparr>"

definition deliver :: "MboxEvents \<Rightarrow> unit mbox_io" where
  "deliver event r = (case mbox_process_event event (mb_machine r) of
     None \<Rightarrow> (RustPanic, r)
   | Some m \<Rightarrow> (Ok (Inr ()), r\<lparr>mb_machine := m\<rparr>))"

definition mb_reg :: "(MailboxRegs \<Rightarrow> u32) \<Rightarrow> u32 mbox_io" where
  "mb_reg f r = (Ok (Inr (f r)), r)"

definition read_lock :: "u32 mbox_io" where
  "read_lock r = (case deliver (RdMboxLock (mb_requester r)) r of
     (Ok (Inr _), t) \<Rightarrow> (Ok (Inr (if mb_state r = MbIdle then 0 else 1)), t)
   | (_, t) \<Rightarrow> (RustPanic, t))"

definition read_user :: "u32 mbox_io" where "read_user = mb_reg (\<lambda>r. requester_u32 (mb_user (mb_ctx r)))"
definition read_cmd :: "u32 mbox_io" where "read_cmd = mb_reg (\<lambda>r. mb_cmd (mb_ctx r))"
definition read_dlen :: "u32 mbox_io" where "read_dlen = mb_reg (\<lambda>r. mb_dlen (mb_ctx r))"
definition read_unlock :: "u32 mbox_io" where "read_unlock = mb_reg (\<lambda>r. mb_unlock (mb_ctx r))"

definition mb_write_cmd :: "u32 \<Rightarrow> unit mbox_io" where "mb_write_cmd val = deliver (CmdWrite val)"
definition mb_write_dlen :: "u32 \<Rightarrow> unit mbox_io" where "mb_write_dlen val = deliver (DlenWrite val)"
definition write_din :: "u32 \<Rightarrow> unit mbox_io" where "write_din val = deliver (DataWrite val)"
definition write_unlock :: "u32 \<Rightarrow> unit mbox_io" where "write_unlock val = deliver WrUnlock"

definition read_dout :: "u32 mbox_io" where
  "read_dout r = (case deliver DataRead r of
     (Ok (Inr _), t) \<Rightarrow> (Ok (Inr (mb_data_out (mb_ctx t))), t)
   | (_, t) \<Rightarrow> (RustPanic, t))"

definition write_ex :: "u32 \<Rightarrow> unit mbox_io" where
  "write_ex val r =
     (if mb_requester r \<noteq> mb_user (mb_ctx r) then deliver EvError r
      else
        let event = (case mb_requester r of
              Caliptra \<Rightarrow> if val AND 1 \<noteq> 0 then UcExecSet else UcExecClear
            | SocUser _ \<Rightarrow> if val AND 1 \<noteq> 0 then SocExecSet else SocExecClear)
        in case deliver event (r\<lparr>mb_irq := True\<rparr>) of
             (Ok (Inr _), t) \<Rightarrow> (Ok (Inr ()), t\<lparr>mb_execute := val\<rparr>)
           | (_, t) \<Rightarrow> (RustPanic, t))"

definition write_status :: "u32 \<Rightarrow> unit mbox_io" where
  "write_status val r = (case deliver SetStatus r of
     (Ok (Inr _), t) \<Rightarrow> (Ok (Inr ()), t\<lparr>mb_machine := (mb_state t, (mb_ctx t)\<lparr>mb_status := field_read 0 4 val\<rparr>)\<rparr>)
   | (_, t) \<Rightarrow> (RustPanic, t))"

definition fsm_value :: "MboxStates \<Rightarrow> u32" where
  "fsm_value state = (case state of MbIdle \<Rightarrow> 0 | MbRdyForCmd \<Rightarrow> 1 | MbRdyForDlen \<Rightarrow> 3 | MbRdyForData \<Rightarrow> 2
     | MbExecUc \<Rightarrow> 6 | MbExecSoc \<Rightarrow> 4 | MbError \<Rightarrow> 7)"

definition read_status :: "u32 mbox_io" where
  "read_status = mb_reg (\<lambda>r. field_modify 6 3 (fsm_value (mb_state r)) (mb_status (mb_ctx r)))"

definition write_tap_mode :: "u32 \<Rightarrow> unit mbox_io" where
  "write_tap_mode val r = (Ok (Inr ()), r\<lparr>mb_tap_mode := val\<rparr>)"

text \<open>An access by the microcontroller and by a user of the SoC.\<close>

definition uc :: "'a mbox_io \<Rightarrow> 'a mbox_io" where
  "uc m r = m (r\<lparr>mb_requester := Caliptra\<rparr>)"

definition soc :: "MailboxRequester \<Rightarrow> 'a mbox_io \<Rightarrow> 'a mbox_io" where
  "soc user m r = (case m (r\<lparr>mb_requester := user\<rparr>) of (x, t) \<Rightarrow> (x, t\<lparr>mb_requester := Caliptra\<rparr>))"

definition get_notif_irq :: "MailboxRegs \<Rightarrow> bool \<times> MailboxRegs" where
  "get_notif_irq r = (if mb_irq r then (True, r\<lparr>mb_irq := False\<rparr>) else (False, r))"

section \<open>Accesses\<close>

text \<open>
  The registers of the bus. Reads of the write-only register fault, writes to read-only registers are
  ignored; \<^verbatim>\<open>execute\<close> and \<^verbatim>\<open>tap_mode\<close> are plain registers accessed as words.
\<close>

datatype MboxReg = MBOX_LOCK | MBOX_USER | MBOX_CMD | MBOX_DLEN | MBOX_DATAIN | MBOX_DATAOUT | MBOX_EXECUTE
  | MBOX_STATUS | MBOX_UNLOCK | MBOX_TAP_MODE

definition mbox_read :: "MboxReg \<Rightarrow> u32 mbox_io" where
  "mbox_read reg = (case reg of
      MBOX_LOCK \<Rightarrow> read_lock | MBOX_USER \<Rightarrow> read_user | MBOX_CMD \<Rightarrow> read_cmd | MBOX_DLEN \<Rightarrow> read_dlen
    | MBOX_DATAIN \<Rightarrow> bus_fault LoadAccessFault | MBOX_DATAOUT \<Rightarrow> read_dout | MBOX_EXECUTE \<Rightarrow> mb_reg mb_execute
    | MBOX_STATUS \<Rightarrow> read_status | MBOX_UNLOCK \<Rightarrow> read_unlock | MBOX_TAP_MODE \<Rightarrow> mb_reg mb_tap_mode)"

definition mbox_write :: "MboxReg \<Rightarrow> u32 \<Rightarrow> unit mbox_io" where
  "mbox_write reg val = (case reg of
      MBOX_LOCK \<Rightarrow> ret (Inr ()) | MBOX_USER \<Rightarrow> ret (Inr ()) | MBOX_CMD \<Rightarrow> mb_write_cmd val
    | MBOX_DLEN \<Rightarrow> mb_write_dlen val | MBOX_DATAIN \<Rightarrow> write_din val | MBOX_DATAOUT \<Rightarrow> ret (Inr ())
    | MBOX_EXECUTE \<Rightarrow> write_ex val | MBOX_STATUS \<Rightarrow> write_status val | MBOX_UNLOCK \<Rightarrow> write_unlock val
    | MBOX_TAP_MODE \<Rightarrow> write_tap_mode val)"

datatype MboxAccess = MboxRead MboxReg | MboxWrite MboxReg u32

definition mbox_port :: "MailboxRequester \<Rightarrow> 'a mbox_io \<Rightarrow> 'a mbox_io" where
  "mbox_port user m = (case user of Caliptra \<Rightarrow> uc m | SocUser _ \<Rightarrow> soc user m)"

definition mbox_access :: "MailboxRequester \<Rightarrow> MboxAccess \<Rightarrow> (MailboxRegs, unit) action" where
  "mbox_access user a = (case a of
      MboxRead reg \<Rightarrow> bindE (mbox_port user (mbox_read reg)) (\<lambda>_. ret ())
    | MboxWrite reg val \<Rightarrow> bindE (mbox_port user (mbox_write reg val)) (\<lambda>_. ret ()))"

fun mbox_run :: "(MailboxRequester \<times> MboxAccess) list \<Rightarrow> (MailboxRegs, unit) action" where
  "mbox_run [] = ret ()"
| "mbox_run ((user, a) # accesses) = bindE (mbox_access user a) (\<lambda>_. mbox_run accesses)"

text \<open>The microcontroller also reaches the memory of the FIFO directly.\<close>

definition sram_write :: "RvSize \<Rightarrow> u32 \<Rightarrow> u32 \<Rightarrow> unit mbox_io" where
  "sram_write sz addr val r = (let c = mb_ctx r; f = mb_fifo c in
     case Ram_write (fifo_ram f) sz addr val of
       Inl e \<Rightarrow> (Ok (Inl e), r)
     | Inr ram \<Rightarrow> (Ok (Inr ()), r\<lparr>mb_machine := (mb_state r, c\<lparr>mb_fifo := f\<lparr>fifo_ram := ram\<rparr>\<rparr>)\<rparr>))"

inductive mbox_reachable :: "bool \<Rightarrow> MailboxRegs \<Rightarrow> bool" for subsystem_mode where
  mbox_init: "mbox_reachable subsystem_mode (MailboxRegs_new (MailboxRam_new subsystem_mode))"
| mbox_reg: "mbox_reachable subsystem_mode r \<Longrightarrow> mbox_access user a r = (Ok (), t) \<Longrightarrow> mbox_reachable subsystem_mode t"
| mbox_sram: "mbox_reachable subsystem_mode r \<Longrightarrow> sram_write sz addr val r = (Ok x, t) \<Longrightarrow> mbox_reachable subsystem_mode t"
| mbox_irq: "mbox_reachable subsystem_mode r \<Longrightarrow> get_notif_irq r = (b, t) \<Longrightarrow> mbox_reachable subsystem_mode t"

section \<open>Invariant\<close>

definition fifo_ok :: "bool \<Rightarrow> Fifo \<Rightarrow> bool" where
  "fifo_ok sm f \<longleftrightarrow> fifo_capacity f = MBOX_RAM_SIZE sm \<and> length (ram_data (fifo_ram f)) = MBOX_RAM_SIZE sm \<and>
     ram_aligned (fifo_ram f) \<and> error_injection (fifo_ram f) = 0 \<and>
     4 dvd read_index f \<and> read_index f < unat (latched_dlen f) + 4 \<and> 4 dvd write_index f \<and>
     write_index f \<le> MBOX_RAM_SIZE sm \<and> unat (latched_dlen f) \<le> MBOX_RAM_SIZE sm"

definition mbox_machine_ok :: "bool \<Rightarrow> MboxStates \<times> MboxContext \<Rightarrow> bool" where
  "mbox_machine_ok sm m \<longleftrightarrow> fifo_ok sm (mb_fifo (snd m)) \<and> mb_locked (snd m) \<in> {0, 1} \<and>
     (fst m \<noteq> MbIdle \<longrightarrow> mb_locked (snd m) = 1)"

lemma mbox_size_facts: "4 dvd MBOX_RAM_SIZE sm" "MBOX_RAM_SIZE sm \<le> 262144" "0 < MBOX_RAM_SIZE sm"
  by (simp_all add: MBOX_RAM_SIZE_def)

lemma below_multiple_room: "4 dvd a \<Longrightarrow> 4 dvd b \<Longrightarrow> a < b \<Longrightarrow> a + 4 \<le> (b::nat)"
  by (elim dvdE) simp

lemma unat_of_nat_mbox: "n \<le> MBOX_RAM_SIZE sm \<Longrightarrow> unat (of_nat n :: u32) = n"
  using mbox_size_facts(2) [of sm] by (simp add: unsigned_of_nat take_bit_nat_eq_self)

lemma Fifo_enqueue_room:
  assumes "fifo_ok sm f" "write_index f < MBOX_RAM_SIZE sm"
  shows "Fifo_enqueue element f = Some (f\<lparr>fifo_ram := (fifo_ram f)\<lparr>ram_data :=
      take (write_index f) (ram_data (fifo_ram f)) @ le32 element @ drop (write_index f + 4) (ram_data (fifo_ram f))\<rparr>,
      write_index := write_index f + 4\<rparr>)"
proof -
  have "write_index f + 4 \<le> MBOX_RAM_SIZE sm"
    using assms below_multiple_room mbox_size_facts(1) by (simp add: fifo_ok_def)
  then show ?thesis
    using assms Ram_write_word [of "of_nat (write_index f)" "fifo_ram f" element]
    by (simp add: Fifo_enqueue_def fifo_ok_def unat_of_nat_mbox [where sm = sm])
qed

lemma Fifo_enqueue_full: "fifo_ok sm f \<Longrightarrow> MBOX_RAM_SIZE sm \<le> write_index f \<Longrightarrow> Fifo_enqueue element f = Some f"
  by (simp add: Fifo_enqueue_def fifo_ok_def)

lemma Fifo_dequeue_word:
  assumes "fifo_ok sm f" "read_index f < unat (latched_dlen f)"
  shows "Fifo_dequeue f = Some (Some (from_le_bytes (take 4 (drop (read_index f) (ram_data (fifo_ram f))))),
      f\<lparr>read_index := read_index f + 4\<rparr>)"
proof -
  have "read_index f + 4 \<le> MBOX_RAM_SIZE sm"
    using assms below_multiple_room [of "read_index f" "MBOX_RAM_SIZE sm"] mbox_size_facts(1) by (simp add: fifo_ok_def)
  then show ?thesis
    using assms Ram_read_word [of "fifo_ram f" "of_nat (read_index f)"]
    by (simp add: Fifo_dequeue_def fifo_ok_def unat_of_nat_mbox [where sm = sm])
qed

lemma Fifo_dequeue_end: "unat (latched_dlen f) \<le> read_index f \<Longrightarrow> Fifo_dequeue f = Some (None, f)"
  by (simp add: Fifo_dequeue_def)

lemma fifo_ok_read_index:
  assumes "fifo_ok sm f" shows "read_index f \<le> MBOX_RAM_SIZE sm"
proof (rule ccontr)
  assume "\<not> read_index f \<le> MBOX_RAM_SIZE sm"
  then have "MBOX_RAM_SIZE sm + 4 \<le> read_index f"
    using assms below_multiple_room [of "MBOX_RAM_SIZE sm" "read_index f"] mbox_size_facts(1) by (simp add: fifo_ok_def)
  then show False using assms by (simp add: fifo_ok_def)
qed

lemma fifo_ok_enqueue:
  assumes "fifo_ok sm f" shows "\<exists>g. Fifo_enqueue element f = Some g \<and> fifo_ok sm g"
proof (cases "write_index f < MBOX_RAM_SIZE sm")
  case True
  moreover have "write_index f + 4 \<le> MBOX_RAM_SIZE sm"
    using True assms below_multiple_room mbox_size_facts(1) by (simp add: fifo_ok_def)
  ultimately show ?thesis using assms Fifo_enqueue_room [OF assms] by (simp add: fifo_ok_def)
qed (use assms Fifo_enqueue_full in \<open>auto simp: not_less\<close>)

lemma fifo_ok_dequeue:
  assumes "fifo_ok sm f" shows "\<exists>x g. Fifo_dequeue f = Some (x, g) \<and> fifo_ok sm g"
  using assms Fifo_dequeue_word [OF assms] Fifo_dequeue_end [of f]
  by (cases "read_index f < unat (latched_dlen f)") (auto simp: fifo_ok_def not_less)

lemma fifo_ok_latch: "fifo_ok sm f \<Longrightarrow> fifo_ok sm (latch_dlen (unat len) (Fifo_reset f))" for len :: u32
  using unat_of_nat_mbox [of "MBOX_RAM_SIZE sm" sm] by (auto simp: latch_dlen_def Fifo_reset_def fifo_ok_def ucast_id)

lemma fifo_ok_reset: "fifo_ok sm f \<Longrightarrow> fifo_ok sm (Fifo_reset f)"
  by (simp add: Fifo_reset_def fifo_ok_def)

lemma fifo_ok_new: "fifo_ok sm (Fifo_new (MailboxRam_new sm))"
  by (simp add: fifo_ok_def Fifo_new_def MailboxRam_new_def Ram_new_def)

lemmas ctx_action_defs = ctx_is_not_locked_def ctx_is_locked_def init_dlen_def ctx_set_cmd_def ctx_lock_def
  ctx_unlock_def ctx_dequeue_def ctx_enqueue_def unlock_and_reset_def

lemma mbox_machine_ok_event:
  assumes "mbox_machine_ok sm m"
  shows "\<exists>m'. mbox_process_event event m = Some m' \<and> mbox_machine_ok sm m'"
proof -
  obtain state c where m: "m = (state, c)" by (cases m)
  note ok = assms [unfolded m mbox_machine_ok_def, simplified]
  obtain x g where g: "Fifo_dequeue (mb_fifo c) = Some (x, g)" "fifo_ok sm g"
    using fifo_ok_dequeue ok by blast
  obtain h where h: "Fifo_enqueue w (mb_fifo c) = Some (h w)" "fifo_ok sm (h w)" for w
    using fifo_ok_enqueue ok by metis
  show ?thesis
    using ok
    by (cases state; cases event)
      (simp_all add: m mbox_process_event_def mbox_machine_ok_def ctx_action_defs fifo_ok_latch fifo_ok_reset g h Let_def)
qed

text \<open>An access that is answered and keeps the invariant.\<close>

definition answers :: "bool \<Rightarrow> (MailboxRegs, 'a) action \<Rightarrow> MailboxRegs \<Rightarrow> bool" where
  "answers sm m r \<longleftrightarrow> (\<exists>x t. m r = (Ok x, t) \<and> mbox_machine_ok sm (mb_machine t))"

definition mb_next :: "MboxEvents \<Rightarrow> MboxStates \<times> MboxContext \<Rightarrow> MboxStates \<times> MboxContext" where
  "mb_next event m = (case mbox_process_event event m of None \<Rightarrow> m | Some m' \<Rightarrow> m')"

lemma mbox_machine_ok_next: "mbox_machine_ok sm m \<Longrightarrow> mbox_machine_ok sm (mb_next event m)"
  using mbox_machine_ok_event [of sm m event] by (auto simp: mb_next_def)

lemma deliver_next:
  "mbox_machine_ok sm (mb_machine r) \<Longrightarrow> deliver event r = (Ok (Inr ()), r\<lparr>mb_machine := mb_next event (mb_machine r)\<rparr>)"
  using mbox_machine_ok_event [of sm "mb_machine r" event] by (auto simp: mb_next_def deliver_def)

lemmas mbox_reg_defs = mbox_read_def mbox_write_def mb_reg_def read_lock_def read_user_def read_cmd_def
  read_dlen_def read_dout_def read_status_def read_unlock_def mb_write_cmd_def mb_write_dlen_def write_din_def
  write_ex_def write_status_def write_unlock_def write_tap_mode_def

lemma answers_read: "mbox_machine_ok sm (mb_machine r) \<Longrightarrow> answers sm (mbox_read reg) r"
  by (cases reg) (simp_all add: answers_def mbox_reg_defs deliver_next [where sm = sm] mbox_machine_ok_next)

lemma mbox_machine_ok_status: "mbox_machine_ok sm m \<Longrightarrow> mbox_machine_ok sm (fst m, snd m\<lparr>mb_status := v\<rparr>)"
  by (simp add: mbox_machine_ok_def)

lemma answers_write: "mbox_machine_ok sm (mb_machine r) \<Longrightarrow> answers sm (mbox_write reg val) r"
  by (cases reg) (simp_all add: answers_def mbox_reg_defs deliver_next [where sm = sm] mbox_machine_ok_next
      mbox_machine_ok_status)

lemma answers_port:
  assumes "\<And>s. mbox_machine_ok sm (mb_machine s) \<Longrightarrow> answers sm m s" "mbox_machine_ok sm (mb_machine r)"
  shows "answers sm (mbox_port user m) r"
  using assms(1) [of "r\<lparr>mb_requester := user\<rparr>"] assms(2)
  by (auto simp: answers_def mbox_port_def uc_def soc_def split: MailboxRequester.splits)

lemma answers_done: "answers sm m r \<Longrightarrow> answers sm (bindE m (\<lambda>_. ret ())) r"
  by (auto simp: answers_def bindE_Ok)

lemma answers_access: "mbox_machine_ok sm (mb_machine r) \<Longrightarrow> answers sm (mbox_access user a) r"
  by (cases a) (auto simp: mbox_access_def intro!: answers_done answers_port answers_read answers_write)

lemma mbox_machine_ok_sram:
  assumes "mbox_machine_ok sm (mb_machine r)" "sram_write sz addr val r = (Ok x, t)"
  shows "mbox_machine_ok sm (mb_machine t)"
proof (cases "Ram_write (fifo_ram (mb_fifo (mb_ctx r))) sz addr val")
  case (Inr ram)
  then have "length (ram_data ram) = length (ram_data (fifo_ram (mb_fifo (mb_ctx r))))"
    "ram_aligned ram = ram_aligned (fifo_ram (mb_fifo (mb_ctx r)))"
    "error_injection ram = error_injection (fifo_ram (mb_fifo (mb_ctx r)))"
    using Ram_write_keeps by blast+
  with Inr assms show ?thesis by (auto simp: sram_write_def Let_def mbox_machine_ok_def fifo_ok_def)
qed (use assms in \<open>simp add: sram_write_def Let_def\<close>)

lemma mbox_reachable_ok: "mbox_reachable sm r \<Longrightarrow> mbox_machine_ok sm (mb_machine r)"
proof (induction rule: mbox_reachable.induct)
  case mbox_init
  show ?case by (simp add: MailboxRegs_new_def MboxContext_new_def mbox_machine_ok_def fifo_ok_new)
next
  case (mbox_reg r user a t)
  then show ?case using answers_access [of sm r user a] by (simp add: answers_def)
next
  case (mbox_sram r sz addr val x t)
  then show ?case using mbox_machine_ok_sram by blast
qed (auto simp: get_notif_irq_def split: if_splits)

lemma answers_run: "mbox_machine_ok sm (mb_machine r) \<Longrightarrow> answers sm (mbox_run accesses) r"
proof (induction accesses arbitrary: r)
  case (Cons ua accesses)
  obtain user a where ua: "ua = (user, a)" by (cases ua)
  obtain t where "mbox_access user a r = (Ok (), t)" "mbox_machine_ok sm (mb_machine t)"
    using answers_access [OF Cons.prems, of user a] by (auto simp: answers_def)
  then show ?case using Cons.IH [of t] by (simp add: ua answers_def bindE_Ok)
qed (simp add: answers_def)

section \<open>The lock\<close>

text \<open>An access that may end the transaction of \<open>owner\<close>.\<close>

definition mbox_releases :: "MailboxRequester \<Rightarrow> MailboxRequester \<times> MboxAccess \<Rightarrow> bool" where
  "mbox_releases owner ua = (case ua of
      (user, MboxWrite MBOX_UNLOCK _) \<Rightarrow> True
    | (user, MboxWrite MBOX_EXECUTE val) \<Rightarrow> user = owner \<and> val AND 1 = 0
    | _ \<Rightarrow> False)"

definition held_by :: "MailboxRequester \<Rightarrow> MailboxRegs \<Rightarrow> bool" where
  "held_by owner r \<longleftrightarrow> mb_state r \<noteq> MbIdle \<and> mb_user (mb_ctx r) = owner"

definition stuck :: "MailboxRegs \<Rightarrow> bool" where
  "stuck r \<longleftrightarrow> mb_state r = MbIdle \<and> mb_locked (mb_ctx r) = 1"

lemma next_keeps_owner:
  assumes "mbox_machine_ok sm m" "fst m \<noteq> MbIdle" "event \<notin> {WrUnlock, SocExecClear, UcExecClear}"
  shows "fst (mb_next event m) \<noteq> MbIdle \<and> mb_user (snd (mb_next event m)) = mb_user (snd m)"
  using assms
  by (cases m; cases "fst m"; cases event)
    (auto simp: mb_next_def mbox_process_event_def ctx_action_defs split: option.splits)

lemma next_stuck: "fst m = MbIdle \<Longrightarrow> mb_locked (snd m) = 1 \<Longrightarrow> mb_next event m = m"
  by (cases m; cases event) (auto simp: mb_next_def mbox_process_event_def ctx_action_defs)

text \<open>
  The state after an access depends on the accessor only through the requester; the requester itself
  is Caliptra again afterwards.
\<close>

lemma mbox_port_run:
  "mbox_port user m r = (x, t) \<Longrightarrow>
     \<exists>s. m (r\<lparr>mb_requester := user\<rparr>) = (x, s) \<and> mb_machine t = mb_machine s"
  by (auto simp: mbox_port_def uc_def soc_def split: MailboxRequester.splits prod.splits)

lemma read_keeps_owner:
  assumes "mbox_machine_ok sm (mb_machine r)" "held_by owner r" "mbox_read reg r = (x, t)"
  shows "held_by owner t"
  using assms next_keeps_owner [OF assms(1)]
  by (cases reg) (auto simp: held_by_def mbox_reg_defs deliver_next [OF assms(1)])

lemma write_keeps_owner:
  assumes "mbox_machine_ok sm (mb_machine r)" "held_by owner r" "mbox_write reg val r = (x, t)"
    and "\<not> mbox_releases owner (mb_requester r, MboxWrite reg val)"
  shows "held_by owner t"
proof -
  note own = assms(2) [unfolded held_by_def]
  note keep = next_keeps_owner [OF assms(1) conjunct1 [OF own], THEN conjunct1]
    next_keeps_owner [OF assms(1) conjunct1 [OF own], THEN conjunct2]
  show ?thesis
    using assms(1,3,4) own
    by (cases reg) (auto simp: held_by_def mbox_reg_defs deliver_next [where sm = sm]
        mbox_releases_def keep Let_def split: if_splits MailboxRequester.splits)
qed

lemma access_keeps_owner:
  assumes "mbox_machine_ok sm (mb_machine r)" "held_by owner r" "mbox_access user a r = (Ok (), t)"
    and "\<not> mbox_releases owner (user, a)"
  shows "held_by owner t"
proof -
  let ?r = "r\<lparr>mb_requester := user\<rparr>"
  have r: "mbox_machine_ok sm (mb_machine ?r)" "held_by owner ?r" using assms by (simp_all add: held_by_def)
  show ?thesis
  proof (cases a)
    case (MboxRead reg)
    then obtain x where "mbox_port user (mbox_read reg) r = (Ok x, t)"
      using assms(3) by (auto simp: mbox_access_def bindE_eq_Ok)
    then show ?thesis
      using mbox_port_run [of user "mbox_read reg" r] read_keeps_owner [OF r] by (fastforce simp: held_by_def)
  next
    case (MboxWrite reg val)
    then obtain x where "mbox_port user (mbox_write reg val) r = (Ok x, t)"
      using assms(3) by (auto simp: mbox_access_def bindE_eq_Ok)
    then show ?thesis
      using mbox_port_run [of user "mbox_write reg val" r] write_keeps_owner [OF r] assms(4) MboxWrite
      by (fastforce simp: held_by_def)
  qed
qed

lemma run_keeps_owner:
  assumes "mbox_machine_ok sm (mb_machine r)" "held_by owner r" "mbox_run accesses r = (Ok (), t)"
    and "\<not> list_ex (mbox_releases owner) accesses"
  shows "held_by owner t \<and> mbox_machine_ok sm (mb_machine t)"
  using assms
proof (induction accesses arbitrary: r)
  case (Cons ua accesses)
  obtain user a where ua: "ua = (user, a)" by (cases ua)
  with Cons.prems obtain s where s: "mbox_access user a r = (Ok (), s)" "mbox_run accesses s = (Ok (), t)"
    by (auto simp: bindE_eq_Ok)
  moreover have "mbox_machine_ok sm (mb_machine s)"
    using answers_access [OF Cons.prems(1), of user a] s by (simp add: answers_def)
  ultimately show ?case
    using Cons.IH access_keeps_owner [OF Cons.prems(1,2)] Cons.prems(4) ua by simp
qed simp

lemma read_lock_run:
  assumes "mbox_machine_ok sm (mb_machine r)"
  shows "mbox_port user read_lock r = (Ok (Inr (if mb_state r = MbIdle then 0 else 1)),
    r\<lparr>mb_machine := mb_next (RdMboxLock user) (mb_machine r), mb_requester := Caliptra\<rparr>)"
  using assms by (cases user) (simp_all add: mbox_port_def uc_def soc_def read_lock_def deliver_next [where sm = sm])

lemma next_rd_lock:
  "mb_next (RdMboxLock user) m = (if fst m = MbIdle \<and> mb_locked (snd m) \<noteq> 1 then (MbRdyForCmd, ctx_lock user (snd m)) else m)"
  by (cases m; cases "fst m") (auto simp: mb_next_def mbox_process_event_def ctx_is_not_locked_def)

lemma read_stuck:
  assumes "mbox_machine_ok sm (mb_machine r)" "stuck r" "mbox_read reg r = (x, t)"
  shows "mb_machine t = mb_machine r"
  using assms next_stuck [of "mb_machine r"]
  by (cases reg) (auto simp: stuck_def mbox_reg_defs deliver_next [OF assms(1)])

lemma write_stuck:
  assumes "mbox_machine_ok sm (mb_machine r)" "stuck r" "mbox_write reg val r = (x, t)"
  shows "stuck t \<and> mb_cmd (mb_ctx t) = mb_cmd (mb_ctx r)"
  using assms next_stuck [of "mb_machine r"]
  by (cases reg) (auto simp: stuck_def mbox_reg_defs deliver_next [where sm = sm] Let_def
      split: if_splits MailboxRequester.splits)

lemma access_stuck:
  assumes "mbox_machine_ok sm (mb_machine r)" "stuck r" "mbox_access user a r = (Ok (), t)"
  shows "stuck t \<and> mb_cmd (mb_ctx t) = mb_cmd (mb_ctx r)"
proof -
  let ?r = "r\<lparr>mb_requester := user\<rparr>"
  have r: "mbox_machine_ok sm (mb_machine ?r)" "stuck ?r" using assms by (simp_all add: stuck_def)
  show ?thesis
  proof (cases a)
    case (MboxRead reg)
    then obtain x where "mbox_port user (mbox_read reg) r = (Ok x, t)"
      using assms(3) by (auto simp: mbox_access_def bindE_eq_Ok)
    then show ?thesis
      using mbox_port_run [of user "mbox_read reg" r] read_stuck [OF r] assms(2) by (fastforce simp: stuck_def)
  next
    case (MboxWrite reg val)
    then obtain x where "mbox_port user (mbox_write reg val) r = (Ok x, t)"
      using assms(3) by (auto simp: mbox_access_def bindE_eq_Ok)
    then show ?thesis
      using mbox_port_run [of user "mbox_write reg val" r] write_stuck [OF r] by (fastforce simp: stuck_def)
  qed
qed

lemma run_stuck:
  assumes "mbox_machine_ok sm (mb_machine r)" "stuck r"
  shows "\<exists>t. mbox_run accesses r = (Ok (), t) \<and> mbox_machine_ok sm (mb_machine t) \<and> stuck t \<and>
    mb_cmd (mb_ctx t) = mb_cmd (mb_ctx r)"
  using assms
proof (induction accesses arbitrary: r)
  case (Cons ua accesses)
  obtain user a where ua: "ua = (user, a)" by (cases ua)
  obtain s where s: "mbox_access user a r = (Ok (), s)" "mbox_machine_ok sm (mb_machine s)"
    using answers_access [OF Cons.prems(1), of user a] by (auto simp: answers_def)
  then show ?case
    using Cons.IH [OF s(2)] access_stuck [OF Cons.prems s(1)] by (auto simp: ua bindE_Ok)
qed simp

section \<open>Properties\<close>

text \<open>C14: Every access of the microcontroller and of a user of the SoC to any mailbox register, in every
  state that any interleaving of accesses, direct writes to the memory and interrupt polls can reach,
  is answered without a panic; the write index and the read index of the FIFO stay inside the memory,
  the read index moreover less than a word past the latched length, and whenever a transaction is under
  way the lock is set.\<close>

theorem mbox_accesses_safe:
  assumes "mbox_reachable subsystem_mode r"
  shows "(\<exists>t. mbox_access user a r = (Ok (), t)) \<and>
    write_index (mb_fifo (mb_ctx r)) \<le> MBOX_RAM_SIZE subsystem_mode \<and>
    read_index (mb_fifo (mb_ctx r)) \<le> MBOX_RAM_SIZE subsystem_mode \<and>
    read_index (mb_fifo (mb_ctx r)) < unat (latched_dlen (mb_fifo (mb_ctx r))) + 4 \<and>
    unat (latched_dlen (mb_fifo (mb_ctx r))) \<le> MBOX_RAM_SIZE subsystem_mode \<and>
    length (ram_data (fifo_ram (mb_fifo (mb_ctx r)))) = MBOX_RAM_SIZE subsystem_mode \<and>
    (mb_state r = MbIdle \<or> mb_locked (mb_ctx r) = 1)"
proof -
  note ok = mbox_reachable_ok [OF assms]
  then have fifo: "fifo_ok subsystem_mode (mb_fifo (mb_ctx r))" by (simp add: mbox_machine_ok_def)
  show ?thesis
    using answers_access [OF ok, of user a] ok fifo fifo_ok_read_index [OF fifo]
    by (auto simp: answers_def mbox_machine_ok_def fifo_ok_def)
qed

theorem mbox_accesses_safe_witness:
  "\<exists>t. mbox_access (SocUser 7) (MboxWrite MBOX_DATAIN 1) (MailboxRegs_new (MailboxRam_new True)) = (Ok (), t)"
  using mbox_accesses_safe [OF mbox_init, of "SocUser 7" "MboxWrite MBOX_DATAIN 1" True] by blast

text \<open>C13: The mailbox lock excludes other users. A user that reads a free lock as 0 owns the mailbox, and
  through any interleaving of accesses in which nobody writes the unlock register and the owner does
  not clear the execute bit, the transaction stays open, the user register names the owner, and
  every user that reads the lock reads 1 and changes nothing.\<close>

theorem mbox_lock_exclusive:
  assumes "mbox_reachable subsystem_mode r" "mb_locked (mb_ctx r) = 0"
    and "mbox_port owner read_lock r = (Ok (Inr 0), s)" "\<not> list_ex (mbox_releases owner) accesses"
  shows "\<exists>t. mbox_run accesses s = (Ok (), t) \<and> mb_state t \<noteq> MbIdle \<and>
    (\<forall>user. mbox_port user read_lock t = (Ok (Inr 1), t\<lparr>mb_requester := Caliptra\<rparr>)) \<and>
    (\<forall>user. mbox_port user read_user t = (Ok (Inr (requester_u32 owner)), t\<lparr>mb_requester := Caliptra\<rparr>))"
proof -
  note ok = mbox_reachable_ok [OF assms(1)]
  have s: "s = r\<lparr>mb_machine := mb_next (RdMboxLock owner) (mb_machine r), mb_requester := Caliptra\<rparr>" "mb_state r = MbIdle"
    using assms(3) read_lock_run [OF ok, of owner] by (auto split: if_splits)
  then have ok_s: "mbox_machine_ok subsystem_mode (mb_machine s)" using mbox_machine_ok_next [OF ok] by simp
  have held: "held_by owner s" using s assms(2) by (simp add: held_by_def next_rd_lock ctx_lock_def)
  obtain t where t: "mbox_run accesses s = (Ok (), t)"
    using answers_run [OF ok_s, of accesses] by (auto simp: answers_def)
  note t = t run_keeps_owner [OF ok_s held t assms(4)]
  have "mbox_port user read_user t = (Ok (Inr (requester_u32 owner)), t\<lparr>mb_requester := Caliptra\<rparr>)" for user
    using t(2) by (cases user) (simp_all add: mbox_port_def uc_def soc_def read_user_def mb_reg_def held_by_def)
  then show ?thesis
    using t read_lock_run [of subsystem_mode t] by (simp add: held_by_def next_rd_lock)
qed

theorem mbox_lock_exclusive_witness:
  "\<exists>s t. mbox_port (SocUser 1) read_lock (MailboxRegs_new (MailboxRam_new False)) = (Ok (Inr 0), s) \<and>
     mbox_run [(SocUser 1, MboxWrite MBOX_CMD 5), (Caliptra, MboxRead MBOX_LOCK), (Caliptra, MboxWrite MBOX_EXECUTE 0)] s
       = (Ok (), t) \<and> mbox_port Caliptra read_lock t = (Ok (Inr 1), t\<lparr>mb_requester := Caliptra\<rparr>)"
proof -
  let ?r = "MailboxRegs_new (MailboxRam_new False)"
  have "mb_locked (mb_ctx ?r) = 0" "mb_state ?r = MbIdle"
    by (simp_all add: MailboxRegs_new_def MboxContext_new_def)
  then obtain s where s: "mbox_port (SocUser 1) read_lock ?r = (Ok (Inr 0), s)"
    using read_lock_run [OF mbox_reachable_ok [OF mbox_init [of False]], of "SocUser 1"] by simp
  then show ?thesis
    using mbox_lock_exclusive [OF mbox_init [of False] \<open>mb_locked (mb_ctx ?r) = 0\<close> s,
        of "[(SocUser 1, MboxWrite MBOX_CMD 5), (Caliptra, MboxRead MBOX_LOCK), (Caliptra, MboxWrite MBOX_EXECUTE 0)]"]
    by (auto simp: mbox_releases_def simp del: mbox_run.simps)
qed

text \<open>C34: The transition from the state that awaits the data length to the idle state on a write of the
  unlock register does not release the lock: after it, whatever accesses follow, the machine is idle,
  every user that reads the lock is told that it has it, and no command is ever accepted.\<close>

theorem mbox_unlock_before_dlen_wedges:
  assumes "mbox_reachable subsystem_mode r" "mb_state r = MbRdyForDlen"
    and "mbox_access user (MboxWrite MBOX_UNLOCK val) r = (Ok (), s)"
  shows "\<exists>t. mbox_run accesses s = (Ok (), t) \<and> mb_state t = MbIdle \<and> mb_cmd (mb_ctx t) = mb_cmd (mb_ctx r) \<and>
    (\<forall>other. \<exists>u. mbox_port other read_lock t = (Ok (Inr 0), u) \<and> mb_state u = MbIdle)"
proof -
  note ok = mbox_reachable_ok [OF assms(1)]
  obtain c where r: "mb_machine r = (MbRdyForDlen, c)" using assms(2) by (cases "mb_machine r") auto
  have "mb_machine s = (MbIdle, c)"
    using assms(3) r
    by (auto simp: mbox_access_def mbox_port_def uc_def soc_def mbox_write_def write_unlock_def deliver_def
        mbox_process_event_def bindE_def split: MailboxRequester.splits)
  then have s: "mbox_machine_ok subsystem_mode (mb_machine s)" "stuck s" "mb_cmd (mb_ctx s) = mb_cmd (mb_ctx r)"
    using ok r by (auto simp: mbox_machine_ok_def stuck_def)
  obtain t where t: "mbox_run accesses s = (Ok (), t)" "mbox_machine_ok subsystem_mode (mb_machine t)" "stuck t"
      "mb_cmd (mb_ctx t) = mb_cmd (mb_ctx s)"
    using run_stuck [OF s(1,2)] by blast
  then show ?thesis using s read_lock_run [OF t(2)] by (simp add: stuck_def next_rd_lock)
qed

theorem mbox_unlock_before_dlen_wedges_witness:
  "\<exists>r s t. mbox_run [(Caliptra, MboxRead MBOX_LOCK), (Caliptra, MboxWrite MBOX_CMD 5)]
       (MailboxRegs_new (MailboxRam_new False)) = (Ok (), r) \<and>
     mbox_access Caliptra (MboxWrite MBOX_UNLOCK 1) r = (Ok (), s) \<and>
     mbox_run [(SocUser 1, MboxRead MBOX_LOCK), (SocUser 1, MboxWrite MBOX_CMD 6)] s = (Ok (), t) \<and> mb_state t = MbIdle"
proof -
  let ?n = "MailboxRegs_new (MailboxRam_new False)"
  define r where "r = ?n\<lparr>mb_machine := (MbRdyForDlen, ctx_set_cmd 5 (ctx_lock Caliptra (mb_ctx ?n)))\<rparr>"
  define q where "q = ?n\<lparr>mb_machine := (MbRdyForCmd, ctx_lock Caliptra (mb_ctx ?n))\<rparr>"
  have q: "mbox_access Caliptra (MboxRead MBOX_LOCK) ?n = (Ok (), q)"
    by (simp add: q_def MailboxRegs_new_def mbox_access_def mbox_port_def uc_def mbox_read_def read_lock_def deliver_def
        mbox_process_event_def bindE_def ctx_is_not_locked_def MboxContext_new_def)
  have r: "mbox_access Caliptra (MboxWrite MBOX_CMD 5) q = (Ok (), r)"
    by (simp add: q_def r_def MailboxRegs_new_def mbox_access_def mbox_port_def uc_def mbox_write_def mb_write_cmd_def
        deliver_def mbox_process_event_def bindE_def)
  have "mbox_reachable False r" using mbox_init [of False] q r by (meson mbox_reg)
  moreover from this obtain s where s: "mbox_access Caliptra (MboxWrite MBOX_UNLOCK 1) r = (Ok (), s)"
    using answers_access [OF mbox_reachable_ok] by (fastforce simp: answers_def)
  ultimately obtain t where
    "mbox_run [(SocUser 1, MboxRead MBOX_LOCK), (SocUser 1, MboxWrite MBOX_CMD 6)] s = (Ok (), t)" "mb_state t = MbIdle"
    using mbox_unlock_before_dlen_wedges [of False r Caliptra 1 s] by (auto simp: r_def simp del: mbox_run.simps)
  moreover have "mbox_run [(Caliptra, MboxRead MBOX_LOCK), (Caliptra, MboxWrite MBOX_CMD 5)] ?n = (Ok (), r)"
    using q r by (simp add: bindE_Ok)
  ultimately show ?thesis using s by blast
qed

end
