(* ===== verification/Blocks.thy ===== *)
theory Blocks
  imports Bytes
begin

unbundle bit_operations_syntax

text \<open>
  Merkle-Damgard hashing as the reference for the SHA drivers and peripherals: a message is
  padded to whole blocks and the compression function, a parameter, is folded over them.
  \<open>absorb\<close> is the fold over the first \<open>k\<close> blocks; \<open>absorb_append\<close> is what a streaming
  implementation relies on. \<open>swap4\<close> is the byte swap of every 4-byte chunk
  (\<^verbatim>\<open>change_endianess\<close> of \<^verbatim>\<open>sw-emulator/lib/crypto/src/helpers.rs\<close>).
\<close>

section \<open>Folding over blocks\<close>

definition nth_block :: "nat \<Rightarrow> 'a list \<Rightarrow> nat \<Rightarrow> 'a list" where
  "nth_block B bs i = take B (drop (B * i) bs)"

definition absorb :: "('h \<Rightarrow> u8 list \<Rightarrow> 'h) \<Rightarrow> nat \<Rightarrow> 'h \<Rightarrow> nat \<Rightarrow> u8 list \<Rightarrow> 'h" where
  "absorb compress B h k bs = foldl compress h (map (nth_block B bs) [0..<k])"

lemma absorb_0 [simp]: "absorb c B h 0 bs = h"
  by (simp add: absorb_def)

lemma absorb_Suc: "absorb c B h (Suc k) bs = c (absorb c B h k bs) (nth_block B bs k)"
  by (simp add: absorb_def)

lemma nth_block_append: "B * Suc i \<le> length bs \<Longrightarrow> nth_block B (bs @ cs) i = nth_block B bs i"
  by (simp add: nth_block_def)

lemma absorb_append: "B * k \<le> length bs \<Longrightarrow> absorb c B h k (bs @ cs) = absorb c B h k bs"
proof (induction k)
  case (Suc k)
  have "B * k \<le> length bs" using Suc.prems by simp
  then show ?case using Suc by (simp only: absorb_Suc nth_block_append)
qed simp

lemma nth_block_drop: "nth_block B (drop (B * k) bs) i = nth_block B bs (k + i)"
  by (simp add: nth_block_def algebra_simps)

lemma absorb_add: "absorb c B h (k + m) bs = absorb c B (absorb c B h k bs) m (drop (B * k) bs)"
  by (induction m) (simp_all add: absorb_Suc nth_block_drop)

lemma absorb_cong: "take (B * k) bs = take (B * k) cs \<Longrightarrow> absorb c B h k bs = absorb c B h k cs"
proof (induction k)
  case (Suc k)
  have "take (B * k) (take (B * Suc k) bs) = take (B * k) (take (B * Suc k) cs)" using Suc.prems by simp
  then have "take (B * k) bs = take (B * k) cs" by (simp add: min_absorb1)
  moreover have "nth_block B bs k = nth_block B cs k"
  proof -
    have "nth_block B xs k = drop (B * k) (take (B * Suc k) xs)" for xs :: "u8 list"
      by (simp add: nth_block_def drop_take)
    then show ?thesis using Suc.prems by simp
  qed
  ultimately show ?case using Suc.IH by (simp add: absorb_Suc)
qed simp

section \<open>Padding\<close>

text \<open>
  The padding of SHA-2: a one bit, the least number of zero bytes, and the length in bits in
  \<open>L\<close> big-endian bytes, up to a multiple of the block size \<open>B\<close>.
\<close>

definition be_nat :: "nat \<Rightarrow> nat \<Rightarrow> u8 list" where
  "be_nat n v = rev (map (\<lambda>i. of_nat (v div 256 ^ i)) [0..<n])"

definition pad_zeros :: "nat \<Rightarrow> nat \<Rightarrow> nat \<Rightarrow> nat" where
  "pad_zeros B L len = (B - (len + 1 + L) mod B) mod B"

definition sha_pad :: "nat \<Rightarrow> nat \<Rightarrow> u8 list \<Rightarrow> u8 list" where
  "sha_pad B L msg = msg @ [0x80] @ replicate (pad_zeros B L (length msg)) 0 @ be_nat L (8 * length msg)"

definition sha_ref :: "('h \<Rightarrow> u8 list \<Rightarrow> 'h) \<Rightarrow> nat \<Rightarrow> nat \<Rightarrow> 'h \<Rightarrow> u8 list \<Rightarrow> 'h" where
  "sha_ref compress B L iv msg =
     absorb compress B iv (length (sha_pad B L msg) div B) (sha_pad B L msg)"

lemma length_be_nat [simp]: "length (be_nat n v) = n"
  by (simp add: be_nat_def)

lemma length_sha_pad: "length (sha_pad B L msg) = length msg + 1 + L + pad_zeros B L (length msg)"
  by (simp add: sha_pad_def)

lemma add_complement_dvd: "0 < B \<Longrightarrow> (B::nat) dvd n + (B - n mod B) mod B"
proof (cases "n mod B = 0")
  case False
  assume "0 < B"
  then have "n mod B < B" by simp
  with False have "n + (B - n mod B) mod B = n - n mod B + B" by simp
  moreover have "B dvd n - n mod B" by (rule dvd_minus_mod)
  ultimately show ?thesis by (metis dvd_add_triv_right_iff)
qed auto

lemma round_up_dvd: "0 < B \<Longrightarrow> (B::nat) dvd n + (B - n mod B)"
proof -
  assume "0 < B"
  then have "n mod B < B" by simp
  then have "n + (B - n mod B) = n - n mod B + B" by simp
  then show ?thesis by (metis dvd_add_triv_right_iff dvd_minus_mod)
qed

lemma div_round_up_gt: "0 < B \<Longrightarrow> n < (n + B) div B * (B::nat)"
  using dividend_less_times_div [of B n] by (simp add: mult.commute div_add_self2)

lemma add_mod_eq_0_iff:
  "0 < k \<Longrightarrow> k \<le> B \<Longrightarrow> (n + k) mod B = 0 \<longleftrightarrow> n mod B = B - (k::nat)"
proof -
  assume k: "0 < k" "k \<le> B"
  then have r: "n mod B < B" by simp
  have "(n + k) mod B = (n mod B + k) mod B" by (simp add: mod_add_left_eq)
  also have "\<dots> = (if n mod B + k < B then n mod B + k else n mod B + k - B)"
  proof (cases "n mod B + k < B")
    case False
    moreover have "n mod B + k - B < B" using k r by linarith
    ultimately show ?thesis by (simp add: le_mod_geq)
  qed simp
  finally show ?thesis using k r by auto
qed

lemma sha_pad_dvd: "0 < B \<Longrightarrow> B dvd length (sha_pad B L msg)"
  unfolding length_sha_pad pad_zeros_def by (rule add_complement_dvd)

lemma pad_zeros_lt: "0 < B \<Longrightarrow> pad_zeros B L len < B"
  by (simp add: pad_zeros_def)

section \<open>Byte swaps of 4-byte chunks\<close>

fun swap4 :: "u8 list \<Rightarrow> u8 list" where
  "swap4 (a # b # c # d # rest) = d # c # b # a # swap4 rest"
| "swap4 bs = bs"

lemma length_swap4 [simp]: "length (swap4 bs) = length bs"
  by (induction bs rule: swap4.induct) auto

lemma swap4_swap4 [simp]: "swap4 (swap4 bs) = bs"
proof (induction bs rule: swap4.induct)
  case (1 a b c d rest)
  then show ?case by simp
qed auto

lemma swap4_append: "4 dvd length bs \<Longrightarrow> swap4 (bs @ cs) = swap4 bs @ swap4 cs"
proof (induction bs rule: swap4.induct)
  case (1 a b c d rest)
  have "4 dvd length rest" using "1.prems" dvd_add_right_iff [of 4 4 "length rest"] by (simp add: numeral_eq_Suc)
  then show ?case using 1 by simp
qed (auto dest: dvd_imp_le)

lemma swap4_be32 [simp]: "swap4 (be32 w) = le32 w"
proof -
  have "le32 w = [le32 w ! 0, le32 w ! 1, le32 w ! 2, le32 w ! 3]"
    by (rule nth_equalityI) (auto simp: less_Suc_eq numeral_eq_Suc)
  then show ?thesis by (simp add: be_bytes_def) (metis append.left_neutral append_Cons rev.simps swap4.simps(1) swap4.simps(2))
qed

section \<open>Lengths in big-endian bytes\<close>

lemma le_bytes_of_nat:
  assumes "LENGTH('a) = 8 * n"
  shows "le_bytes n (of_nat v :: 'a::len word) = map (\<lambda>i. of_nat (v div 256 ^ i)) [0..<n]"
proof (rule nth_equalityI)
  fix i assume "i < length (le_bytes n (of_nat v :: 'a word))"
  then have i: "i < n" by simp
  have "ucast (drop_bit (8 * i) (of_nat v :: 'a word)) = (of_nat (v div 256 ^ i) :: u8)"
  proof (rule bit_word_eqI)
    fix j assume "j < LENGTH(8)"
    then have j: "j < 8" by simp
    then have "8 * i + j < LENGTH('a)" using i assms by simp
    then have "bit (ucast (drop_bit (8 * i) (of_nat v :: 'a word)) :: u8) j = bit v (8 * i + j)"
      using j by (simp add: bit_simps)
    also have "\<dots> = bit (v div 256 ^ i) j"
    proof -
      have "(256::nat) ^ i = 2 ^ (8 * i)" by (simp add: power_mult)
      then have "v div 256 ^ i = drop_bit (8 * i) v" by (simp add: drop_bit_eq_div)
      then show ?thesis by (simp add: bit_simps)
    qed
    also have "\<dots> = bit (of_nat (v div 256 ^ i) :: u8) j" using j by (simp add: bit_simps)
    finally show "bit (ucast (drop_bit (8 * i) (of_nat v :: 'a word)) :: u8) j =
      bit (of_nat (v div 256 ^ i) :: u8) j" .
  qed
  with i show "le_bytes n (of_nat v :: 'a word) ! i = map (\<lambda>i. of_nat (v div 256 ^ i)) [0..<n] ! i"
    by (simp add: nth_le_bytes)
qed simp

lemma be_bytes_of_nat: "LENGTH('a) = 8 * n \<Longrightarrow> be_bytes n (of_nat v :: 'a::len word) = be_nat n v"
  by (simp add: be_bytes_def be_nat_def le_bytes_of_nat)

lemma swap4_concat_be32: "swap4 (concat (map be32 ws)) = concat (map le32 ws)"
  by (induction ws) (simp_all add: swap4_append)

lemma concat_le32_be: "length blk = 4 * W \<Longrightarrow> concat (map le32 (u8_to_u32_be W blk)) = swap4 blk"
  by (metis swap4_concat_be32 u32_be_to_u8_def u32_be_to_u8_inverse)

lemma length_concat_le32 [simp]: "length (concat (map le32 ws)) = 4 * length ws"
  by (induction ws) auto

lemma swap4_u32_le: "swap4 (u32_le_to_u8 ws) = u32_be_to_u8 ws"
  using swap4_concat_be32 [of ws] by (simp add: u32_le_to_u8_def u32_be_to_u8_def flip: swap4_concat_be32)

end
