(* ===== verification/WordChannel.thy ===== *)
theory WordChannel
  imports EmuBus Blocks
begin

unbundle bit_operations_syntax

text \<open>
  Bytes over a channel of words. The firmware and the SoC both move byte buffers through a pair of word
  registers: whole words first, the rest in a last word that is zero-padded on the way in and cut on
  the way out. \<open>put_bytes\<close> and \<open>get_bytes\<close> are those loops over the accesses of a channel, and the locale
  \<open>word_channel\<close> is the contract of the channel under which they transfer exactly the buffer.
\<close>

section \<open>Loops\<close>

primrec put_words :: "(u32 \<Rightarrow> ('s, unit) action) \<Rightarrow> u32 list \<Rightarrow> ('s, unit) action" where
  "put_words put [] = ret ()"
| "put_words put (w # ws) = bindE (put w) (\<lambda>_. put_words put ws)"

primrec get_words :: "('s, u32) action \<Rightarrow> nat \<Rightarrow> ('s, u32 list) action" where
  "get_words get 0 = ret []"
| "get_words get (Suc n) = bindE get (\<lambda>w. bindE (get_words get n) (\<lambda>ws. ret (w # ws)))"

definition put_bytes :: "(u32 \<Rightarrow> ('s, unit) action) \<Rightarrow> u8 list \<Rightarrow> ('s, unit) action" where
  "put_bytes put buf =
     (let count = length buf div 4; suffix = drop (4 * count) buf
      in bindE (put_words put (u8_to_u32_le count buf)) (\<lambda>_.
         if suffix \<noteq> [] \<and> length suffix \<le> 4
         then put_words put [from_le_bytes (suffix @ replicate (4 - length suffix) 0)]
         else ret ()))"

definition get_bytes :: "('s, u32) action \<Rightarrow> nat \<Rightarrow> ('s, u8 list) action" where
  "get_bytes get len =
     (let len_words = len div 4; suffix_len = len - 4 * len_words
      in bindE (get_words get len_words) (\<lambda>words.
         if suffix_len \<noteq> 0 \<and> suffix_len \<le> 4
         then bindE get (\<lambda>last_word. ret (concat (map le32 words) @ take suffix_len (le32 last_word)))
         else ret (concat (map le32 words))))"

section \<open>The words of a buffer\<close>

definition byte_words :: "u8 list \<Rightarrow> u32 list" where
  "byte_words buf = u8_to_u32_le ((length buf + 3) div 4) buf"

lemma length_byte_words: "length (byte_words buf) = (length buf + 3) div 4"
  by (simp add: byte_words_def)

lemma from_le_bytes_zeros: "from_le_bytes (bs @ replicate n 0) = (from_le_bytes bs :: 'a::len word)"
  by (rule bit_word_eqI) (auto simp: bit_from_le_bytes nth_append)

lemma u8_to_u32_le_take: "4 * n \<le> length bs \<Longrightarrow> u8_to_u32_le n (take (4 * n) bs) = u8_to_u32_le n bs"
  by (rule nth_equalityI) (auto simp: u8_to_u32_le_def take_drop min_def)

lemma u8_to_u32_le_append:
  "u8_to_u32_le (m + n) bs = u8_to_u32_le m bs @ u8_to_u32_le n (drop (4 * m) bs)"
  by (rule nth_equalityI) (auto simp: u8_to_u32_le_def nth_append algebra_simps)

lemma byte_words_split:
  "byte_words buf = u8_to_u32_le (length buf div 4) buf @
     (if length buf mod 4 = 0 then [] else [from_le_bytes (drop (4 * (length buf div 4)) buf)])"
proof (cases "length buf mod 4 = 0")
  case True
  then have "(length buf + 3) div 4 = length buf div 4" by presburger
  with True show ?thesis by (simp add: byte_words_def)
next
  case False
  then have n: "(length buf + 3) div 4 = length buf div 4 + 1" by presburger
  have "length (drop (4 * (length buf div 4)) buf) \<le> 4"
    by (simp add: minus_mult_div_eq_mod [symmetric, of "length buf" 4] less_imp_le)
  then show ?thesis
    using False unfolding byte_words_def n u8_to_u32_le_append by (simp add: u8_to_u32_le_def)
qed

lemma le32_from_short:
  assumes "length bs \<le> 4"
  shows "le32 (from_le_bytes bs) = bs @ replicate (4 - length bs) 0"
  using le_from_le_bytes [of "bs @ replicate (4 - length bs) 0" 4, where 'a = 32] assms
  by (simp add: from_le_bytes_zeros)

lemma concat_byte_words:
  "concat (map le32 (byte_words buf)) = buf @ replicate (4 * length (byte_words buf) - length buf) 0"
proof -
  let ?k = "length buf div 4"
  have whole: "concat (map le32 (u8_to_u32_le ?k buf)) = take (4 * ?k) buf"
    using u32_le_to_u8_inverse [of "take (4 * ?k) buf" ?k] u8_to_u32_le_take [of ?k buf]
    by (simp add: u32_le_to_u8_def)
  show ?thesis
  proof (cases "length buf mod 4 = 0")
    case True
    then have "4 * ?k = length buf" by presburger
    then show ?thesis using whole True by (simp add: byte_words_split [of buf])
  next
    case False
    let ?s = "drop (4 * ?k) buf"
    have s: "length ?s = length buf mod 4" by (simp add: minus_mult_div_eq_mod)
    then have "length ?s \<le> 4" by simp
    from le32_from_short [OF this] s have "le32 (from_le_bytes ?s) = ?s @ replicate (4 - length buf mod 4) 0" by simp
    moreover have "4 * (?k + 1) - length buf = 4 - length buf mod 4" by presburger
    ultimately show ?thesis using whole False by (simp add: byte_words_split [of buf])
  qed
qed

lemma take_byte_words [simp]: "take (length buf) (concat (map le32 (byte_words buf))) = buf"
  by (simp add: concat_byte_words)

lemma bindE_ret_right: "bindE m ret = m"
  by (auto simp: bindE_def fun_eq_iff split: prod.splits outcome.splits)

lemma put_words_append: "put_words put (xs @ ys) = bindE (put_words put xs) (\<lambda>_. put_words put ys)"
  by (induction xs) (simp_all only: put_words.simps append_Nil append_Cons bindE_ret bindE_assoc)

lemma put_bytes_words: "put_bytes put buf = put_words put (byte_words buf)"
proof -
  have "length (drop (4 * (length buf div 4)) buf) = length buf mod 4" by (simp add: minus_mult_div_eq_mod)
  then show ?thesis
    unfolding byte_words_split put_words_append put_bytes_def Let_def from_le_bytes_zeros by (auto simp: less_imp_le)
qed

lemma get_words_append:
  "get_words get (m + n) = bindE (get_words get m) (\<lambda>xs. bindE (get_words get n) (\<lambda>ys. ret (xs @ ys)))"
  by (induction m) (auto simp: bindE_def fun_eq_iff split: prod.splits outcome.splits)

lemma length_get_words: "get_words get n s = (Ok ws, t) \<Longrightarrow> length ws = n"
  by (induction n arbitrary: s ws) (auto simp: bindE_eq_Ok)

lemma get_bytes_words:
  "get_bytes get len = bindE (get_words get ((len + 3) div 4)) (\<lambda>ws. ret (take len (concat (map le32 ws))))"
proof (cases "len mod 4 = 0")
  case True
  then have n: "(len + 3) div 4 = len div 4" and "len - 4 * (len div 4) = 0" by presburger+
  then have len: "len = 4 * (len div 4)" by simp
  have "get_words get (len div 4) s = (Ok ws, t) \<Longrightarrow> take len (concat (map le32 ws)) = concat (map le32 ws)" for s ws t
    using length_get_words [of get "len div 4" s ws t] len by simp
  then show ?thesis using n len
    by (auto simp: get_bytes_def fun_eq_iff bindE_def split: prod.splits outcome.splits)
next
  case False
  then have n: "(len + 3) div 4 = len div 4 + 1" "len - 4 * (len div 4) \<noteq> 0" "len - 4 * (len div 4) \<le> 4" by presburger+
  have "get_words get (len div 4) s = (Ok ws, t) \<Longrightarrow>
      take len (concat (map le32 (ws @ [w]))) = concat (map le32 ws) @ take (len - 4 * (len div 4)) (le32 w)" for s ws t w
    using length_get_words [of get "len div 4" s ws t] by simp
  then show ?thesis unfolding n(1) get_words_append using n(2,3)
    by (auto simp: get_bytes_def fun_eq_iff bindE_def Let_def split: prod.splits outcome.splits)
qed

section \<open>The contract of a channel\<close>

text \<open>
  \<open>room\<close> is the number of words the channel still accepts and \<open>content\<close> the words it still holds for
  reading; \<open>pushed\<close> and \<open>pulled\<close> are the states after words have been written and read.
\<close>

locale word_channel =
  fixes put :: "u32 \<Rightarrow> ('s, unit) action" and get :: "('s, u32) action"
    and room :: "'s \<Rightarrow> nat" and content :: "'s \<Rightarrow> u32 list"
    and pushed :: "u32 list \<Rightarrow> 's \<Rightarrow> 's" and pulled :: "nat \<Rightarrow> 's \<Rightarrow> 's"
  assumes pushed_Nil: "pushed [] s = s" and pulled_0: "pulled 0 s = s"
    and put_word: "0 < room s \<Longrightarrow> put w s = (Ok (), pushed [w] s)"
    and room_pushed: "0 < room s \<Longrightarrow> room (pushed [w] s) = room s - 1"
    and pushed_Cons: "length ws < room s \<Longrightarrow> pushed ws (pushed [w] s) = pushed (w # ws) s"
    and get_word: "content s = w # ws \<Longrightarrow> get s = (Ok w, pulled 1 s)"
    and content_pulled: "content s = w # ws \<Longrightarrow> content (pulled 1 s) = ws"
    and pulled_Suc: "n < length (content s) \<Longrightarrow> pulled n (pulled 1 s) = pulled (Suc n) s"
begin

lemma put_words_run: "length ws \<le> room s \<Longrightarrow> put_words put ws s = (Ok (), pushed ws s)"
proof (induction ws arbitrary: s)
  case (Cons w ws)
  then have "put_words put ws (pushed [w] s) = (Ok (), pushed ws (pushed [w] s))"
    by (simp add: room_pushed)
  with Cons.prems show ?case by (simp add: put_word bindE_Ok pushed_Cons)
qed (simp add: pushed_Nil)

lemma get_words_run: "n \<le> length (content s) \<Longrightarrow> get_words get n s = (Ok (take n (content s)), pulled n s)"
proof (induction n arbitrary: s)
  case (Suc n)
  then obtain w ws where c: "content s = w # ws" by (cases "content s") auto
  with Suc have "get_words get n (pulled 1 s) = (Ok (take n ws), pulled n (pulled 1 s))"
    using content_pulled [OF c] by simp
  with c Suc.prems show ?case using pulled_Suc [of n s] get_word [OF c] by (simp add: bindE_Ok)
qed (simp add: pulled_0)

lemma put_bytes_run:
  "(length buf + 3) div 4 \<le> room s \<Longrightarrow> put_bytes put buf s = (Ok (), pushed (byte_words buf) s)"
  by (simp add: put_bytes_words put_words_run length_byte_words)

lemma get_bytes_run:
  assumes "content s = byte_words buf"
  shows "get_bytes get (length buf) s = (Ok buf, pulled (length (byte_words buf)) s)"
  using get_words_run [of "length (byte_words buf)" s] assms
  by (simp add: get_bytes_words bindE_Ok length_byte_words [symmetric])

end

end
