(* ===== verification/MailboxChannel.thy ===== *)
theory MailboxChannel
  imports MailboxPeriph WordChannel
begin

unbundle bit_operations_syntax

text \<open>
  The data registers of the mailbox as a channel. \<open>port_reg\<close> is a register access of the
  microcontroller or of a user of the SoC as its code sees it; under the invariant every access has a
  closed form. For every accessor the data registers meet the contract \<open>word_channel\<close>: the words
  written are the bytes of the memory from the write index, the words read those from the read index
  up to the latched length.
\<close>

section \<open>Register accesses\<close>

definition port_reg :: "MailboxRequester \<Rightarrow> 'a mbox_io \<Rightarrow> (MailboxRegs, 'a) action" where
  "port_reg user m = mmio (mbox_port user m)"

definition mbox_live :: "bool \<Rightarrow> MailboxRegs \<Rightarrow> bool" where
  "mbox_live sm r \<longleftrightarrow> mbox_machine_ok sm (mb_machine r) \<and> mb_requester r = Caliptra"

named_theorems port_simps \<open>closed forms of the register accesses\<close>

lemma port_reg_run:
  assumes "mb_requester r = Caliptra" "m (r\<lparr>mb_requester := user\<rparr>) = (Ok (Inr x), t)" "mb_requester t = user"
  shows "port_reg user m r = (Ok x, t\<lparr>mb_requester := Caliptra\<rparr>)"
proof (cases user)
  case Caliptra
  have "t\<lparr>mb_requester := Caliptra\<rparr> = t" using assms(3) Caliptra by simp
  then show ?thesis using assms Caliptra by (simp add: port_reg_def mbox_port_def uc_def mmio_def)
qed (use assms in \<open>simp_all add: port_reg_def mbox_port_def soc_def mmio_def\<close>)

lemma same_requester: "mb_requester r = u \<Longrightarrow> r\<lparr>mb_requester := u\<rparr> = r"
  by simp

lemma port_deliver [port_simps]:
  assumes "mbox_live sm r"
  shows "port_reg user (deliver event) r = (Ok (), r\<lparr>mb_machine := mb_next event (mb_machine r)\<rparr>)"
  using port_reg_run [of r "deliver event" user "()"] deliver_next [of sm "r\<lparr>mb_requester := user\<rparr>" event] assms
  by (simp add: mbox_live_def)

lemma port_mb_reg [port_simps]:
  "mbox_live sm r \<Longrightarrow> port_reg user (mb_reg f) r = (Ok (f (r\<lparr>mb_requester := user\<rparr>)), r)"
  using port_reg_run [of r "mb_reg f" user] by (simp add: mbox_live_def mb_reg_def)

lemma port_read_lock [port_simps]:
  assumes "mbox_live sm r"
  shows "port_reg user read_lock r = (Ok (if mb_state r = MbIdle then 0 else 1),
    r\<lparr>mb_machine := mb_next (RdMboxLock user) (mb_machine r)\<rparr>)"
  using port_reg_run [of r read_lock user] deliver_next [of sm "r\<lparr>mb_requester := user\<rparr>"] assms
  by (simp add: mbox_live_def read_lock_def)

lemma port_read_dout [port_simps]:
  assumes "mbox_live sm r"
  shows "port_reg user read_dout r = (Ok (mb_data_out (snd (mb_next DataRead (mb_machine r)))),
    r\<lparr>mb_machine := mb_next DataRead (mb_machine r)\<rparr>)"
  using port_reg_run [of r read_dout user] deliver_next [of sm "r\<lparr>mb_requester := user\<rparr>"] assms
  by (simp add: mbox_live_def read_dout_def)

lemma port_write_status [port_simps]:
  assumes "mbox_live sm r" and m: "m = mb_next SetStatus (mb_machine r)"
  shows "port_reg user (write_status val) r =
    (Ok (), r\<lparr>mb_machine := (fst m, (snd m)\<lparr>mb_status := field_read 0 4 val\<rparr>)\<rparr>)"
  using port_reg_run [of r "write_status val" user] deliver_next [of sm "r\<lparr>mb_requester := user\<rparr>"] assms
  by (simp add: mbox_live_def write_status_def)

lemma port_write_ex [port_simps]:
  assumes "mbox_live sm r" "mb_user (mb_ctx r) = user"
  shows "port_reg user (write_ex val) r = (Ok (), r\<lparr>mb_irq := True, mb_execute := val,
    mb_machine := mb_next (case user of
        Caliptra \<Rightarrow> if val AND 1 \<noteq> 0 then UcExecSet else UcExecClear
      | SocUser _ \<Rightarrow> if val AND 1 \<noteq> 0 then SocExecSet else SocExecClear) (mb_machine r)\<rparr>)"
  using port_reg_run [of r "write_ex val" user]
    deliver_next [of sm "r\<lparr>mb_requester := user, mb_irq := True\<rparr>"] assms
  by (simp add: mbox_live_def write_ex_def Let_def)

lemma port_other_regs [port_simps]:
  assumes "mbox_live sm r"
  shows "port_reg user read_cmd r = (Ok (mb_cmd (mb_ctx r)), r)"
    "port_reg user read_dlen r = (Ok (mb_dlen (mb_ctx r)), r)"
    "port_reg user read_user r = (Ok (requester_u32 (mb_user (mb_ctx r))), r)"
    "port_reg user read_status r = (Ok (field_modify 6 3 (fsm_value (mb_state r)) (mb_status (mb_ctx r))), r)"
    "port_reg user (mb_write_cmd w) r = (Ok (), r\<lparr>mb_machine := mb_next (CmdWrite w) (mb_machine r)\<rparr>)"
    "port_reg user (mb_write_dlen w) r = (Ok (), r\<lparr>mb_machine := mb_next (DlenWrite w) (mb_machine r)\<rparr>)"
    "port_reg user (write_din w) r = (Ok (), r\<lparr>mb_machine := mb_next (DataWrite w) (mb_machine r)\<rparr>)"
    "port_reg user (write_unlock w) r = (Ok (), r\<lparr>mb_machine := mb_next WrUnlock (mb_machine r)\<rparr>)"
  using assms
  by (simp_all add: read_cmd_def read_dlen_def read_user_def read_status_def mb_write_cmd_def mb_write_dlen_def
      write_din_def write_unlock_def port_deliver [OF assms] port_mb_reg [OF assms])

lemma mbox_live_next [simp]:
  "mbox_live sm r \<Longrightarrow> mbox_live sm (r\<lparr>mb_machine := mb_next event (mb_machine r)\<rparr>)"
  by (simp add: mbox_live_def mbox_machine_ok_next)

section \<open>The channel\<close>

definition mb_room :: "bool \<Rightarrow> MailboxRegs \<Rightarrow> nat" where
  "mb_room sm r =
     (if mbox_live sm r \<and> mb_state r \<in> {MbRdyForData, MbExecUc, MbExecSoc}
      then (MBOX_RAM_SIZE sm - write_index (mb_fifo (mb_ctx r))) div 4 else 0)"

definition mb_content :: "bool \<Rightarrow> MailboxRegs \<Rightarrow> u32 list" where
  "mb_content sm r = (let f = mb_fifo (mb_ctx r) in
     if mbox_live sm r \<and> mb_state r \<in> {MbExecUc, MbExecSoc}
     then u8_to_u32_le ((unat (latched_dlen f) - read_index f + 3) div 4) (drop (read_index f) (ram_data (fifo_ram f)))
     else [])"

definition mb_pushed :: "u32 list \<Rightarrow> MailboxRegs \<Rightarrow> MailboxRegs" where
  "mb_pushed ws r = (let c = mb_ctx r; f = mb_fifo c; i = write_index f; data = ram_data (fifo_ram f) in
     r\<lparr>mb_machine := (mb_state r, c\<lparr>mb_fifo := f\<lparr>fifo_ram := (fifo_ram f)\<lparr>ram_data :=
         take i data @ concat (map le32 ws) @ drop (i + 4 * length ws) data\<rparr>,
       write_index := i + 4 * length ws\<rparr>\<rparr>)\<rparr>)"

definition mb_pulled :: "nat \<Rightarrow> MailboxRegs \<Rightarrow> MailboxRegs" where
  "mb_pulled n r = (let c = mb_ctx r; f = mb_fifo c in
     if n = 0 then r
     else r\<lparr>mb_machine := (mb_state r, c\<lparr>mb_fifo := f\<lparr>read_index := read_index f + 4 * n\<rparr>,
       mb_data_out := from_le_bytes (take 4 (drop (read_index f + 4 * (n - 1)) (ram_data (fifo_ram f))))\<rparr>)\<rparr>)"

lemma next_data_write:
  assumes "mbox_live sm r" "0 < mb_room sm r"
  shows "r\<lparr>mb_machine := mb_next (DataWrite w) (mb_machine r)\<rparr> = mb_pushed [w] r"
proof -
  obtain st c where m: "mb_machine r = (st, c)" by (cases "mb_machine r")
  have "fifo_ok sm (mb_fifo c)" "write_index (mb_fifo c) < MBOX_RAM_SIZE sm" "st \<in> {MbRdyForData, MbExecUc, MbExecSoc}"
    using assms m by (auto simp: mb_room_def mbox_live_def mbox_machine_ok_def split: if_splits)
  then show ?thesis
    using Fifo_enqueue_room [of sm "mb_fifo c" w]
    by (auto simp: m mb_next_def mbox_process_event_def ctx_enqueue_def mb_pushed_def Let_def)
qed

lemma mb_room_step:
  assumes "mbox_live sm r" "0 < mb_room sm r"
  shows "mb_room sm (mb_pushed [w] r) = mb_room sm r - 1"
proof -
  have "mbox_live sm (mb_pushed [w] r)"
    using mbox_live_next [OF assms(1)] next_data_write [OF assms] by metis
  moreover have "4 dvd MBOX_RAM_SIZE sm - write_index (mb_fifo (mb_ctx r))"
    using assms mbox_size_facts(1) by (simp add: mbox_live_def mbox_machine_ok_def fifo_ok_def)
  ultimately show ?thesis using assms(2) by (auto simp: mb_room_def mb_pushed_def Let_def split: if_splits elim!: dvdE)
qed

lemma mb_pushed_Cons:
  assumes "length ws < mb_room sm r"
  shows "mb_pushed ws (mb_pushed [w] r) = mb_pushed (w # ws) r"
proof -
  have "write_index (mb_fifo (mb_ctx r)) \<le> length (ram_data (fifo_ram (mb_fifo (mb_ctx r))))"
    using assms by (auto simp: mb_room_def mbox_live_def mbox_machine_ok_def fifo_ok_def split: if_splits)
  then show ?thesis by (simp add: mb_pushed_def Let_def algebra_simps)
qed

lemma word_count_step: "0 < k \<Longrightarrow> (k + 3) div 4 = Suc ((k - 4 + 3) div (4::nat))"
  by presburger

lemma next_data_read:
  assumes "mb_content sm r = w # ws"
  shows "mbox_live sm r" "mb_data_out (snd (mb_next DataRead (mb_machine r))) = w"
    "r\<lparr>mb_machine := mb_next DataRead (mb_machine r)\<rparr> = mb_pulled 1 r" "mb_content sm (mb_pulled 1 r) = ws"
proof -
  obtain st c where m: "mb_machine r = (st, c)" by (cases "mb_machine r")
  define f where "f = mb_fifo c"
  have r: "mbox_live sm r" "st \<in> {MbExecUc, MbExecSoc}"
    and w: "u8_to_u32_le ((unat (latched_dlen f) - read_index f + 3) div 4) (drop (read_index f) (ram_data (fifo_ram f)))
      = w # ws"
    using assms m by (auto simp: mb_content_def Let_def f_def split: if_splits)
  have fok: "fifo_ok sm f" using r(1) m by (simp add: mbox_live_def mbox_machine_ok_def f_def)
  have ri: "read_index f < unat (latched_dlen f)"
    using arg_cong [OF w, of length] by (cases "read_index f < unat (latched_dlen f)") auto
  define n where "n = (unat (latched_dlen f) - (read_index f + 4) + 3) div 4"
  have k: "(unat (latched_dlen f) - read_index f + 3) div 4 = Suc n"
    using word_count_step [of "unat (latched_dlen f) - read_index f"] ri by (simp add: n_def)
  have w': "w = from_le_bytes (take 4 (drop (read_index f) (ram_data (fifo_ram f))))"
      "ws = u8_to_u32_le n (drop (read_index f + 4) (ram_data (fifo_ram f)))"
    using w [unfolded k u8_to_u32_le_Suc] by (simp_all add: add.commute)
  note deq = Fifo_dequeue_word [OF fok ri]
  show live: "mbox_live sm r" by fact
  show out: "mb_data_out (snd (mb_next DataRead (mb_machine r))) = w"
    using r(2) deq w' by (auto simp: m mb_next_def mbox_process_event_def ctx_dequeue_def f_def)
  show nxt: "r\<lparr>mb_machine := mb_next DataRead (mb_machine r)\<rparr> = mb_pulled 1 r"
    using r(2) deq w' by (auto simp: m mb_next_def mbox_process_event_def ctx_dequeue_def f_def mb_pulled_def Let_def)
  have "mbox_live sm (mb_pulled 1 r)" using mbox_live_next [OF live] nxt by metis
  then show "mb_content sm (mb_pulled 1 r) = ws"
    using r(2) w' by (auto simp: mb_content_def mb_pulled_def m Let_def f_def n_def)
qed

lemma mb_pulled_Suc: "mb_pulled n (mb_pulled 1 r) = mb_pulled (Suc n) r"
  by (cases n) (simp_all add: mb_pulled_def Let_def algebra_simps)

text \<open>The channel of one accessor, and of the two directions: any accessor writes and any accessor reads.\<close>

interpretation mb: word_channel "\<lambda>w. port_reg user (write_din w)" "port_reg user read_dout"
  "mb_room sm" "mb_content sm" mb_pushed mb_pulled for user sm
proof unfold_locales
  fix r w ws n
  have live: "mbox_live sm r" if "0 < mb_room sm r" using that by (auto simp: mb_room_def split: if_splits)
  show "mb_pushed [] r = r" by (simp add: mb_pushed_def Let_def)
  show "mb_pulled 0 r = r" by (simp add: mb_pulled_def)
  show "port_reg user (write_din w) r = (Ok (), mb_pushed [w] r)" if "0 < mb_room sm r"
    using port_other_regs(7) [OF live [OF that]] next_data_write [OF live [OF that] that] by simp
  show "mb_room sm (mb_pushed [w] r) = mb_room sm r - 1" if "0 < mb_room sm r"
    using mb_room_step [OF live [OF that] that] .
  show "mb_pushed ws (mb_pushed [w] r) = mb_pushed (w # ws) r" if "length ws < mb_room sm r"
    using mb_pushed_Cons [OF that] .
  show "port_reg user read_dout r = (Ok w, mb_pulled 1 r)" if "mb_content sm r = w # ws"
    using port_read_dout [OF next_data_read(1) [OF that]] next_data_read(2,3) [OF that] by simp
  show "mb_content sm (mb_pulled 1 r) = ws" if "mb_content sm r = w # ws" using next_data_read(4) [OF that] .
  show "mb_pulled n (mb_pulled 1 r) = mb_pulled (Suc n) r" by (rule mb_pulled_Suc)
qed

lemma mbox_live_pushed:
  assumes "mbox_live sm r" "length ws \<le> mb_room sm r"
  shows "mbox_live sm (mb_pushed ws r)"
  using assms
proof (induction ws arbitrary: r)
  case (Cons w ws)
  have "mbox_live sm (mb_pushed [w] r)"
    using mbox_live_next [OF Cons.prems(1)] next_data_write [OF Cons.prems(1), of w] Cons.prems(2) by (metis length_greater_0_conv list.distinct(1) less_le_trans)
  then show ?case using Cons.IH [of "mb_pushed [w] r"] Cons.prems mb_room_step [of sm r w] mb_pushed_Cons [of ws sm r w] by simp
qed (simp add: mb.pushed_Nil)

lemma mbox_live_pulled: "n \<le> length (mb_content sm r) \<Longrightarrow> mbox_live sm r \<Longrightarrow> mbox_live sm (mb_pulled n r)"
proof (induction n arbitrary: r)
  case (Suc n)
  then obtain w ws where c: "mb_content sm r = w # ws" by (cases "mb_content sm r") auto
  have "mbox_live sm (mb_pulled 1 r)" using mbox_live_next [OF Suc.prems(2)] next_data_read(3) [OF c] by metis
  then show ?case using Suc.IH [of "mb_pulled 1 r"] Suc.prems next_data_read(4) [OF c] c mb_pulled_Suc [of n r] by simp
qed (simp add: mb.pulled_0)

text \<open>What a buffer looks like on the other side once the machine executes.\<close>

lemma mb_content_of_bytes:
  assumes "mbox_live sm r" "mb_state r \<in> {MbExecUc, MbExecSoc}" "read_index (mb_fifo (mb_ctx r)) = 0"
    "unat (latched_dlen (mb_fifo (mb_ctx r))) = length buf"
    "take (4 * length (byte_words buf)) (ram_data (fifo_ram (mb_fifo (mb_ctx r)))) = concat (map le32 (byte_words buf))"
  shows "mb_content sm r = byte_words buf"
proof -
  let ?d = "ram_data (fifo_ram (mb_fifo (mb_ctx r)))" and ?n = "(length buf + 3) div 4"
  have "4 * ?n \<le> length ?d"
    using arg_cong [OF assms(5), of length] by (simp add: length_byte_words)
  then have "u8_to_u32_le ?n ?d = u8_to_u32_le ?n (u32_le_to_u8 (byte_words buf))"
    using u8_to_u32_le_take [of ?n ?d] assms(5) by (simp add: length_byte_words u32_le_to_u8_def)
  then show ?thesis
    using assms u8_to_u32_le_inverse [of "byte_words buf" ?n] by (simp add: mb_content_def Let_def length_byte_words)
qed

section \<open>Filling the mailbox\<close>

text \<open>\<open>mb_loaded buf\<close>: the FIFO holds exactly the buffer, unread. \<open>mb_filled buf\<close>: the mailbox after its
  length and its words have been written.\<close>

definition mb_loaded :: "u8 list \<Rightarrow> MboxContext \<Rightarrow> bool" where
  "mb_loaded buf c \<longleftrightarrow> (let f = mb_fifo c in
     unat (mb_dlen c) = length buf \<and> unat (latched_dlen f) = length buf \<and> read_index f = 0 \<and>
     take (4 * length (byte_words buf)) (ram_data (fifo_ram f)) = concat (map le32 (byte_words buf)))"

definition mb_filled :: "u8 list \<Rightarrow> MailboxRegs \<Rightarrow> MailboxRegs" where
  "mb_filled buf r = mb_pushed (byte_words buf)
     (r\<lparr>mb_machine := mb_next (DlenWrite (of_nat (length buf))) (mb_machine r)\<rparr>)"

lemmas mb_next_defs = mb_next_def mbox_process_event_def ctx_action_defs

lemma mb_content_loaded:
  "mbox_live sm r \<Longrightarrow> mb_state r \<in> {MbExecUc, MbExecSoc} \<Longrightarrow> mb_loaded buf (mb_ctx r) \<Longrightarrow> mb_content sm r = byte_words buf"
  by (rule mb_content_of_bytes) (auto simp: mb_loaded_def Let_def)

lemma mb_loaded_bytes:
  assumes "mb_loaded buf c" shows "take (length buf) (ram_data (fifo_ram (mb_fifo c))) = buf"
proof -
  have "length buf \<le> 4 * length (byte_words buf)" by (simp add: length_byte_words)
  then have "take (length buf) (ram_data (fifo_ram (mb_fifo c))) =
      take (length buf) (take (4 * length (byte_words buf)) (ram_data (fifo_ram (mb_fifo c))))" by (simp add: min_def)
  then show ?thesis using assms by (simp add: mb_loaded_def Let_def del: take_take)
qed

lemma mb_filled_parts:
  assumes "mbox_live sm r" "mb_state r \<in> {MbRdyForDlen, MbExecUc, MbExecSoc}" "length buf \<le> MBOX_RAM_SIZE sm"
  shows "put_bytes (\<lambda>w. port_reg user (write_din w)) buf
      (r\<lparr>mb_machine := mb_next (DlenWrite (of_nat (length buf))) (mb_machine r)\<rparr>) = (Ok (), mb_filled buf r)"
    and "mbox_live sm (mb_filled buf r)" and "mb_loaded buf (mb_ctx (mb_filled buf r))"
proof -
  let ?r = "r\<lparr>mb_machine := mb_next (DlenWrite (of_nat (length buf))) (mb_machine r)\<rparr>"
  obtain st c where m: "mb_machine r = (st, c)" by (cases "mb_machine r")
  have len: "unat (of_nat (length buf) :: u32) = length buf" by (rule unat_of_nat_mbox [OF assms(3)])
  have live: "mbox_live sm ?r" using assms(1) by simp
  then have cap: "fifo_ok sm (mb_fifo (mb_ctx ?r))" by (simp add: mbox_live_def mbox_machine_ok_def)
  have shape: "mb_state ?r \<in> {MbRdyForData, MbExecUc, MbExecSoc}" "mb_dlen (mb_ctx ?r) = of_nat (length buf)"
    "latched_dlen (mb_fifo (mb_ctx ?r)) = of_nat (length buf)"
    "read_index (mb_fifo (mb_ctx ?r)) = 0" "write_index (mb_fifo (mb_ctx ?r)) = 0"
    using assms m len
    by (auto simp: mb_next_defs latch_dlen_def Fifo_reset_def mbox_live_def mbox_machine_ok_def fifo_ok_def)
  have room: "length (byte_words buf) \<le> mb_room sm ?r"
    using live shape assms(3) mbox_size_facts(1) [of sm] by (auto simp: mb_room_def length_byte_words elim!: dvdE)
  then show "put_bytes (\<lambda>w. port_reg user (write_din w)) buf ?r = (Ok (), mb_filled buf r)"
    by (simp add: mb_filled_def mb.put_bytes_run [where sm = sm] length_byte_words)
  show "mbox_live sm (mb_filled buf r)" unfolding mb_filled_def by (rule mbox_live_pushed [OF live room])
  show "mb_loaded buf (mb_ctx (mb_filled buf r))"
    using shape len by (simp add: mb_loaded_def mb_filled_def mb_pushed_def Let_def)
qed

lemma mb_filled_keeps:
  assumes "mb_state r \<in> {MbRdyForDlen, MbExecUc, MbExecSoc}"
  shows "mb_state (mb_filled buf r) = (if mb_state r = MbRdyForDlen then MbRdyForData else mb_state r)"
    "mb_user (mb_ctx (mb_filled buf r)) = mb_user (mb_ctx r)" "mb_cmd (mb_ctx (mb_filled buf r)) = mb_cmd (mb_ctx r)"
    "mb_locked (mb_ctx (mb_filled buf r)) = mb_locked (mb_ctx r)" "mb_status (mb_ctx (mb_filled buf r)) = mb_status (mb_ctx r)"
  using assms by (cases "mb_machine r"; auto simp: mb_filled_def mb_pushed_def Let_def mb_next_defs)+

text \<open>Reading the buffer back, by any accessor.\<close>

lemma get_loaded:
  assumes "mbox_live sm r" "mb_state r \<in> {MbExecUc, MbExecSoc}" "mb_loaded buf (mb_ctx r)"
  shows "get_bytes (port_reg user read_dout) (length buf) r = (Ok buf, mb_pulled (length (byte_words buf)) r)"
    "mbox_live sm (mb_pulled (length (byte_words buf)) r)"
  using mb.get_bytes_run [OF mb_content_loaded [OF assms]] mbox_live_pulled [OF _ assms(1)] mb_content_loaded [OF assms]
  by auto

lemma mb_pulled_keeps:
  "mb_state (mb_pulled n r) = mb_state r" "mb_user (mb_ctx (mb_pulled n r)) = mb_user (mb_ctx r)"
  "mb_cmd (mb_ctx (mb_pulled n r)) = mb_cmd (mb_ctx r)" "mb_locked (mb_ctx (mb_pulled n r)) = mb_locked (mb_ctx r)"
  "mb_status (mb_ctx (mb_pulled n r)) = mb_status (mb_ctx r)" "mb_dlen (mb_ctx (mb_pulled n r)) = mb_dlen (mb_ctx r)"
  by (simp_all add: mb_pulled_def Let_def)

lemma access_requester:
  assumes "mbox_live sm r" "mbox_access user a r = (Ok (), t)"
  shows "mbox_live sm t"
proof -
  have ok: "mbox_machine_ok sm (mb_machine r)" using assms(1) by (simp add: mbox_live_def)
  have "mb_requester t = Caliptra"
    using assms(2) ok
    by (cases a; cases user)
      (auto simp: mbox_access_def mbox_port_def uc_def soc_def bindE_def mbox_reg_defs deliver_next [where sm = sm] Let_def
        split: MboxReg.splits if_splits prod.splits outcome.splits)
  then show ?thesis using answers_access [OF ok, of user a] assms(2) by (simp add: mbox_live_def answers_def)
qed

lemma mbox_reachable_live: "mbox_reachable sm r \<Longrightarrow> mbox_live sm r"
proof (induction rule: mbox_reachable.induct)
  case mbox_init
  show ?case using mbox_reachable_ok [OF mbox_reachable.mbox_init, of sm] by (simp add: mbox_live_def MailboxRegs_new_def)
next
  case (mbox_reg r user a t)
  then show ?case using access_requester by blast
next
  case (mbox_sram r sz addr val x t)
  then show ?case using mbox_machine_ok_sram [of sm r sz addr val x t]
    by (auto simp: mbox_live_def sram_write_def Let_def split: sum.splits)
qed (auto simp: mbox_live_def get_notif_irq_def split: if_splits)

end
