(* ===== verification/CaliptraError.thy ===== *)
theory CaliptraError
  imports Prelude
begin

text \<open>
  The error codes of \<^verbatim>\<open>error/src/lib.rs\<close> that the modelled components report. A
  \<^verbatim>\<open>CaliptraError\<close> is a non-zero \<^verbatim>\<open>u32\<close>; the constants keep the names and values of the
  source, as abbreviations of the numbers.
\<close>

abbreviation DRIVER_SHA256_INVALID_STATE :: u32 where
  "DRIVER_SHA256_INVALID_STATE \<equiv> 0x00020001"

abbreviation DRIVER_SHA256_MAX_DATA :: u32 where
  "DRIVER_SHA256_MAX_DATA \<equiv> 0x00020002"

abbreviation DRIVER_SHA256_INVALID_SLICE :: u32 where
  "DRIVER_SHA256_INVALID_SLICE \<equiv> 0x00020003"

abbreviation DRIVER_SHA256_INDEX_OUT_OF_BOUNDS :: u32 where
  "DRIVER_SHA256_INDEX_OUT_OF_BOUNDS \<equiv> 0x00020004"

abbreviation DRIVER_SHA2_512_384_READ_DATA_KV_READ :: u32 where
  "DRIVER_SHA2_512_384_READ_DATA_KV_READ \<equiv> 0x00030001"

abbreviation DRIVER_SHA2_512_384_READ_DATA_KV_WRITE :: u32 where
  "DRIVER_SHA2_512_384_READ_DATA_KV_WRITE \<equiv> 0x00030002"

abbreviation DRIVER_SHA2_512_384_READ_DATA_KV_UNKNOWN :: u32 where
  "DRIVER_SHA2_512_384_READ_DATA_KV_UNKNOWN \<equiv> 0x00030003"

abbreviation DRIVER_SHA2_512_384_INVALID_STATE_ERR :: u32 where
  "DRIVER_SHA2_512_384_INVALID_STATE_ERR \<equiv> 0x00030007"

abbreviation DRIVER_SHA2_512_384_MAX_DATA_ERR :: u32 where
  "DRIVER_SHA2_512_384_MAX_DATA_ERR \<equiv> 0x00030008"

abbreviation DRIVER_SHA2_512_384_INVALID_SLICE :: u32 where
  "DRIVER_SHA2_512_384_INVALID_SLICE \<equiv> 0x0003000a"

abbreviation DRIVER_SHA2_512_384_INDEX_OUT_OF_BOUNDS :: u32 where
  "DRIVER_SHA2_512_384_INDEX_OUT_OF_BOUNDS \<equiv> 0x0003000b"

abbreviation DRIVER_SHA2_512_384_ACC_DIGEST_START_OP_FAILURE :: u32 where
  "DRIVER_SHA2_512_384_ACC_DIGEST_START_OP_FAILURE \<equiv> 0x0003000c"

abbreviation DRIVER_SHA2_512_384ACC_UNEXPECTED_ACQUIRED_LOCK_STATE :: u32 where
  "DRIVER_SHA2_512_384ACC_UNEXPECTED_ACQUIRED_LOCK_STATE \<equiv> 0x00038000"

abbreviation DRIVER_ECC384_SCALAR_RANGE_CHECK_FAILED :: u32 where
  "DRIVER_ECC384_SCALAR_RANGE_CHECK_FAILED \<equiv> 0x0005000f"

abbreviation DRIVER_ECC384_HW_ERROR :: u32 where
  "DRIVER_ECC384_HW_ERROR \<equiv> 0x00050011"

abbreviation DRIVER_MLDSA87_HW_ERROR :: u32 where
  "DRIVER_MLDSA87_HW_ERROR \<equiv> 0x00058003"

abbreviation DRIVER_MLDSA87_UNSUPPORTED_SIGNATURE :: u32 where
  "DRIVER_MLDSA87_UNSUPPORTED_SIGNATURE \<equiv> 0x00058006"

abbreviation DRIVER_PCR_BANK_ERASE_WRITE_LOCK_SET_FAILURE :: u32 where
  "DRIVER_PCR_BANK_ERASE_WRITE_LOCK_SET_FAILURE \<equiv> 0x00070001"

abbreviation DRIVER_MAILBOX_INVALID_STATE :: u32 where
  "DRIVER_MAILBOX_INVALID_STATE \<equiv> 0x00080001"

abbreviation DRIVER_MAILBOX_INVALID_DATA_LEN :: u32 where
  "DRIVER_MAILBOX_INVALID_DATA_LEN \<equiv> 0x00080002"

abbreviation DRIVER_MAILBOX_ENQUEUE_ERR :: u32 where
  "DRIVER_MAILBOX_ENQUEUE_ERR \<equiv> 0x00080004"

abbreviation DRIVER_MAILBOX_UNCORRECTABLE_ECC :: u32 where
  "DRIVER_MAILBOX_UNCORRECTABLE_ECC \<equiv> 0x00080005"

abbreviation DRIVER_MAILBOX_FSM_ERROR :: u32 where
  "DRIVER_MAILBOX_FSM_ERROR \<equiv> 0x00080006"

abbreviation DRIVER_SHA2_512_384ACC_INDEX_OUT_OF_BOUNDS :: u32 where
  "DRIVER_SHA2_512_384ACC_INDEX_OUT_OF_BOUNDS \<equiv> 0x00090003"

abbreviation IMAGE_VERIFIER_ERR_MANIFEST_MARKER_MISMATCH :: u32 where
  "IMAGE_VERIFIER_ERR_MANIFEST_MARKER_MISMATCH \<equiv> 0x000b0001"

abbreviation IMAGE_VERIFIER_ERR_MANIFEST_SIZE_MISMATCH :: u32 where
  "IMAGE_VERIFIER_ERR_MANIFEST_SIZE_MISMATCH \<equiv> 0x000b0002"

abbreviation IMAGE_VERIFIER_ERR_VENDOR_PUB_KEY_DIGEST_INVALID :: u32 where
  "IMAGE_VERIFIER_ERR_VENDOR_PUB_KEY_DIGEST_INVALID \<equiv> 0x000b0003"

abbreviation IMAGE_VERIFIER_ERR_VENDOR_PUB_KEY_DIGEST_FAILURE :: u32 where
  "IMAGE_VERIFIER_ERR_VENDOR_PUB_KEY_DIGEST_FAILURE \<equiv> 0x000b0004"

abbreviation IMAGE_VERIFIER_ERR_VENDOR_PUB_KEY_DIGEST_MISMATCH :: u32 where
  "IMAGE_VERIFIER_ERR_VENDOR_PUB_KEY_DIGEST_MISMATCH \<equiv> 0x000b0005"

abbreviation IMAGE_VERIFIER_ERR_OWNER_PUB_KEY_DIGEST_FAILURE :: u32 where
  "IMAGE_VERIFIER_ERR_OWNER_PUB_KEY_DIGEST_FAILURE \<equiv> 0x000b0006"

abbreviation IMAGE_VERIFIER_ERR_OWNER_PUB_KEY_DIGEST_MISMATCH :: u32 where
  "IMAGE_VERIFIER_ERR_OWNER_PUB_KEY_DIGEST_MISMATCH \<equiv> 0x000b0007"

abbreviation IMAGE_VERIFIER_ERR_VENDOR_ECC_PUB_KEY_INDEX_OUT_OF_BOUNDS :: u32 where
  "IMAGE_VERIFIER_ERR_VENDOR_ECC_PUB_KEY_INDEX_OUT_OF_BOUNDS \<equiv> 0x000b0008"

abbreviation IMAGE_VERIFIER_ERR_VENDOR_ECC_PUB_KEY_REVOKED :: u32 where
  "IMAGE_VERIFIER_ERR_VENDOR_ECC_PUB_KEY_REVOKED \<equiv> 0x000b0009"

abbreviation IMAGE_VERIFIER_ERR_HEADER_DIGEST_FAILURE :: u32 where
  "IMAGE_VERIFIER_ERR_HEADER_DIGEST_FAILURE \<equiv> 0x000b000a"

abbreviation IMAGE_VERIFIER_ERR_VENDOR_ECC_VERIFY_FAILURE :: u32 where
  "IMAGE_VERIFIER_ERR_VENDOR_ECC_VERIFY_FAILURE \<equiv> 0x000b000b"

abbreviation IMAGE_VERIFIER_ERR_VENDOR_ECC_SIGNATURE_INVALID :: u32 where
  "IMAGE_VERIFIER_ERR_VENDOR_ECC_SIGNATURE_INVALID \<equiv> 0x000b000c"

abbreviation IMAGE_VERIFIER_ERR_VENDOR_ECC_PUB_KEY_INDEX_MISMATCH :: u32 where
  "IMAGE_VERIFIER_ERR_VENDOR_ECC_PUB_KEY_INDEX_MISMATCH \<equiv> 0x000b000d"

abbreviation IMAGE_VERIFIER_ERR_OWNER_ECC_VERIFY_FAILURE :: u32 where
  "IMAGE_VERIFIER_ERR_OWNER_ECC_VERIFY_FAILURE \<equiv> 0x000b000e"

abbreviation IMAGE_VERIFIER_ERR_OWNER_ECC_SIGNATURE_INVALID :: u32 where
  "IMAGE_VERIFIER_ERR_OWNER_ECC_SIGNATURE_INVALID \<equiv> 0x000b000f"

abbreviation IMAGE_VERIFIER_ERR_TOC_ENTRY_COUNT_INVALID :: u32 where
  "IMAGE_VERIFIER_ERR_TOC_ENTRY_COUNT_INVALID \<equiv> 0x000b0010"

abbreviation IMAGE_VERIFIER_ERR_TOC_DIGEST_FAILURE :: u32 where
  "IMAGE_VERIFIER_ERR_TOC_DIGEST_FAILURE \<equiv> 0x000b0011"

abbreviation IMAGE_VERIFIER_ERR_TOC_DIGEST_MISMATCH :: u32 where
  "IMAGE_VERIFIER_ERR_TOC_DIGEST_MISMATCH \<equiv> 0x000b0012"

abbreviation IMAGE_VERIFIER_ERR_FMC_DIGEST_FAILURE :: u32 where
  "IMAGE_VERIFIER_ERR_FMC_DIGEST_FAILURE \<equiv> 0x000b0013"

abbreviation IMAGE_VERIFIER_ERR_FMC_DIGEST_MISMATCH :: u32 where
  "IMAGE_VERIFIER_ERR_FMC_DIGEST_MISMATCH \<equiv> 0x000b0014"

abbreviation IMAGE_VERIFIER_ERR_RUNTIME_DIGEST_FAILURE :: u32 where
  "IMAGE_VERIFIER_ERR_RUNTIME_DIGEST_FAILURE \<equiv> 0x000b0015"

abbreviation IMAGE_VERIFIER_ERR_RUNTIME_DIGEST_MISMATCH :: u32 where
  "IMAGE_VERIFIER_ERR_RUNTIME_DIGEST_MISMATCH \<equiv> 0x000b0016"

abbreviation IMAGE_VERIFIER_ERR_FMC_RUNTIME_OVERLAP :: u32 where
  "IMAGE_VERIFIER_ERR_FMC_RUNTIME_OVERLAP \<equiv> 0x000b0017"

abbreviation IMAGE_VERIFIER_ERR_FMC_RUNTIME_INCORRECT_ORDER :: u32 where
  "IMAGE_VERIFIER_ERR_FMC_RUNTIME_INCORRECT_ORDER \<equiv> 0x000b0018"

abbreviation IMAGE_VERIFIER_ERR_OWNER_ECC_PUB_KEY_INVALID_ARG :: u32 where
  "IMAGE_VERIFIER_ERR_OWNER_ECC_PUB_KEY_INVALID_ARG \<equiv> 0x000b0019"

abbreviation IMAGE_VERIFIER_ERR_OWNER_ECC_SIGNATURE_INVALID_ARG :: u32 where
  "IMAGE_VERIFIER_ERR_OWNER_ECC_SIGNATURE_INVALID_ARG \<equiv> 0x000b001a"

abbreviation IMAGE_VERIFIER_ERR_VENDOR_ECC_PUB_KEY_INVALID_ARG :: u32 where
  "IMAGE_VERIFIER_ERR_VENDOR_ECC_PUB_KEY_INVALID_ARG \<equiv> 0x000b001b"

abbreviation IMAGE_VERIFIER_ERR_VENDOR_ECC_SIGNATURE_INVALID_ARG :: u32 where
  "IMAGE_VERIFIER_ERR_VENDOR_ECC_SIGNATURE_INVALID_ARG \<equiv> 0x000b001c"

abbreviation IMAGE_VERIFIER_ERR_UPDATE_RESET_OWNER_DIGEST_FAILURE :: u32 where
  "IMAGE_VERIFIER_ERR_UPDATE_RESET_OWNER_DIGEST_FAILURE \<equiv> 0x000b001d"

abbreviation IMAGE_VERIFIER_ERR_UPDATE_RESET_VENDOR_ECC_PUB_KEY_IDX_MISMATCH :: u32 where
  "IMAGE_VERIFIER_ERR_UPDATE_RESET_VENDOR_ECC_PUB_KEY_IDX_MISMATCH \<equiv> 0x000b001e"

abbreviation IMAGE_VERIFIER_ERR_UPDATE_RESET_FMC_DIGEST_MISMATCH :: u32 where
  "IMAGE_VERIFIER_ERR_UPDATE_RESET_FMC_DIGEST_MISMATCH \<equiv> 0x000b001f"

abbreviation IMAGE_VERIFIER_ERR_FMC_LOAD_ADDR_INVALID :: u32 where
  "IMAGE_VERIFIER_ERR_FMC_LOAD_ADDR_INVALID \<equiv> 0x000b0021"

abbreviation IMAGE_VERIFIER_ERR_FMC_LOAD_ADDR_UNALIGNED :: u32 where
  "IMAGE_VERIFIER_ERR_FMC_LOAD_ADDR_UNALIGNED \<equiv> 0x000b0022"

abbreviation IMAGE_VERIFIER_ERR_FMC_ENTRY_POINT_INVALID :: u32 where
  "IMAGE_VERIFIER_ERR_FMC_ENTRY_POINT_INVALID \<equiv> 0x000b0023"

abbreviation IMAGE_VERIFIER_ERR_FMC_ENTRY_POINT_UNALIGNED :: u32 where
  "IMAGE_VERIFIER_ERR_FMC_ENTRY_POINT_UNALIGNED \<equiv> 0x000b0024"

abbreviation IMAGE_VERIFIER_ERR_RUNTIME_LOAD_ADDR_INVALID :: u32 where
  "IMAGE_VERIFIER_ERR_RUNTIME_LOAD_ADDR_INVALID \<equiv> 0x000b0028"

abbreviation IMAGE_VERIFIER_ERR_RUNTIME_LOAD_ADDR_UNALIGNED :: u32 where
  "IMAGE_VERIFIER_ERR_RUNTIME_LOAD_ADDR_UNALIGNED \<equiv> 0x000b0029"

abbreviation IMAGE_VERIFIER_ERR_RUNTIME_ENTRY_POINT_INVALID :: u32 where
  "IMAGE_VERIFIER_ERR_RUNTIME_ENTRY_POINT_INVALID \<equiv> 0x000b002a"

abbreviation IMAGE_VERIFIER_ERR_RUNTIME_ENTRY_POINT_UNALIGNED :: u32 where
  "IMAGE_VERIFIER_ERR_RUNTIME_ENTRY_POINT_UNALIGNED \<equiv> 0x000b002b"

abbreviation IMAGE_VERIFIER_ERR_FIRMWARE_SVN_GREATER_THAN_MAX_SUPPORTED :: u32 where
  "IMAGE_VERIFIER_ERR_FIRMWARE_SVN_GREATER_THAN_MAX_SUPPORTED \<equiv> 0x000b002c"

abbreviation IMAGE_VERIFIER_ERR_FIRMWARE_SVN_LESS_THAN_FUSE :: u32 where
  "IMAGE_VERIFIER_ERR_FIRMWARE_SVN_LESS_THAN_FUSE \<equiv> 0x000b002e"

abbreviation IMAGE_VERIFIER_ERR_IMAGE_LEN_MORE_THAN_BUNDLE_SIZE :: u32 where
  "IMAGE_VERIFIER_ERR_IMAGE_LEN_MORE_THAN_BUNDLE_SIZE \<equiv> 0x000b002f"

abbreviation IMAGE_VERIFIER_ERR_VENDOR_PQC_PUB_KEY_INDEX_MISMATCH :: u32 where
  "IMAGE_VERIFIER_ERR_VENDOR_PQC_PUB_KEY_INDEX_MISMATCH \<equiv> 0x000b0030"

abbreviation IMAGE_VERIFIER_ERR_VENDOR_LMS_VERIFY_FAILURE :: u32 where
  "IMAGE_VERIFIER_ERR_VENDOR_LMS_VERIFY_FAILURE \<equiv> 0x000b0031"

abbreviation IMAGE_VERIFIER_ERR_VENDOR_PQC_PUB_KEY_INDEX_OUT_OF_BOUNDS :: u32 where
  "IMAGE_VERIFIER_ERR_VENDOR_PQC_PUB_KEY_INDEX_OUT_OF_BOUNDS \<equiv> 0x000b0032"

abbreviation IMAGE_VERIFIER_ERR_VENDOR_LMS_SIGNATURE_INVALID :: u32 where
  "IMAGE_VERIFIER_ERR_VENDOR_LMS_SIGNATURE_INVALID \<equiv> 0x000b0033"

abbreviation IMAGE_VERIFIER_ERR_FMC_RUNTIME_LOAD_ADDR_OVERLAP :: u32 where
  "IMAGE_VERIFIER_ERR_FMC_RUNTIME_LOAD_ADDR_OVERLAP \<equiv> 0x000b0034"

abbreviation IMAGE_VERIFIER_ERR_OWNER_LMS_VERIFY_FAILURE :: u32 where
  "IMAGE_VERIFIER_ERR_OWNER_LMS_VERIFY_FAILURE \<equiv> 0x000b0036"

abbreviation IMAGE_VERIFIER_ERR_OWNER_LMS_SIGNATURE_INVALID :: u32 where
  "IMAGE_VERIFIER_ERR_OWNER_LMS_SIGNATURE_INVALID \<equiv> 0x000b0038"

abbreviation IMAGE_VERIFIER_ERR_VENDOR_PQC_PUB_KEY_REVOKED :: u32 where
  "IMAGE_VERIFIER_ERR_VENDOR_PQC_PUB_KEY_REVOKED \<equiv> 0x000b003a"

abbreviation IMAGE_VERIFIER_ERR_FMC_SIZE_ZERO :: u32 where
  "IMAGE_VERIFIER_ERR_FMC_SIZE_ZERO \<equiv> 0x000b003b"

abbreviation IMAGE_VERIFIER_ERR_RUNTIME_SIZE_ZERO :: u32 where
  "IMAGE_VERIFIER_ERR_RUNTIME_SIZE_ZERO \<equiv> 0x000b003c"

abbreviation IMAGE_VERIFIER_ERR_UPDATE_RESET_VENDOR_PQC_PUB_KEY_IDX_MISMATCH :: u32 where
  "IMAGE_VERIFIER_ERR_UPDATE_RESET_VENDOR_PQC_PUB_KEY_IDX_MISMATCH \<equiv> 0x000b003d"

abbreviation IMAGE_VERIFIER_ERR_FMC_LOAD_ADDRESS_IMAGE_SIZE_ARITHMETIC_OVERFLOW :: u32 where
  "IMAGE_VERIFIER_ERR_FMC_LOAD_ADDRESS_IMAGE_SIZE_ARITHMETIC_OVERFLOW \<equiv> 0x000b003e"

abbreviation IMAGE_VERIFIER_ERR_RUNTIME_LOAD_ADDRESS_IMAGE_SIZE_ARITHMETIC_OVERFLOW :: u32 where
  "IMAGE_VERIFIER_ERR_RUNTIME_LOAD_ADDRESS_IMAGE_SIZE_ARITHMETIC_OVERFLOW \<equiv> 0x000b003f"

abbreviation IMAGE_VERIFIER_ERR_TOC_ENTRY_RANGE_ARITHMETIC_OVERFLOW :: u32 where
  "IMAGE_VERIFIER_ERR_TOC_ENTRY_RANGE_ARITHMETIC_OVERFLOW \<equiv> 0x000b0040"

abbreviation IMAGE_VERIFIER_ERR_DIGEST_OUT_OF_BOUNDS :: u32 where
  "IMAGE_VERIFIER_ERR_DIGEST_OUT_OF_BOUNDS \<equiv> 0x000b0041"

abbreviation IMAGE_VERIFIER_ERR_ECC_KEY_DESCRIPTOR_VERSION_MISMATCH :: u32 where
  "IMAGE_VERIFIER_ERR_ECC_KEY_DESCRIPTOR_VERSION_MISMATCH \<equiv> 0x000b0042"

abbreviation IMAGE_VERIFIER_ERR_ECC_KEY_DESCRIPTOR_HASH_COUNT_GT_MAX :: u32 where
  "IMAGE_VERIFIER_ERR_ECC_KEY_DESCRIPTOR_HASH_COUNT_GT_MAX \<equiv> 0x000b0043"

abbreviation IMAGE_VERIFIER_ERR_PQC_KEY_DESCRIPTOR_VERSION_MISMATCH :: u32 where
  "IMAGE_VERIFIER_ERR_PQC_KEY_DESCRIPTOR_VERSION_MISMATCH \<equiv> 0x000b0044"

abbreviation IMAGE_VERIFIER_ERR_PQC_KEY_DESCRIPTOR_TYPE_MISMATCH :: u32 where
  "IMAGE_VERIFIER_ERR_PQC_KEY_DESCRIPTOR_TYPE_MISMATCH \<equiv> 0x000b0045"

abbreviation IMAGE_VERIFIER_ERR_PQC_KEY_DESCRIPTOR_HASH_COUNT_GT_MAX :: u32 where
  "IMAGE_VERIFIER_ERR_PQC_KEY_DESCRIPTOR_HASH_COUNT_GT_MAX \<equiv> 0x000b0046"

abbreviation IMAGE_VERIFIER_ERR_ECC_KEY_DESCRIPTOR_INVALID_HASH_COUNT :: u32 where
  "IMAGE_VERIFIER_ERR_ECC_KEY_DESCRIPTOR_INVALID_HASH_COUNT \<equiv> 0x000b0047"

abbreviation IMAGE_VERIFIER_ERR_PQC_KEY_DESCRIPTOR_INVALID_HASH_COUNT :: u32 where
  "IMAGE_VERIFIER_ERR_PQC_KEY_DESCRIPTOR_INVALID_HASH_COUNT \<equiv> 0x000b0048"

abbreviation IMAGE_VERIFIER_ERR_PQC_KEY_TYPE_INVALID :: u32 where
  "IMAGE_VERIFIER_ERR_PQC_KEY_TYPE_INVALID \<equiv> 0x000b0049"

abbreviation IMAGE_VERIFIER_ERR_LMS_VENDOR_PUB_KEY_INVALID :: u32 where
  "IMAGE_VERIFIER_ERR_LMS_VENDOR_PUB_KEY_INVALID \<equiv> 0x000b004a"

abbreviation IMAGE_VERIFIER_ERR_LMS_VENDOR_SIG_INVALID :: u32 where
  "IMAGE_VERIFIER_ERR_LMS_VENDOR_SIG_INVALID \<equiv> 0x000b004b"

abbreviation IMAGE_VERIFIER_ERR_LMS_OWNER_PUB_KEY_INVALID :: u32 where
  "IMAGE_VERIFIER_ERR_LMS_OWNER_PUB_KEY_INVALID \<equiv> 0x000b004c"

abbreviation IMAGE_VERIFIER_ERR_LMS_OWNER_SIG_INVALID :: u32 where
  "IMAGE_VERIFIER_ERR_LMS_OWNER_SIG_INVALID \<equiv> 0x000b004d"

abbreviation IMAGE_VERIFIER_ERR_MLDSA_VENDOR_PUB_KEY_READ_FAILED :: u32 where
  "IMAGE_VERIFIER_ERR_MLDSA_VENDOR_PUB_KEY_READ_FAILED \<equiv> 0x000b004e"

abbreviation IMAGE_VERIFIER_ERR_MLDSA_VENDOR_SIG_READ_FAILED :: u32 where
  "IMAGE_VERIFIER_ERR_MLDSA_VENDOR_SIG_READ_FAILED \<equiv> 0x000b004f"

abbreviation IMAGE_VERIFIER_ERR_MLDSA_OWNER_PUB_KEY_READ_FAILED :: u32 where
  "IMAGE_VERIFIER_ERR_MLDSA_OWNER_PUB_KEY_READ_FAILED \<equiv> 0x000b0050"

abbreviation IMAGE_VERIFIER_ERR_MLDSA_OWNER_SIG_READ_FAILED :: u32 where
  "IMAGE_VERIFIER_ERR_MLDSA_OWNER_SIG_READ_FAILED \<equiv> 0x000b0051"

abbreviation IMAGE_VERIFIER_ERR_VENDOR_MLDSA_MSG_MISSING :: u32 where
  "IMAGE_VERIFIER_ERR_VENDOR_MLDSA_MSG_MISSING \<equiv> 0x000b0052"

abbreviation IMAGE_VERIFIER_ERR_OWNER_MLDSA_MSG_MISSING :: u32 where
  "IMAGE_VERIFIER_ERR_OWNER_MLDSA_MSG_MISSING \<equiv> 0x000b0053"

abbreviation IMAGE_VERIFIER_ERR_VENDOR_MLDSA_VERIFY_FAILURE :: u32 where
  "IMAGE_VERIFIER_ERR_VENDOR_MLDSA_VERIFY_FAILURE \<equiv> 0x000b0054"

abbreviation IMAGE_VERIFIER_ERR_VENDOR_MLDSA_SIGNATURE_INVALID :: u32 where
  "IMAGE_VERIFIER_ERR_VENDOR_MLDSA_SIGNATURE_INVALID \<equiv> 0x000b0055"

abbreviation IMAGE_VERIFIER_ERR_OWNER_MLDSA_VERIFY_FAILURE :: u32 where
  "IMAGE_VERIFIER_ERR_OWNER_MLDSA_VERIFY_FAILURE \<equiv> 0x000b0056"

abbreviation IMAGE_VERIFIER_ERR_OWNER_MLDSA_SIGNATURE_INVALID :: u32 where
  "IMAGE_VERIFIER_ERR_OWNER_MLDSA_SIGNATURE_INVALID \<equiv> 0x000b0057"

abbreviation IMAGE_VERIFIER_ERR_MLDSA_TYPE_CONVERSION_FAILED :: u32 where
  "IMAGE_VERIFIER_ERR_MLDSA_TYPE_CONVERSION_FAILED \<equiv> 0x000b0058"

abbreviation IMAGE_VERIFIER_ERR_VENDOR_ECC_PUB_KEY_DIGEST_MISMATCH :: u32 where
  "IMAGE_VERIFIER_ERR_VENDOR_ECC_PUB_KEY_DIGEST_MISMATCH \<equiv> 0x000b0059"

abbreviation IMAGE_VERIFIER_ERR_VENDOR_PQC_PUB_KEY_DIGEST_MISMATCH :: u32 where
  "IMAGE_VERIFIER_ERR_VENDOR_PQC_PUB_KEY_DIGEST_MISMATCH \<equiv> 0x000b005a"

abbreviation IMAGE_VERIFIER_ERR_INVALID_PQC_KEY_TYPE_IN_FUSE :: u32 where
  "IMAGE_VERIFIER_ERR_INVALID_PQC_KEY_TYPE_IN_FUSE \<equiv> 0x000b005b"

abbreviation IMAGE_VERIFIER_ERR_PQC_KEY_TYPE_MISMATCH :: u32 where
  "IMAGE_VERIFIER_ERR_PQC_KEY_TYPE_MISMATCH \<equiv> 0x000b005c"

abbreviation IMAGE_VERIFIER_ERR_DOT_OWNER_PUB_KEY_DIGEST_MISMATCH :: u32 where
  "IMAGE_VERIFIER_ERR_DOT_OWNER_PUB_KEY_DIGEST_MISMATCH \<equiv> 0x000b005e"

abbreviation IMAGE_VERIFIER_ERR_DEBUG_IMAGE_NOT_ALLOWED :: u32 where
  "IMAGE_VERIFIER_ERR_DEBUG_IMAGE_NOT_ALLOWED \<equiv> 0x000b0063"

abbreviation IMAGE_VERIFIER_ERR_FMC_OFFSET_INVALID :: u32 where
  "IMAGE_VERIFIER_ERR_FMC_OFFSET_INVALID \<equiv> 0x000b0064"

abbreviation IMAGE_VERIFIER_ERR_UPDATE_RESET_FMC_LOAD_ADDR_MISMATCH :: u32 where
  "IMAGE_VERIFIER_ERR_UPDATE_RESET_FMC_LOAD_ADDR_MISMATCH \<equiv> 0x000b0065"

abbreviation IMAGE_VERIFIER_ERR_RUNTIME_OFFSET_INVALID :: u32 where
  "IMAGE_VERIFIER_ERR_RUNTIME_OFFSET_INVALID \<equiv> 0x000b0066"

abbreviation IMAGE_VERIFIER_ERR_FMC_ENTRY_POINT_NOT_AT_LOAD_ADDR :: u32 where
  "IMAGE_VERIFIER_ERR_FMC_ENTRY_POINT_NOT_AT_LOAD_ADDR \<equiv> 0x000b0067"

abbreviation IMAGE_VERIFIER_ERR_RUNTIME_ENTRY_POINT_NOT_AT_LOAD_ADDR :: u32 where
  "IMAGE_VERIFIER_ERR_RUNTIME_ENTRY_POINT_NOT_AT_LOAD_ADDR \<equiv> 0x000b0068"

abbreviation DRIVER_LMS_INVALID_LMS_ALGO_TYPE :: u32 where
  "DRIVER_LMS_INVALID_LMS_ALGO_TYPE \<equiv> 0x000c0001"

abbreviation DRIVER_LMS_INVALID_LMOTS_ALGO_TYPE :: u32 where
  "DRIVER_LMS_INVALID_LMOTS_ALGO_TYPE \<equiv> 0x000c0002"

abbreviation DRIVER_LMS_INVALID_WINTERNITS_PARAM :: u32 where
  "DRIVER_LMS_INVALID_WINTERNITS_PARAM \<equiv> 0x000c0003"

abbreviation DRIVER_LMS_INVALID_PVALUE :: u32 where
  "DRIVER_LMS_INVALID_PVALUE \<equiv> 0x000c0004"

abbreviation DRIVER_LMS_INVALID_HASH_WIDTH :: u32 where
  "DRIVER_LMS_INVALID_HASH_WIDTH \<equiv> 0x000c0005"

abbreviation DRIVER_LMS_INVALID_TREE_HEIGHT :: u32 where
  "DRIVER_LMS_INVALID_TREE_HEIGHT \<equiv> 0x000c0006"

abbreviation DRIVER_LMS_INVALID_Q_VALUE :: u32 where
  "DRIVER_LMS_INVALID_Q_VALUE \<equiv> 0x000c0007"

abbreviation DRIVER_LMS_INVALID_INDEX :: u32 where
  "DRIVER_LMS_INVALID_INDEX \<equiv> 0x000c0008"

abbreviation DRIVER_LMS_PATH_OUT_OF_BOUNDS :: u32 where
  "DRIVER_LMS_PATH_OUT_OF_BOUNDS \<equiv> 0x000c0009"

abbreviation DRIVER_LMS_SIGNATURE_LMOTS_DOESNT_MATCH_PUBKEY_LMOTS :: u32 where
  "DRIVER_LMS_SIGNATURE_LMOTS_DOESNT_MATCH_PUBKEY_LMOTS \<equiv> 0x000c000d"

abbreviation DRIVER_DMA_AXI_ADDRESS_OVERFLOW :: u32 where
  "DRIVER_DMA_AXI_ADDRESS_OVERFLOW \<equiv> 0x0000f008"

abbreviation RUNTIME_INTERNAL :: u32 where
  "RUNTIME_INTERNAL \<equiv> 0x000e0001"

abbreviation RUNTIME_UNIMPLEMENTED_COMMAND :: u32 where
  "RUNTIME_UNIMPLEMENTED_COMMAND \<equiv> 0x000e0002"

abbreviation RUNTIME_INSUFFICIENT_MEMORY :: u32 where
  "RUNTIME_INSUFFICIENT_MEMORY \<equiv> 0x000e0003"

abbreviation RUNTIME_ECDSA_VERIFY_FAILED :: u32 where
  "RUNTIME_ECDSA_VERIFY_FAILED \<equiv> 0x000e0004"

abbreviation RUNTIME_INVALID_CHECKSUM :: u32 where
  "RUNTIME_INVALID_CHECKSUM \<equiv> 0x000e0005"

abbreviation RUNTIME_UNEXPECTED_UPDATE_RETURN :: u32 where
  "RUNTIME_UNEXPECTED_UPDATE_RETURN \<equiv> 0x000e0007"

abbreviation RUNTIME_MAILBOX_INVALID_PARAMS :: u32 where
  "RUNTIME_MAILBOX_INVALID_PARAMS \<equiv> 0x000e0009"

abbreviation RUNTIME_INCORRECT_PAUSER_PRIVILEGE_LEVEL :: u32 where
  "RUNTIME_INCORRECT_PAUSER_PRIVILEGE_LEVEL \<equiv> 0x000e0016"

abbreviation RUNTIME_PCR_RESERVED :: u32 where
  "RUNTIME_PCR_RESERVED \<equiv> 0x000e003c"

abbreviation RUNTIME_PCR_INVALID_INDEX :: u32 where
  "RUNTIME_PCR_INVALID_INDEX \<equiv> 0x000e003d"

abbreviation RUNTIME_LMS_VERIFY_FAILED :: u32 where
  "RUNTIME_LMS_VERIFY_FAILED \<equiv> 0x000e0042"

abbreviation RUNTIME_LMS_VERIFY_INVALID_LMS_ALGORITHM :: u32 where
  "RUNTIME_LMS_VERIFY_INVALID_LMS_ALGORITHM \<equiv> 0x000e0043"

abbreviation RUNTIME_LMS_VERIFY_INVALID_LMOTS_ALGORITHM :: u32 where
  "RUNTIME_LMS_VERIFY_INVALID_LMOTS_ALGORITHM \<equiv> 0x000e0044"

abbreviation RUNTIME_CMD_RESERVED_PAUSER :: u32 where
  "RUNTIME_CMD_RESERVED_PAUSER \<equiv> 0x000e004f"

abbreviation RUNTIME_MLDSA_VERIFY_FAILED :: u32 where
  "RUNTIME_MLDSA_VERIFY_FAILED \<equiv> 0x000e006c"

abbreviation DRIVER_SOC_IFC_INVALID_TIMER_CONFIG :: u32 where
  "DRIVER_SOC_IFC_INVALID_TIMER_CONFIG \<equiv> 0x00100002"

abbreviation ROM_CFI_PANIC_UNKNOWN :: u32 where
  "ROM_CFI_PANIC_UNKNOWN \<equiv> 0x01040050"

abbreviation ROM_CFI_PANIC_COUNTER_CORRUPT :: u32 where
  "ROM_CFI_PANIC_COUNTER_CORRUPT \<equiv> 0x01040051"

abbreviation ROM_CFI_PANIC_COUNTER_OVERFLOW :: u32 where
  "ROM_CFI_PANIC_COUNTER_OVERFLOW \<equiv> 0x01040052"

abbreviation ROM_CFI_PANIC_COUNTER_UNDERFLOW :: u32 where
  "ROM_CFI_PANIC_COUNTER_UNDERFLOW \<equiv> 0x01040053"

abbreviation ROM_CFI_PANIC_COUNTER_MISMATCH :: u32 where
  "ROM_CFI_PANIC_COUNTER_MISMATCH \<equiv> 0x01040054"

abbreviation ROM_CFI_PANIC_ASSERT_EQ_FAILURE :: u32 where
  "ROM_CFI_PANIC_ASSERT_EQ_FAILURE \<equiv> 0x01040055"

abbreviation ROM_CFI_PANIC_ASSERT_NE_FAILURE :: u32 where
  "ROM_CFI_PANIC_ASSERT_NE_FAILURE \<equiv> 0x01040056"

abbreviation ROM_CFI_PANIC_ASSERT_GT_FAILURE :: u32 where
  "ROM_CFI_PANIC_ASSERT_GT_FAILURE \<equiv> 0x01040057"

abbreviation ROM_CFI_PANIC_ASSERT_LT_FAILURE :: u32 where
  "ROM_CFI_PANIC_ASSERT_LT_FAILURE \<equiv> 0x01040058"

abbreviation ROM_CFI_PANIC_ASSERT_GE_FAILURE :: u32 where
  "ROM_CFI_PANIC_ASSERT_GE_FAILURE \<equiv> 0x01040059"

abbreviation ROM_CFI_PANIC_ASSERT_LE_FAILURE :: u32 where
  "ROM_CFI_PANIC_ASSERT_LE_FAILURE \<equiv> 0x0104005a"

abbreviation ROM_CFI_PANIC_TRNG_FAILURE :: u32 where
  "ROM_CFI_PANIC_TRNG_FAILURE \<equiv> 0x0104005b"

abbreviation SS_DBG_UNLOCK_INVALID_REQ_REG_VALUE :: u32 where
  "SS_DBG_UNLOCK_INVALID_REQ_REG_VALUE \<equiv> 0xa0000000"

abbreviation SS_DBG_UNLOCK_PROD_INVALID_LEVEL :: u32 where
  "SS_DBG_UNLOCK_PROD_INVALID_LEVEL \<equiv> 0xa0000005"


text \<open>Every code the development uses, in the order of the source.\<close>

definition caliptra_errors :: "u32 list" where
  "caliptra_errors = [
     DRIVER_SHA256_INVALID_STATE,
     DRIVER_SHA256_MAX_DATA,
     DRIVER_SHA256_INVALID_SLICE,
     DRIVER_SHA256_INDEX_OUT_OF_BOUNDS,
     DRIVER_SHA2_512_384_READ_DATA_KV_READ,
     DRIVER_SHA2_512_384_READ_DATA_KV_WRITE,
     DRIVER_SHA2_512_384_READ_DATA_KV_UNKNOWN,
     DRIVER_SHA2_512_384_INVALID_STATE_ERR,
     DRIVER_SHA2_512_384_MAX_DATA_ERR,
     DRIVER_SHA2_512_384_INVALID_SLICE,
     DRIVER_SHA2_512_384_INDEX_OUT_OF_BOUNDS,
     DRIVER_SHA2_512_384_ACC_DIGEST_START_OP_FAILURE,
     DRIVER_SHA2_512_384ACC_UNEXPECTED_ACQUIRED_LOCK_STATE,
     DRIVER_ECC384_SCALAR_RANGE_CHECK_FAILED,
     DRIVER_ECC384_HW_ERROR,
     DRIVER_MLDSA87_HW_ERROR,
     DRIVER_MLDSA87_UNSUPPORTED_SIGNATURE,
     DRIVER_PCR_BANK_ERASE_WRITE_LOCK_SET_FAILURE,
     DRIVER_MAILBOX_INVALID_STATE,
     DRIVER_MAILBOX_INVALID_DATA_LEN,
     DRIVER_MAILBOX_ENQUEUE_ERR,
     DRIVER_MAILBOX_UNCORRECTABLE_ECC,
     DRIVER_MAILBOX_FSM_ERROR,
     DRIVER_SHA2_512_384ACC_INDEX_OUT_OF_BOUNDS,
     IMAGE_VERIFIER_ERR_MANIFEST_MARKER_MISMATCH,
     IMAGE_VERIFIER_ERR_MANIFEST_SIZE_MISMATCH,
     IMAGE_VERIFIER_ERR_VENDOR_PUB_KEY_DIGEST_INVALID,
     IMAGE_VERIFIER_ERR_VENDOR_PUB_KEY_DIGEST_FAILURE,
     IMAGE_VERIFIER_ERR_VENDOR_PUB_KEY_DIGEST_MISMATCH,
     IMAGE_VERIFIER_ERR_OWNER_PUB_KEY_DIGEST_FAILURE,
     IMAGE_VERIFIER_ERR_OWNER_PUB_KEY_DIGEST_MISMATCH,
     IMAGE_VERIFIER_ERR_VENDOR_ECC_PUB_KEY_INDEX_OUT_OF_BOUNDS,
     IMAGE_VERIFIER_ERR_VENDOR_ECC_PUB_KEY_REVOKED,
     IMAGE_VERIFIER_ERR_HEADER_DIGEST_FAILURE,
     IMAGE_VERIFIER_ERR_VENDOR_ECC_VERIFY_FAILURE,
     IMAGE_VERIFIER_ERR_VENDOR_ECC_SIGNATURE_INVALID,
     IMAGE_VERIFIER_ERR_VENDOR_ECC_PUB_KEY_INDEX_MISMATCH,
     IMAGE_VERIFIER_ERR_OWNER_ECC_VERIFY_FAILURE,
     IMAGE_VERIFIER_ERR_OWNER_ECC_SIGNATURE_INVALID,
     IMAGE_VERIFIER_ERR_TOC_ENTRY_COUNT_INVALID,
     IMAGE_VERIFIER_ERR_TOC_DIGEST_FAILURE,
     IMAGE_VERIFIER_ERR_TOC_DIGEST_MISMATCH,
     IMAGE_VERIFIER_ERR_FMC_DIGEST_FAILURE,
     IMAGE_VERIFIER_ERR_FMC_DIGEST_MISMATCH,
     IMAGE_VERIFIER_ERR_RUNTIME_DIGEST_FAILURE,
     IMAGE_VERIFIER_ERR_RUNTIME_DIGEST_MISMATCH,
     IMAGE_VERIFIER_ERR_FMC_RUNTIME_OVERLAP,
     IMAGE_VERIFIER_ERR_FMC_RUNTIME_INCORRECT_ORDER,
     IMAGE_VERIFIER_ERR_OWNER_ECC_PUB_KEY_INVALID_ARG,
     IMAGE_VERIFIER_ERR_OWNER_ECC_SIGNATURE_INVALID_ARG,
     IMAGE_VERIFIER_ERR_VENDOR_ECC_PUB_KEY_INVALID_ARG,
     IMAGE_VERIFIER_ERR_VENDOR_ECC_SIGNATURE_INVALID_ARG,
     IMAGE_VERIFIER_ERR_UPDATE_RESET_OWNER_DIGEST_FAILURE,
     IMAGE_VERIFIER_ERR_UPDATE_RESET_VENDOR_ECC_PUB_KEY_IDX_MISMATCH,
     IMAGE_VERIFIER_ERR_UPDATE_RESET_FMC_DIGEST_MISMATCH,
     IMAGE_VERIFIER_ERR_FMC_LOAD_ADDR_INVALID,
     IMAGE_VERIFIER_ERR_FMC_LOAD_ADDR_UNALIGNED,
     IMAGE_VERIFIER_ERR_FMC_ENTRY_POINT_INVALID,
     IMAGE_VERIFIER_ERR_FMC_ENTRY_POINT_UNALIGNED,
     IMAGE_VERIFIER_ERR_RUNTIME_LOAD_ADDR_INVALID,
     IMAGE_VERIFIER_ERR_RUNTIME_LOAD_ADDR_UNALIGNED,
     IMAGE_VERIFIER_ERR_RUNTIME_ENTRY_POINT_INVALID,
     IMAGE_VERIFIER_ERR_RUNTIME_ENTRY_POINT_UNALIGNED,
     IMAGE_VERIFIER_ERR_FIRMWARE_SVN_GREATER_THAN_MAX_SUPPORTED,
     IMAGE_VERIFIER_ERR_FIRMWARE_SVN_LESS_THAN_FUSE,
     IMAGE_VERIFIER_ERR_IMAGE_LEN_MORE_THAN_BUNDLE_SIZE,
     IMAGE_VERIFIER_ERR_VENDOR_PQC_PUB_KEY_INDEX_MISMATCH,
     IMAGE_VERIFIER_ERR_VENDOR_LMS_VERIFY_FAILURE,
     IMAGE_VERIFIER_ERR_VENDOR_PQC_PUB_KEY_INDEX_OUT_OF_BOUNDS,
     IMAGE_VERIFIER_ERR_VENDOR_LMS_SIGNATURE_INVALID,
     IMAGE_VERIFIER_ERR_FMC_RUNTIME_LOAD_ADDR_OVERLAP,
     IMAGE_VERIFIER_ERR_OWNER_LMS_VERIFY_FAILURE,
     IMAGE_VERIFIER_ERR_OWNER_LMS_SIGNATURE_INVALID,
     IMAGE_VERIFIER_ERR_VENDOR_PQC_PUB_KEY_REVOKED,
     IMAGE_VERIFIER_ERR_FMC_SIZE_ZERO,
     IMAGE_VERIFIER_ERR_RUNTIME_SIZE_ZERO,
     IMAGE_VERIFIER_ERR_UPDATE_RESET_VENDOR_PQC_PUB_KEY_IDX_MISMATCH,
     IMAGE_VERIFIER_ERR_FMC_LOAD_ADDRESS_IMAGE_SIZE_ARITHMETIC_OVERFLOW,
     IMAGE_VERIFIER_ERR_RUNTIME_LOAD_ADDRESS_IMAGE_SIZE_ARITHMETIC_OVERFLOW,
     IMAGE_VERIFIER_ERR_TOC_ENTRY_RANGE_ARITHMETIC_OVERFLOW,
     IMAGE_VERIFIER_ERR_DIGEST_OUT_OF_BOUNDS,
     IMAGE_VERIFIER_ERR_ECC_KEY_DESCRIPTOR_VERSION_MISMATCH,
     IMAGE_VERIFIER_ERR_ECC_KEY_DESCRIPTOR_HASH_COUNT_GT_MAX,
     IMAGE_VERIFIER_ERR_PQC_KEY_DESCRIPTOR_VERSION_MISMATCH,
     IMAGE_VERIFIER_ERR_PQC_KEY_DESCRIPTOR_TYPE_MISMATCH,
     IMAGE_VERIFIER_ERR_PQC_KEY_DESCRIPTOR_HASH_COUNT_GT_MAX,
     IMAGE_VERIFIER_ERR_ECC_KEY_DESCRIPTOR_INVALID_HASH_COUNT,
     IMAGE_VERIFIER_ERR_PQC_KEY_DESCRIPTOR_INVALID_HASH_COUNT,
     IMAGE_VERIFIER_ERR_PQC_KEY_TYPE_INVALID,
     IMAGE_VERIFIER_ERR_LMS_VENDOR_PUB_KEY_INVALID,
     IMAGE_VERIFIER_ERR_LMS_VENDOR_SIG_INVALID,
     IMAGE_VERIFIER_ERR_LMS_OWNER_PUB_KEY_INVALID,
     IMAGE_VERIFIER_ERR_LMS_OWNER_SIG_INVALID,
     IMAGE_VERIFIER_ERR_MLDSA_VENDOR_PUB_KEY_READ_FAILED,
     IMAGE_VERIFIER_ERR_MLDSA_VENDOR_SIG_READ_FAILED,
     IMAGE_VERIFIER_ERR_MLDSA_OWNER_PUB_KEY_READ_FAILED,
     IMAGE_VERIFIER_ERR_MLDSA_OWNER_SIG_READ_FAILED,
     IMAGE_VERIFIER_ERR_VENDOR_MLDSA_MSG_MISSING,
     IMAGE_VERIFIER_ERR_OWNER_MLDSA_MSG_MISSING,
     IMAGE_VERIFIER_ERR_VENDOR_MLDSA_VERIFY_FAILURE,
     IMAGE_VERIFIER_ERR_VENDOR_MLDSA_SIGNATURE_INVALID,
     IMAGE_VERIFIER_ERR_OWNER_MLDSA_VERIFY_FAILURE,
     IMAGE_VERIFIER_ERR_OWNER_MLDSA_SIGNATURE_INVALID,
     IMAGE_VERIFIER_ERR_MLDSA_TYPE_CONVERSION_FAILED,
     IMAGE_VERIFIER_ERR_VENDOR_ECC_PUB_KEY_DIGEST_MISMATCH,
     IMAGE_VERIFIER_ERR_VENDOR_PQC_PUB_KEY_DIGEST_MISMATCH,
     IMAGE_VERIFIER_ERR_INVALID_PQC_KEY_TYPE_IN_FUSE,
     IMAGE_VERIFIER_ERR_PQC_KEY_TYPE_MISMATCH,
     IMAGE_VERIFIER_ERR_DOT_OWNER_PUB_KEY_DIGEST_MISMATCH,
     IMAGE_VERIFIER_ERR_DEBUG_IMAGE_NOT_ALLOWED,
     IMAGE_VERIFIER_ERR_FMC_OFFSET_INVALID,
     IMAGE_VERIFIER_ERR_UPDATE_RESET_FMC_LOAD_ADDR_MISMATCH,
     IMAGE_VERIFIER_ERR_RUNTIME_OFFSET_INVALID,
     IMAGE_VERIFIER_ERR_FMC_ENTRY_POINT_NOT_AT_LOAD_ADDR,
     IMAGE_VERIFIER_ERR_RUNTIME_ENTRY_POINT_NOT_AT_LOAD_ADDR,
     DRIVER_LMS_INVALID_LMS_ALGO_TYPE,
     DRIVER_LMS_INVALID_LMOTS_ALGO_TYPE,
     DRIVER_LMS_INVALID_WINTERNITS_PARAM,
     DRIVER_LMS_INVALID_PVALUE,
     DRIVER_LMS_INVALID_HASH_WIDTH,
     DRIVER_LMS_INVALID_TREE_HEIGHT,
     DRIVER_LMS_INVALID_Q_VALUE,
     DRIVER_LMS_INVALID_INDEX,
     DRIVER_LMS_PATH_OUT_OF_BOUNDS,
     DRIVER_LMS_SIGNATURE_LMOTS_DOESNT_MATCH_PUBKEY_LMOTS,
     DRIVER_DMA_AXI_ADDRESS_OVERFLOW,
     RUNTIME_INTERNAL,
     RUNTIME_UNIMPLEMENTED_COMMAND,
     RUNTIME_INSUFFICIENT_MEMORY,
     RUNTIME_ECDSA_VERIFY_FAILED,
     RUNTIME_INVALID_CHECKSUM,
     RUNTIME_UNEXPECTED_UPDATE_RETURN,
     RUNTIME_MAILBOX_INVALID_PARAMS,
     RUNTIME_INCORRECT_PAUSER_PRIVILEGE_LEVEL,
     RUNTIME_PCR_RESERVED,
     RUNTIME_PCR_INVALID_INDEX,
     RUNTIME_LMS_VERIFY_FAILED,
     RUNTIME_LMS_VERIFY_INVALID_LMS_ALGORITHM,
     RUNTIME_LMS_VERIFY_INVALID_LMOTS_ALGORITHM,
     RUNTIME_CMD_RESERVED_PAUSER,
     RUNTIME_MLDSA_VERIFY_FAILED,
     DRIVER_SOC_IFC_INVALID_TIMER_CONFIG,
     ROM_CFI_PANIC_UNKNOWN,
     ROM_CFI_PANIC_COUNTER_CORRUPT,
     ROM_CFI_PANIC_COUNTER_OVERFLOW,
     ROM_CFI_PANIC_COUNTER_UNDERFLOW,
     ROM_CFI_PANIC_COUNTER_MISMATCH,
     ROM_CFI_PANIC_ASSERT_EQ_FAILURE,
     ROM_CFI_PANIC_ASSERT_NE_FAILURE,
     ROM_CFI_PANIC_ASSERT_GT_FAILURE,
     ROM_CFI_PANIC_ASSERT_LT_FAILURE,
     ROM_CFI_PANIC_ASSERT_GE_FAILURE,
     ROM_CFI_PANIC_ASSERT_LE_FAILURE,
     ROM_CFI_PANIC_TRNG_FAILURE,
     SS_DBG_UNLOCK_INVALID_REQ_REG_VALUE,
     SS_DBG_UNLOCK_PROD_INVALID_LEVEL]"

lemma caliptra_errors_nonzero: "0 \<notin> set caliptra_errors"
  by (simp add: caliptra_errors_def)

end
