(* ===== verification/MailboxDriver.thy ===== *)
theory MailboxDriver
  imports MailboxChannel CaliptraError
begin

unbundle bit_operations_syntax

text \<open>
  The mailbox driver, \<^verbatim>\<open>drivers/src/mailbox.rs\<close>, over the emulated mailbox: send transactions, in which
  the microcontroller owns the lock and the SoC executes, and receive transactions, in which the
  microcontroller executes a command of the SoC. The words move through the channel of the data
  registers, which meets the contract of \<open>word_channel\<close> for every accessor.

  The interrupt register with the flag of an uncorrectable memory error is outside the mailbox; its
  value is an argument. What other bus masters do between two polls of a waiting loop is the argument
  \<open>env\<close>.
\<close>

section \<open>Registers and transactions\<close>

abbreviation uc_reg :: "'a mbox_io \<Rightarrow> (MailboxRegs, 'a) action" where
  "uc_reg \<equiv> port_reg Caliptra"

definition fsm_of :: "u32 \<Rightarrow> u32" where "fsm_of status = field_read 6 3 status"
definition status_of :: "u32 \<Rightarrow> u32" where "status_of status = field_read 0 4 status"

text \<open>The values of \<^verbatim>\<open>MboxStatusE\<close> and of \<^verbatim>\<open>MboxFsmE\<close> that the drivers test.\<close>

abbreviation (input) CmdBusy :: u32 where "CmdBusy \<equiv> 0"
abbreviation (input) DataReady :: u32 where "DataReady \<equiv> 1"
abbreviation (input) CmdComplete :: u32 where "CmdComplete \<equiv> 2"
abbreviation (input) CmdFailure :: u32 where "CmdFailure \<equiv> 3"
abbreviation (input) MboxIdle :: u32 where "MboxIdle \<equiv> 0"
abbreviation (input) MboxRdyForCmd :: u32 where "MboxRdyForCmd \<equiv> 1"
abbreviation (input) MboxExecuteUc :: u32 where "MboxExecuteUc \<equiv> 6"
abbreviation (input) MboxError :: u32 where "MboxError \<equiv> 7"

datatype MailboxOpState = OpRdyForCmd | OpRdyForDlen | OpRdyForData | OpExecute | OpIdle

record Mailbox =
  mailbox_regs :: MailboxRegs
  mailbox_len :: u32

record MailboxSendTxn =
  send_state :: MailboxOpState
  send_mbox :: MailboxRegs
  send_mbox_len :: u32

record MailboxRecvTxn =
  recv_state :: MailboxOpState
  recv_mbox :: MailboxRegs
  recv_mbox_len :: u32
  recovery_transaction :: bool

definition mailbox_size :: "bool \<Rightarrow> u32" where
  "mailbox_size subsystem_mode = (if subsystem_mode then 16 * 1024 else 256 * 1024)"

definition Mailbox_new :: "bool \<Rightarrow> MailboxRegs \<Rightarrow> Mailbox" where
  "Mailbox_new subsystem_mode r = \<lparr>mailbox_regs = r, mailbox_len = mailbox_size subsystem_mode\<rparr>"

definition on_mailbox :: "(MailboxRegs, 'a) action \<Rightarrow> (Mailbox, 'a) action" where
  "on_mailbox = zoom mailbox_regs (\<lambda>r m. m\<lparr>mailbox_regs := r\<rparr>)"

definition on_send :: "(MailboxRegs, 'a) action \<Rightarrow> (MailboxSendTxn, 'a) action" where
  "on_send = zoom send_mbox (\<lambda>r t. t\<lparr>send_mbox := r\<rparr>)"

definition on_recv :: "(MailboxRegs, 'a) action \<Rightarrow> (MailboxRecvTxn, 'a) action" where
  "on_recv = zoom recv_mbox (\<lambda>r t. t\<lparr>recv_mbox := r\<rparr>)"

definition set_send_state :: "MailboxOpState \<Rightarrow> (MailboxSendTxn, unit) action" where
  "set_send_state st t = (Ok (), t\<lparr>send_state := st\<rparr>)"

definition set_recv_state :: "MailboxOpState \<Rightarrow> (MailboxRecvTxn, unit) action" where
  "set_recv_state st t = (Ok (), t\<lparr>recv_state := st\<rparr>)"

section \<open>Starting a transaction\<close>

text \<open>A transaction borrows the registers: it starts with those the access leaves.\<close>

definition new_send_txn :: "Mailbox \<Rightarrow> MailboxSendTxn" where
  "new_send_txn m = \<lparr>send_state = OpRdyForCmd, send_mbox = mailbox_regs m, send_mbox_len = mailbox_len m\<rparr>"

definition new_recv_txn :: "bool \<Rightarrow> Mailbox \<Rightarrow> MailboxRecvTxn" where
  "new_recv_txn recovery m = \<lparr>recv_state = OpExecute, recv_mbox = mailbox_regs m, recv_mbox_len = mailbox_len m,
     recovery_transaction = recovery\<rparr>"

definition try_start_send_txn :: "(Mailbox, MailboxSendTxn option) action" where
  "try_start_send_txn =
     bindE (on_mailbox (uc_reg read_lock)) (\<lambda>lock.
     if bit lock 0 then ret None else bindE (gets new_send_txn) (\<lambda>txn. ret (Some txn)))"

text \<open>The loop \<^verbatim>\<open>while lock.read().lock() {}\<close>; \<open>None\<close> is a loop that never ends.\<close>

partial_function (option) wait_lock :: "(MailboxRegs \<Rightarrow> MailboxRegs) \<Rightarrow> MailboxRegs \<Rightarrow> MailboxRegs option" where
  "wait_lock env r = (case uc_reg read_lock r of
      (Ok lock, t) \<Rightarrow> if bit lock 0 then wait_lock env (env t) else Some t
    | _ \<Rightarrow> None)"

declare wait_lock.simps [code]

definition acquire_lock :: "(MailboxRegs \<Rightarrow> MailboxRegs) \<Rightarrow> (MailboxRegs, unit) action" where
  "acquire_lock env r = (case wait_lock env r of Some t \<Rightarrow> (Ok (), t) | None \<Rightarrow> (RustPanic, r))"

definition wait_until_start_send_txn :: "(MailboxRegs \<Rightarrow> MailboxRegs) \<Rightarrow> (Mailbox, MailboxSendTxn) action" where
  "wait_until_start_send_txn env = bindE (on_mailbox (acquire_lock env)) (\<lambda>_. gets new_send_txn)"

definition recovery_recv_txn :: "(MailboxRegs \<Rightarrow> MailboxRegs) \<Rightarrow> (Mailbox, MailboxRecvTxn) action" where
  "recovery_recv_txn env = bindE (on_mailbox (acquire_lock env)) (\<lambda>_. gets (new_recv_txn True))"

definition try_start_recv_txn :: "(Mailbox, MailboxRecvTxn option) action" where
  "try_start_recv_txn =
     bindE (on_mailbox (uc_reg read_status)) (\<lambda>status.
     if fsm_of status = MboxExecuteUc then bindE (gets (new_recv_txn False)) (\<lambda>txn. ret (Some txn)) else ret None)"

text \<open>Peeking reads the command, user and length registers of a pending command; \<^verbatim>\<open>start_txn\<close> turns the
  peek into a transaction.\<close>

definition peek_recv :: "(Mailbox, (u32 \<times> u32 \<times> u32) option) action" where
  "peek_recv =
     bindE (on_mailbox (uc_reg read_status)) (\<lambda>status.
     if fsm_of status = MboxExecuteUc
     then bindE (on_mailbox (uc_reg read_cmd)) (\<lambda>cmd.
          bindE (on_mailbox (uc_reg read_user)) (\<lambda>id.
          bindE (on_mailbox (uc_reg read_dlen)) (\<lambda>dlen. ret (Some (cmd, id, dlen)))))
     else ret None)"

definition abort_pending_soc_to_uc_transactions :: "(MailboxRegs, unit) action" where
  "abort_pending_soc_to_uc_transactions =
     bindE (uc_reg read_status) (\<lambda>status.
     if fsm_of status = MboxExecuteUc then uc_reg (write_status CmdFailure) else ret ())"

section \<open>FIFO\<close>

definition fifo_enqueue :: "u8 list \<Rightarrow> (MailboxRegs, unit) action" where
  "fifo_enqueue buf =
     bindE (uc_reg read_dlen) (\<lambda>dlen.
     bindE (failIf (unat dlen \<noteq> length buf) DRIVER_MAILBOX_ENQUEUE_ERR) (\<lambda>_.
     put_bytes (\<lambda>w. uc_reg (write_din w)) buf))"

text \<open>The buffer is overwritten from its start; what the mailbox does not fill is kept.\<close>

definition fifo_dequeue :: "u8 list \<Rightarrow> (MailboxRegs, u8 list) action" where
  "fifo_dequeue buf =
     bindE (uc_reg read_dlen) (\<lambda>dlen.
     bindE (get_bytes (uc_reg read_dout) (if unat dlen < length buf then unat dlen else length buf)) (\<lambda>data.
     ret (data @ drop (length data) buf)))"

section \<open>Send transactions\<close>

definition send_write_cmd :: "u32 \<Rightarrow> (MailboxSendTxn, unit) action" where
  "send_write_cmd cmd =
     bindE (gets send_state) (\<lambda>st.
     bindE (failIf (st \<noteq> OpRdyForCmd) DRIVER_MAILBOX_INVALID_STATE) (\<lambda>_.
     bindE (on_send (uc_reg (mb_write_cmd cmd))) (\<lambda>_.
     set_send_state OpRdyForDlen)))"

definition send_write_dlen :: "u32 \<Rightarrow> (MailboxSendTxn, unit) action" where
  "send_write_dlen dlen =
     bindE (gets send_state) (\<lambda>st.
     bindE (failIf (st \<noteq> OpRdyForDlen) DRIVER_MAILBOX_INVALID_STATE) (\<lambda>_.
     bindE (gets send_mbox_len) (\<lambda>mbox_len.
     bindE (failIf (dlen > mbox_len) DRIVER_MAILBOX_INVALID_DATA_LEN) (\<lambda>_.
     bindE (on_send (uc_reg (mb_write_dlen dlen))) (\<lambda>_.
     set_send_state OpRdyForData)))))"

definition send_copy_request :: "u32 \<Rightarrow> u8 list \<Rightarrow> (MailboxSendTxn, unit) action" where
  "send_copy_request cmd data =
     bindE (gets send_state) (\<lambda>st.
     bindE (failIf (st \<noteq> OpRdyForCmd) DRIVER_MAILBOX_INVALID_STATE) (\<lambda>_.
     bindE (send_write_cmd cmd) (\<lambda>_.
     bindE (send_write_dlen (of_nat (length data))) (\<lambda>_.
     bindE (on_send (fifo_enqueue data)) (\<lambda>_.
     set_send_state OpRdyForData)))))"

definition execute_request :: "(MailboxSendTxn, unit) action" where
  "execute_request =
     bindE (gets send_state) (\<lambda>st.
     bindE (failIf (st \<noteq> OpRdyForData) DRIVER_MAILBOX_INVALID_STATE) (\<lambda>_.
     bindE (on_send (uc_reg (write_ex 1))) (\<lambda>_.
     set_send_state OpExecute)))"

definition send_request :: "u32 \<Rightarrow> u8 list \<Rightarrow> (MailboxSendTxn, unit) action" where
  "send_request cmd data = bindE (send_copy_request cmd data) (\<lambda>_. execute_request)"

definition is_response_ready :: "(MailboxSendTxn, bool) action" where
  "is_response_ready =
     bindE (on_send (uc_reg read_status)) (\<lambda>status.
     ret (fsm_of status = MboxError \<or> status_of status \<in> {DataReady, CmdComplete, CmdFailure}))"

definition send_status :: "(MailboxSendTxn, u32) action" where
  "send_status = bindE (on_send (uc_reg read_status)) (\<lambda>status. ret (status_of status))"

definition send_complete :: "(MailboxSendTxn, unit) action" where
  "send_complete =
     bindE (gets send_state) (\<lambda>st.
     bindE (failIf (st \<noteq> OpExecute) DRIVER_MAILBOX_INVALID_STATE) (\<lambda>_.
     bindE (on_send (uc_reg read_status)) (\<lambda>status.
     if fsm_of status = MboxError \<or> status_of status = DataReady
     then bindE (on_send (uc_reg (write_unlock 1))) (\<lambda>_.
          bindE (set_send_state OpIdle) (\<lambda>_. throw DRIVER_MAILBOX_FSM_ERROR))
     else bindE (on_send (uc_reg (write_ex 0))) (\<lambda>_. set_send_state OpIdle))))"

definition send_drop :: "(MailboxSendTxn, unit) action" where
  "send_drop =
     on_send (bindE (uc_reg read_status) (\<lambda>status.
       if fsm_of status \<noteq> MboxIdle then uc_reg (write_unlock 1) else ret ()))"

section \<open>Receive transactions\<close>

definition recv_cmd :: "(MailboxRecvTxn, u32) action" where "recv_cmd = on_recv (uc_reg read_cmd)"
definition recv_dlen :: "(MailboxRecvTxn, u32) action" where "recv_dlen = on_recv (uc_reg read_dlen)"

definition drop_words :: "nat \<Rightarrow> (MailboxRecvTxn, unit) action" where
  "drop_words count =
     on_recv (bindE (uc_reg read_dlen) (\<lambda>dlen.
       bindE (get_words (uc_reg read_dout) (min count ((unat dlen + 3) div 4))) (\<lambda>_. ret ())))"

definition recv_write_dlen :: "u32 \<Rightarrow> (MailboxRecvTxn, unit) action" where
  "recv_write_dlen dlen =
     bindE (gets recv_state) (\<lambda>st.
     bindE (failIf (st \<noteq> OpRdyForDlen) DRIVER_MAILBOX_INVALID_STATE) (\<lambda>_.
     bindE (gets recv_mbox_len) (\<lambda>mbox_len.
     bindE (failIf (dlen > mbox_len) DRIVER_MAILBOX_INVALID_DATA_LEN) (\<lambda>_.
     on_recv (uc_reg (mb_write_dlen dlen))))))"

definition recv_copy_request :: "bool \<Rightarrow> u8 list \<Rightarrow> (MailboxRecvTxn, u8 list) action" where
  "recv_copy_request mailbox_uncorrectable_ecc data =
     bindE (gets recv_state) (\<lambda>st.
     bindE (failIf (st \<noteq> OpExecute) DRIVER_MAILBOX_INVALID_STATE) (\<lambda>_.
     bindE (on_recv (fifo_dequeue data)) (\<lambda>data.
     bindE (failIf mailbox_uncorrectable_ecc DRIVER_MAILBOX_UNCORRECTABLE_ECC) (\<lambda>_.
     ret data))))"

definition recv_complete :: "bool \<Rightarrow> (MailboxRecvTxn, unit) action" where
  "recv_complete success =
     bindE (gets recovery_transaction) (\<lambda>recovery.
     if recovery then on_recv (uc_reg (write_unlock 1))
     else
       bindE (gets recv_state) (\<lambda>st.
       bindE (failIf (st \<noteq> OpExecute \<and> st \<noteq> OpRdyForData) DRIVER_MAILBOX_INVALID_STATE) (\<lambda>_.
       bindE (on_recv (uc_reg (write_status
         (if success then if st = OpRdyForData then DataReady else CmdComplete else CmdFailure)))) (\<lambda>_.
       set_recv_state OpIdle))))"

definition recv_request :: "bool \<Rightarrow> u8 list \<Rightarrow> (MailboxRecvTxn, u8 list) action" where
  "recv_request mailbox_uncorrectable_ecc data =
     bindE (recv_copy_request mailbox_uncorrectable_ecc data) (\<lambda>data.
     bindE (recv_complete True) (\<lambda>_. ret data))"

definition copy_response :: "u8 list \<Rightarrow> (MailboxRecvTxn, unit) action" where
  "copy_response data =
     bindE (gets recv_state) (\<lambda>st.
     bindE (failIf (st \<noteq> OpExecute) DRIVER_MAILBOX_INVALID_STATE) (\<lambda>_.
     bindE (set_recv_state OpRdyForDlen) (\<lambda>_.
     bindE (recv_write_dlen (of_nat (length data))) (\<lambda>_.
     bindE (set_recv_state OpRdyForData) (\<lambda>_.
     on_recv (fifo_enqueue data))))))"

definition send_response :: "u8 list \<Rightarrow> (MailboxRecvTxn, unit) action" where
  "send_response data = bindE (copy_response data) (\<lambda>_. recv_complete True)"

definition set_uc_tap_unlock :: "bool \<Rightarrow> (MailboxRecvTxn, unit) action" where
  "set_uc_tap_unlock enable =
     on_recv (bindE (uc_reg (mbox_read MBOX_TAP_MODE)) (\<lambda>w.
       uc_reg (mbox_write MBOX_TAP_MODE (field_modify 0 1 (of_bool enable) w))))"

text \<open>The drop ignores the result of \<^verbatim>\<open>complete\<close>; a panic is not a result.\<close>

definition recv_drop :: "(MailboxRecvTxn, unit) action" where
  "recv_drop =
     bindE (gets recv_state) (\<lambda>st.
     if st \<noteq> OpIdle
     then (\<lambda>t. case recv_complete False t of (Err _, u) \<Rightarrow> (Ok (), u) | r \<Rightarrow> r)
     else ret ())"

section \<open>Runs\<close>

lemma fsm_of_status: "fsm_of (field_modify 6 3 (fsm_value st) status) = fsm_value st"
proof -
  have "take_bit 3 (fsm_value st) = fsm_value st" by (cases st) (simp_all add: fsm_value_def take_bit_eq_mod)
  then show ?thesis unfolding fsm_of_def by (simp add: field_read_modify)
qed

lemma fsm_value_inj: "fsm_value a = fsm_value b \<longleftrightarrow> a = b"
  by (cases a; cases b) (simp_all add: fsm_value_def)

lemma fsm_value_states:
  "fsm_value st = MboxIdle \<longleftrightarrow> st = MbIdle" "fsm_value st = MboxExecuteUc \<longleftrightarrow> st = MbExecUc"
  "fsm_value st = MboxError \<longleftrightarrow> st = MbError" "fsm_value st = MboxRdyForCmd \<longleftrightarrow> st = MbRdyForCmd"
  by (cases st; simp add: fsm_value_def)+

lemma status_of_status: "status_of (field_modify 6 3 v status) = status_of status"
  by (simp add: status_of_def field_read_modify_other)

lemma on_mailbox_Ok: "m (mailbox_regs b) = (Ok x, r) \<Longrightarrow> on_mailbox m b = (Ok x, b\<lparr>mailbox_regs := r\<rparr>)"
  by (simp add: on_mailbox_def zoom_def)

lemma on_send_Ok: "m (send_mbox t) = (Ok x, r) \<Longrightarrow> on_send m t = (Ok x, t\<lparr>send_mbox := r\<rparr>)"
  by (simp add: on_send_def zoom_def)

lemma on_recv_Ok: "m (recv_mbox t) = (Ok x, r) \<Longrightarrow> on_recv m t = (Ok x, t\<lparr>recv_mbox := r\<rparr>)"
  by (simp add: on_recv_def zoom_def)

lemma unat_mailbox_size: "unat (mailbox_size sm) = MBOX_RAM_SIZE sm"
  by (simp add: mailbox_size_def MBOX_RAM_SIZE_def)

lemma of_nat_fits: "n \<le> MBOX_RAM_SIZE sm \<Longrightarrow> \<not> (of_nat n :: u32) > mailbox_size sm"
  by (simp add: word_less_nat_alt unat_of_nat_mbox unat_mailbox_size)

lemma fifo_enqueue_run:
  assumes "mbox_live sm r" "mb_state r \<in> {MbRdyForDlen, MbExecUc, MbExecSoc}" "length buf \<le> MBOX_RAM_SIZE sm"
  shows "fifo_enqueue buf (r\<lparr>mb_machine := mb_next (DlenWrite (of_nat (length buf))) (mb_machine r)\<rparr>) = (Ok (), mb_filled buf r)"
proof -
  let ?r = "r\<lparr>mb_machine := mb_next (DlenWrite (of_nat (length buf))) (mb_machine r)\<rparr>"
  have "mb_dlen (mb_ctx ?r) = of_nat (length buf)"
    using assms(2) by (cases "mb_machine r") (auto simp: mb_next_defs)
  then have "uc_reg read_dlen ?r = (Ok (of_nat (length buf)), ?r)"
    using port_other_regs(2) [OF mbox_live_next [OF assms(1)]] by simp
  then show ?thesis
    using mb_filled_parts(1) [OF assms] unat_of_nat_mbox [OF assms(3)] by (simp add: fifo_enqueue_def bindE_Ok)
qed

lemma fifo_dequeue_run:
  assumes "mbox_live sm r" "mb_state r \<in> {MbExecUc, MbExecSoc}" "mb_loaded data (mb_ctx r)" "length data \<le> length buf"
  shows "fifo_dequeue buf r = (Ok (data @ drop (length data) buf), mb_pulled (length (byte_words data)) r)"
proof -
  have "unat (mb_dlen (mb_ctx r)) = length data" using assms(3) by (simp add: mb_loaded_def Let_def)
  then show ?thesis
    using get_loaded(1) [OF assms(1-3), of Caliptra] assms(4)
    by (auto simp: fifo_dequeue_def bindE_Ok port_other_regs [OF assms(1)] le_less)
qed

text \<open>A request of the microcontroller, from the lock to the execution.\<close>

lemma send_request_run:
  assumes t: "send_state t = OpRdyForCmd" "send_mbox_len t = mailbox_size sm"
    and r: "mbox_live sm (send_mbox t)" "mb_machine (send_mbox t) = (MbRdyForCmd, c)" "mb_user c = Caliptra"
    and len: "length data \<le> MBOX_RAM_SIZE sm"
  obtains r' where "send_request cmd data t = (Ok (), t\<lparr>send_state := OpExecute, send_mbox := r'\<rparr>)"
    "mbox_live sm r'" "mb_state r' = MbExecSoc" "mb_user (mb_ctx r') = Caliptra" "mb_cmd (mb_ctx r') = cmd"
    "mb_status (mb_ctx r') = mb_status c" "mb_loaded data (mb_ctx r')"
proof -
  let ?r = "send_mbox t"
  define r1 where "r1 = ?r\<lparr>mb_machine := (MbRdyForDlen, ctx_set_cmd cmd c)\<rparr>"
  have n1: "mb_next (CmdWrite cmd) (mb_machine ?r) = (MbRdyForDlen, ctx_set_cmd cmd c)"
    by (simp add: r(2) mb_next_defs)
  then have live1: "mbox_live sm r1" using mbox_live_next [OF r(1), of "CmdWrite cmd"] by (simp add: r1_def)
  have st1: "mb_state r1 \<in> {MbRdyForDlen, MbExecUc, MbExecSoc}" by (simp add: r1_def)
  define r2 where "r2 = mb_filled data r1"
  note parts = mb_filled_parts [OF live1 st1 len, folded r2_def] and keeps = mb_filled_keeps [OF st1, of data, folded r2_def]
  have c2: "mb_state r2 = MbRdyForData" "mb_user (mb_ctx r2) = Caliptra" "mb_cmd (mb_ctx r2) = cmd"
      "mb_status (mb_ctx r2) = mb_status c"
    using keeps r(3) by (simp_all add: r1_def ctx_set_cmd_def)
  define r3 where "r3 = r2\<lparr>mb_irq := True, mb_execute := 1, mb_machine := (MbExecSoc, mb_ctx r2)\<rparr>"
  have n3: "mb_next UcExecSet (mb_machine r2) = (MbExecSoc, mb_ctx r2)"
    using c2(1) by (cases "mb_machine r2") (simp add: mb_next_defs)
  have "send_write_cmd cmd t = (Ok (), t\<lparr>send_state := OpRdyForDlen, send_mbox := r1\<rparr>)"
    using t(1) port_other_regs(5) [OF r(1), of Caliptra cmd] n1
    by (simp add: send_write_cmd_def bindE_Ok on_send_Ok set_send_state_def r1_def)
  moreover have "send_write_dlen (of_nat (length data)) (t\<lparr>send_state := OpRdyForDlen, send_mbox := r1\<rparr>) =
      (Ok (), t\<lparr>send_state := OpRdyForData,
        send_mbox := r1\<lparr>mb_machine := mb_next (DlenWrite (of_nat (length data))) (mb_machine r1)\<rparr>\<rparr>)"
    using t(2) of_nat_fits [OF len] port_other_regs(6) [OF live1, of Caliptra]
    by (simp add: send_write_dlen_def bindE_Ok on_send_Ok set_send_state_def)
  ultimately have copy: "send_copy_request cmd data t = (Ok (), t\<lparr>send_state := OpRdyForData, send_mbox := r2\<rparr>)"
    using t(1) fifo_enqueue_run [OF live1 st1 len]
    by (simp add: send_copy_request_def bindE_Ok on_send_Ok set_send_state_def r2_def)
  have "send_request cmd data t = (Ok (), t\<lparr>send_state := OpExecute, send_mbox := r3\<rparr>)"
    using copy port_write_ex [OF parts(2) c2(2), of 1] n3
    by (simp add: send_request_def bindE_Ok execute_request_def on_send_Ok set_send_state_def r3_def)
  moreover have "mbox_live sm r3"
    using mbox_live_next [OF parts(2), of UcExecSet] n3 by (simp add: r3_def mbox_live_def)
  ultimately show thesis using that [of r3] c2 parts(3) by (simp add: r3_def)
qed

lemma try_start_send_run:
  assumes "mbox_live sm (mailbox_regs b)" "mb_machine (mailbox_regs b) = (MbIdle, c)" "mb_locked c = 0"
    and "r' = (mailbox_regs b)\<lparr>mb_machine := (MbRdyForCmd, ctx_lock Caliptra c)\<rparr>"
  shows "try_start_send_txn b = (Ok (Some (new_send_txn (b\<lparr>mailbox_regs := r'\<rparr>))), b\<lparr>mailbox_regs := r'\<rparr>)"
    and "mbox_live sm r'"
proof -
  have "mb_next (RdMboxLock Caliptra) (mb_machine (mailbox_regs b)) = (MbRdyForCmd, ctx_lock Caliptra c)"
    using assms(2,3) by (simp add: next_rd_lock)
  then show "try_start_send_txn b = (Ok (Some (new_send_txn (b\<lparr>mailbox_regs := r'\<rparr>))), b\<lparr>mailbox_regs := r'\<rparr>)" "mbox_live sm r'"
    using port_read_lock [OF assms(1), of Caliptra] mbox_live_next [OF assms(1), of "RdMboxLock Caliptra"] assms(2,4)
    by (simp_all add: try_start_send_txn_def bindE_Ok on_mailbox_Ok)
qed

text \<open>A response of the microcontroller.\<close>

lemma mb_loaded_status: "mb_loaded buf (c\<lparr>mb_status := v\<rparr>) = mb_loaded buf c"
  by (simp add: mb_loaded_def)

lemma write_status_run:
  assumes "mbox_live sm r" "mb_state r = MbExecUc"
  shows "port_reg user (write_status val) r =
      (Ok (), r\<lparr>mb_machine := (MbExecSoc, (mb_ctx r)\<lparr>mb_status := field_read 0 4 val\<rparr>)\<rparr>)"
    and "mbox_live sm (r\<lparr>mb_machine := (MbExecSoc, (mb_ctx r)\<lparr>mb_status := field_read 0 4 val\<rparr>)\<rparr>)"
proof -
  have n: "mb_next SetStatus (mb_machine r) = (MbExecSoc, mb_ctx r)"
    using assms(2) by (cases "mb_machine r") (simp add: mb_next_defs)
  show "port_reg user (write_status val) r =
      (Ok (), r\<lparr>mb_machine := (MbExecSoc, (mb_ctx r)\<lparr>mb_status := field_read 0 4 val\<rparr>)\<rparr>)"
    using port_write_status [OF assms(1) refl] n by simp
  show "mbox_live sm (r\<lparr>mb_machine := (MbExecSoc, (mb_ctx r)\<lparr>mb_status := field_read 0 4 val\<rparr>)\<rparr>)"
    using mbox_live_next [OF assms(1), of SetStatus] n by (simp add: mbox_live_def mbox_machine_ok_def)
qed

lemma recv_copy_request_run:
  assumes "recv_state t = OpExecute" "mbox_live sm (recv_mbox t)" "mb_state (recv_mbox t) \<in> {MbExecUc, MbExecSoc}"
    "mb_loaded data (mb_ctx (recv_mbox t))" "length data \<le> length buf"
  shows "recv_copy_request False buf t = (Ok (data @ drop (length data) buf),
    t\<lparr>recv_mbox := mb_pulled (length (byte_words data)) (recv_mbox t)\<rparr>)"
  using assms fifo_dequeue_run [OF assms(2-5)] by (simp add: recv_copy_request_def bindE_Ok on_recv_Ok)

lemma send_response_run:
  assumes "recv_state t = OpExecute" "recv_mbox_len t = mailbox_size sm" "\<not> recovery_transaction t"
    and r: "mbox_live sm (recv_mbox t)" "mb_state (recv_mbox t) = MbExecUc" and len: "length resp \<le> MBOX_RAM_SIZE sm"
  obtains r' where "send_response resp t = (Ok (), t\<lparr>recv_state := OpIdle, recv_mbox := r'\<rparr>)"
    "mbox_live sm r'" "mb_state r' = MbExecSoc" "mb_user (mb_ctx r') = mb_user (mb_ctx (recv_mbox t))"
    "mb_status (mb_ctx r') = DataReady" "mb_loaded resp (mb_ctx r')"
proof -
  let ?r = "recv_mbox t"
  have st: "mb_state ?r \<in> {MbRdyForDlen, MbExecUc, MbExecSoc}" using r(2) by simp
  define r2 where "r2 = mb_filled resp ?r"
  note parts = mb_filled_parts [OF r(1) st len, folded r2_def] and keeps = mb_filled_keeps [OF st, of resp, folded r2_def]
  define r3 where "r3 = r2\<lparr>mb_machine := (MbExecSoc, (mb_ctx r2)\<lparr>mb_status := field_read 0 4 1\<rparr>)\<rparr>"
  have st2: "mb_state r2 = MbExecUc" using keeps(1) r(2) by simp
  have "copy_response resp t = (Ok (), t\<lparr>recv_state := OpRdyForData, recv_mbox := r2\<rparr>)"
    using assms(1,2) of_nat_fits [OF len] port_other_regs(6) [OF r(1), of Caliptra] fifo_enqueue_run [OF r(1) st len]
    by (simp add: copy_response_def recv_write_dlen_def bindE_Ok on_recv_Ok set_recv_state_def r2_def)
  then have "send_response resp t = (Ok (), t\<lparr>recv_state := OpIdle, recv_mbox := r3\<rparr>)"
    using assms(3) write_status_run(1) [OF parts(2) st2, of Caliptra 1]
    by (simp add: send_response_def bindE_Ok recv_complete_def on_recv_Ok set_recv_state_def r3_def)
  moreover have "field_read 0 4 1 = (1 :: u32)" by (simp add: field_read_def take_bit_eq_mod)
  ultimately show thesis
    using that [of r3] write_status_run(2) [OF parts(2) st2, of 1] parts(3) keeps(2) mb_loaded_status
    by (simp add: r3_def)
qed

text \<open>The owner clears the execute bit: the mailbox is free again.\<close>

lemma write_ex_clear_run:
  assumes "mbox_live sm r" "mb_state r \<in> {MbExecUc, MbExecSoc}" "mb_user (mb_ctx r) = user"
  shows "port_reg user (write_ex 0) r = (Ok (), r\<lparr>mb_irq := True, mb_execute := 0, mb_machine := (MbIdle, ctx_unlock (mb_ctx r))\<rparr>)"
    and "mbox_live sm (r\<lparr>mb_irq := True, mb_execute := 0, mb_machine := (MbIdle, ctx_unlock (mb_ctx r))\<rparr>)"
proof -
  have locked: "mb_locked (mb_ctx r) \<noteq> 0" using assms(1,2) by (auto simp: mbox_live_def mbox_machine_ok_def)
  have n: "mb_next (case user of Caliptra \<Rightarrow> UcExecClear | SocUser _ \<Rightarrow> SocExecClear) (mb_machine r)
      = (MbIdle, ctx_unlock (mb_ctx r))"
    using assms(2) locked
    by (cases "mb_machine r"; cases user) (auto simp: mb_next_def mbox_process_event_def ctx_is_locked_def)
  then show "port_reg user (write_ex 0) r =
      (Ok (), r\<lparr>mb_irq := True, mb_execute := 0, mb_machine := (MbIdle, ctx_unlock (mb_ctx r))\<rparr>)"
    using port_write_ex [OF assms(1,3), of 0] by simp
  show "mbox_live sm (r\<lparr>mb_irq := True, mb_execute := 0, mb_machine := (MbIdle, ctx_unlock (mb_ctx r))\<rparr>)"
    using mbox_live_next [OF assms(1), of "case user of Caliptra \<Rightarrow> UcExecClear | SocUser _ \<Rightarrow> SocExecClear"] n
    by (simp add: mbox_live_def)
qed

text \<open>The loop that waits for the lock ends when the other side frees the mailbox.\<close>

lemma wait_lock_acquires:
  assumes "\<And>i. i \<le> n \<Longrightarrow> mbox_live sm ((env ^^ i) r)" "\<And>i. i < n \<Longrightarrow> mb_state ((env ^^ i) r) \<noteq> MbIdle"
    and "mb_machine ((env ^^ n) r) = (MbIdle, c)" "mb_locked c = 0"
  shows "wait_lock env r = Some (((env ^^ n) r)\<lparr>mb_machine := (MbRdyForCmd, ctx_lock Caliptra c)\<rparr>)"
  using assms
proof (induction n arbitrary: r)
  case 0
  then have "mbox_live sm r" by (metis funpow_0 order_refl)
  from port_read_lock [OF this, of Caliptra] 0 show ?case by (simp add: wait_lock.simps [of env r] next_rd_lock)
next
  case (Suc n)
  have live: "mbox_live sm r" and busy: "mb_state r \<noteq> MbIdle"
    using Suc.prems(1) [of 0] Suc.prems(2) [of 0] by simp_all
  have "wait_lock env (env r) = Some (((env ^^ n) (env r))\<lparr>mb_machine := (MbRdyForCmd, ctx_lock Caliptra c)\<rparr>)"
    using Suc.prems(1) [of "Suc i" for i] Suc.prems(2) [of "Suc i" for i] Suc.prems(3,4)
    by (intro Suc.IH) (simp_all add: funpow_swap1)
  then show ?case
    using port_read_lock [OF live, of Caliptra] busy
    by (simp add: wait_lock.simps [of env r] next_rd_lock funpow_swap1)
qed

text \<open>A request that does not fit is refused after the command has been written; dropping the
  transaction then leaves the mailbox idle with its lock set.\<close>

lemma oversize_request_wedges:
  assumes t: "send_state t = OpRdyForCmd" "send_mbox_len t = mailbox_size sm"
    and r: "mbox_live sm (send_mbox t)" "mb_machine (send_mbox t) = (MbRdyForCmd, c)"
    and len: "MBOX_RAM_SIZE sm < length data" "length data < 2 ^ 32"
  shows "\<exists>t1 t2. send_copy_request cmd data t = (Err DRIVER_MAILBOX_INVALID_DATA_LEN, t1) \<and>
    send_drop t1 = (Ok (), t2) \<and> stuck (send_mbox t2)"
proof -
  let ?r = "send_mbox t"
  define r1 where "r1 = ?r\<lparr>mb_machine := (MbRdyForDlen, ctx_set_cmd cmd c)\<rparr>"
  have n1: "mb_next (CmdWrite cmd) (mb_machine ?r) = (MbRdyForDlen, ctx_set_cmd cmd c)"
    by (simp add: r(2) mb_next_defs)
  then have live1: "mbox_live sm r1" using mbox_live_next [OF r(1), of "CmdWrite cmd"] by (simp add: r1_def)
  have big: "(of_nat (length data) :: u32) > mailbox_size sm"
    using len by (simp add: word_less_nat_alt unat_mailbox_size unsigned_of_nat take_bit_nat_eq_self)
  have "send_write_cmd cmd t = (Ok (), t\<lparr>send_state := OpRdyForDlen, send_mbox := r1\<rparr>)"
    using t(1) port_other_regs(5) [OF r(1), of Caliptra cmd] n1
    by (simp add: send_write_cmd_def bindE_Ok on_send_Ok set_send_state_def r1_def)
  then have "send_copy_request cmd data t =
      (Err DRIVER_MAILBOX_INVALID_DATA_LEN, t\<lparr>send_state := OpRdyForDlen, send_mbox := r1\<rparr>)"
    using t big by (simp add: send_copy_request_def send_write_dlen_def bindE_Ok bindE_Err)
  moreover have "send_drop (t\<lparr>send_state := OpRdyForDlen, send_mbox := r1\<rparr>) =
      (Ok (), t\<lparr>send_state := OpRdyForDlen, send_mbox := r1\<lparr>mb_machine := (MbIdle, ctx_set_cmd cmd c)\<rparr>\<rparr>)"
    using port_other_regs(4,8) [OF live1, of Caliptra]
    by (simp add: send_drop_def on_send_def zoom_def bindE_def fsm_of_status fsm_value_states r1_def
        mb_next_def mbox_process_event_def)
  moreover have "mb_locked c = 1" using r by (simp add: mbox_live_def mbox_machine_ok_def)
  ultimately show ?thesis by (simp add: stuck_def ctx_set_cmd_def)
qed

end
