(* ===== verification/Sha512.thy ===== *)
theory Sha512
  imports Blocks
begin

unbundle bit_operations_syntax

text \<open>
  The SHA-512 of the emulator, \<^verbatim>\<open>sw-emulator/lib/crypto/src/sha512.rs\<close>. The compression function
  \<^verbatim>\<open>sha2::compress512\<close> of the \<^verbatim>\<open>sha2\<close> crate is the parameter \<open>compress512\<close>. The streaming
  interface is related to the reference \<open>sha_ref\<close>, except for the lengths for which
  \<^verbatim>\<open>finalize\<close> adds one block of padding too many.
\<close>

section \<open>The hasher\<close>

type_synonym compress512 = "u64 list \<Rightarrow> u8 list \<Rightarrow> u64 list"

datatype Sha512Mode = Mode224 | Mode256 | Mode384 | Mode512

record Sha512 =
  sha_hash :: "u64 list"
  sha_mode :: Sha512Mode
  partial_block :: "u8 list"
  blocks_processed :: nat

definition HASH_IV_224 :: "u64 list" where
  "HASH_IV_224 = [0x8c3d37c819544da2, 0x73e1996689dcd4d6, 0x1dfab7ae32ff9c82, 0x679dd514582f9fcf,
     0x0f6d2b697bd44da8, 0x77e36f7304c48942, 0x3f9d85a86a1d36c8, 0x1112e6ad91d692a1]"

definition HASH_IV_256 :: "u64 list" where
  "HASH_IV_256 = [0x22312194fc2bf72c, 0x9f555fa3c84c64c2, 0x2393b86b6f53b151, 0x963877195940eabd,
     0x96283ee2a88effe3, 0xbe5e1e2553863992, 0x2b0199fc2c85b8aa, 0x0eb72ddc81c52ca2]"

definition HASH_IV_384 :: "u64 list" where
  "HASH_IV_384 = [0xcbbb9d5dc1059ed8, 0x629a292a367cd507, 0x9159015a3070dd17, 0x152fecd8f70e5939,
     0x67332667ffc00b31, 0x8eb44a8768581511, 0xdb0c2e0d64f98fa7, 0x47b5481dbefa4fa4]"

definition HASH_IV_512 :: "u64 list" where
  "HASH_IV_512 = [0x6a09e667f3bcc908, 0xbb67ae8584caa73b, 0x3c6ef372fe94f82b, 0xa54ff53a5f1d36f1,
     0x510e527fade682d1, 0x9b05688c2b3e6c1f, 0x1f83d9abfb41bd6b, 0x5be0cd19137e2179]"

definition hash_iv :: "Sha512Mode \<Rightarrow> u64 list" where
  "hash_iv mode = (case mode of Mode224 \<Rightarrow> HASH_IV_224 | Mode256 \<Rightarrow> HASH_IV_256
     | Mode384 \<Rightarrow> HASH_IV_384 | Mode512 \<Rightarrow> HASH_IV_512)"

definition Sha512_new :: "Sha512Mode \<Rightarrow> Sha512" where
  "Sha512_new mode =
     \<lparr>sha_hash = hash_iv mode, sha_mode = mode, partial_block = [], blocks_processed = 0\<rparr>"

text \<open>\<^verbatim>\<open>set_hash\<close> and \<^verbatim>\<open>reset\<close> leave the partial block as it is.\<close>

definition Sha512_set_hash :: "u8 list \<Rightarrow> Sha512 \<Rightarrow> Sha512" where
  "Sha512_set_hash hash sha =
     sha\<lparr>sha_hash := map (\<lambda>i. from_be_bytes (take 8 (drop (i * 8) (swap4 hash)))) [0..<8]\<rparr>"

definition Sha512_reset :: "Sha512Mode \<Rightarrow> Sha512 \<Rightarrow> Sha512" where
  "Sha512_reset mode sha = sha\<lparr>sha_mode := mode, sha_hash := hash_iv mode, blocks_processed := 0\<rparr>"

definition Sha512_update :: "compress512 \<Rightarrow> u8 list \<Rightarrow> Sha512 \<Rightarrow> Sha512" where
  "Sha512_update compress512 block sha =
     sha\<lparr>sha_hash := compress512 (sha_hash sha) (swap4 block),
         blocks_processed := blocks_processed sha + 1\<rparr>"

text \<open>The loop that compresses the whole blocks at the front of \<^verbatim>\<open>partial_block\<close>.\<close>

function drain_blocks :: "compress512 \<Rightarrow> Sha512 \<Rightarrow> Sha512" where
  "drain_blocks compress512 sha =
     (if length (partial_block sha) \<ge> 128
      then drain_blocks compress512
             ((Sha512_update compress512 (swap4 (take 128 (partial_block sha))) sha)
                \<lparr>partial_block := drop 128 (partial_block sha)\<rparr>)
      else sha)"
  by pat_completeness auto
termination
  by (relation "measure (\<lambda>(_, sha). length (partial_block sha))") auto

declare drain_blocks.simps [simp del]

text \<open>
  \<^verbatim>\<open>update_bytes\<close>: bytes beyond the total length \<open>dlen\<close> are dropped; removing more than there
  is panics.
\<close>

definition Sha512_update_bytes :: "compress512 \<Rightarrow> u8 list \<Rightarrow> u32 option \<Rightarrow> Sha512 \<Rightarrow> Sha512 outcome" where
  "Sha512_update_bytes compress512 bytes dlen sha =
     (let pb = partial_block sha @ bytes;
          total = blocks_processed sha * 128 + length pb
      in bindO (case dlen of
           None \<Rightarrow> Ok pb
         | Some d \<Rightarrow>
             (if total > unat d
              then if total - unat d > length pb then RustPanic
                   else Ok (take (length pb - (total - unat d)) pb)
              else Ok pb)) (\<lambda>pb.
      Ok (drain_blocks compress512 (sha\<lparr>partial_block := pb\<rparr>))))"

definition Sha512_finalize :: "compress512 \<Rightarrow> u32 \<Rightarrow> Sha512 \<Rightarrow> Sha512 outcome" where
  "Sha512_finalize compress512 dlen sha =
     (let bytes_of_blocks = blocks_processed sha * 128
      in bindO (if unat dlen < bytes_of_blocks + length (partial_block sha)
                then if unat dlen < bytes_of_blocks then RustPanic else Ok (unat dlen - bytes_of_blocks)
                else Ok (length (partial_block sha))) (\<lambda>partial.
      let msg_len = blocks_processed sha * 128 + partial;
          zeros = 128 - (msg_len + 1 + 16) mod 128;
          pb = take partial (partial_block sha) @ [0x80] @ replicate zeros 0 @
               be_bytes 16 (of_nat (msg_len * 8) :: u128)
      in Ok (drain_blocks compress512 (sha\<lparr>partial_block := pb\<rparr>))))"

text \<open>\<^verbatim>\<open>copy_hash\<close>: the hash with the bytes of each of its 32-bit halves swapped.\<close>

definition Sha512_copy_hash :: "nat \<Rightarrow> Sha512 \<Rightarrow> u8 list" where
  "Sha512_copy_hash n sha = take (min n 64) (swap4 (concat (map be64 (sha_hash sha))))"

definition Sha512_hash_len :: "Sha512 \<Rightarrow> nat" where
  "Sha512_hash_len sha =
     (case sha_mode sha of Mode224 \<Rightarrow> 28 | Mode256 \<Rightarrow> 32 | Mode384 \<Rightarrow> 48 | Mode512 \<Rightarrow> 64)"

section \<open>Streaming\<close>

text \<open>The hasher has absorbed \<open>msg\<close> from the state \<open>iv\<close>.\<close>

definition absorbed :: "compress512 \<Rightarrow> u64 list \<Rightarrow> u8 list \<Rightarrow> Sha512 \<Rightarrow> bool" where
  "absorbed c iv msg sha \<longleftrightarrow>
     sha_hash sha = absorb c 128 iv (length msg div 128) msg \<and>
     blocks_processed sha = length msg div 128 \<and>
     partial_block sha = drop (128 * (length msg div 128)) msg"

lemma absorbed_new: "absorbed c (hash_iv mode) [] (Sha512_new mode)"
  by (simp add: absorbed_def Sha512_new_def)

text \<open>
  The loop invariant: the blocks processed so far are the first \<open>k\<close> of \<open>msg\<close>, the rest is in
  the partial block.
\<close>

lemma drain_blocks_absorb:
  assumes "sha_hash sha = absorb c 128 iv k msg" "blocks_processed sha = k"
    "partial_block sha = drop (128 * k) msg" "128 * k \<le> length msg"
  shows "absorbed c iv msg (drain_blocks c sha)"
  using assms
proof (induction c sha arbitrary: k rule: drain_blocks.induct)
  case (1 c sha)
  show ?case
  proof (cases "length (partial_block sha) \<ge> 128")
    case True
    let ?sha = "(Sha512_update c (swap4 (take 128 (partial_block sha))) sha)
      \<lparr>partial_block := drop 128 (partial_block sha)\<rparr>"
    have "absorbed c iv msg (drain_blocks c ?sha)"
    proof (rule "1.IH" [OF True])
      show "sha_hash ?sha = absorb c 128 iv (Suc k) msg"
        using "1.prems" by (simp add: Sha512_update_def absorb_Suc nth_block_def)
      show "partial_block ?sha = drop (128 * Suc k) msg" using "1.prems" by (simp add: add.commute)
      show "128 * Suc k \<le> length msg" using True "1.prems" by simp
    qed (use "1.prems" in \<open>simp add: Sha512_update_def\<close>)
    then show ?thesis using True by (subst drain_blocks.simps) simp
  next
    case False
    then have "length msg div 128 = k" using "1.prems" by simp
    then show ?thesis using False "1.prems" by (subst drain_blocks.simps) (simp add: absorbed_def)
  qed
qed

lemma update_bytes_absorbs:
  assumes abs: "absorbed c iv msg sha" and len: "length msg \<le> unat d"
  shows "\<exists>sha'. Sha512_update_bytes c bytes (Some d) sha = Ok sha' \<and>
     absorbed c iv (take (unat d) (msg @ bytes)) sha'"
proof -
  define k where "k = length msg div 128"
  have k: "128 * k \<le> length msg" by (simp add: k_def)
  define new where "new = take (unat d) (msg @ bytes)"
  have sha: "sha_hash sha = absorb c 128 iv k msg" "blocks_processed sha = k"
    "partial_block sha = drop (128 * k) msg"
    using abs by (simp_all add: absorbed_def k_def)
  have pb: "partial_block sha @ bytes = drop (128 * k) (msg @ bytes)" using sha k by simp
  let ?pb = "partial_block sha @ bytes"
  have total: "blocks_processed sha * 128 + length ?pb = length (msg @ bytes)"
    using sha k by simp
  have keep: "take (length ?pb - (length (msg @ bytes) - unat d)) ?pb = drop (128 * k) new"
    if "unat d < length (msg @ bytes)"
  proof -
    have "length ?pb - (length (msg @ bytes) - unat d) = unat d - 128 * k"
      using that k len sha(3) by simp
    then show ?thesis unfolding pb new_def by (simp only: drop_take)
  qed
  have all: "?pb = drop (128 * k) new" if "\<not> unat d < length (msg @ bytes)"
    using that unfolding pb new_def by simp
  have "Sha512_update_bytes c bytes (Some d) sha =
      Ok (drain_blocks c (sha\<lparr>partial_block := drop (128 * k) new\<rparr>))"
    using keep all len unfolding Sha512_update_bytes_def Let_def total by (auto simp: not_less)
  moreover have "absorbed c iv new (drain_blocks c (sha\<lparr>partial_block := drop (128 * k) new\<rparr>))"
  proof (rule drain_blocks_absorb)
    have "take (128 * k) msg = take (128 * k) new" using k len by (simp add: new_def min_absorb1)
    then show "sha_hash (sha\<lparr>partial_block := drop (128 * k) new\<rparr>) = absorb c 128 iv k new"
      using sha(1) absorb_cong [of 128 k msg new c iv] by simp
    show "128 * k \<le> length new" using k len by (simp add: new_def)
  qed (use sha in simp_all)
  ultimately show ?thesis unfolding new_def by blast
qed

section \<open>Finalisation\<close>

text \<open>The padding that \<^verbatim>\<open>finalize\<close> builds.\<close>

definition emu_pad :: "u8 list \<Rightarrow> u8 list" where
  "emu_pad msg = msg @ [0x80] @ replicate (128 - (length msg + 1 + 16) mod 128) 0 @
     be_nat 16 (8 * length msg)"

lemma emu_pad_dvd: "128 dvd length (emu_pad msg)"
proof -
  have "length (emu_pad msg) = length msg + 1 + 16 + (128 - (length msg + 1 + 16) mod 128)"
    by (simp add: emu_pad_def)
  then show ?thesis using round_up_dvd [of 128 "length msg + 1 + 16"] by simp
qed

lemma finalize_absorbs:
  assumes abs: "absorbed c iv msg sha" and len: "length msg \<le> unat d"
  shows "\<exists>sha'. Sha512_finalize c d sha = Ok sha' \<and>
     sha_hash sha' = absorb c 128 iv (length (emu_pad msg) div 128) (emu_pad msg)"
proof -
  define k where "k = length msg div 128"
  have k: "128 * k \<le> length msg" by (simp add: k_def)
  have sha: "sha_hash sha = absorb c 128 iv k msg" "blocks_processed sha = k"
    "partial_block sha = drop (128 * k) msg"
    using abs by (simp_all add: absorbed_def k_def)
  have plen: "k * 128 + length (partial_block sha) = length msg" using sha(3) k by simp
  let ?sha = "sha\<lparr>partial_block := drop (128 * k) (emu_pad msg)\<rparr>"
  have "be_bytes 16 (of_nat (length msg * 8) :: u128) = be_nat 16 (8 * length msg)"
    by (simp add: be_bytes_of_nat mult.commute del: of_nat_mult)
  then have pad: "partial_block sha @ [0x80] @ replicate (128 - (length msg + 1 + 16) mod 128) 0 @
      be_bytes 16 (of_nat (length msg * 8) :: u128) = drop (128 * k) (emu_pad msg)"
    using sha(3) k by (simp add: emu_pad_def)
  have "Sha512_finalize c d sha = Ok (drain_blocks c ?sha)"
    using len plen sha(2) unfolding pad [symmetric]
    by (simp add: Sha512_finalize_def Let_def del: of_nat_mult of_nat_add distrib_right_numeral)
  moreover have "absorbed c iv (emu_pad msg) (drain_blocks c ?sha)"
  proof (rule drain_blocks_absorb)
    have "absorb c 128 iv k msg = absorb c 128 iv k (emu_pad msg)"
      unfolding emu_pad_def by (rule absorb_append [symmetric]) (rule k)
    with sha(1) show "sha_hash ?sha = absorb c 128 iv k (emu_pad msg)" by simp
    show "128 * k \<le> length (emu_pad msg)" using k by (simp add: emu_pad_def)
  qed (use sha in simp_all)
  ultimately show ?thesis by (auto simp: absorbed_def)
qed

text \<open>
  The padding is that of SHA-512 unless the padded message without further zeros already ends
  on a block boundary; then it has a block of zeros too many.
\<close>

lemma emu_pad_eq: "length msg mod 128 \<noteq> 111 \<Longrightarrow> emu_pad msg = sha_pad 128 16 msg"
proof -
  assume "length msg mod 128 \<noteq> 111"
  then have "(length msg + 1 + 16) mod 128 \<noteq> 0" using add_mod_eq_0_iff [of 17 128 "length msg"] by (simp add: add.commute)
  then show ?thesis by (simp add: emu_pad_def sha_pad_def pad_zeros_def)
qed

lemma emu_pad_extra:
  "length msg mod 128 = 111 \<Longrightarrow> length (emu_pad msg) = length (sha_pad 128 16 msg) + 128"
proof -
  assume "length msg mod 128 = 111"
  then have "(length msg + 1 + 16) mod 128 = 0" using add_mod_eq_0_iff [of 17 128 "length msg"] by (simp add: add.commute)
  then show ?thesis by (simp add: emu_pad_def sha_pad_def pad_zeros_def)
qed

section \<open>Messages in pieces\<close>

lemma feed_absorbs:
  assumes "absorbed c iv msg sha" "length (msg @ concat parts) \<le> unat d"
  shows "\<exists>sha'. foldl (\<lambda>s bytes. bindO s (Sha512_update_bytes c bytes (Some d))) (Ok sha) parts = Ok sha' \<and>
    absorbed c iv (msg @ concat parts) sha'"
  using assms
proof (induction parts arbitrary: msg sha)
  case (Cons p parts)
  then obtain sha' where "Sha512_update_bytes c p (Some d) sha = Ok sha'" "absorbed c iv (msg @ p) sha'"
    using update_bytes_absorbs [OF Cons.prems(1), of d p] by auto
  then show ?case using Cons.IH [of "msg @ p" sha'] Cons.prems(2) by simp
qed auto

text \<open>C35: The streaming hasher of the emulator computes SHA-512 (and SHA-384) however the message is cut
  into pieces: feeding the pieces and finalising yields the hash of the padded concatenation, for
  every message whose length is not 111 modulo 128, the lengths at which its padding has a block too
  many.\<close>

theorem sha512_streaming_ref:
  assumes "length (concat parts) = unat d" "length (concat parts) mod 128 \<noteq> 111"
  shows "\<exists>sha. bindO (foldl (\<lambda>s bytes. bindO s (Sha512_update_bytes c bytes (Some d))) (Ok (Sha512_new mode)) parts)
      (Sha512_finalize c d) = Ok sha \<and>
    sha_hash sha = sha_ref c 128 16 (hash_iv mode) (concat parts)"
proof -
  obtain sha where sha: "foldl (\<lambda>s bytes. bindO s (Sha512_update_bytes c bytes (Some d))) (Ok (Sha512_new mode)) parts = Ok sha"
    "absorbed c (hash_iv mode) (concat parts) sha"
    using feed_absorbs [OF absorbed_new, of parts d c mode] assms(1) by auto
  then obtain sha' where "Sha512_finalize c d sha = Ok sha'"
    "sha_hash sha' = absorb c 128 (hash_iv mode) (length (emu_pad (concat parts)) div 128) (emu_pad (concat parts))"
    using finalize_absorbs [OF sha(2), of d] assms(1) by auto
  then show ?thesis using sha(1) emu_pad_eq [OF assms(2)] by (simp add: sha_ref_def)
qed

theorem sha512_streaming_ref_witness:
  "\<exists>sha. bindO (foldl (\<lambda>s bytes. bindO s (Sha512_update_bytes (\<lambda>h blk. h) bytes (Some 5))) (Ok (Sha512_new Mode384)) [[1, 2], [], [3, 4, 5]])
      (Sha512_finalize (\<lambda>h blk. h) 5) = Ok sha \<and>
    sha_hash sha = sha_ref (\<lambda>h blk. h) 128 16 HASH_IV_384 [1, 2, 3, 4, 5]"
  using sha512_streaming_ref [of "[[1, 2], [], [3, 4, 5]]" 5 "\<lambda>h blk. h" Mode384] by (simp add: hash_iv_def)

end
