(* ===== verification/Sha512Acc.thy ===== *)
theory Sha512Acc
  imports Sha512 EmuBus
begin

unbundle bit_operations_syntax

text \<open>
  The SHA-512 accelerator of \<^verbatim>\<open>sw-emulator/lib/periph/src/sha512_acc.rs\<close>: the register file, the
  lock state machine, the register callbacks and the two hash paths (streamed data and mailbox
  memory). A callback is an action over the registers whose value is the bus error or the
  data; \<open>RustPanic\<close> is a panic of the emulator. The scheduled completion is the number of
  ticks left. The lemmas give the state machine's invariant and the digest each path leaves in
  the digest registers.
\<close>

section \<open>The lock state machine\<close>

datatype AccState = Idle | RdyForExc

datatype AccEvent = RdLock u32 | WrLock u32 | Reset

record AccMachine =
  acc_state :: AccState
  locked :: u32
  lock_user :: u32

definition AccMachine_new :: AccMachine where
  "AccMachine_new = \<lparr>acc_state = Idle, locked = 0, lock_user = 0\<rparr>"

text \<open>\<open>None\<close> is the error of an event with no transition or whose guard failed.\<close>

fun process_event :: "AccEvent \<Rightarrow> AccMachine \<Rightarrow> AccMachine option" where
  "process_event (RdLock user) m =
     (if acc_state m = Idle \<and> locked m \<noteq> 1
      then Some (m\<lparr>acc_state := RdyForExc, locked := 1, lock_user := user\<rparr>) else None)"
| "process_event (WrLock user) m =
     (if acc_state m = RdyForExc \<and> locked m \<noteq> 0
      then Some (m\<lparr>acc_state := Idle, locked := 0\<rparr>) else None)"
| "process_event Reset m = Some (m\<lparr>acc_state := Idle, locked := 0\<rparr>)"

section \<open>Registers\<close>

record Sha512AcceleratorRegs =
  acc_user :: u32
  acc_mode :: u32
  acc_start_address :: u32
  acc_dlen :: u32
  acc_data_in :: u32
  acc_execute :: u32
  acc_status :: u32
  hash_lower :: "u8 list"
  hash_upper :: "u8 list"
  acc_control :: u32
  mailbox_ram :: RamImpl
  state_machine :: AccMachine
  op_complete_action :: "nat option"
  sha_stream :: Sha512

abbreviation (input) MAX_MAILBOX_CAPACITY_WORDS :: nat where "MAX_MAILBOX_CAPACITY_WORDS \<equiv> 65536"
abbreviation (input) MAX_MAILBOX_CAPACITY_BYTES :: nat where "MAX_MAILBOX_CAPACITY_BYTES \<equiv> 262144"
abbreviation (input) SHA_ACC_OP_TICKS :: nat where "SHA_ACC_OP_TICKS \<equiv> 1000"

abbreviation (input) MODE_SHA_STREAM_384 :: u32 where "MODE_SHA_STREAM_384 \<equiv> 0"
abbreviation (input) MODE_SHA_STREAM_512 :: u32 where "MODE_SHA_STREAM_512 \<equiv> 1"
abbreviation (input) MODE_MBOX_384 :: u32 where "MODE_MBOX_384 \<equiv> 2"
abbreviation (input) MODE_MBOX_512 :: u32 where "MODE_MBOX_512 \<equiv> 3"

definition mode_field :: "Sha512AcceleratorRegs \<Rightarrow> u32" where
  "mode_field r = acc_mode r AND 3"

definition endian_toggle :: "Sha512AcceleratorRegs \<Rightarrow> bool" where
  "endian_toggle r \<longleftrightarrow> bit (acc_mode r) 2"

definition status_valid :: "Sha512AcceleratorRegs \<Rightarrow> bool" where
  "status_valid r \<longleftrightarrow> bit (acc_status r) 0"

text \<open>The constructor takes the lock on behalf of the microcontroller.\<close>

definition Sha512AcceleratorRegs_new :: "RamImpl \<Rightarrow> Sha512AcceleratorRegs" where
  "Sha512AcceleratorRegs_new ram = \<lparr>acc_user = 0, acc_mode = 0, acc_start_address = 0, acc_dlen = 0,
     acc_data_in = 0, acc_execute = 0, acc_status = 0, hash_lower = replicate 32 0,
     hash_upper = replicate 32 0, acc_control = 0, mailbox_ram = ram,
     state_machine = the (process_event (RdLock 0) AccMachine_new), op_complete_action = None,
     sha_stream = Sha512_new Mode512\<rparr>"

type_synonym 'a acc_io = "(Sha512AcceleratorRegs, 'a) bus_io"

section \<open>Lock, mode, address and length registers\<close>

definition on_read_lock :: "RvSize \<Rightarrow> u32 acc_io" where
  "on_read_lock sz r =
     (if sz \<noteq> Word then bus_fault LoadAccessFault r
      else case process_event (RdLock 0) (state_machine r) of
        Some m \<Rightarrow> (Ok (Inr 0), r\<lparr>state_machine := m\<rparr>)
      | None \<Rightarrow> (Ok (Inr 1), r))"

definition on_write_lock :: "RvSize \<Rightarrow> u32 \<Rightarrow> unit acc_io" where
  "on_write_lock sz val r =
     (if sz \<noteq> Word then bus_fault StoreAccessFault r
      else if bit val 0
      then case process_event (WrLock 0) (state_machine r) of
        Some m \<Rightarrow> (Ok (Inr ()), r\<lparr>state_machine := m, acc_status := acc_status r AND NOT 1, acc_dlen := 0,
            acc_start_address := 0, acc_execute := 0, acc_data_in := 0, acc_mode := 0\<rparr>)
      | None \<Rightarrow> (Ok (Inr ()), r)
      else (Ok (Inr ()), r))"

definition on_write_mode :: "RvSize \<Rightarrow> u32 \<Rightarrow> unit acc_io" where
  "on_write_mode sz val r =
     (if sz \<noteq> Word then bus_fault StoreAccessFault r
      else let r = r\<lparr>acc_mode := val\<rparr> in
        if mode_field r = MODE_SHA_STREAM_384 then (Ok (Inr ()), r\<lparr>sha_stream := Sha512_new Mode384\<rparr>)
        else if mode_field r = MODE_SHA_STREAM_512 then (Ok (Inr ()), r\<lparr>sha_stream := Sha512_new Mode512\<rparr>)
        else (Ok (Inr ()), r))"

definition on_write_start_address :: "RvSize \<Rightarrow> u32 \<Rightarrow> unit acc_io" where
  "on_write_start_address sz addr r =
     (if sz \<noteq> Word \<or> unat addr mod 4 \<noteq> 0 \<or> unat addr \<ge> MAX_MAILBOX_CAPACITY_WORDS
      then bus_fault StoreAccessFault r
      else (Ok (Inr ()), r\<lparr>acc_start_address := addr\<rparr>))"

definition on_write_dlen :: "RvSize \<Rightarrow> u32 \<Rightarrow> unit acc_io" where
  "on_write_dlen sz dlen r =
     (if sz \<noteq> Word then bus_fault StoreAccessFault r
      else if (mode_field r = MODE_MBOX_512 \<or> mode_field r = MODE_MBOX_384) \<and>
              unat dlen > MAX_MAILBOX_CAPACITY_BYTES
      then bus_fault StoreAccessFault r
      else (Ok (Inr ()), r\<lparr>acc_dlen := dlen\<rparr>))"

section \<open>Hashing\<close>

definition on_write_data_in :: "compress512 \<Rightarrow> RvSize \<Rightarrow> u32 \<Rightarrow> unit acc_io" where
  "on_write_data_in compress512 sz val r =
     (if sz \<noteq> Word then bus_fault StoreAccessFault r
      else let bytes = (if endian_toggle r then be32 val else le32 val)
        in case Sha512_update_bytes compress512 bytes (Some (acc_dlen r)) (sha_stream r) of
          Ok sha \<Rightarrow> (Ok (Inr ()), r\<lparr>sha_stream := sha\<rparr>)
        | _ \<Rightarrow> (RustPanic, r))"

text \<open>The words of the mailbox that cover the message; a read that faults panics.\<close>

definition read_mbox_words :: "RamImpl \<Rightarrow> u32 \<Rightarrow> nat \<Rightarrow> u8 list outcome" where
  "read_mbox_words ram start n =
     bindO (mapO (\<lambda>idx. case Ram_read ram Word (start + of_nat (4 * idx)) of
              Inl _ \<Rightarrow> RustPanic | Inr word \<Rightarrow> Ok (le32 word)) [0..<n])
       (\<lambda>chunks. Ok (concat chunks))"

text \<open>The blocks \<^verbatim>\<open>compute_mbox_hash\<close> builds before it turns them to big-endian.\<close>

definition mbox_blocks :: "bool \<Rightarrow> nat \<Rightarrow> u8 list \<Rightarrow> u8 list" where
  "mbox_blocks toggle data_len words =
     (let totalbytes = (data_len + 16 + 128) div 128 * 128;
          arr = words @ replicate (totalbytes - length words) 0;
          arr = (if toggle then swap4 arr else arr);
          arr = arr[data_len := 0x80]
      in take (totalbytes - 16) arr @ be_bytes 16 (of_nat (data_len * 8) :: u128))"

definition set_digest :: "u8 list \<Rightarrow> Sha512AcceleratorRegs \<Rightarrow> Sha512AcceleratorRegs" where
  "set_digest hash r = r\<lparr>hash_lower := take 32 hash, hash_upper := drop 32 hash\<rparr>"

definition compute_mbox_hash :: "compress512 \<Rightarrow> (Sha512AcceleratorRegs, unit) action" where
  "compute_mbox_hash compress512 r =
     (let data_len = unat (acc_dlen r);
          totaldwords = (data_len + 3) div 4;
          totalblocks = (data_len + 16 + 128) div 128
      in case read_mbox_words (mailbox_ram r) (acc_start_address r) totaldwords of
        Ok words \<Rightarrow>
          let block_arr = swap4 (mbox_blocks (endian_toggle r) data_len words);
              mode = (if mode_field r = MODE_MBOX_512 then Mode512 else Mode384);
              sha = foldl (\<lambda>sha i. Sha512_update compress512 (nth_block 128 block_arr i) sha)
                      (Sha512_new mode) [0..<totalblocks]
          in (Ok (), set_digest (Sha512_copy_hash 64 sha) r)
      | _ \<Rightarrow> (RustPanic, r))"

definition op_complete :: "Sha512AcceleratorRegs \<Rightarrow> Sha512AcceleratorRegs" where
  "op_complete r = r\<lparr>acc_status := acc_status r OR 1\<rparr>"

definition finalize_stream_hash :: "compress512 \<Rightarrow> (Sha512AcceleratorRegs, unit) action" where
  "finalize_stream_hash compress512 r =
     (case Sha512_finalize compress512 (acc_dlen r) (sha_stream r) of
        Ok sha \<Rightarrow> (Ok (), op_complete (set_digest (Sha512_copy_hash 64 sha) (r\<lparr>sha_stream := sha\<rparr>)))
      | _ \<Rightarrow> (RustPanic, r))"

definition on_write_execute :: "compress512 \<Rightarrow> RvSize \<Rightarrow> u32 \<Rightarrow> unit acc_io" where
  "on_write_execute compress512 sz val r =
     (if sz \<noteq> Word then bus_fault StoreAccessFault r
      else let r = r\<lparr>acc_execute := val\<rparr> in
        if bit (acc_execute r) 0
        then if mode_field r = MODE_MBOX_384 \<or> mode_field r = MODE_MBOX_512
          then bindE (compute_mbox_hash compress512)
                 (\<lambda>_ r. (Ok (Inr ()), r\<lparr>op_complete_action := Some SHA_ACC_OP_TICKS\<rparr>)) r
          else if mode_field r = MODE_SHA_STREAM_384 \<or> mode_field r = MODE_SHA_STREAM_512
          then bindE (finalize_stream_hash compress512) (\<lambda>_. ret (Inr ())) r
          else bus_fault StoreAccessFault r
        else bus_fault StoreAccessFault r)"

section \<open>Control, time and reset\<close>

definition zeroize :: "Sha512AcceleratorRegs \<Rightarrow> Sha512AcceleratorRegs" where
  "zeroize r = r\<lparr>hash_lower := replicate (length (hash_lower r)) 0,
                 hash_upper := replicate (length (hash_upper r)) 0\<rparr>"

definition on_write_control :: "RvSize \<Rightarrow> u32 \<Rightarrow> unit acc_io" where
  "on_write_control sz val r =
     (if sz \<noteq> Word then bus_fault StoreAccessFault r
      else let r = r\<lparr>acc_control := val\<rparr>
        in (Ok (Inr ()), if bit (acc_control r) 0 then zeroize r else r))"

definition acc_poll :: "Sha512AcceleratorRegs \<Rightarrow> Sha512AcceleratorRegs" where
  "acc_poll r = (if op_complete_action r = Some 0
     then op_complete (r\<lparr>op_complete_action := None\<rparr>) else r)"

definition acc_warm_reset :: "Sha512AcceleratorRegs \<Rightarrow> Sha512AcceleratorRegs" where
  "acc_warm_reset r = r\<lparr>state_machine :=
     the (process_event (RdLock 0) (the (process_event Reset (state_machine r))))\<rparr>"

text \<open>A tick of the clock that drives the timer, followed by the poll.\<close>

definition acc_tick :: "Sha512AcceleratorRegs \<Rightarrow> Sha512AcceleratorRegs" where
  "acc_tick r = acc_poll (r\<lparr>op_complete_action := map_option (\<lambda>n. n - 1) (op_complete_action r)\<rparr>)"

text \<open>Word \<open>i\<close> of the digest registers.\<close>

definition acc_read_digest :: "Sha512AcceleratorRegs \<Rightarrow> nat \<Rightarrow> u32" where
  "acc_read_digest r i = from_le_bytes (take 4 (drop (4 * i) (hash_lower r @ hash_upper r)))"

section \<open>The lock\<close>

definition machine_ok :: "AccMachine \<Rightarrow> bool" where
  "machine_ok m \<longleftrightarrow> (acc_state m = Idle \<and> locked m = 0) \<or> (acc_state m = RdyForExc \<and> locked m = 1)"

lemma machine_ok_new [simp]: "machine_ok AccMachine_new"
  by (simp add: machine_ok_def AccMachine_new_def)

lemma process_event_ok: "machine_ok m \<Longrightarrow> process_event e m = Some m' \<Longrightarrow> machine_ok m'"
  by (cases e) (auto simp: machine_ok_def split: if_splits)

lemma warm_reset_takes_lock: "acc_state (state_machine (acc_warm_reset r)) = RdyForExc"
  by (simp add: acc_warm_reset_def)

section \<open>Digest words\<close>

text \<open>The first \<open>n\<close> big-endian words of a SHA-512 state.\<close>

definition digest_words :: "nat \<Rightarrow> u64 list \<Rightarrow> u32 list" where
  "digest_words n h = map (\<lambda>i. from_be_bytes (take 4 (drop (4 * i) (concat (map be64 h))))) [0..<n]"

lemma length_digest_words [simp]: "length (digest_words n h) = n"
  by (simp add: digest_words_def)

lemma from_le_swap4:
  "4 * i + 4 \<le> length bs \<Longrightarrow>
     from_le_bytes (take 4 (drop (4 * i) (swap4 bs))) = (from_be_bytes (take 4 (drop (4 * i) bs)) :: u32)"
proof (induction bs arbitrary: i rule: swap4.induct)
  case (1 a b c d rest)
  then show ?case
    by (cases i) (simp_all add: from_be_bytes_def numeral_eq_Suc)
qed auto

lemma length_concat_be64 [simp]: "length (concat (map be64 h)) = 8 * length h"
  by (induction h) auto

lemma read_set_digest:
  assumes "length (sha_hash sha) = 8" "i < 16"
  shows "acc_read_digest (set_digest (Sha512_copy_hash 64 sha) r) i =
    from_be_bytes (take 4 (drop (4 * i) (concat (map be64 (sha_hash sha)))))"
  using assms from_le_swap4 [of i "concat (map be64 (sha_hash sha))"]
  by (simp add: acc_read_digest_def set_digest_def Sha512_copy_hash_def)

section \<open>The mailbox path\<close>

lemma read_mbox_words_Ok:
  assumes ram: "error_injection ram = 0" "unat start + 4 * n \<le> length (ram_data ram)"
    and start: "4 dvd unat start" "unat start + 4 * n < 2 ^ 32"
  shows "read_mbox_words ram start n = Ok (take (4 * n) (drop (unat start) (ram_data ram)))"
proof -
  let ?d = "drop (unat start) (ram_data ram)"
  have read: "Ram_read ram Word (start + of_nat (4 * idx)) = Inr (from_le_bytes (take 4 (drop (4 * idx) ?d)))"
    if "idx < n" for idx
  proof -
    have "unat (start + of_nat (4 * idx)) = unat start + 4 * idx"
      using that start by (simp add: unat_word_ariths unat_of_nat take_bit_nat_eq_self unsigned_of_nat)
    then show ?thesis
      using Ram_read_word [of ram "start + of_nat (4 * idx)"] that ram start by (simp add: add.commute)
  qed
  have "mapO (\<lambda>idx. case Ram_read ram Word (start + of_nat (4 * idx)) of
           Inl _ \<Rightarrow> RustPanic | Inr word \<Rightarrow> Ok (le32 word)) [0..<n] =
        Ok (map (\<lambda>idx. take 4 (drop (4 * idx) ?d)) [0..<n])"
    by (rule mapO_Ok) (use ram in \<open>auto simp: read [simplified] le_from_le_bytes\<close>)
  moreover have "concat (map (\<lambda>idx. take 4 (drop (4 * idx) ?d)) [0..<n]) = take (4 * n) ?d"
  proof (induction n)
    case (Suc n)
    then show ?case using take_add [of "4 * n" 4 ?d] by (simp add: add.commute)
  qed simp
  ultimately show ?thesis by (simp add: read_mbox_words_def)
qed

lemma pad_zeros_512: "pad_zeros 128 16 n = (n + 16 + 128) div 128 * 128 - n - 17"
proof -
  have split: "n + 16 = (n + 16) div 128 * 128 + (n + 16) mod 128" by simp
  have "Suc (n + 16) mod 128 = (if Suc ((n + 16) mod 128) = 128 then 0 else Suc ((n + 16) mod 128))"
    by (rule mod_Suc)
  moreover have "(n + 16) mod 128 < 128" by simp
  ultimately have "pad_zeros 128 16 n = 127 - (n + 16) mod 128"
    unfolding pad_zeros_def by auto
  moreover have "(n + 16 + 128) div 128 = (n + 16) div 128 + 1" by (rule div_add_self2) simp
  then have "(n + 16 + 128) div 128 * 128 - n - 17 = 127 - (n + 16) mod 128"
    using split by (simp only: distrib_right)
  ultimately show ?thesis by simp
qed

lemma mbox_blocks_pad:
  assumes len: "data_len \<le> length words" "length words < data_len + 4"
    and tail: "drop (Suc data_len) words = replicate (length words - Suc data_len) 0"
  shows "mbox_blocks False data_len words = sha_pad 128 16 (take data_len words)"
proof -
  define tb where "tb = (data_len + 16 + 128) div 128 * 128"
  have tb: "data_len + 17 \<le> tb" using div_round_up_gt [of 128 "data_len + 16"] unfolding tb_def by simp
  let ?arr = "words @ replicate (tb - length words) 0"
  have "?arr[data_len := 0x80] = take data_len ?arr @ 0x80 # drop (Suc data_len) ?arr"
    using len tb by (intro upd_conv_take_nth_drop) simp
  also have "drop (Suc data_len) ?arr = replicate (tb - Suc data_len) 0"
  proof (cases "data_len < length words")
    case True
    then have "drop (Suc data_len) ?arr = replicate (length words - Suc data_len + (tb - length words)) 0"
      by (simp only: drop_append tail replicate_add) simp
    then show ?thesis using True len tb by (simp add: algebra_simps)
  qed (use len in simp)
  finally have "take (tb - 16) (?arr[data_len := 0x80]) =
      take data_len words @ [0x80] @ replicate (tb - data_len - 17) 0"
    using len tb by (auto simp: min_def take_Cons')
  moreover have "be_bytes 16 (of_nat (data_len * 8) :: u128) = be_nat 16 (8 * data_len)"
    by (simp add: be_bytes_of_nat mult.commute del: of_nat_mult)
  ultimately show ?thesis
    using len unfolding mbox_blocks_def Let_def sha_pad_def pad_zeros_512 tb_def
    by (simp add: min_absorb2 del: of_nat_mult)
qed

lemma nth_block_swap4:
  "4 dvd B \<Longrightarrow> nth_block B (swap4 bs) i = swap4 (nth_block B bs i)" if "B * Suc i \<le> length bs"
proof -
  assume B: "4 dvd B"
  have "bs = take (B * i) bs @ take B (drop (B * i) bs) @ drop (B * Suc i) bs"
    by (metis append_take_drop_id drop_drop mult_Suc_right)
  moreover have "4 dvd length (take (B * i) bs)" "4 dvd length (take B (drop (B * i) bs))"
    using that B by (simp_all add: min_absorb2)
  ultimately have "swap4 bs = swap4 (take (B * i) bs) @ swap4 (take B (drop (B * i) bs)) @ swap4 (drop (B * Suc i) bs)"
    by (metis swap4_append)
  then show ?thesis using that by (simp add: nth_block_def min_def)
qed

lemma foldl_update_absorb:
  assumes "128 * k \<le> length bs"
  shows "sha_hash (foldl (\<lambda>sha i. Sha512_update c (nth_block 128 (swap4 bs) i) sha) sha [0..<k]) =
    absorb c 128 (sha_hash sha) k bs"
  using assms
  by (induction k) (simp_all add: absorb_Suc Sha512_update_def nth_block_swap4)

text \<open>
  A mailbox hash is the SHA-384 (or SHA-512) state of the message when the words holding it
  are in the mailbox and the bytes after the message in its last word are zero.
\<close>

definition mbox_msg_ok :: "RamImpl \<Rightarrow> u32 \<Rightarrow> u32 \<Rightarrow> bool" where
  "mbox_msg_ok ram start dlen \<longleftrightarrow>
     error_injection ram = 0 \<and> 4 dvd unat start \<and> 4 dvd unat dlen \<and>
     length (ram_data ram) \<le> MAX_MAILBOX_CAPACITY_BYTES \<and>
     unat start + unat dlen \<le> length (ram_data ram)"

lemma compute_mbox_hash_ref:
  assumes ok: "mbox_msg_ok (mailbox_ram r) (acc_start_address r) (acc_dlen r)" and "\<not> endian_toggle r"
  defines "msg \<equiv> take (unat (acc_dlen r)) (drop (unat (acc_start_address r)) (ram_data (mailbox_ram r)))"
    and "iv \<equiv> hash_iv (if mode_field r = MODE_MBOX_512 then Mode512 else Mode384)"
  shows "\<exists>sha. compute_mbox_hash c r = (Ok (), set_digest (Sha512_copy_hash 64 sha) r) \<and>
    sha_hash sha = sha_ref c 128 16 iv msg"
proof -
  let ?n = "unat (acc_dlen r)"
  have n: "4 * ((?n + 3) div 4) = ?n" using ok by (auto simp: mbox_msg_ok_def elim!: dvdE)
  have words: "read_mbox_words (mailbox_ram r) (acc_start_address r) ((?n + 3) div 4) = Ok msg"
    using ok n unfolding mbox_msg_ok_def msg_def
    by (subst read_mbox_words_Ok) simp_all
  have len: "length msg = ?n" using ok by (auto simp: msg_def mbox_msg_ok_def)
  have pad: "mbox_blocks False ?n msg = sha_pad 128 16 msg"
    by (subst mbox_blocks_pad) (simp_all add: len)
  have blocks: "(?n + 16 + 128) div 128 = length (sha_pad 128 16 msg) div 128"
    using div_round_up_gt [of 128 "?n + 16"] unfolding length_sha_pad pad_zeros_512 len by simp
  define sha where "sha = foldl (\<lambda>sha i. Sha512_update c (nth_block 128 (swap4 (sha_pad 128 16 msg)) i) sha)
    (Sha512_new (if mode_field r = MODE_MBOX_512 then Mode512 else Mode384))
    [0..<length (sha_pad 128 16 msg) div 128]"
  have "compute_mbox_hash c r = (Ok (), set_digest (Sha512_copy_hash 64 sha) r)"
    using assms(2) pad unfolding compute_mbox_hash_def Let_def words blocks sha_def by simp
  moreover have "sha_hash sha = sha_ref c 128 16 iv msg"
    unfolding sha_def sha_ref_def iv_def by (subst foldl_update_absorb) (simp_all add: Sha512_new_def)
  ultimately show ?thesis by blast
qed

section \<open>The scheduled completion\<close>

definition acc_complete :: "Sha512AcceleratorRegs \<Rightarrow> Sha512AcceleratorRegs" where
  "acc_complete r = op_complete (r\<lparr>op_complete_action := None\<rparr>)"

interpretation acc_device: timed_device op_complete_action "\<lambda>r n. r\<lparr>op_complete_action := Some n\<rparr>"
  acc_complete acc_tick status_valid
  by unfold_locales
    (auto simp: acc_tick_def acc_poll_def acc_complete_def op_complete_def status_valid_def bit_simps
      le_Suc_eq)

end
