(* ===== verification/Sha2Acc.thy ===== *)
theory Sha2Acc
  imports Sha512Acc CaliptraError
begin

unbundle bit_operations_syntax

text \<open>
  The driver of the SHA accelerator, \<^verbatim>\<open>drivers/src/sha2_512_384acc.rs\<close>, running on the emulated
  peripheral. A driver operation is an action over the peripheral's registers; a register access
  that faults traps and never returns to the driver, and so does a wait for a flag that is never
  set. The lemmas show that a streamed digest and a mailbox digest are the SHA-2 reference of
  the message, that the registers are zeroized afterwards, and that dropping the operation
  gives the lock back.
\<close>

text \<open>\<^verbatim>\<open>wait::until(|| status.valid())\<close>\<close>

abbreviation wait_valid :: "(Sha512AcceleratorRegs, unit) action" where
  "wait_valid \<equiv> wait_for status_valid acc_tick"

section \<open>The lock\<close>

datatype ShaAccLockState = AssumedLocked | NotAcquired

datatype StreamEndianness = Native | Reorder

definition should_toggle :: "StreamEndianness \<Rightarrow> bool" where
  "should_toggle e = (case e of Native \<Rightarrow> True | Reorder \<Rightarrow> False)"

text \<open>The operation object is \<open>Some ()\<close>.\<close>

definition try_start_operation :: "ShaAccLockState \<Rightarrow> (Sha512AcceleratorRegs, unit option) action" where
  "try_start_operation assumed_lock_state =
     bindE (mmio (on_read_lock Word)) (\<lambda>lock.
     case assumed_lock_state of
       NotAcquired \<Rightarrow> if bit lock 0 then ret None else ret (Some ())
     | AssumedLocked \<Rightarrow> if bit lock 0 then ret (Some ())
         else throw DRIVER_SHA2_512_384ACC_UNEXPECTED_ACQUIRED_LOCK_STATE)"

definition drop_op :: "(Sha512AcceleratorRegs, unit) action" where
  "drop_op = mmio (on_write_lock Word 1)"

text \<open>The operation object lives during \<open>m\<close> and is dropped when \<open>m\<close> returns, with a value or an error.\<close>

definition with_op :: "(Sha512AcceleratorRegs, 'a) action \<Rightarrow> (Sha512AcceleratorRegs, 'a) action" where
  "with_op m r = (case m r of
     (Ok x, t) \<Rightarrow> bindE drop_op (\<lambda>_. ret x) t
   | (Err e, t) \<Rightarrow> bindE drop_op (\<lambda>_. throw e) t
   | (x, t) \<Rightarrow> (x, t))"

definition Sha2Acc_zeroize :: "(Sha512AcceleratorRegs, unit) action" where
  "Sha2Acc_zeroize = mmio (on_write_control Word 1)"

section \<open>Streamed digests\<close>

definition mode_word :: "u32 \<Rightarrow> StreamEndianness \<Rightarrow> u32" where
  "mode_word cmd endianness = cmd OR (if should_toggle endianness then 4 else 0)"

fun write_data_to_datain :: "compress512 \<Rightarrow> u8 list \<Rightarrow> (Sha512AcceleratorRegs, unit) action" where
  "write_data_to_datain c [] = ret ()"
| "write_data_to_datain c (b # bs) =
     (let chunk = take 4 (b # bs); dword = chunk @ replicate (4 - length chunk) 0
      in bindE (mmio (on_write_data_in c Word (from_le_bytes dword)))
           (\<lambda>_. write_data_to_datain c (drop 3 bs)))"

definition stream_start_384 :: "u32 \<Rightarrow> StreamEndianness \<Rightarrow> (Sha512AcceleratorRegs, unit) action" where
  "stream_start_384 dlen endianness =
     bindE (mmio (on_write_mode Word (mode_word MODE_SHA_STREAM_384 endianness))) (\<lambda>_.
     mmio (on_write_dlen Word dlen))"

definition stream_start_512 :: "u32 \<Rightarrow> StreamEndianness \<Rightarrow> (Sha512AcceleratorRegs, unit) action" where
  "stream_start_512 dlen endianness =
     bindE (mmio (on_write_mode Word (mode_word MODE_SHA_STREAM_512 endianness))) (\<lambda>_.
     mmio (on_write_dlen Word dlen))"

definition read_digest :: "nat \<Rightarrow> (Sha512AcceleratorRegs, u32 list) action" where
  "read_digest n = gets (\<lambda>r. map (acc_read_digest r) [0..<n])"

definition stream_wait_for_done_384 :: "(Sha512AcceleratorRegs, u32 list) action" where
  "stream_wait_for_done_384 =
     bindE wait_valid (\<lambda>_.
     bindE (read_digest 12) (\<lambda>digest.
     bindE (mmio (on_write_control Word 1)) (\<lambda>_. ret digest)))"

definition stream_wait_for_done_512 :: "(Sha512AcceleratorRegs, u32 list) action" where
  "stream_wait_for_done_512 =
     bindE wait_valid (\<lambda>_.
     bindE (read_digest 16) (\<lambda>digest.
     bindE (mmio (on_write_control Word 1)) (\<lambda>_. ret digest)))"

definition stream_finish_384 :: "compress512 \<Rightarrow> (Sha512AcceleratorRegs, u32 list) action" where
  "stream_finish_384 c =
     bindE (mmio (on_write_execute c Word 1)) (\<lambda>_. stream_wait_for_done_384)"

definition stream_finish_512 :: "compress512 \<Rightarrow> (Sha512AcceleratorRegs, u32 list) action" where
  "stream_finish_512 c =
     bindE (mmio (on_write_execute c Word 1)) (\<lambda>_. stream_wait_for_done_512)"

definition digest_384_slice ::
  "compress512 \<Rightarrow> u8 list \<Rightarrow> StreamEndianness \<Rightarrow> (Sha512AcceleratorRegs, u32 list) action" where
  "digest_384_slice c data endianness =
     bindE (stream_start_384 (of_nat (length data)) endianness) (\<lambda>_.
     bindE (write_data_to_datain c data) (\<lambda>_.
     stream_finish_384 c))"

definition digest_512_slice ::
  "compress512 \<Rightarrow> u8 list \<Rightarrow> StreamEndianness \<Rightarrow> (Sha512AcceleratorRegs, u32 list) action" where
  "digest_512_slice c data endianness =
     bindE (stream_start_512 (of_nat (length data)) endianness) (\<lambda>_.
     bindE (write_data_to_datain c data) (\<lambda>_.
     stream_finish_512 c))"

fun write_slices :: "compress512 \<Rightarrow> u8 list list \<Rightarrow> (Sha512AcceleratorRegs, unit) action" where
  "write_slices c [] = ret ()"
| "write_slices c (data # slices) =
     bindE (write_data_to_datain c data) (\<lambda>_. write_slices c slices)"

definition digest_384_slices ::
  "compress512 \<Rightarrow> u8 list list \<Rightarrow> StreamEndianness \<Rightarrow> (Sha512AcceleratorRegs, u32 list) action" where
  "digest_384_slices c slices endianness =
     bindE (stream_start_384 (sum_list (map (\<lambda>s. of_nat (length s)) slices)) endianness) (\<lambda>_.
     bindE (write_slices c slices) (\<lambda>_.
     stream_finish_384 c))"

definition digest_512_slices ::
  "compress512 \<Rightarrow> u8 list list \<Rightarrow> StreamEndianness \<Rightarrow> (Sha512AcceleratorRegs, u32 list) action" where
  "digest_512_slices c slices endianness =
     bindE (stream_start_512 (sum_list (map (\<lambda>s. of_nat (length s)) slices)) endianness) (\<lambda>_.
     bindE (write_slices c slices) (\<lambda>_.
     stream_finish_512 c))"

section \<open>Digests of mailbox memory\<close>

definition MBOX_SIZE_SUBSYSTEM :: u32 where "MBOX_SIZE_SUBSYSTEM = 16 * 1024"
definition MBOX_SIZE_PASSIVE :: u32 where "MBOX_SIZE_PASSIVE = 256 * 1024"

definition get_mbox_size :: "bool \<Rightarrow> u32" where
  "get_mbox_size subsystem_mode = (if subsystem_mode then MBOX_SIZE_SUBSYSTEM else MBOX_SIZE_PASSIVE)"

definition digest_generic ::
  "compress512 \<Rightarrow> bool \<Rightarrow> u32 \<Rightarrow> u32 \<Rightarrow> StreamEndianness \<Rightarrow> u32 \<Rightarrow> (Sha512AcceleratorRegs, unit) action" where
  "digest_generic c subsystem_mode dlen start_address endianness cmd =
     (let mbox_len = get_mbox_size subsystem_mode in
      bindE (failIf (start_address \<ge> mbox_len \<or> start_address + dlen > mbox_len)
               DRIVER_SHA2_512_384ACC_INDEX_OUT_OF_BOUNDS) (\<lambda>_.
      bindE (mmio (on_write_dlen Word dlen)) (\<lambda>_.
      bindE (mmio (on_write_start_address Word start_address)) (\<lambda>_.
      bindE (mmio (on_write_mode Word (mode_word cmd endianness))) (\<lambda>_.
      bindE (mmio (on_write_execute c Word 1)) (\<lambda>_.
      wait_valid))))))"

definition digest_384 ::
  "compress512 \<Rightarrow> bool \<Rightarrow> u32 \<Rightarrow> u32 \<Rightarrow> StreamEndianness \<Rightarrow> (Sha512AcceleratorRegs, u32 list) action" where
  "digest_384 c subsystem_mode dlen start_address endianness =
     bindE (digest_generic c subsystem_mode dlen start_address endianness MODE_MBOX_384) (\<lambda>_.
     bindE (read_digest 12) (\<lambda>digest.
     bindE (mmio (on_write_control Word 1)) (\<lambda>_. ret digest)))"

definition digest_512 ::
  "compress512 \<Rightarrow> bool \<Rightarrow> u32 \<Rightarrow> u32 \<Rightarrow> StreamEndianness \<Rightarrow> (Sha512AcceleratorRegs, u32 list) action" where
  "digest_512 c subsystem_mode dlen start_address endianness =
     bindE (digest_generic c subsystem_mode dlen start_address endianness MODE_MBOX_512) (\<lambda>_.
     bindE (read_digest 16) (\<lambda>digest.
     bindE (mmio (on_write_control Word 1)) (\<lambda>_. ret digest)))"

section \<open>Evaluation of the register accesses\<close>

lemma mode_field_mode_word:
  "cmd < 4 \<Longrightarrow> acc_mode r = mode_word cmd Reorder \<Longrightarrow> mode_field r = cmd"
  "acc_mode r = mode_word cmd Reorder \<Longrightarrow> cmd < 4 \<Longrightarrow> \<not> endian_toggle r"
proof -
  have small: "take_bit 2 cmd = cmd" if "cmd < 4"
    using that by (simp add: word_less_nat_alt word_unat_eq_iff unsigned_take_bit_eq take_bit_nat_eq_self)
  show "cmd < 4 \<Longrightarrow> acc_mode r = mode_word cmd Reorder \<Longrightarrow> mode_field r = cmd"
    using small by (simp add: mode_field_def mode_word_def should_toggle_def take_bit_eq_mask mask_eq_exp_minus_1)
  show "acc_mode r = mode_word cmd Reorder \<Longrightarrow> cmd < 4 \<Longrightarrow> \<not> endian_toggle r"
    using small [THEN arg_cong [where f = "\<lambda>w. bit w 2"]]
    by (simp add: endian_toggle_def mode_word_def should_toggle_def bit_simps)
qed

section \<open>A streamed digest is the digest of the message\<close>

text \<open>The accelerator has streamed \<open>msg\<close> in the mode whose initial state is \<open>iv\<close>, out of \<open>d\<close> bytes.\<close>

definition streaming :: "compress512 \<Rightarrow> u64 list \<Rightarrow> u32 \<Rightarrow> u8 list \<Rightarrow> Sha512AcceleratorRegs \<Rightarrow> bool" where
  "streaming c iv d msg r \<longleftrightarrow>
     absorbed c iv msg (sha_stream r) \<and> acc_dlen r = d \<and> length msg \<le> unat d \<and>
     mode_field r \<in> {MODE_SHA_STREAM_384, MODE_SHA_STREAM_512} \<and> \<not> endian_toggle r"

text \<open>What an operation on the streaming path leaves alone.\<close>

definition stream_frame :: "Sha512AcceleratorRegs \<Rightarrow> Sha512AcceleratorRegs \<Rightarrow> bool" where
  "stream_frame r t \<longleftrightarrow> state_machine t = state_machine r \<and> mailbox_ram t = mailbox_ram r \<and>
     op_complete_action t = op_complete_action r"

lemma stream_frame_refl [simp]: "stream_frame r r"
  and stream_frame_trans: "stream_frame r t \<Longrightarrow> stream_frame t u \<Longrightarrow> stream_frame r u"
  by (simp_all add: stream_frame_def)

text \<open>The bytes the driver streams for a slice: the slice, zero-padded to whole words.\<close>

definition pad4 :: "u8 list \<Rightarrow> u8 list" where
  "pad4 data = data @ replicate ((4 - length data mod 4) mod 4) 0"

lemma pad4_Nil [simp]: "pad4 [] = []"
  by (simp add: pad4_def)

lemma pad4_aligned: "4 dvd length data \<Longrightarrow> pad4 data = data"
  by (auto simp: pad4_def)

lemma pad4_step:
  "data \<noteq> [] \<Longrightarrow>
     pad4 data = (take 4 data @ replicate (4 - length (take 4 data)) 0) @ pad4 (drop 4 data)"
proof (cases "4 \<le> length data")
  case True
  then have "(length data - 4) mod 4 = length data mod 4" by (metis le_mod_geq)
  with True show ?thesis by (simp add: pad4_def min_def)
next
  case False
  assume "data \<noteq> []"
  then have "0 < length data" by simp
  with False have "length data = 1 \<or> length data = 2 \<or> length data = 3" by linarith
  with False show ?thesis by (auto simp: pad4_def)
qed

lemma take_append_take: "take n (take n (a @ b) @ c) = take n (a @ b @ c)" if "length a \<le> n"
  using that by (cases "length (a @ b) \<le> n") (simp_all add: min_def)

lemma on_write_data_in_streams:
  assumes "streaming c iv d msg r" "length bytes = 4"
  shows "\<exists>t. on_write_data_in c Word (from_le_bytes bytes) r = (Ok (Inr ()), t) \<and>
    streaming c iv d (take (unat d) (msg @ bytes)) t \<and> stream_frame r t \<and> acc_status t = acc_status r"
proof -
  obtain sha where "Sha512_update_bytes c bytes (Some d) (sha_stream r) = Ok sha"
    "absorbed c iv (take (unat d) (msg @ bytes)) sha"
    using update_bytes_absorbs assms(1) unfolding streaming_def by blast
  with assms show ?thesis
    by (auto simp: on_write_data_in_def streaming_def stream_frame_def le_from_le_bytes mode_field_def
        endian_toggle_def)
qed

lemma write_data_to_datain_streams:
  assumes "streaming c iv d msg r"
  shows "\<exists>t. write_data_to_datain c data r = (Ok (), t) \<and>
    streaming c iv d (take (unat d) (msg @ pad4 data)) t \<and> stream_frame r t \<and> acc_status t = acc_status r"
  using assms
proof (induction c data arbitrary: msg r rule: write_data_to_datain.induct)
  case (1 c)
  then show ?case by (auto simp: streaming_def)
next
  case (2 c b bs)
  define word where "word = take 4 (b # bs) @ replicate (4 - length (take 4 (b # bs))) 0"
  have word: "length word = 4" by (simp add: word_def)
  obtain t where t: "on_write_data_in c Word (from_le_bytes word) r = (Ok (Inr ()), t)"
    "streaming c iv d (take (unat d) (msg @ word)) t" "stream_frame r t" "acc_status t = acc_status r"
    using on_write_data_in_streams [OF "2.prems" word] by blast
  obtain u where u: "write_data_to_datain c (drop 3 bs) t = (Ok (), u)"
    "streaming c iv d (take (unat d) (take (unat d) (msg @ word) @ pad4 (drop 3 bs))) u"
    "stream_frame t u" "acc_status u = acc_status t"
    using "2.IH" [OF refl refl t(2)] by blast
  have "length msg \<le> unat d" using "2.prems" by (simp add: streaming_def)
  then have "take (unat d) (take (unat d) (msg @ word) @ pad4 (drop 3 bs)) = take (unat d) (msg @ pad4 (b # bs))"
    using pad4_step [of "b # bs"] by (simp only: take_append_take) (simp add: word_def)
  moreover have "write_data_to_datain c (b # bs) r = (Ok (), u)"
    unfolding write_data_to_datain.simps Let_def word_def [symmetric]
    using u(1) by (subst bindE_mmio [where t = t and x = "()"]) (simp_all add: t(1))
  moreover have "stream_frame r u" using t(3) u(3) by (rule stream_frame_trans)
  ultimately show ?case using u t(4) by (intro exI [of _ u]) simp
qed

lemma write_slices_streams:
  assumes "streaming c iv d msg r"
  shows "\<exists>t. write_slices c slices r = (Ok (), t) \<and>
    streaming c iv d (take (unat d) (msg @ concat (map pad4 slices))) t \<and> stream_frame r t \<and>
    acc_status t = acc_status r"
  using assms
proof (induction slices arbitrary: msg r)
  case Nil
  then show ?case by (auto simp: streaming_def)
next
  case (Cons data slices)
  obtain t where t: "write_data_to_datain c data r = (Ok (), t)"
    "streaming c iv d (take (unat d) (msg @ pad4 data)) t" "stream_frame r t" "acc_status t = acc_status r"
    using write_data_to_datain_streams [OF Cons.prems] by blast
  obtain u where u: "write_slices c slices t = (Ok (), u)"
    "streaming c iv d (take (unat d) (take (unat d) (msg @ pad4 data) @ concat (map pad4 slices))) u"
    "stream_frame t u" "acc_status u = acc_status t"
    using Cons.IH [OF t(2)] by blast
  have "take (unat d) (take (unat d) (msg @ pad4 data) @ concat (map pad4 slices)) =
      take (unat d) (msg @ concat (map pad4 (data # slices)))"
    using Cons.prems unfolding streaming_def by (simp only: take_append_take) simp
  moreover have "stream_frame r u" using t(3) u(3) by (rule stream_frame_trans)
  ultimately show ?case using t u by (intro exI [of _ u]) (simp add: bindE_def)
qed

lemma stream_start_streams:
  "\<exists>t. stream_start_384 d Reorder r = (Ok (), t) \<and> streaming c (hash_iv Mode384) d [] t \<and>
     stream_frame r t \<and> acc_status t = acc_status r"
  "\<exists>t. stream_start_512 d Reorder r = (Ok (), t) \<and> streaming c (hash_iv Mode512) d [] t \<and>
     stream_frame r t \<and> acc_status t = acc_status r"
  by (auto simp: stream_start_384_def stream_start_512_def bindE_def mmio_def on_write_mode_def
      on_write_dlen_def mode_field_def endian_toggle_def mode_word_def should_toggle_def Let_def
      streaming_def stream_frame_def absorbed_new)

text \<open>The documented shape of the compression function: eight words to eight words.\<close>

definition compress_ok :: "compress512 \<Rightarrow> bool" where
  "compress_ok c \<longleftrightarrow> (\<forall>h b. length h = 8 \<longrightarrow> length (c h b) = 8)"

lemma absorb_length: "compress_ok c \<Longrightarrow> length iv = 8 \<Longrightarrow> length (absorb c 128 iv k bs) = 8"
  by (induction k) (simp_all add: absorb_Suc compress_ok_def)

lemma length_hash_iv [simp]: "length (hash_iv mode) = 8"
  by (cases mode) (simp_all add: hash_iv_def HASH_IV_224_def HASH_IV_256_def HASH_IV_384_def HASH_IV_512_def)

lemma read_digest_set:
  "length (sha_hash sha) = 8 \<Longrightarrow> n \<le> 16 \<Longrightarrow>
     map (acc_read_digest (set_digest (Sha512_copy_hash 64 sha) r)) [0..<n] = digest_words n (sha_hash sha)"
  by (simp add: digest_words_def read_set_digest)

lemma acc_read_digest_cong:
  "hash_lower r = hash_lower t \<Longrightarrow> hash_upper r = hash_upper t \<Longrightarrow> acc_read_digest r = acc_read_digest t"
  by (simp add: acc_read_digest_def fun_eq_iff)

text \<open>Finishing a stream: the digest, then zeroized digest registers.\<close>

definition zeroized :: "Sha512AcceleratorRegs \<Rightarrow> bool" where
  "zeroized r \<longleftrightarrow> set (hash_lower r) \<subseteq> {0} \<and> set (hash_upper r) \<subseteq> {0}"

lemma zeroized_zeroize [simp]: "zeroized (zeroize r)"
  by (auto simp: zeroized_def zeroize_def)

lemma zeroize_write: "mmio (on_write_control Word 1) r = (Ok (), zeroize (r\<lparr>acc_control := 1\<rparr>))"
  by (simp add: mmio_def on_write_control_def)

lemma stream_finish_digest:
  assumes s: "streaming c iv d msg r" and c: "compress_ok c" "length iv = 8"
  defines "h \<equiv> absorb c 128 iv (length (emu_pad msg) div 128) (emu_pad msg)"
  shows "\<exists>t. stream_finish_384 c r = (Ok (digest_words 12 h), t) \<and> stream_frame r t \<and> zeroized t"
    and "\<exists>t. stream_finish_512 c r = (Ok (digest_words 16 h), t) \<and> stream_frame r t \<and> zeroized t"
proof -
  obtain sha where sha: "Sha512_finalize c d (sha_stream r) = Ok sha" "sha_hash sha = h"
    using finalize_absorbs s unfolding streaming_def h_def by blast
  have len: "length (sha_hash sha) = 8" using sha(2) c by (simp add: h_def absorb_length)
  define t where "t = op_complete (set_digest (Sha512_copy_hash 64 sha) (r\<lparr>acc_execute := 1, sha_stream := sha\<rparr>))"
  have mode: "mode_field r = 0 \<or> mode_field r = 1" using s by (auto simp: streaming_def)
  have "on_write_execute c Word 1 r = (Ok (Inr ()), t)"
    using s sha(1) mode
    by (auto simp: on_write_execute_def Let_def bindE_def finalize_stream_hash_def streaming_def t_def mode_field_def)
  then have exec: "mmio (on_write_execute c Word 1) r = (Ok (), t)" by simp
  have "status_valid t" by (simp add: status_valid_def t_def op_complete_def bit_simps)
  note wait = wait_for_now [of status_valid, OF this]
  have dig: "map (acc_read_digest t) [0..<n] = digest_words n h" if "n \<le> 16" for n
    using read_digest_set [OF len that] sha(2)
    by (subst acc_read_digest_cong [of t "set_digest (Sha512_copy_hash 64 sha) r"])
      (simp_all add: t_def op_complete_def set_digest_def)
  have frame: "stream_frame r (zeroize (t\<lparr>acc_control := 1\<rparr>))"
    by (simp add: stream_frame_def t_def op_complete_def set_digest_def zeroize_def)
  show "\<exists>t. stream_finish_384 c r = (Ok (digest_words 12 h), t) \<and> stream_frame r t \<and> zeroized t"
    "\<exists>t. stream_finish_512 c r = (Ok (digest_words 16 h), t) \<and> stream_frame r t \<and> zeroized t"
    using frame dig
    by (simp_all add: stream_finish_384_def stream_wait_for_done_384_def stream_finish_512_def
        stream_wait_for_done_512_def bindE_def exec wait read_digest_def zeroize_write)
qed

text \<open>SHA-384 and SHA-512 of a message, as the words the driver returns.\<close>

definition sha384_ref :: "compress512 \<Rightarrow> u8 list \<Rightarrow> u32 list" where
  "sha384_ref c msg = digest_words 12 (sha_ref c 128 16 (hash_iv Mode384) msg)"

definition sha512_ref :: "compress512 \<Rightarrow> u8 list \<Rightarrow> u32 list" where
  "sha512_ref c msg = digest_words 16 (sha_ref c 128 16 (hash_iv Mode512) msg)"

lemma length_sha384_ref [simp]: "length (sha384_ref c msg) = 12"
  and length_sha512_ref [simp]: "length (sha512_ref c msg) = 16"
  by (simp_all add: sha384_ref_def sha512_ref_def)

lemma emu_pad_ref:
  "length msg mod 128 \<noteq> 111 \<Longrightarrow>
     absorb c 128 iv (length (emu_pad msg) div 128) (emu_pad msg) = sha_ref c 128 16 iv msg"
  by (simp add: emu_pad_eq sha_ref_def)

text \<open>
  Several slices are hashed as their concatenation, each slice but the last zero-padded to
  whole words; the total length wraps at 32 bits.
\<close>

definition streamed_slices :: "u8 list list \<Rightarrow> u8 list" where
  "streamed_slices slices = take (sum_list (map length slices)) (concat (map pad4 slices))"

lemma streamed_slices_single [simp]: "streamed_slices [data] = data"
  by (simp add: streamed_slices_def pad4_def)

lemma sum_list_of_nat: "sum_list (map (\<lambda>s. of_nat (length s)) slices) = (of_nat (sum_list (map length slices)) :: u32)"
  by (induction slices) auto

lemma length_le_pad4: "length data \<le> length (pad4 data)"
  by (simp add: pad4_def)

lemma length_streamed_slices: "length (streamed_slices slices) = sum_list (map length slices)"
proof -
  have "sum_list (map length slices) \<le> length (concat (map pad4 slices))"
    by (induction slices) (auto simp: add_mono length_le_pad4)
  then show ?thesis by (simp add: streamed_slices_def)
qed

lemma digest_slices_ref:
  assumes len: "sum_list (map length slices) < 2 ^ 32" "sum_list (map length slices) mod 128 \<noteq> 111"
    and c: "compress_ok c"
  shows "\<exists>t. digest_384_slices c slices Reorder r = (Ok (sha384_ref c (streamed_slices slices)), t) \<and>
      stream_frame r t \<and> zeroized t"
    and "\<exists>t. digest_512_slices c slices Reorder r = (Ok (sha512_ref c (streamed_slices slices)), t) \<and>
      stream_frame r t \<and> zeroized t"
proof -
  define d :: u32 where "d = of_nat (sum_list (map length slices))"
  have d: "unat d = sum_list (map length slices)"
    using len(1) by (simp add: d_def unsigned_of_nat take_bit_nat_eq_self)
  have wr: "\<exists>t. write_slices c slices u = (Ok (), t) \<and> streaming c iv d (streamed_slices slices) t \<and> stream_frame u t"
    if "streaming c iv d [] u" for iv u
    using write_slices_streams [OF that, of slices] d by (auto simp: streamed_slices_def)
  have ref: "absorb c 128 iv (length (emu_pad m) div 128) (emu_pad m) = sha_ref c 128 16 iv m"
    if "m = streamed_slices slices" for iv m
    using that len(2) by (simp add: emu_pad_ref length_streamed_slices)
  obtain t u v where "stream_start_384 d Reorder r = (Ok (), t)" "write_slices c slices t = (Ok (), u)"
    "stream_finish_384 c u = (Ok (sha384_ref c (streamed_slices slices)), v)"
    "stream_frame r t" "stream_frame t u" "stream_frame u v" "zeroized v"
    using stream_start_streams(1) [of d r c] wr stream_finish_digest(1) [OF _ c] ref
    unfolding sha384_ref_def by (metis length_hash_iv)
  then show "\<exists>t. digest_384_slices c slices Reorder r = (Ok (sha384_ref c (streamed_slices slices)), t) \<and>
      stream_frame r t \<and> zeroized t"
    unfolding digest_384_slices_def sum_list_of_nat d_def [symmetric]
    by (auto simp: bindE_def dest: stream_frame_trans)
  obtain t u v where "stream_start_512 d Reorder r = (Ok (), t)" "write_slices c slices t = (Ok (), u)"
    "stream_finish_512 c u = (Ok (sha512_ref c (streamed_slices slices)), v)"
    "stream_frame r t" "stream_frame t u" "stream_frame u v" "zeroized v"
    using stream_start_streams(2) [of d r c] wr stream_finish_digest(2) [OF _ c] ref
    unfolding sha512_ref_def by (metis length_hash_iv)
  then show "\<exists>t. digest_512_slices c slices Reorder r = (Ok (sha512_ref c (streamed_slices slices)), t) \<and>
      stream_frame r t \<and> zeroized t"
    unfolding digest_512_slices_def sum_list_of_nat d_def [symmetric]
    by (auto simp: bindE_def dest: stream_frame_trans)
qed

lemma digest_slice_single:
  "digest_384_slice c data e = digest_384_slices c [data] e"
  "digest_512_slice c data e = digest_512_slices c [data] e"
  by (simp_all add: digest_384_slice_def digest_384_slices_def digest_512_slice_def digest_512_slices_def
      bindE_assoc fun_eq_iff bindE_def split: prod.splits outcome.splits)

lemma digest_slice_ref:
  assumes "length data < 2 ^ 32" "length data mod 128 \<noteq> 111" "compress_ok c"
  shows "\<exists>t. digest_384_slice c data Reorder r = (Ok (sha384_ref c data), t) \<and> stream_frame r t \<and> zeroized t"
    and "\<exists>t. digest_512_slice c data Reorder r = (Ok (sha512_ref c data), t) \<and> stream_frame r t \<and> zeroized t"
  using digest_slices_ref [of "[data]" c r] assms by (simp_all add: digest_slice_single)

section \<open>A mailbox digest is the digest of the mailbox range\<close>

text \<open>The range check of the driver: the sum wraps.\<close>

definition mbox_range_ok :: "bool \<Rightarrow> u32 \<Rightarrow> u32 \<Rightarrow> bool" where
  "mbox_range_ok subsystem_mode start dlen \<longleftrightarrow>
     start < get_mbox_size subsystem_mode \<and> start + dlen \<le> get_mbox_size subsystem_mode"

lemma digest_out_of_bounds:
  assumes "\<not> mbox_range_ok subsystem_mode start dlen"
  shows "digest_384 c subsystem_mode dlen start e r = (Err DRIVER_SHA2_512_384ACC_INDEX_OUT_OF_BOUNDS, r)"
    and "digest_512 c subsystem_mode dlen start e r = (Err DRIVER_SHA2_512_384ACC_INDEX_OUT_OF_BOUNDS, r)"
  using assms
  by (auto simp: digest_384_def digest_512_def digest_generic_def bindE_def mbox_range_ok_def failIf_apply
      not_less not_le split: if_splits)

lemma digest_generic_ref:
  assumes range: "mbox_range_ok subsystem_mode start dlen" "mbox_msg_ok (mailbox_ram r) start dlen"
    and start: "unat start < MAX_MAILBOX_CAPACITY_WORDS"
    and idle: "\<not> status_valid r" and cmd: "cmd = MODE_MBOX_384 \<or> cmd = MODE_MBOX_512"
  shows "\<exists>t sha. digest_generic c subsystem_mode dlen start Reorder cmd r =
      (Ok (), op_complete (set_digest (Sha512_copy_hash 64 sha) t)) \<and>
    sha_hash sha = sha_ref c 128 16 (hash_iv (if cmd = MODE_MBOX_512 then Mode512 else Mode384))
      (take (unat dlen) (drop (unat start) (ram_data (mailbox_ram r)))) \<and>
    op_complete_action t = None \<and> mailbox_ram t = mailbox_ram r \<and> state_machine t = state_machine r"
proof -
  define r' where "r' = r\<lparr>acc_dlen := dlen, acc_start_address := start, acc_mode := mode_word cmd Reorder,
      acc_execute := 1\<rparr>"
  have small: "cmd < 4" using cmd by auto
  have mode: "mode_field r' = cmd" "\<not> endian_toggle r'"
    using small mode_field_mode_word [where cmd = cmd and r = r'] by (simp_all add: r'_def)
  have upd: "mode_field (r\<lparr>acc_dlen := dlen, acc_start_address := start, acc_mode := mode_word cmd Reorder\<rparr>) = cmd"
    using mode(1) by (simp add: r'_def mode_field_def)
  obtain sha where sha: "compute_mbox_hash c r' = (Ok (), set_digest (Sha512_copy_hash 64 sha) r')"
    "sha_hash sha = sha_ref c 128 16 (hash_iv (if cmd = MODE_MBOX_512 then Mode512 else Mode384))
      (take (unat dlen) (drop (unat start) (ram_data (mailbox_ram r))))"
    using compute_mbox_hash_ref [of r' c] mode range(2) by (auto simp: r'_def)
  define p where "p = (set_digest (Sha512_copy_hash 64 sha) r')\<lparr>op_complete_action := Some SHA_ACC_OP_TICKS\<rparr>"
  have "wait_valid p = (Ok (), acc_complete p)"
    using idle by (intro acc_device.wait_completes [where n = 1000])
      (simp_all add: p_def set_digest_def r'_def status_valid_def)
  moreover have "digest_generic c subsystem_mode dlen start Reorder cmd r = wait_valid p"
  proof -
    have "unat dlen \<le> MAX_MAILBOX_CAPACITY_BYTES" using range(2) unfolding mbox_msg_ok_def by linarith
    then have "on_write_dlen Word dlen r = (Ok (Inr ()), r\<lparr>acc_dlen := dlen\<rparr>)"
      by (simp add: on_write_dlen_def)
    moreover have "on_write_start_address Word start u = (Ok (Inr ()), u\<lparr>acc_start_address := start\<rparr>)" for u
      using start range(2) by (auto simp: on_write_start_address_def mbox_msg_ok_def)
    moreover have "on_write_mode Word (mode_word cmd Reorder) (r\<lparr>acc_dlen := dlen, acc_start_address := start\<rparr>) =
        (Ok (Inr ()), r\<lparr>acc_dlen := dlen, acc_start_address := start, acc_mode := mode_word cmd Reorder\<rparr>)"
      unfolding on_write_mode_def Let_def simp_thms if_False upd by (rule disjE [OF cmd]) simp_all
    moreover have "on_write_execute c Word 1 (r\<lparr>acc_dlen := dlen, acc_start_address := start,
        acc_mode := mode_word cmd Reorder\<rparr>) = (Ok (Inr ()), p)"
      using sha(1) mode cmd unfolding r'_def p_def
      by (auto simp: on_write_execute_def Let_def bindE_def)
    ultimately show ?thesis
      using range(1) unfolding digest_generic_def Let_def mbox_range_ok_def
      by (auto simp: bindE_mmio failIf_def dest: leD)
  qed
  moreover have "acc_complete p =
      op_complete (set_digest (Sha512_copy_hash 64 sha) (r'\<lparr>op_complete_action := None\<rparr>))"
    by (simp add: p_def set_digest_def acc_complete_def op_complete_def)
  ultimately show ?thesis using sha(2)
    by (intro exI [of _ "r'\<lparr>op_complete_action := None\<rparr>"] exI [of _ sha]) (simp add: r'_def)
qed

text \<open>What a digest leaves of the accelerator: the lock and the mailbox untouched, nothing pending.\<close>

definition digest_done :: "Sha512AcceleratorRegs \<Rightarrow> Sha512AcceleratorRegs \<Rightarrow> bool" where
  "digest_done r t \<longleftrightarrow> state_machine t = state_machine r \<and> mailbox_ram t = mailbox_ram r \<and>
     op_complete_action t = None"

lemma digest_ref:
  assumes "mbox_range_ok subsystem_mode start dlen" "mbox_msg_ok (mailbox_ram r) start dlen"
    and "unat start < MAX_MAILBOX_CAPACITY_WORDS" "\<not> status_valid r" "compress_ok c"
  defines "msg \<equiv> take (unat dlen) (drop (unat start) (ram_data (mailbox_ram r)))"
  shows "\<exists>t. digest_384 c subsystem_mode dlen start Reorder r = (Ok (sha384_ref c msg), t) \<and>
      digest_done r t \<and> zeroized t"
    and "\<exists>t. digest_512 c subsystem_mode dlen start Reorder r = (Ok (sha512_ref c msg), t) \<and>
      digest_done r t \<and> zeroized t"
proof -
  have len: "length (sha_ref c 128 16 (hash_iv m) msg) = 8" for m
    using assms(5) by (simp add: sha_ref_def absorb_length)
  have dig: "map (acc_read_digest (op_complete (set_digest (Sha512_copy_hash 64 sha) t))) [0..<n] =
      digest_words n (sha_hash sha)" if "length (sha_hash sha) = 8" "n \<le> 16" for sha t n
    using read_digest_set [OF that]
    by (subst acc_read_digest_cong [of _ "set_digest (Sha512_copy_hash 64 sha) t"])
      (simp_all add: op_complete_def)
  have keep: "digest_done r (zeroize ((op_complete (set_digest h t))\<lparr>acc_control := 1\<rparr>))"
    if "op_complete_action t = None" "mailbox_ram t = mailbox_ram r" "state_machine t = state_machine r" for t h
    using that by (simp add: digest_done_def zeroize_def op_complete_def set_digest_def)
  show "\<exists>t. digest_384 c subsystem_mode dlen start Reorder r = (Ok (sha384_ref c msg), t) \<and>
      digest_done r t \<and> zeroized t"
    using digest_generic_ref [OF assms(1-4), where cmd = MODE_MBOX_384 and c = c] len dig keep
    by (auto simp: digest_384_def bindE_def read_digest_def zeroize_write sha384_ref_def msg_def)
  show "\<exists>t. digest_512 c subsystem_mode dlen start Reorder r = (Ok (sha512_ref c msg), t) \<and>
      digest_done r t \<and> zeroized t"
    using digest_generic_ref [OF assms(1-4), where cmd = MODE_MBOX_512 and c = c] len dig keep
    by (auto simp: digest_512_def bindE_def read_digest_def zeroize_write sha512_ref_def msg_def)
qed

section \<open>Acquiring and releasing the accelerator\<close>

text \<open>The accelerator is free: unlocked, with no result and nothing pending.\<close>

definition acc_free :: "Sha512AcceleratorRegs \<Rightarrow> bool" where
  "acc_free r \<longleftrightarrow> acc_state (state_machine r) = Idle \<and> locked (state_machine r) = 0 \<and>
     \<not> status_valid r \<and> op_complete_action r = None"

text \<open>The accelerator after the lock was taken.\<close>

definition lock_acc :: "Sha512AcceleratorRegs \<Rightarrow> Sha512AcceleratorRegs" where
  "lock_acc r = r\<lparr>state_machine := (state_machine r)\<lparr>acc_state := RdyForExc, locked := 1, lock_user := 0\<rparr>\<rparr>"

lemma try_start_free:
  "acc_free r \<Longrightarrow> try_start_operation NotAcquired r = (Ok (Some ()), lock_acc r)"
  by (simp add: try_start_operation_def bindE_def mmio_def on_read_lock_def acc_free_def lock_acc_def)

lemma try_start_held:
  "machine_ok (state_machine r) \<Longrightarrow> acc_state (state_machine r) = RdyForExc \<Longrightarrow>
     try_start_operation NotAcquired r = (Ok None, r)"
  by (simp add: try_start_operation_def bindE_def mmio_def on_read_lock_def machine_ok_def)

lemma try_start_assumed:
  "machine_ok (state_machine r) \<Longrightarrow>
     fst (try_start_operation AssumedLocked r) =
       (if acc_state (state_machine r) = RdyForExc then Ok (Some ())
        else Err DRIVER_SHA2_512_384ACC_UNEXPECTED_ACQUIRED_LOCK_STATE)"
  by (auto simp: try_start_operation_def bindE_def mmio_def on_read_lock_def machine_ok_def)

lemma drop_op_frees:
  assumes "acc_state (state_machine r) = RdyForExc" "locked (state_machine r) = 1" "op_complete_action r = None"
  shows "\<exists>t. drop_op r = (Ok (), t) \<and> acc_free t \<and> mailbox_ram t = mailbox_ram r"
  using assms
  by (simp add: drop_op_def mmio_def on_write_lock_def acc_free_def status_valid_def bit_simps)

lemma with_op_frees:
  assumes "m (lock_acc r) = (x, t)" "digest_done (lock_acc r) t" "\<not> is_panic x"
  shows "\<exists>u. with_op m (lock_acc r) = (x, u) \<and> acc_free u \<and> mailbox_ram u = mailbox_ram r"
proof -
  have "acc_state (state_machine t) = RdyForExc" "locked (state_machine t) = 1" "op_complete_action t = None"
    "mailbox_ram t = mailbox_ram r"
    using assms(2) by (simp_all add: digest_done_def lock_acc_def)
  then obtain u where "drop_op t = (Ok (), u)" "acc_free u" "mailbox_ram u = mailbox_ram r"
    using drop_op_frees by metis
  then show ?thesis using assms(1,3) by (cases x) (simp_all add: with_op_def bindE_def)
qed

lemma stream_frame_done: "acc_free r \<Longrightarrow> stream_frame (lock_acc r) t \<Longrightarrow> digest_done (lock_acc r) t"
  by (simp add: stream_frame_def digest_done_def acc_free_def lock_acc_def)

section \<open>What the driver guarantees\<close>

definition sample_acc :: Sha512AcceleratorRegs where
  "sample_acc = (Sha512AcceleratorRegs_new (Ram_new True (replicate 64 1)))\<lparr>state_machine := AccMachine_new\<rparr>"

lemma acc_free_sample: "acc_free sample_acc"
  by (simp add: acc_free_def sample_acc_def Sha512AcceleratorRegs_new_def AccMachine_new_def status_valid_def)

definition keep_hash :: compress512 where "keep_hash h blk = h"

lemma compress_ok_keep: "compress_ok keep_hash"
  by (simp add: compress_ok_def keep_hash_def)

lemma slice_session_run:
  assumes "acc_free r" "compress_ok c" "length data < 2 ^ 32" "length data mod 128 \<noteq> 111"
  shows "(\<exists>t. bindE (try_start_operation NotAcquired) (\<lambda>op. with_op (digest_384_slice c data Reorder)) r =
      (Ok (sha384_ref c data), t) \<and> acc_free t \<and> mailbox_ram t = mailbox_ram r) \<and>
    (\<exists>t. bindE (try_start_operation NotAcquired) (\<lambda>op. with_op (digest_512_slice c data Reorder)) r =
      (Ok (sha512_ref c data), t) \<and> acc_free t \<and> mailbox_ram t = mailbox_ram r)"
proof -
  have run: "\<exists>t. bindE (try_start_operation NotAcquired) (\<lambda>op. with_op m) r = (Ok x, t) \<and> acc_free t \<and>
      mailbox_ram t = mailbox_ram r"
    if "\<exists>t. m (lock_acc r) = (Ok x, t) \<and> stream_frame (lock_acc r) t \<and> zeroized t"
    for m :: "(Sha512AcceleratorRegs, u32 list) action" and x
    using that with_op_frees [of m r "Ok x"] stream_frame_done [OF assms(1)] try_start_free [OF assms(1)]
    by (auto simp: bindE_def)
  note ref = digest_slice_ref [OF assms(3,4,2), of "lock_acc r"]
  show ?thesis
    using run [of "digest_384_slice c data Reorder", OF ref(1)] run [of "digest_512_slice c data Reorder", OF ref(2)] by blast
qed



lemma mailbox_session_run:
  assumes r: "acc_free r" and c: "compress_ok c" and range: "mbox_range_ok subsystem_mode start dlen"
    and ok: "mbox_msg_ok (mailbox_ram r) start dlen" and start: "unat start < MAX_MAILBOX_CAPACITY_WORDS"
  shows "\<exists>t. bindE (try_start_operation NotAcquired) (\<lambda>op. with_op (digest_384 c subsystem_mode dlen start Reorder)) r =
      (Ok (sha384_ref c (take (unat dlen) (drop (unat start) (ram_data (mailbox_ram r))))), t) \<and>
    acc_free t \<and> mailbox_ram t = mailbox_ram r"
proof -
  have "mailbox_ram (lock_acc r) = mailbox_ram r" "\<not> status_valid (lock_acc r)"
    using r by (simp_all add: lock_acc_def acc_free_def status_valid_def)
  then have "\<exists>t. digest_384 c subsystem_mode dlen start Reorder (lock_acc r) =
      (Ok (sha384_ref c (take (unat dlen) (drop (unat start) (ram_data (mailbox_ram r))))), t) \<and> digest_done (lock_acc r) t"
    using digest_ref(1) [OF range _ start, of "lock_acc r" c] ok c by auto
  then show ?thesis
    using with_op_frees [of "digest_384 c subsystem_mode dlen start Reorder" r] try_start_free [OF r]
    by (auto simp: bindE_def)
qed

text \<open>C26: A digest over mailbox memory: from a free accelerator, for a range of whole words inside the
  mailbox that starts at a word boundary below 64 KiB (the emulator refuses a later start), in memory
  without an injected error, the session returns the SHA-384 digest of exactly the bytes of that range
  and leaves the accelerator free and the mailbox as it was.\<close>

theorem acc_mailbox_session:
  assumes r: "acc_free r" and c: "compress_ok c" and range: "mbox_range_ok subsystem_mode start dlen"
    and ok: "mbox_msg_ok (mailbox_ram r) start dlen" and start: "unat start < MAX_MAILBOX_CAPACITY_WORDS"
  shows "\<exists>t. bindE (try_start_operation NotAcquired) (\<lambda>op. with_op (digest_384 c subsystem_mode dlen start Reorder)) r =
      (Ok (sha384_ref c (take (unat dlen) (drop (unat start) (ram_data (mailbox_ram r))))), t) \<and>
    acc_free t \<and> mailbox_ram t = mailbox_ram r"
  using mailbox_session_run [OF assms] .

theorem acc_mailbox_session_witness:
  "\<exists>t. bindE (try_start_operation NotAcquired) (\<lambda>op. with_op (digest_384 keep_hash False 8 4 Reorder)) sample_acc =
     (Ok (sha384_ref keep_hash (replicate 8 1)), t) \<and> acc_free t \<and> mailbox_ram t = mailbox_ram sample_acc"
proof -
  have "mbox_range_ok False 4 8" "mbox_msg_ok (mailbox_ram sample_acc) 4 8"
    by (simp_all add: mbox_range_ok_def get_mbox_size_def MBOX_SIZE_PASSIVE_def mbox_msg_ok_def sample_acc_def
        Sha512AcceleratorRegs_new_def Ram_new_def)
  then show ?thesis
    using acc_mailbox_session [OF acc_free_sample compress_ok_keep, of False 4 8]
    by (simp add: sample_acc_def Sha512AcceleratorRegs_new_def Ram_new_def)
qed

text \<open>A digest over a range that starts or ends outside the mailbox is refused with the
  out-of-bounds error before any register of the accelerator is written.\<close>

theorem acc_digest_out_of_bounds:
  assumes "get_mbox_size subsystem_mode \<le> start \<or> get_mbox_size subsystem_mode < start + dlen"
  shows "digest_384 c subsystem_mode dlen start e r = (Err DRIVER_SHA2_512_384ACC_INDEX_OUT_OF_BOUNDS, r) \<and>
    digest_512 c subsystem_mode dlen start e r = (Err DRIVER_SHA2_512_384ACC_INDEX_OUT_OF_BOUNDS, r)"
proof -
  have "\<not> mbox_range_ok subsystem_mode start dlen"
    using assms by (auto simp: mbox_range_ok_def not_less not_le)
  then show ?thesis by (simp add: digest_out_of_bounds)
qed

theorem acc_digest_out_of_bounds_witness:
  "digest_384 keep_hash True 8 0x4000 Reorder sample_acc = (Err DRIVER_SHA2_512_384ACC_INDEX_OUT_OF_BOUNDS, sample_acc)"
  using acc_digest_out_of_bounds [of True "0x4000" 8 keep_hash Reorder sample_acc]
  by (simp add: get_mbox_size_def MBOX_SIZE_SUBSYSTEM_def)

end
