(* ===== verification/BlockHash.thy ===== *)
theory BlockHash
  imports Blocks
begin

text \<open>
  What the hash drivers \<^verbatim>\<open>drivers/src/sha256.rs\<close> and \<^verbatim>\<open>drivers/src/sha2_512_384.rs\<close> share: the
  staging buffer of a multi-step operation, the padding of the last block, and the loops that
  feed whole blocks to the hardware. The drivers are instances that differ in the block and
  length sizes, the error codes and the operation that hashes one block (\<open>blk_op\<close>, with the
  flags \<^verbatim>\<open>first\<close>, \<^verbatim>\<open>last\<close> and \<^verbatim>\<open>restore\<close>). The locale \<open>block_hasher\<close> is the contract of that
  operation; under it the loops compute the Merkle-Damgard reference of the bytes they are given.
\<close>

section \<open>Operations\<close>

datatype DigestState = Init | Restore | Pending | Final

record DigestOp =
  op_state :: DigestState
  op_buf :: "u8 list"
  op_buf_idx :: nat
  op_data_size :: nat

record 's engine =
  blk_size :: nat
  len_size :: nat
  blk_op :: "u8 list \<Rightarrow> bool \<Rightarrow> bool \<Rightarrow> bool \<Rightarrow> ('s, unit) action"
  err_index :: u32
  err_slice :: u32
  err_state :: u32

definition op_new :: "nat \<Rightarrow> DigestOp" where
  "op_new B = \<lparr>op_state = Init, op_buf = replicate B 0, op_buf_idx = 0, op_data_size = 0\<rparr>"

definition is_first :: "DigestOp \<Rightarrow> bool" where
  "is_first op \<longleftrightarrow> op_state op = Init"

definition is_restore :: "DigestOp \<Rightarrow> bool" where
  "is_restore op \<longleftrightarrow> op_state op = Restore"

definition reset_buf_state :: "DigestOp \<Rightarrow> DigestOp" where
  "reset_buf_state op = op\<lparr>op_buf := replicate (length (op_buf op)) 0, op_buf_idx := 0, op_state := Pending\<rparr>"

text \<open>\<^verbatim>\<open>set_block_len\<close>: the length in bits in the last bytes of the block.\<close>

definition set_block_len :: "nat \<Rightarrow> nat \<Rightarrow> nat \<Rightarrow> u8 list \<Rightarrow> u8 list" where
  "set_block_len B L buf_size blk = take (B - L) blk @ be_nat L (8 * buf_size)"

text \<open>\<^verbatim>\<open>digest_partial_block\<close>\<close>

definition partial_block :: "'s engine \<Rightarrow> u8 list \<Rightarrow> bool \<Rightarrow> nat \<Rightarrow> bool \<Rightarrow> ('s, unit) action" where
  "partial_block D slc first buf_size restore =
     bindE (failIf (length slc > blk_size D - 1) (err_index D)) (\<lambda>_.
     let blk = slc @ [0x80] @ replicate (blk_size D - length slc - 1) 0;
         fits = length slc < blk_size D - len_size D;
         blk = (if fits then set_block_len (blk_size D) (len_size D) buf_size blk else blk)
     in bindE (blk_op D blk first fits restore) (\<lambda>_.
        if length slc \<ge> blk_size D - len_size D
        then blk_op D (set_block_len (blk_size D) (len_size D) buf_size (replicate (blk_size D) 0))
               False True False
        else ret ()))"

text \<open>The loop of \<^verbatim>\<open>digest\<close>: \<open>buf\<close> is what remains of the data, \<open>n\<close> its whole length.\<close>

function digest_loop :: "'s engine \<Rightarrow> nat \<Rightarrow> u8 list \<Rightarrow> bool \<Rightarrow> ('s, unit) action" where
  "digest_loop D n buf first =
     (if length buf < blk_size D \<or> blk_size D = 0 then partial_block D buf first n False
      else bindE (blk_op D (take (blk_size D) buf) first False False) (\<lambda>_.
           digest_loop D n (drop (blk_size D) buf) False))"
  by pat_completeness auto
termination
  by (relation "measure (\<lambda>(_, _, buf, _). length buf)") auto

declare digest_loop.simps [simp del]

text \<open>The loop of \<^verbatim>\<open>update\<close>.\<close>

fun update_loop :: "'s engine \<Rightarrow> u8 list \<Rightarrow> DigestOp \<Rightarrow> ('s, DigestOp) action" where
  "update_loop D [] op = ret op"
| "update_loop D (byte # data) op =
     (let op = op\<lparr>op_data_size := op_data_size op + 1\<rparr> in
      if op_buf_idx op \<ge> length (op_buf op) then throw (err_index D)
      else
        let op = op\<lparr>op_buf := (op_buf op)[op_buf_idx op := byte], op_buf_idx := op_buf_idx op + 1\<rparr> in
        if op_buf_idx op = length (op_buf op)
        then bindE (blk_op D (op_buf op) (is_first op) False (is_restore op))
               (\<lambda>_. update_loop D data (reset_buf_state op))
        else update_loop D data op)"

text \<open>\<^verbatim>\<open>finalize\<close> up to the reading of the digest.\<close>

definition finalize_op :: "'s engine \<Rightarrow> DigestOp \<Rightarrow> ('s, unit) action" where
  "finalize_op D op =
     bindE (failIf (op_state op = Final) (err_state D)) (\<lambda>_.
     bindE (failIf (op_buf_idx op > length (op_buf op)) (err_slice D)) (\<lambda>_.
     partial_block D (take (op_buf_idx op) (op_buf op)) (is_first op) (op_data_size op) (is_restore op)))"

section \<open>The padding blocks\<close>

definition tail_blocks :: "nat \<Rightarrow> nat \<Rightarrow> u8 list \<Rightarrow> nat \<Rightarrow> u8 list list" where
  "tail_blocks B L slc n =
     (if length slc < B - L
      then [slc @ [0x80] @ replicate (B - L - length slc - 1) 0 @ be_nat L (8 * n)]
      else [slc @ [0x80] @ replicate (B - length slc - 1) 0, replicate (B - L) 0 @ be_nat L (8 * n)])"

lemma tail_blocks_length:
  "length slc < B \<Longrightarrow> L < B \<Longrightarrow> list_all (\<lambda>b. length b = B) (tail_blocks B L slc n)"
  by (auto simp: tail_blocks_def)

lemma length_concat_const: "list_all (\<lambda>b. length b = B) bs \<Longrightarrow> length (concat bs) = B * length bs"
  by (induction bs) auto

lemma foldl_absorb:
  "list_all (\<lambda>b. length b = B) bs \<Longrightarrow> absorb c B h (length bs) (concat bs) = foldl c h bs"
proof (induction bs rule: rev_induct)
  case (snoc b bs)
  have len: "length (concat bs) = B * length bs"
    using snoc.prems by (simp add: length_concat_const)
  then have "nth_block B (concat bs @ b) (length bs) = b"
    using snoc.prems by (simp add: nth_block_def)
  moreover have "absorb c B h (length bs) (concat bs @ b) = absorb c B h (length bs) (concat bs)"
    using len by (intro absorb_append) simp
  ultimately show ?case using snoc by (simp add: absorb_Suc)
qed simp

lemma concat_tail_blocks:
  assumes "length slc < B" "L < B" "n mod B = length slc"
  shows "concat (tail_blocks B L slc n) = slc @ [0x80] @ replicate (pad_zeros B L n) 0 @ be_nat L (8 * n)"
proof -
  have "(n + 1 + L) mod B = (length slc + 1 + L) mod B"
    using assms(3) by (metis mod_add_left_eq)
  then have z: "pad_zeros B L n = (B - (length slc + 1 + L) mod B) mod B" by (simp add: pad_zeros_def)
  show ?thesis
  proof (cases "length slc < B - L")
    case True
    then have "length slc + 1 + L \<le> B" by simp
    then have "pad_zeros B L n = B - L - length slc - 1"
      unfolding z by (cases "length slc + 1 + L = B") auto
    with True show ?thesis by (simp add: tail_blocks_def)
  next
    case False
    then have ge: "B < length slc + 1 + L" "length slc + 1 + L - B < B" using assms by auto
    then have "(length slc + 1 + L) mod B = length slc + 1 + L - B" by (simp add: le_mod_geq)
    with ge have "pad_zeros B L n = B - length slc - 1 + (B - L)" unfolding z using assms by simp
    with False show ?thesis by (simp add: tail_blocks_def replicate_add)
  qed
qed

lemma sha_ref_tail:
  fixes msg :: "u8 list"
  assumes "0 < L" "L < B"
  defines "k \<equiv> length msg div B"
  shows "sha_ref c B L iv msg =
    foldl c (absorb c B iv k msg) (tail_blocks B L (drop (B * k) msg) (length msg))"
proof -
  let ?tb = "tail_blocks B L (drop (B * k) msg) (length msg)"
  have k: "B * k \<le> length msg" by (simp add: k_def)
  have slc: "length (drop (B * k) msg) = length msg mod B" by (simp add: k_def minus_mult_div_eq_mod)
  then have lt: "length (drop (B * k) msg) < B" using assms by simp
  have pad: "sha_pad B L msg = take (B * k) msg @ concat ?tb"
    using concat_tail_blocks [OF lt \<open>L < B\<close> slc [symmetric]] by (simp add: sha_pad_def)
  have lb: "list_all (\<lambda>b. length b = B) ?tb" by (rule tail_blocks_length [OF lt \<open>L < B\<close>])
  have "length (concat ?tb) = B * length ?tb" by (rule length_concat_const [OF lb])
  then have len: "length (sha_pad B L msg) div B = k + length ?tb"
    using k assms unfolding pad by (simp add: min_absorb2 distrib_left [symmetric])
  have "sha_ref c B L iv msg =
      absorb c B (absorb c B iv k (sha_pad B L msg)) (length ?tb) (drop (B * k) (sha_pad B L msg))"
    unfolding sha_ref_def len by (rule absorb_add)
  also have "drop (B * k) (sha_pad B L msg) = concat ?tb" using k unfolding pad by simp
  also have "absorb c B iv k (sha_pad B L msg) = absorb c B iv k msg"
    using k unfolding pad by (intro absorb_cong) simp
  finally show ?thesis by (simp only: foldl_absorb [OF lb])
qed

text \<open>Data that does not fill the staging buffer is only staged.\<close>

lemma update_loop_short:
  "op_buf_idx op + length data < length (op_buf op) \<Longrightarrow>
     update_loop D data op s = (Ok (op\<lparr>op_data_size := op_data_size op + length data,
       op_buf := take (op_buf_idx op) (op_buf op) @ data @ drop (op_buf_idx op + length data) (op_buf op),
       op_buf_idx := op_buf_idx op + length data\<rparr>), s)"
proof (induction data arbitrary: op)
  case (Cons byte data)
  let ?op = "op\<lparr>op_data_size := op_data_size op + 1, op_buf := (op_buf op)[op_buf_idx op := byte],
    op_buf_idx := op_buf_idx op + 1\<rparr>"
  have "update_loop D (byte # data) op s = update_loop D data ?op s"
    using Cons.prems by (simp add: Let_def)
  moreover have "take (Suc (op_buf_idx op)) ((op_buf op)[op_buf_idx op := byte]) =
      take (op_buf_idx op) (op_buf op) @ [byte]"
    using Cons.prems by (simp add: take_Suc_conv_app_nth)
  ultimately show ?case using Cons.IH [of ?op] Cons.prems by simp
qed simp

text \<open>A block that fills up makes the operation pending, which it stays.\<close>

lemma update_loop_pending:
  assumes "update_loop D data op s = (Ok op', t)" "op_buf_idx op < length (op_buf op)"
    and "op_state op = Pending \<or> length (op_buf op) \<le> op_buf_idx op + length data"
  shows "op_state op' = Pending"
  using assms
proof (induction data arbitrary: op s)
  case (Cons byte data)
  from Cons.prems show ?case
    by (auto simp: Let_def reset_buf_state_def bindE_def dest!: Cons.IH split: if_splits prod.splits outcome.splits)
qed auto

section \<open>The contract of the block operation\<close>

text \<open>
  In a state that is \<open>ok\<close> the operation hashes one block: \<open>st\<close> is the hash state of the hardware,
  \<open>saved\<close> the one that a restore puts in its place, and \<open>fin\<close> holds once the digest registers
  show the state.
\<close>

locale block_hasher =
  fixes D :: "'s engine" and c :: "'h \<Rightarrow> u8 list \<Rightarrow> 'h" and iv :: 'h
    and ok :: "'s \<Rightarrow> bool" and st saved :: "'s \<Rightarrow> 'h" and fin :: "'s \<Rightarrow> bool"
  assumes len_pos: "0 < len_size D" and len_lt: "len_size D < blk_size D"
    and blk_op_hashes: "ok s \<Longrightarrow> length b = blk_size D \<Longrightarrow>
      \<exists>t. blk_op D b first final restore s = (Ok (), t) \<and> ok t \<and> fin t \<and>
        st t = c (if first then iv else if restore then saved s else st s) b"
begin

abbreviation "base first restore s \<equiv> (if first then iv else if restore then saved s else st s)"

lemma blk_pos: "0 < blk_size D"
  using len_lt by simp

lemma partial_block_hashes:
  assumes "ok s" "length slc < blk_size D"
  shows "\<exists>t. partial_block D slc first n restore s = (Ok (), t) \<and> ok t \<and> fin t \<and>
    st t = foldl c (base first restore s) (tail_blocks (blk_size D) (len_size D) slc n)"
proof (cases "length slc < blk_size D - len_size D")
  case True
  define blk where "blk = slc @ [0x80] @ replicate (blk_size D - len_size D - length slc - 1) 0 @
    be_nat (len_size D) (8 * n)"
  have blk: "set_block_len (blk_size D) (len_size D) n
      (slc @ [0x80] @ replicate (blk_size D - length slc - 1) 0) = blk"
    using True by (simp add: set_block_len_def blk_def min_absorb1 take_Cons')
  have "length blk = blk_size D" using True by (simp add: blk_def)
  then obtain t where "blk_op D blk first True restore s = (Ok (), t)" "ok t" "fin t"
    "st t = c (base first restore s) blk"
    using blk_op_hashes assms(1) by blast
  moreover have "partial_block D slc first n restore s = bindE (blk_op D blk first True restore) (\<lambda>_. ret ()) s"
    using True assms(2) blk by (auto simp: partial_block_def Let_def failIf_def)
  moreover have "tail_blocks (blk_size D) (len_size D) slc n = [blk]"
    using True by (simp add: tail_blocks_def blk_def)
  ultimately show ?thesis by (simp add: bindE_def)
next
  case False
  define blk where "blk = slc @ [0x80] @ replicate (blk_size D - length slc - 1) 0"
  define pad where "pad = replicate (blk_size D - len_size D) 0 @ be_nat (len_size D) (8 * n)"
  have pad: "set_block_len (blk_size D) (len_size D) n (replicate (blk_size D) 0) = pad"
    by (simp add: set_block_len_def pad_def min_absorb1)
  have "length blk = blk_size D" "length pad = blk_size D" using assms len_lt by (simp_all add: blk_def pad_def)
  then obtain t u where "blk_op D blk first False restore s = (Ok (), t)"
    "st t = c (base first restore s) blk"
    "blk_op D pad False True False t = (Ok (), u)" "ok u" "fin u" "st u = c (st t) pad"
    using blk_op_hashes [of s blk first False restore] blk_op_hashes [of _ pad False True False, unfolded if_False] assms(1) by metis
  moreover have "partial_block D slc first n restore s =
      bindE (blk_op D blk first False restore) (\<lambda>_. blk_op D pad False True False) s"
    using False assms(2) pad by (auto simp: partial_block_def Let_def failIf_def blk_def)
  moreover have "tail_blocks (blk_size D) (len_size D) slc n = [blk, pad]"
    using False by (simp add: tail_blocks_def blk_def pad_def)
  ultimately show ?thesis by (simp add: bindE_def)
qed

lemma digest_loop_hashes:
  fixes buf :: "u8 list"
  assumes "ok s"
  shows "\<exists>t. digest_loop D n buf first s = (Ok (), t) \<and> ok t \<and> fin t \<and>
    st t = foldl c (absorb c (blk_size D) (if first then iv else st s) (length buf div blk_size D) buf)
      (tail_blocks (blk_size D) (len_size D) (drop (blk_size D * (length buf div blk_size D)) buf) n)"
  using assms
proof (induction "length buf" arbitrary: buf first s rule: less_induct)
  case less
  let ?B = "blk_size D"
  show ?case
  proof (cases "length buf < ?B")
    case True
    then show ?thesis
      using partial_block_hashes [OF less.prems True, of first n False] blk_pos
      by (subst digest_loop.simps) (cases first; simp)
  next
    case False
    then have len: "length (take ?B buf) = ?B" by simp
    obtain t where t: "blk_op D (take ?B buf) first False False s = (Ok (), t)" "ok t"
      "st t = c (if first then iv else st s) (take ?B buf)"
      using blk_op_hashes [OF less.prems len, of first False False] by auto
    have k: "length buf div ?B = 1 + length (drop ?B buf) div ?B"
      using False blk_pos by (simp add: le_div_geq)
    have run: "digest_loop D n buf first s = digest_loop D n (drop ?B buf) False t"
      using False t(1) blk_pos by (subst digest_loop.simps) (simp add: bindE_def)
    have "absorb c ?B h (length buf div ?B) buf =
        absorb c ?B (c h (take ?B buf)) (length (drop ?B buf) div ?B) (drop ?B buf)" for h
      unfolding k absorb_add by (simp add: absorb_Suc nth_block_def)
    moreover have "drop (?B * (length buf div ?B)) buf =
        drop (?B * (length (drop ?B buf) div ?B)) (drop ?B buf)"
      unfolding k by (simp add: add.commute)
    ultimately show ?thesis
      using less.hyps [of "drop ?B buf" t False] t False blk_pos unfolding run by simp
  qed
qed

lemma digest_loop_ref:
  "ok s \<Longrightarrow> \<exists>t. digest_loop D (length msg) msg True s = (Ok (), t) \<and> ok t \<and> fin t \<and>
     st t = sha_ref c (blk_size D) (len_size D) iv msg"
  using digest_loop_hashes [of s "length msg" msg True] by (simp add: sha_ref_tail [OF len_pos len_lt])

text \<open>The operation object has taken in \<open>msg\<close>: whole blocks are hashed, the rest is staged.\<close>

definition holds :: "u8 list \<Rightarrow> DigestOp \<Rightarrow> 's \<Rightarrow> bool" where
  "holds msg op s \<longleftrightarrow> ok s \<and>
     op_data_size op = length msg \<and> length (op_buf op) = blk_size D \<and>
     op_buf_idx op = length msg mod blk_size D \<and>
     take (op_buf_idx op) (op_buf op) = drop (blk_size D * (length msg div blk_size D)) msg \<and>
     (if length msg < blk_size D then op_state op = Init
      else (case op_state op of
          Pending \<Rightarrow> fin s \<and> st s = absorb c (blk_size D) iv (length msg div blk_size D) msg
        | Restore \<Rightarrow> saved s = absorb c (blk_size D) iv (length msg div blk_size D) msg
        | _ \<Rightarrow> False))"

lemma holds_new: "ok s \<Longrightarrow> holds [] (op_new (blk_size D)) s"
  using blk_pos by (simp add: holds_def op_new_def)

lemma holds_restore:
  assumes "ok s" "0 < k" "length msg = blk_size D * k" "saved s = absorb c (blk_size D) iv k msg"
  shows "holds msg ((op_new (blk_size D))\<lparr>op_data_size := length msg, op_state := Restore\<rparr>) s"
proof -
  have "\<not> length msg < blk_size D" using assms(2,3) by simp
  then show ?thesis using assms blk_pos by (simp add: holds_def op_new_def)
qed

lemma update_byte_holds:
  assumes "holds msg op s"
  shows "\<exists>op' t. update_loop D [byte] op s = (Ok op', t) \<and> holds (msg @ [byte]) op' t \<and>
    update_loop D (byte # data) op s = update_loop D data op' t"
proof -
  let ?B = "blk_size D" and ?n = "length msg"
  have h: "ok s" "op_data_size op = ?n" "length (op_buf op) = ?B" "op_buf_idx op = ?n mod ?B"
    "take (op_buf_idx op) (op_buf op) = drop (?B * (?n div ?B)) msg"
    using assms unfolding holds_def by blast+
  have idx: "?n mod ?B < ?B" using blk_pos by simp
  define buf where "buf = (op_buf op)[op_buf_idx op := byte]"
  have buf: "take (Suc (?n mod ?B)) buf = drop (?B * (?n div ?B)) (msg @ [byte])" "length buf = ?B"
    using h idx by (simp_all add: buf_def take_Suc_conv_app_nth)
  define op1 where "op1 = op\<lparr>op_data_size := Suc ?n, op_buf := buf, op_buf_idx := Suc (?n mod ?B)\<rparr>"
  have run: "update_loop D (byte # ds) op s =
      (if Suc (?n mod ?B) = ?B
       then bindE (blk_op D buf (is_first op) False (is_restore op)) (\<lambda>_. update_loop D ds (reset_buf_state op1)) s
       else update_loop D ds op1 s)" for ds
    using h idx by (simp add: Let_def op1_def buf_def is_first_def is_restore_def)
  have st: "base (is_first op) (is_restore op) s = absorb c ?B iv (?n div ?B) msg"
    using assms by (auto simp: holds_def is_restore_def is_first_def split: if_splits DigestState.splits)
  show ?thesis
  proof (cases "Suc (?n mod ?B) = ?B")
    case True
    then have dm: "Suc ?n mod ?B = 0" "Suc ?n div ?B = Suc (?n div ?B)"
      by (simp_all add: mod_Suc div_Suc)
    obtain t where t: "blk_op D buf (is_first op) False (is_restore op) s = (Ok (), t)" "ok t"
      "st t = c (base (is_first op) (is_restore op) s) buf" "fin t"
      using blk_op_hashes [OF h(1) buf(2)] by blast
    have "buf = drop (?B * (?n div ?B)) (msg @ [byte])" using buf True by simp
    then have "nth_block ?B (msg @ [byte]) (?n div ?B) = buf" using buf(2) by (simp add: nth_block_def)
    moreover have "absorb c ?B iv (?n div ?B) (msg @ [byte]) = base (is_first op) (is_restore op) s"
      unfolding st by (simp add: absorb_append)
    ultimately have "st t = absorb c ?B iv (Suc (?n div ?B)) (msg @ [byte])"
      using t(3) by (simp add: absorb_Suc)
    moreover have "?B \<le> Suc ?n" "?B * Suc (?n div ?B) = Suc ?n"
      using dm by (metis mod_less nat_less_le not_less zero_less_Suc, metis dm mult_div_mod_eq add.right_neutral)
    ultimately have "holds (msg @ [byte]) (reset_buf_state op1) t"
      using t(2,4) dm buf(2) by (simp add: holds_def reset_buf_state_def op1_def)
    then show ?thesis using run t(1) True by (simp add: bindE_def)
  next
    case False
    then have dm: "Suc ?n mod ?B = Suc (?n mod ?B)" "Suc ?n div ?B = ?n div ?B"
      by (simp_all add: mod_Suc div_Suc)
    have lt: "Suc ?n < ?B \<longleftrightarrow> ?n < ?B"
      using False by (cases "?n < ?B") auto
    have "holds (msg @ [byte]) op1 s"
      using assms buf dm lt by (auto simp: holds_def op1_def absorb_append split: DigestState.splits)
    then show ?thesis using run False by auto
  qed
qed

lemma update_loop_holds:
  "holds msg op s \<Longrightarrow> \<exists>op' t. update_loop D data op s = (Ok op', t) \<and> holds (msg @ data) op' t"
proof (induction data arbitrary: msg op s)
  case (Cons byte data)
  obtain op' t where "holds (msg @ [byte]) op' t" "update_loop D (byte # data) op s = update_loop D data op' t"
    using update_byte_holds [OF Cons.prems] by blast
  with Cons.IH show ?case by fastforce
qed auto

lemma finalize_op_ref:
  assumes "holds msg op s"
  shows "\<exists>t. finalize_op D op s = (Ok (), t) \<and> ok t \<and> fin t \<and>
    st t = sha_ref c (blk_size D) (len_size D) iv msg"
proof -
  let ?B = "blk_size D" and ?n = "length msg"
  let ?slc = "drop (?B * (?n div ?B)) msg"
  have h: "ok s" "op_data_size op = ?n" "length (op_buf op) = ?B" "op_buf_idx op = ?n mod ?B"
    "take (op_buf_idx op) (op_buf op) = ?slc" "op_state op \<noteq> Final"
    and hs: "base (is_first op) (is_restore op) s = absorb c ?B iv (?n div ?B) msg"
    using assms by (auto simp: holds_def is_first_def is_restore_def split: if_splits DigestState.splits)
  have "length ?slc < ?B" using blk_pos by (simp add: minus_mult_div_eq_mod)
  then obtain t where "partial_block D ?slc (is_first op) ?n (is_restore op) s = (Ok (), t)" "ok t" "fin t"
    "st t = foldl c (base (is_first op) (is_restore op) s) (tail_blocks ?B (len_size D) ?slc ?n)"
    using partial_block_hashes [OF h(1)] by blast
  moreover have "\<not> ?B < ?n mod ?B" using blk_pos mod_less_divisor [of ?B ?n] by linarith
  ultimately show ?thesis
    using h unfolding hs by (simp add: finalize_op_def sha_ref_tail [OF len_pos len_lt])
qed

end

end
