(* ===== verification/HashSha512.thy ===== *)
theory HashSha512
  imports Sha512 KeyVault
begin

unbundle bit_operations_syntax

text \<open>
  The SHA-512 peripheral of the emulator, \<^verbatim>\<open>sw-emulator/lib/periph/src/hash_sha512.rs\<close>: block
  hashing with restore, the retrieval of a PCR or a key into the block registers, the writing of
  the result to a PCR or a key slot, and the digest over all PCRs. The peripheral holds the vault
  it shares with the rest of the device. A panic of the emulator inside \<^verbatim>\<open>poll\<close> is a command
  that never completes.
\<close>

section \<open>Registers\<close>

record HashSha512Regs =
  h512_control :: u32
  h512_status :: u32
  h512_block :: "u32 list"
  h512_hash :: "u8 list"
  block_read_ctrl :: u32
  block_read_status :: u32
  hash_write_ctrl :: u32
  hash_write_status :: u32
  pcr_gen_hash_nonce :: "u32 list"
  pcr_hash_control :: u32
  pcr_hash_status :: u32
  pcr_hash_digest :: "u32 list"
  h512_engine :: Sha512
  h512_vault :: KeyVaultRegs
  h512_action :: "nat option"
  block_read_action :: "nat option"
  hash_write_action :: "nat option"
  pcr_gen_hash_action :: "nat option"
  pcr_present :: bool

type_synonym 'a h512_io = "(HashSha512Regs, 'a) bus_io"

definition HashSha512Regs_new :: "KeyVaultRegs \<Rightarrow> HashSha512Regs" where
  "HashSha512Regs_new kv = \<lparr>h512_control = 0, h512_status = 1, h512_block = replicate 32 0,
     h512_hash = replicate 64 0, block_read_ctrl = 0, block_read_status = 1, hash_write_ctrl = 0,
     hash_write_status = 1, pcr_gen_hash_nonce = replicate 8 0, pcr_hash_control = 0,
     pcr_hash_status = 1, pcr_hash_digest = replicate 16 0, h512_engine = Sha512_new Mode512,
     h512_vault = kv, h512_action = None, block_read_action = None, hash_write_action = None,
     pcr_gen_hash_action = None, pcr_present = False\<rparr>"

definition h512_ready :: "HashSha512Regs \<Rightarrow> bool" where "h512_ready r \<longleftrightarrow> bit (h512_status r) 0"
definition h512_valid :: "HashSha512Regs \<Rightarrow> bool" where "h512_valid r \<longleftrightarrow> bit (h512_status r) 1"
definition block_read_ready :: "HashSha512Regs \<Rightarrow> bool" where "block_read_ready r \<longleftrightarrow> bit (block_read_status r) 0"
definition block_read_valid :: "HashSha512Regs \<Rightarrow> bool" where "block_read_valid r \<longleftrightarrow> bit (block_read_status r) 1"
definition pcr_hash_ready :: "HashSha512Regs \<Rightarrow> bool" where "pcr_hash_ready r \<longleftrightarrow> bit (pcr_hash_status r) 0"
definition pcr_hash_valid :: "HashSha512Regs \<Rightarrow> bool" where "pcr_hash_valid r \<longleftrightarrow> bit (pcr_hash_status r) 1"

text \<open>An access to the vault.\<close>

definition on_vault :: "'a kv_io \<Rightarrow> 'a h512_io" where
  "on_vault m r = (case m (h512_vault r) of (x, kv) \<Rightarrow> (x, r\<lparr>h512_vault := kv\<rparr>))"

section \<open>Register writes\<close>

definition h512_mode :: "u32 \<Rightarrow> Sha512Mode" where
  "h512_mode ctrl = (let modebits = field_read 2 2 ctrl in
     if modebits = 0 then Mode224 else if modebits = 1 then Mode256
     else if modebits = 2 then Mode384 else Mode512)"

definition h512_zeroize :: "HashSha512Regs \<Rightarrow> HashSha512Regs" where
  "h512_zeroize r = r\<lparr>h512_block := replicate (length (h512_block r)) 0,
     h512_hash := replicate (length (h512_hash r)) 0\<rparr>"

definition h512_on_write_control :: "compress512 \<Rightarrow> RvSize \<Rightarrow> u32 \<Rightarrow> unit h512_io" where
  "h512_on_write_control c sz val r =
     (if sz \<noteq> Word then bus_fault StoreAccessFault r
      else
        let r = r\<lparr>h512_control := val, pcr_present := False\<rparr>;
            r = (if bit (h512_control r) 6
                 then r\<lparr>h512_engine := Sha512_set_hash (h512_hash r) (h512_engine r)\<rparr> else r);
            r = (if bit (h512_control r) 0 \<or> bit (h512_control r) 1
                 then
                   let r = r\<lparr>h512_status := h512_status r AND NOT 3\<rparr>;
                       block = u32_le_to_u8 (h512_block r)
                   in if bit (h512_control r) 0
                      then r\<lparr>h512_engine := Sha512_update c block (Sha512_reset (h512_mode (h512_control r)) (h512_engine r)),
                             h512_action := Some 1000\<rparr>
                      else r\<lparr>h512_engine := Sha512_update c block (h512_engine r), h512_action := Some 1000\<rparr>
                 else r)
        in (Ok (Inr ()), if bit (h512_control r) 4 then h512_zeroize r else r))"

definition h512_write_block :: "nat \<Rightarrow> u32 \<Rightarrow> unit h512_io" where
  "h512_write_block word_index val r =
     (Ok (Inr ()),
      if \<not> pcr_present r \<or> word_index \<ge> 12
      then r\<lparr>h512_block := (h512_block r)[word_index := val]\<rparr> else r)"

definition on_write_block_read_control :: "RvSize \<Rightarrow> u32 \<Rightarrow> unit h512_io" where
  "on_write_block_read_control sz val r =
     (if sz \<noteq> Word then bus_fault StoreAccessFault r
      else
        let r = r\<lparr>block_read_ctrl := field_modify 6 1 (field_read 6 1 val)
              (field_modify 1 5 (field_read 1 5 val) (field_modify 0 1 (field_read 0 1 val) (block_read_ctrl r)))\<rparr>
        in (Ok (Inr ()),
            if bit val 0
            then r\<lparr>block_read_status := field_modify 2 8 0 (block_read_status r AND NOT 3),
                   block_read_action := Some 100\<rparr>
            else r))"

definition on_write_hash_write_control :: "RvSize \<Rightarrow> u32 \<Rightarrow> unit h512_io" where
  "on_write_hash_write_control sz val r =
     (if sz \<noteq> Word then bus_fault StoreAccessFault r
      else (Ok (Inr ()), r\<lparr>hash_write_ctrl := field_modify 6 6 (field_read 6 6 val)
              (field_modify 1 5 (field_read 1 5 val) (field_modify 0 1 (field_read 0 1 val) (hash_write_ctrl r)))\<rparr>))"

definition on_write_pcr_hash_control :: "RvSize \<Rightarrow> u32 \<Rightarrow> unit h512_io" where
  "on_write_pcr_hash_control sz val r =
     (if sz \<noteq> Word then bus_fault StoreAccessFault r
      else if \<not> pcr_hash_ready r then (Ok (Inr ()), r)
      else (Ok (Inr ()), r\<lparr>pcr_hash_control := val, pcr_hash_status := pcr_hash_status r AND NOT 3,
                          pcr_gen_hash_action := Some 1000\<rparr>))"

section \<open>Completion\<close>

text \<open>\<^verbatim>\<open>op_complete\<close>: the result goes to the hash registers, and on to a key slot or a PCR.\<close>

definition h512_op_complete :: "HashSha512Regs \<Rightarrow> HashSha512Regs" where
  "h512_op_complete r =
     (let r = r\<lparr>h512_hash := Sha512_copy_hash 64 (h512_engine r)\<rparr>;
          r = (if bit (hash_write_ctrl r) 0
               then r\<lparr>hash_write_status := field_modify 2 8 0 (hash_write_status r AND NOT 3),
                      hash_write_action := Some 100\<rparr>
               else if bit (h512_control r) 5 \<and> bit (block_read_ctrl r) 6
               then (snd (on_vault (write_pcr (unat (field_read 1 5 (block_read_ctrl r))) (take 48 (h512_hash r))) r))
                      \<lparr>block_read_ctrl := field_modify 6 1 0 (block_read_ctrl r)\<rparr>
               else r)
      in r\<lparr>h512_status := h512_status r OR 3\<rparr>)"

text \<open>\<^verbatim>\<open>format_block\<close>: the padded block of a key or PCR.\<close>

definition format_block :: "u8 list \<Rightarrow> HashSha512Regs \<Rightarrow> HashSha512Regs" where
  "format_block data r =
     (let block_arr = swap4 (data @ replicate (128 - length data) 0);
          block_arr = block_arr[length data := 0x80];
          block_arr = take 112 block_arr @ be_nat 16 (length data * 8)
      in r\<lparr>h512_block := u8_to_u32_le 32 (swap4 block_arr)\<rparr>)"

definition kv_error_code :: "BusError + 'a \<Rightarrow> u32" where
  "kv_error_code res = (case res of
      Inl StoreAccessFault \<Rightarrow> 2 | Inl StoreAddrMisaligned \<Rightarrow> 2 | Inl _ \<Rightarrow> 1 | Inr _ \<Rightarrow> 0)"

definition block_read_complete :: "HashSha512Regs \<Rightarrow> HashSha512Regs" where
  "block_read_complete r =
     (let key_id = unat (field_read 1 5 (block_read_ctrl r));
          pcr_hash_extend = bit (block_read_ctrl r) 6;
          r = r\<lparr>h512_block := replicate 32 0\<rparr>
      in case on_vault (if pcr_hash_extend then read_pcr key_id
                        else bindE (read_key key_id 0) (\<lambda>x. ret (map_sum id (take 48) x))) r of
           (Ok result, r) \<Rightarrow>
             let r = (case result of
                 Inr data \<Rightarrow>
                   if pcr_hash_extend
                   then r\<lparr>h512_block := splice 0 (u8_to_u32_le 12 data) (h512_block r), pcr_present := True\<rparr>
                   else format_block data r
               | Inl _ \<Rightarrow> r)
             in r\<lparr>block_read_status := field_modify 2 8 (kv_error_code result) (block_read_status r OR 3)\<rparr>
         | (_, r) \<Rightarrow> r)"

definition hash_write_complete :: "HashSha512Regs \<Rightarrow> HashSha512Regs" where
  "hash_write_complete r =
     (let key_id = unat (field_read 1 5 (hash_write_ctrl r))
      in case on_vault (write_key key_id (take 64 (h512_hash r)) (field_read 6 6 (hash_write_ctrl r))) r of
           (Ok result, r) \<Rightarrow>
             r\<lparr>hash_write_status := field_modify 2 8 (kv_error_code result) (hash_write_status r OR 3)\<rparr>
         | (_, r) \<Rightarrow> r)"

text \<open>The bytes of the PCR \<open>pcr_id\<close> in the order they are hashed.\<close>

definition pcr_bytes :: "KeyVaultRegs \<Rightarrow> nat \<Rightarrow> u8 list" where
  "pcr_bytes kv pcr_id = swap4 (u32_le_to_u8 (take PCR_SIZE_WORDS (drop (pcr_id * PCR_SIZE_WORDS) (pcrs kv))))"

definition pcr_hash_op_complete :: "compress512 \<Rightarrow> HashSha512Regs \<Rightarrow> HashSha512Regs" where
  "pcr_hash_op_complete c r =
     (let sha = Sha512_reset Mode512 (h512_engine r);
          feed = (\<lambda>sha bytes. bindO sha (Sha512_update_bytes c bytes None));
          sha = foldl feed (Ok sha) (map (pcr_bytes (h512_vault r)) [0..<PCR_COUNT]);
          sha = feed sha (u32_le_to_u8 (pcr_gen_hash_nonce r));
          sha = bindO sha (Sha512_finalize c (of_nat (PCR_COUNT * 48 + 32)))
      in case sha of
           Ok sha \<Rightarrow> r\<lparr>h512_engine := sha,
             pcr_hash_digest := u8_to_u32_le 16 (Sha512_copy_hash 64 sha),
             pcr_hash_status := pcr_hash_status r OR 3\<rparr>
         | _ \<Rightarrow> r)"

definition h512_poll :: "compress512 \<Rightarrow> HashSha512Regs \<Rightarrow> HashSha512Regs" where
  "h512_poll c r =
     (if h512_action r = Some 0 then h512_op_complete (r\<lparr>h512_action := None\<rparr>)
      else if block_read_action r = Some 0 then block_read_complete (r\<lparr>block_read_action := None\<rparr>)
      else if hash_write_action r = Some 0 then hash_write_complete (r\<lparr>hash_write_action := None\<rparr>)
      else if pcr_gen_hash_action r = Some 0 then pcr_hash_op_complete c (r\<lparr>pcr_gen_hash_action := None\<rparr>)
      else r)"

text \<open>A tick of the clock that drives the timers, followed by the poll.\<close>

definition h512_tick :: "compress512 \<Rightarrow> HashSha512Regs \<Rightarrow> HashSha512Regs" where
  "h512_tick c r = h512_poll c (r\<lparr>h512_action := map_option (\<lambda>n. n - 1) (h512_action r),
     block_read_action := map_option (\<lambda>n. n - 1) (block_read_action r),
     hash_write_action := map_option (\<lambda>n. n - 1) (hash_write_action r),
     pcr_gen_hash_action := map_option (\<lambda>n. n - 1) (pcr_gen_hash_action r)\<rparr>)"

section \<open>The scheduled completions\<close>

text \<open>Each timer on its own, with no other command under way.\<close>

definition h512_op_pending :: "HashSha512Regs \<Rightarrow> nat option" where
  "h512_op_pending r = (if block_read_action r = None \<and> hash_write_action r = None \<and> pcr_gen_hash_action r = None
     then h512_action r else None)"

definition h512_op_done :: "HashSha512Regs \<Rightarrow> HashSha512Regs" where
  "h512_op_done r = h512_op_complete (r\<lparr>h512_action := None\<rparr>)"

definition block_read_pending :: "HashSha512Regs \<Rightarrow> nat option" where
  "block_read_pending r = (if h512_action r = None \<and> hash_write_action r = None \<and> pcr_gen_hash_action r = None \<and>
       bit (block_read_ctrl r) 6 \<and> kv_wf (h512_vault r)
     then block_read_action r else None)"

definition block_read_done :: "HashSha512Regs \<Rightarrow> HashSha512Regs" where
  "block_read_done r = block_read_complete (r\<lparr>block_read_action := None\<rparr>)"

lemma bit_or_3_word: "bit (w OR 3) 0" "bit (w OR 3) (Suc 0)" for w :: u32
  by (simp_all add: bit_simps bit_numeral_rec)

lemmas h512_flag_defs = h512_ready_def h512_valid_def block_read_ready_def block_read_valid_def
  pcr_hash_ready_def pcr_hash_valid_def

lemma h512_op_complete_status [simp]: "h512_status (h512_op_complete r) = h512_status r OR 3"
  by (simp add: h512_op_complete_def Let_def on_vault_def split: prod.split)

text \<open>A tick with one timer running.\<close>

lemma h512_tick_op:
  assumes "h512_op_pending r = Some n"
  shows "h512_tick c r = (if n \<le> 1 then h512_op_done r else r\<lparr>h512_action := Some (n - 1)\<rparr>)"
proof -
  have a: "h512_action r = Some n" "block_read_action r = None" "hash_write_action r = None" "pcr_gen_hash_action r = None"
    using assms by (auto simp: h512_op_pending_def split: if_splits)
  have "h512_tick c r = h512_poll c (r\<lparr>h512_action := Some (n - 1)\<rparr>)"
    using a by (cases r) (simp add: h512_tick_def)
  then show ?thesis using a by (auto simp: h512_poll_def h512_op_done_def)
qed

lemma h512_tick_block_read:
  assumes "block_read_pending r = Some n"
  shows "h512_tick c r = (if n \<le> 1 then block_read_done r else r\<lparr>block_read_action := Some (n - 1)\<rparr>)"
proof -
  have a: "h512_action r = None" "block_read_action r = Some n" "hash_write_action r = None" "pcr_gen_hash_action r = None"
    using assms by (auto simp: block_read_pending_def split: if_splits)
  have "h512_tick c r = h512_poll c (r\<lparr>block_read_action := Some (n - 1)\<rparr>)"
    using a by (cases r) (simp add: h512_tick_def)
  then show ?thesis using a by (auto simp: h512_poll_def block_read_done_def)
qed

interpretation h512_ready_device: timed_device h512_op_pending "\<lambda>r n. r\<lparr>h512_action := Some n\<rparr>"
  h512_op_done "h512_tick c" h512_ready for c
  by unfold_locales
    (auto simp: h512_tick_op h512_op_pending_def h512_op_done_def h512_ready_def bit_or_3_word split: if_splits)

interpretation h512_valid_device: timed_device h512_op_pending "\<lambda>r n. r\<lparr>h512_action := Some n\<rparr>"
  h512_op_done "h512_tick c" h512_valid for c
  by unfold_locales
    (auto simp: h512_tick_op h512_op_pending_def h512_op_done_def h512_valid_def bit_or_3_word split: if_splits)

lemma field_read_lt: "n \<le> 32 \<Longrightarrow> unat (field_read off n reg) < 2 ^ n"
  by (simp add: field_read_def unsigned_take_bit_eq)

lemma key_id_lt: "unat (field_read 1 5 reg) < 32"
  using field_read_lt [of 5 1 reg] by simp

text \<open>Retrieving a PCR: its words are in the block registers, which further writes leave alone.\<close>

lemma read_pcr_ok:
  "kv_wf kv \<Longrightarrow> k < PCR_COUNT \<Longrightarrow>
     read_pcr k kv = (Ok (Inr (u32_le_to_u8 (take PCR_SIZE_WORDS (drop (k * PCR_SIZE_WORDS) (pcrs kv))))), kv)"
  by (simp add: read_pcr_def in_range_def kv_wf_def)

definition pcr_words :: "KeyVaultRegs \<Rightarrow> nat \<Rightarrow> u32 list" where
  "pcr_words kv k = take PCR_SIZE_WORDS (drop (k * PCR_SIZE_WORDS) (pcrs kv))"

lemma length_pcr_words: "kv_wf kv \<Longrightarrow> k < PCR_COUNT \<Longrightarrow> length (pcr_words kv k) = 12"
  by (simp add: pcr_words_def kv_wf_def)

lemma block_read_complete_pcr:
  assumes "bit (block_read_ctrl r) 6" "kv_wf (h512_vault r)"
  shows "block_read_complete r = r\<lparr>
    h512_block := pcr_words (h512_vault r) (unat (field_read 1 5 (block_read_ctrl r))) @ replicate 20 0,
    pcr_present := True, block_read_status := field_modify 2 8 0 (block_read_status r OR 3)\<rparr>"
proof -
  let ?k = "unat (field_read 1 5 (block_read_ctrl r))"
  have "length (pcr_words (h512_vault r) ?k) = 12"
    using length_pcr_words [OF assms(2)] key_id_lt by simp
  then have "u8_to_u32_le 12 (u32_le_to_u8 (pcr_words (h512_vault r) ?k)) = pcr_words (h512_vault r) ?k"
    "splice 0 (pcr_words (h512_vault r) ?k) (replicate 32 0) = pcr_words (h512_vault r) ?k @ replicate 20 0"
    by (simp_all add: u8_to_u32_le_inverse splice_def)
  then show ?thesis
    using assms read_pcr_ok [OF assms(2), of ?k] key_id_lt
    by (simp add: block_read_complete_def Let_def on_vault_def kv_error_code_def pcr_words_def)
qed

interpretation block_read_device: timed_device block_read_pending "\<lambda>r n. r\<lparr>block_read_action := Some n\<rparr>"
  block_read_done "h512_tick c" block_read_valid for c
  by unfold_locales
    (auto simp: h512_tick_block_read block_read_pending_def block_read_done_def block_read_complete_pcr
      block_read_valid_def bit_field_modify bit_or_3_word split: if_splits)

end
