(* ===== verification/Sha2Driver.thy ===== *)
theory Sha2Driver
  imports Sha2Acc BlockHash HashSha512
begin

unbundle bit_operations_syntax

text \<open>
  The SHA-2 driver, \<^verbatim>\<open>drivers/src/sha2_512_384.rs\<close>, the vault accesses of
  \<^verbatim>\<open>drivers/src/kv_access.rs\<close> it uses, and the PCR bank \<^verbatim>\<open>drivers/src/pcr_bank.rs\<close>, on the emulated
  peripheral. The lemmas show that digests, in one or in many steps and resumed from a saved
  state, are SHA-384 and SHA-512, and that extending a PCR replaces it by the SHA-384 digest of
  its old value and the data.
\<close>

section \<open>Blocks\<close>

abbreviation (input) SHA512_BLOCK_BYTE_SIZE :: nat where "SHA512_BLOCK_BYTE_SIZE \<equiv> 128"
abbreviation (input) SHA512_BLOCK_LEN_OFFSET :: nat where "SHA512_BLOCK_LEN_OFFSET \<equiv> 112"
abbreviation (input) SHA512_MAX_DATA_SIZE :: nat where "SHA512_MAX_DATA_SIZE \<equiv> 1024 * 1024"
abbreviation (input) SHA384_HASH_SIZE :: nat where "SHA384_HASH_SIZE \<equiv> 48"

datatype ShaMode = ShaMode384 | ShaMode512

definition ShaMode_reg_value :: "ShaMode \<Rightarrow> u32" where
  "ShaMode_reg_value mode = (case mode of ShaMode384 \<Rightarrow> 2 | ShaMode512 \<Rightarrow> 3)"

abbreviation wait_h512_ready :: "compress512 \<Rightarrow> (HashSha512Regs, unit) action" where
  "wait_h512_ready c \<equiv> wait_for h512_ready (h512_tick c)"

abbreviation wait_h512_valid :: "compress512 \<Rightarrow> (HashSha512Regs, unit) action" where
  "wait_h512_valid c \<equiv> wait_for h512_valid (h512_tick c)"

text \<open>\<^verbatim>\<open>write_to_reg\<close>: the words go to the registers from index \<open>i\<close> on.\<close>

fun write_block_words :: "nat \<Rightarrow> u32 list \<Rightarrow> (HashSha512Regs, unit) action" where
  "write_block_words i [] = ret ()"
| "write_block_words i (w # ws) =
     bindE (mmio (h512_write_block i w)) (\<lambda>_. write_block_words (i + 1) ws)"

definition sha2_ctrl_word :: "ShaMode \<Rightarrow> bool \<Rightarrow> bool \<Rightarrow> bool \<Rightarrow> u32" where
  "sha2_ctrl_word mode first final restore =
     push_bit 2 (ShaMode_reg_value mode) OR (if first then 1 else 2) OR (if final then 32 else 0) OR
     (if restore then 64 else 0)"

definition sha2_digest_op :: "compress512 \<Rightarrow> ShaMode \<Rightarrow> bool \<Rightarrow> bool \<Rightarrow> bool \<Rightarrow> (HashSha512Regs, unit) action" where
  "sha2_digest_op c mode first final restore =
     bindE (wait_h512_ready c) (\<lambda>_.
     bindE (mmio (h512_on_write_control c Word (sha2_ctrl_word mode first final restore))) (\<lambda>_.
     wait_h512_ready c))"

definition sha2_digest_block ::
  "compress512 \<Rightarrow> ShaMode \<Rightarrow> u8 list \<Rightarrow> bool \<Rightarrow> bool \<Rightarrow> bool \<Rightarrow> (HashSha512Regs, unit) action" where
  "sha2_digest_block c mode block first final restore =
     bindE (write_block_words 0 (u8_to_u32_be 32 block)) (\<lambda>_. sha2_digest_op c mode first final restore)"

definition sha2_engine :: "compress512 \<Rightarrow> ShaMode \<Rightarrow> HashSha512Regs engine" where
  "sha2_engine c mode = \<lparr>blk_size = SHA512_BLOCK_BYTE_SIZE,
     len_size = SHA512_BLOCK_BYTE_SIZE - SHA512_BLOCK_LEN_OFFSET,
     blk_op = sha2_digest_block c mode,
     err_index = DRIVER_SHA2_512_384_INDEX_OUT_OF_BOUNDS, err_slice = DRIVER_SHA2_512_384_INVALID_SLICE,
     err_state = DRIVER_SHA2_512_384_INVALID_STATE_ERR\<rparr>"

definition sha2_digest_partial_block ::
  "compress512 \<Rightarrow> ShaMode \<Rightarrow> u8 list \<Rightarrow> bool \<Rightarrow> nat \<Rightarrow> bool \<Rightarrow> (HashSha512Regs, unit) action" where
  "sha2_digest_partial_block c mode = BlockHash.partial_block (sha2_engine c mode)"

section \<open>Digests\<close>

definition sha2_zeroize_internal :: "compress512 \<Rightarrow> (HashSha512Regs, unit) action" where
  "sha2_zeroize_internal c = mmio (h512_on_write_control c Word 16)"

definition sha_digest_helper :: "compress512 \<Rightarrow> u8 list \<Rightarrow> ShaMode \<Rightarrow> (HashSha512Regs, unit) action" where
  "sha_digest_helper c buf mode =
     bindE (failIf (length buf > SHA512_MAX_DATA_SIZE) DRIVER_SHA2_512_384_MAX_DATA_ERR) (\<lambda>_.
     digest_loop (sha2_engine c mode) (length buf) buf True)"

text \<open>The first \<open>n\<close> digest registers.\<close>

definition read_h512_digest :: "nat \<Rightarrow> HashSha512Regs \<Rightarrow> u32 list" where
  "read_h512_digest n r = map (\<lambda>i. from_le_bytes (take 4 (drop (4 * i) (h512_hash r)))) [0..<n]"

definition sha384_read_digest :: "compress512 \<Rightarrow> (HashSha512Regs, u32 list) action" where
  "sha384_read_digest c = bindE (wait_h512_valid c) (\<lambda>_. gets (read_h512_digest 12))"

definition sha512_read_digest :: "compress512 \<Rightarrow> (HashSha512Regs, u32 list) action" where
  "sha512_read_digest c = bindE (wait_h512_valid c) (\<lambda>_. gets (read_h512_digest 16))"

definition sha2_384_digest :: "compress512 \<Rightarrow> u8 list \<Rightarrow> (HashSha512Regs, u32 list) action" where
  "sha2_384_digest c buf =
     bindE (sha_digest_helper c buf ShaMode384) (\<lambda>_.
     bindE (sha384_read_digest c) (\<lambda>digest.
     bindE (sha2_zeroize_internal c) (\<lambda>_. ret digest)))"

definition sha2_512_digest :: "compress512 \<Rightarrow> u8 list \<Rightarrow> (HashSha512Regs, u32 list) action" where
  "sha2_512_digest c buf =
     bindE (sha_digest_helper c buf ShaMode512) (\<lambda>_.
     bindE (sha512_read_digest c) (\<lambda>digest.
     bindE (sha2_zeroize_internal c) (\<lambda>_. ret digest)))"

text \<open>The multi-step operation.\<close>

definition sha2_digest_init :: DigestOp where
  "sha2_digest_init = op_new SHA512_BLOCK_BYTE_SIZE"

definition sha2_update :: "compress512 \<Rightarrow> ShaMode \<Rightarrow> u8 list \<Rightarrow> DigestOp \<Rightarrow> (HashSha512Regs, DigestOp) action" where
  "sha2_update c mode data op =
     bindE (failIf (op_state op = Final) DRIVER_SHA2_512_384_INVALID_STATE_ERR) (\<lambda>_.
     bindE (failIf (length data > SHA512_MAX_DATA_SIZE) DRIVER_SHA2_512_384_MAX_DATA_ERR) (\<lambda>_.
     update_loop (sha2_engine c mode) data op))"

definition sha2_read_digest :: "compress512 \<Rightarrow> ShaMode \<Rightarrow> (HashSha512Regs, u32 list) action" where
  "sha2_read_digest c mode = (case mode of ShaMode384 \<Rightarrow> sha384_read_digest c | ShaMode512 \<Rightarrow> sha512_read_digest c)"

definition sha2_finalize :: "compress512 \<Rightarrow> ShaMode \<Rightarrow> DigestOp \<Rightarrow> (HashSha512Regs, u32 list) action" where
  "sha2_finalize c mode op = bindE (finalize_op (sha2_engine c mode) op) (\<lambda>_. sha2_read_digest c mode)"

text \<open>\<^verbatim>\<open>resume\<close> puts the saved hash state into the digest registers, \<^verbatim>\<open>sha.digest().write\<close>.\<close>

definition sha2_resume ::
  "compress512 \<Rightarrow> ShaMode \<Rightarrow> nat \<Rightarrow> u32 list \<Rightarrow> u8 list \<Rightarrow> DigestOp \<Rightarrow> (HashSha512Regs, DigestOp) action" where
  "sha2_resume c mode previous_size digest buffer op =
     (let op = op\<lparr>op_data_size := previous_size\<rparr> in
      bindE (if op_data_size op \<ge> SHA512_BLOCK_BYTE_SIZE
             then bindE (wait_h512_ready c) (\<lambda>_ r.
                    (Ok (op\<lparr>op_state := Restore\<rparr>), r\<lparr>h512_hash := u32_le_to_u8 digest\<rparr>))
             else ret op) (\<lambda>op.
      sha2_update c mode buffer op))"

definition sha2_save_buffer :: "DigestOp \<Rightarrow> (u8 list \<times> nat) outcome" where
  "sha2_save_buffer op =
     (if op_buf_idx op \<ge> SHA512_BLOCK_BYTE_SIZE then Err DRIVER_SHA2_512_384_INDEX_OUT_OF_BOUNDS
      else Ok (take (op_buf_idx op) (op_buf op), op_data_size op))"

section \<open>PCRs\<close>

datatype KvAccessErr = KeyRead | KeyWrite | Generic

definition into_read_data_err :: "KvAccessErr \<Rightarrow> u32" where
  "into_read_data_err e = (case e of
      KeyRead \<Rightarrow> DRIVER_SHA2_512_384_READ_DATA_KV_READ
    | KeyWrite \<Rightarrow> DRIVER_SHA2_512_384_READ_DATA_KV_WRITE
    | Generic \<Rightarrow> DRIVER_SHA2_512_384_READ_DATA_KV_UNKNOWN)"

definition kv_status_result :: "u32 \<Rightarrow> KvAccessErr + unit" where
  "kv_status_result status = (let e = field_read 2 8 status in
     if e = 0 then Inr () else if e = 1 then Inl KeyRead else if e = 2 then Inl KeyWrite else Inl Generic)"

text \<open>\<^verbatim>\<open>KvAccess::extend_from_pv\<close> on the registers of this peripheral.\<close>

definition extend_from_pv :: "compress512 \<Rightarrow> nat \<Rightarrow> (HashSha512Regs, KvAccessErr + unit) action" where
  "extend_from_pv c pcr_id =
     bindE (wait_for block_read_ready (h512_tick c)) (\<lambda>_.
     bindE (mmio (on_write_block_read_control Word (1 OR push_bit 1 (of_nat pcr_id) OR 64))) (\<lambda>_.
     bindE (wait_for block_read_valid (h512_tick c)) (\<lambda>_.
     gets (\<lambda>r. kv_status_result (block_read_status r)))))"

definition retrieve_pcr :: "compress512 \<Rightarrow> nat \<Rightarrow> (HashSha512Regs, unit) action" where
  "retrieve_pcr c pcr_id =
     bindE (extend_from_pv c pcr_id) (\<lambda>res.
     case res of Inl e \<Rightarrow> throw (into_read_data_err e) | Inr _ \<Rightarrow> ret ())"

definition pcr_extend :: "compress512 \<Rightarrow> nat \<Rightarrow> u8 list \<Rightarrow> (HashSha512Regs, unit) action" where
  "pcr_extend c pcr_id data =
     (let total_bytes = length data + SHA384_HASH_SIZE in
      bindE (failIf (total_bytes > SHA512_BLOCK_BYTE_SIZE - 1) DRIVER_SHA2_512_384_MAX_DATA_ERR) (\<lambda>_.
      bindE (retrieve_pcr c pcr_id) (\<lambda>_.
      bindE (failIf (SHA384_HASH_SIZE > total_bytes \<or> total_bytes > SHA512_BLOCK_BYTE_SIZE)
               DRIVER_SHA2_512_384_MAX_DATA_ERR) (\<lambda>_.
      sha2_digest_partial_block c ShaMode384 (replicate SHA384_HASH_SIZE 0 @ data) True total_bytes False))))"

definition gen_pcr_hash :: "compress512 \<Rightarrow> u32 list \<Rightarrow> (HashSha512Regs, u32 list) action" where
  "gen_pcr_hash c nonce =
     bindE (wait_for pcr_hash_ready (h512_tick c)) (\<lambda>_.
     bindE (\<lambda>r. (Ok (), r\<lparr>pcr_gen_hash_nonce := nonce\<rparr>)) (\<lambda>_.
     bindE (mmio (on_write_pcr_hash_control Word 1)) (\<lambda>_.
     bindE (wait_for pcr_hash_ready (h512_tick c)) (\<lambda>_.
     bindE (mmio (h512_on_write_control c Word 1)) (\<lambda>_.
     bindE (wait_for pcr_hash_ready (h512_tick c)) (\<lambda>_.
     bindE (gets pcr_hash_valid) (\<lambda>valid.
     if valid then gets pcr_hash_digest
     else throw DRIVER_SHA2_512_384_INVALID_STATE_ERR)))))))"

section \<open>One block\<close>

text \<open>Between commands: ready, no timer running, no key or PCR transfer set up.\<close>

definition h512_quiet :: "HashSha512Regs \<Rightarrow> bool" where
  "h512_quiet r \<longleftrightarrow> h512_ready r \<and> h512_action r = None \<and> block_read_action r = None \<and>
     hash_write_action r = None \<and> pcr_gen_hash_action r = None \<and> \<not> bit (hash_write_ctrl r) 0 \<and>
     length (h512_block r) = 32 \<and> length (sha_hash (h512_engine r)) = 8 \<and>
     kv_wf (h512_vault r) \<and> block_read_ready r"

definition h512_idle :: "HashSha512Regs \<Rightarrow> bool" where
  "h512_idle r \<longleftrightarrow> h512_quiet r \<and> \<not> bit (block_read_ctrl r) 6 \<and> \<not> pcr_present r"

definition h512_shows :: "HashSha512Regs \<Rightarrow> bool" where
  "h512_shows r \<longleftrightarrow> h512_valid r \<and> h512_hash r = Sha512_copy_hash 64 (h512_engine r)"

lemma sha2_ctrl_word_bits:
  "bit (sha2_ctrl_word mode first final restore) 0 \<longleftrightarrow> first"
  "bit (sha2_ctrl_word mode first final restore) (Suc 0) \<longleftrightarrow> \<not> first"
  "\<not> bit (sha2_ctrl_word mode first final restore) 4"
  "bit (sha2_ctrl_word mode first final restore) 5 \<longleftrightarrow> final"
  "bit (sha2_ctrl_word mode first final restore) 6 \<longleftrightarrow> restore"
  by (cases mode; simp add: sha2_ctrl_word_def ShaMode_reg_value_def bit_simps bit_numeral_rec)+

definition sha2_mode :: "ShaMode \<Rightarrow> Sha512Mode" where
  "sha2_mode mode = (case mode of ShaMode384 \<Rightarrow> Mode384 | ShaMode512 \<Rightarrow> Mode512)"

lemma h512_mode_ctrl: "h512_mode (sha2_ctrl_word mode first final restore) = sha2_mode mode"
  by (cases mode; cases first; cases final; cases restore;
      simp add: h512_mode_def sha2_ctrl_word_def ShaMode_reg_value_def sha2_mode_def field_read_def)

text \<open>With a PCR in the block registers the first twelve words are not written.\<close>

lemma write_block_words_run:
  "i + length ws = 32 \<Longrightarrow> length (h512_block r) = 32 \<Longrightarrow>
     write_block_words i ws r = (Ok (), r\<lparr>h512_block :=
       take (if pcr_present r then max i 12 else i) (h512_block r) @ drop ((if pcr_present r then max i 12 else i) - i) ws\<rparr>)"
proof (induction ws arbitrary: i r)
  case (Cons w ws)
  define r' where "r' = (if \<not> pcr_present r \<or> 12 \<le> i then r\<lparr>h512_block := (h512_block r)[i := w]\<rparr> else r)"
  have step: "write_block_words i (w # ws) r = write_block_words (i + 1) ws r'"
    by (simp add: bindE_def mmio_def h512_write_block_def r'_def)
  have "pcr_present r' = pcr_present r" "length (h512_block r') = 32" using Cons.prems by (simp_all add: r'_def)
  then have IH: "write_block_words (i + 1) ws r' = (Ok (), r'\<lparr>h512_block :=
       take (if pcr_present r then max (i + 1) 12 else i + 1) (h512_block r') @
       drop ((if pcr_present r then max (i + 1) 12 else i + 1) - (i + 1)) ws\<rparr>)"
    using Cons.IH [of "i + 1" r'] Cons.prems by simp
  show ?case
  proof (cases "\<not> pcr_present r \<or> 12 \<le> i")
    case True
    then have "h512_block r' = (h512_block r)[i := w]" "(if pcr_present r then max (i + 1) 12 else i + 1) = Suc i"
      "(if pcr_present r then max i 12 else i) = i"
      by (auto simp: r'_def)
    moreover have "take (Suc i) ((h512_block r)[i := w]) = take i (h512_block r) @ [w]"
      using Cons.prems by (simp add: take_Suc_conv_app_nth)
    ultimately show ?thesis unfolding step IH using True by (simp add: r'_def)
  next
    case False
    then have "max (i + 1) 12 = 12" "max i 12 = 12" by auto
    moreover have "drop (12 - i) (w # ws) = drop (11 - i) ws" using False by (simp add: drop_Cons')
    ultimately show ?thesis unfolding step IH using False by (simp add: r'_def)
  qed
qed simp

lemma h512_op_done_quiet:
  assumes "hash_write_action r = None" "block_read_action r = None" "pcr_gen_hash_action r = None"
    "\<not> bit (hash_write_ctrl r) 0" "length (h512_block r) = 32" "length (sha_hash (h512_engine r)) = 8"
    "kv_wf (h512_vault r)" "block_read_ready r"
  defines "k \<equiv> unat (field_read 1 5 (block_read_ctrl r))" and "h \<equiv> Sha512_copy_hash 64 (h512_engine r)"
  shows "h512_quiet (h512_op_done r)" "h512_shows (h512_op_done r)"
    "h512_engine (h512_op_done r) = h512_engine r" "pcr_present (h512_op_done r) = pcr_present r"
    "bit (h512_control r) 5 \<and> bit (block_read_ctrl r) 6 \<Longrightarrow>
       block_read_ctrl (h512_op_done r) = field_modify 6 1 0 (block_read_ctrl r) \<and>
       h512_vault (h512_op_done r) = (h512_vault r)\<lparr>pcrs := splice (k * 12) (u8_to_u32_le 12 (take 48 h)) (pcrs (h512_vault r))\<rparr>"
    "\<not> (bit (h512_control r) 5 \<and> bit (block_read_ctrl r) 6) \<Longrightarrow>
       block_read_ctrl (h512_op_done r) = block_read_ctrl r \<and> h512_vault (h512_op_done r) = h512_vault r"
proof -
  have k: "k < 32" unfolding k_def by (rule key_id_lt)
  have pcr: "write_pcr k (take 48 h) (h512_vault r) =
      (Ok (Inr ()), (h512_vault r)\<lparr>pcrs := splice (k * 12) (u8_to_u32_le 12 (take 48 h)) (pcrs (h512_vault r))\<rparr>)"
    using k assms(7) by (simp add: write_pcr_def in_range_def kv_wf_def)
  have wf: "kv_wf ((h512_vault r)\<lparr>pcrs := splice (k * 12) (u8_to_u32_le 12 (take 48 h)) (pcrs (h512_vault r))\<rparr>)"
    using k assms(7) by (simp add: kv_wf_def)
  note run = h512_op_done_def h512_op_complete_def Let_def on_vault_def k_def [unfolded One_nat_def, symmetric] h_def [symmetric] pcr
  let ?kv = "(h512_vault r)\<lparr>pcrs := splice (k * 12) (u8_to_u32_le 12 (take 48 h)) (pcrs (h512_vault r))\<rparr>"
  have ext: "h512_op_done r = r\<lparr>h512_action := None, h512_hash := h, h512_vault := ?kv,
      block_read_ctrl := field_modify 6 1 0 (block_read_ctrl r), h512_status := h512_status r OR 3\<rparr>"
    if "bit (h512_control r) 5 \<and> bit (block_read_ctrl r) 6"
    using assms(4) that by (simp add: run)
  have plain: "h512_op_done r = r\<lparr>h512_action := None, h512_hash := h, h512_status := h512_status r OR 3\<rparr>"
    if "\<not> (bit (h512_control r) 5 \<and> bit (block_read_ctrl r) 6)"
    using assms(4) that by (auto simp: run)
  note flags = h512_quiet_def h512_shows_def h512_ready_def h512_valid_def block_read_ready_def bit_or_3_word h_def
  show "h512_quiet (h512_op_done r)" "h512_shows (h512_op_done r)"
    "h512_engine (h512_op_done r) = h512_engine r" "pcr_present (h512_op_done r) = pcr_present r"
    by (cases "bit (h512_control r) 5 \<and> bit (block_read_ctrl r) 6";
        use assms(1-8) wf in \<open>simp add: ext plain flags\<close>)+
  show "bit (h512_control r) 5 \<and> bit (block_read_ctrl r) 6 \<Longrightarrow>
       block_read_ctrl (h512_op_done r) = field_modify 6 1 0 (block_read_ctrl r) \<and> h512_vault (h512_op_done r) = ?kv"
    "\<not> (bit (h512_control r) 5 \<and> bit (block_read_ctrl r) 6) \<Longrightarrow>
       block_read_ctrl (h512_op_done r) = block_read_ctrl r \<and> h512_vault (h512_op_done r) = h512_vault r"
    by (simp_all add: ext plain)
qed

text \<open>The words that are hashed, and the state they are hashed from.\<close>

definition block_words :: "HashSha512Regs \<Rightarrow> u8 list \<Rightarrow> u32 list" where
  "block_words r blk = (if pcr_present r then take 12 (h512_block r) @ drop 12 (u8_to_u32_be 32 blk) else u8_to_u32_be 32 blk)"

definition block_base :: "HashSha512Regs \<Rightarrow> ShaMode \<Rightarrow> bool \<Rightarrow> bool \<Rightarrow> u64 list" where
  "block_base r mode first restore =
     (if first then hash_iv (sha2_mode mode)
      else if restore then sha_hash (Sha512_set_hash (h512_hash r) (h512_engine r)) else sha_hash (h512_engine r))"

text \<open>The registers when the command has been accepted.\<close>

definition h512_accepted :: "compress512 \<Rightarrow> u32 \<Rightarrow> u64 list \<Rightarrow> u32 list \<Rightarrow> HashSha512Regs \<Rightarrow> HashSha512Regs \<Rightarrow> bool" where
  "h512_accepted c ctrl base ws r t \<longleftrightarrow>
     h512_control t = ctrl \<and> \<not> pcr_present t \<and> h512_block t = ws \<and> \<not> h512_ready t \<and>
     sha_hash (h512_engine t) = c base (u32_be_to_u8 ws) \<and> h512_action t = Some 1000 \<and>
     block_read_action t = block_read_action r \<and> hash_write_action t = hash_write_action r \<and>
     pcr_gen_hash_action t = pcr_gen_hash_action r \<and> hash_write_ctrl t = hash_write_ctrl r \<and>
     block_read_ctrl t = block_read_ctrl r \<and> block_read_status t = block_read_status r \<and>
     h512_vault t = h512_vault r"

lemma write_control_accepted:
  assumes "h512_block r = ws"
  shows "\<exists>t. h512_on_write_control c Word (sha2_ctrl_word mode first final restore) r = (Ok (Inr ()), t) \<and>
    h512_accepted c (sha2_ctrl_word mode first final restore) (block_base r mode first restore) ws r t"
proof -
  define ctrl where "ctrl = sha2_ctrl_word mode first final restore"
  define e where "e = (if restore then Sha512_set_hash (h512_hash r) (h512_engine r) else h512_engine r)"
  define t where "t = r\<lparr>h512_control := ctrl, pcr_present := False, h512_status := h512_status r AND NOT 3,
    h512_engine := Sha512_update c (u32_le_to_u8 ws) (if first then Sha512_reset (sha2_mode mode) e else e),
    h512_action := Some 1000\<rparr>"
  have bits: "bit ctrl 0 \<longleftrightarrow> first" "bit ctrl (Suc 0) \<longleftrightarrow> \<not> first" "\<not> bit ctrl 4" "bit ctrl 6 \<longleftrightarrow> restore" "h512_mode ctrl = sha2_mode mode"
    by (simp_all add: ctrl_def sha2_ctrl_word_bits h512_mode_ctrl)
  have "h512_on_write_control c Word ctrl r = (Ok (Inr ()), t)"
    using assms by (cases first; cases restore) (simp_all add: h512_on_write_control_def Let_def bits t_def e_def)
  moreover have "h512_accepted c ctrl (block_base r mode first restore) ws r t"
    using assms by (simp add: h512_accepted_def t_def e_def block_base_def h512_ready_def bit_simps bit_numeral_rec
        Sha512_update_def Sha512_reset_def swap4_u32_le)
  ultimately show ?thesis by (auto simp: ctrl_def)
qed

lemma length_block_words: "length (h512_block r) = 32 \<Longrightarrow> length (block_words r blk) = 32"
  by (simp add: block_words_def)

lemma sha2_digest_block_accepted:
  assumes r: "h512_quiet r"
  shows "\<exists>t. h512_accepted c (sha2_ctrl_word mode first final restore) (block_base r mode first restore) (block_words r blk) r t \<and>
    sha2_digest_block c mode blk first final restore r = (Ok (), h512_op_done t)"
proof -
  let ?r = "r\<lparr>h512_block := block_words r blk\<rparr>"
  have "write_block_words 0 (u8_to_u32_be 32 blk) r = (Ok (), ?r)"
    using write_block_words_run [of 0 "u8_to_u32_be 32 blk" r] r by (simp add: h512_quiet_def block_words_def)
  moreover have "wait_h512_ready c ?r = (Ok (), ?r)"
    using r by (intro wait_for_now) (simp add: h512_quiet_def h512_ready_def)
  moreover obtain t where t: "h512_on_write_control c Word (sha2_ctrl_word mode first final restore) ?r = (Ok (Inr ()), t)"
    "h512_accepted c (sha2_ctrl_word mode first final restore) (block_base ?r mode first restore) (block_words r blk) ?r t"
    using write_control_accepted [of ?r "block_words r blk" c mode first final restore] by force
  moreover have "wait_h512_ready c t = (Ok (), h512_op_done t)"
    using t(2) r by (intro h512_ready_device.wait_completes [where n = 1000])
      (simp_all add: h512_accepted_def h512_op_pending_def h512_quiet_def)
  ultimately have "sha2_digest_block c mode blk first final restore r = (Ok (), h512_op_done t)"
    by (simp add: sha2_digest_block_def sha2_digest_op_def bindE_def)
  moreover have "block_base ?r mode first restore = block_base r mode first restore" by (simp add: block_base_def)
  ultimately show ?thesis using t(2) by (auto simp: h512_accepted_def)
qed

lemma length_block_base: "h512_quiet r \<Longrightarrow> length (block_base r mode first restore) = 8"
  by (simp add: block_base_def h512_quiet_def Sha512_set_hash_def)

lemma sha2_digest_block_run:
  fixes mode :: ShaMode and first restore :: bool and blk :: "u8 list"
  assumes c: "compress_ok c" and r: "h512_quiet r"
  defines "base \<equiv> block_base r mode first restore" and "ws \<equiv> block_words r blk"
    and "k \<equiv> unat (field_read 1 5 (block_read_ctrl r))"
  shows "\<exists>t. sha2_digest_block c mode blk first final restore r = (Ok (), t) \<and> h512_quiet t \<and> h512_shows t \<and>
    \<not> pcr_present t \<and> sha_hash (h512_engine t) = c base (u32_be_to_u8 ws) \<and>
    (if final \<and> bit (block_read_ctrl r) 6
     then \<not> bit (block_read_ctrl t) 6 \<and> h512_vault t = (h512_vault r)\<lparr>pcrs :=
       splice (k * 12) (u8_to_u32_le 12 (take 48 (Sha512_copy_hash 64 (h512_engine t)))) (pcrs (h512_vault r))\<rparr>
     else block_read_ctrl t = block_read_ctrl r \<and> h512_vault t = h512_vault r)"
proof -
  obtain t where t: "h512_accepted c (sha2_ctrl_word mode first final restore) base ws r t"
    "sha2_digest_block c mode blk first final restore r = (Ok (), h512_op_done t)"
    using sha2_digest_block_accepted [OF r, of c mode first final restore blk] by (auto simp: base_def ws_def)
  have len: "length (sha_hash (h512_engine t)) = 8"
    using t(1) c length_block_base [OF r, of mode first restore] by (simp add: h512_accepted_def compress_ok_def base_def)
  have ctrl: "h512_control t = sha2_ctrl_word mode first final restore" "block_read_ctrl t = block_read_ctrl r"
    "h512_vault t = h512_vault r" using t(1) by (simp_all add: h512_accepted_def)
  note completed = h512_op_done_quiet [of t]
  have pre: "hash_write_action t = None" "block_read_action t = None" "pcr_gen_hash_action t = None"
    "\<not> bit (hash_write_ctrl t) 0" "length (h512_block t) = 32" "kv_wf (h512_vault t)" "block_read_ready t"
    using t(1) r length_block_words [of r blk]
    by (simp_all add: h512_accepted_def h512_quiet_def ws_def block_read_ready_def)
  show ?thesis
    using completed [OF pre(1-5) len pre(6,7)] t ctrl sha2_ctrl_word_bits(4) [of mode first final restore]
    by (auto simp: h512_accepted_def k_def bit_field_modify)
qed

section \<open>Digests are SHA-384 and SHA-512\<close>

text \<open>A block of a digest: the vault is left alone.\<close>

definition sha2_ok :: "compress512 \<Rightarrow> KeyVaultRegs \<Rightarrow> HashSha512Regs \<Rightarrow> bool" where
  "sha2_ok c kv r \<longleftrightarrow> compress_ok c \<and> h512_idle r \<and> h512_vault r = kv"

lemma sha2_block_hashes:
  assumes "sha2_ok c kv r" "length blk = 128"
  shows "\<exists>t. sha2_digest_block c mode blk first final restore r = (Ok (), t) \<and> sha2_ok c kv t \<and> h512_shows t \<and>
    sha_hash (h512_engine t) = c (block_base r mode first restore) blk"
proof -
  have r: "h512_quiet r" "\<not> bit (block_read_ctrl r) 6" "\<not> pcr_present r" "compress_ok c" "h512_vault r = kv"
    using assms(1) by (simp_all add: sha2_ok_def h512_idle_def)
  have "u32_be_to_u8 (block_words r blk) = blk"
    using r(3) assms(2) u32_be_to_u8_inverse [of blk 32] by (simp add: block_words_def)
  then show ?thesis
    using sha2_digest_block_run [OF r(4,1), of mode blk first final restore] r
    by (auto simp: sha2_ok_def h512_idle_def)
qed

interpretation sha2_hasher: block_hasher "sha2_engine c mode" c "hash_iv (sha2_mode mode)"
  "sha2_ok c kv" "\<lambda>r. sha_hash (h512_engine r)"
  "\<lambda>r. sha_hash (Sha512_set_hash (h512_hash r) (h512_engine r))" h512_shows for c mode kv
  using sha2_block_hashes [unfolded block_base_def]
  by unfold_locales (simp_all add: sha2_engine_def)

definition sha2_words :: "ShaMode \<Rightarrow> nat" where
  "sha2_words mode = (case mode of ShaMode384 \<Rightarrow> 12 | ShaMode512 \<Rightarrow> 16)"

definition sha2_ref :: "compress512 \<Rightarrow> ShaMode \<Rightarrow> u8 list \<Rightarrow> u32 list" where
  "sha2_ref c mode msg = digest_words (sha2_words mode) (sha_ref c 128 16 (hash_iv (sha2_mode mode)) msg)"

lemma sha2_ref_eq: "sha2_ref c ShaMode384 msg = sha384_ref c msg" "sha2_ref c ShaMode512 msg = sha512_ref c msg"
  by (simp_all add: sha2_ref_def sha2_words_def sha2_mode_def sha384_ref_def sha512_ref_def)

lemma read_h512_digest_shows:
  assumes "h512_shows r" "length (sha_hash (h512_engine r)) = 8" "n \<le> 16"
  shows "read_h512_digest n r = digest_words n (sha_hash (h512_engine r))"
  using assms by (auto simp: read_h512_digest_def digest_words_def h512_shows_def Sha512_copy_hash_def from_le_swap4)

lemma sha2_read_digest_shows:
  assumes "h512_shows r" "h512_quiet r"
  shows "sha2_read_digest c mode r = (Ok (digest_words (sha2_words mode) (sha_hash (h512_engine r))), r)"
proof -
  have "wait_h512_valid c r = (Ok (), r)"
    using assms(1) by (intro wait_for_now) (simp add: h512_shows_def)
  then show ?thesis
    using assms read_h512_digest_shows [OF assms(1)]
    by (cases mode) (simp_all add: sha2_read_digest_def sha384_read_digest_def sha512_read_digest_def bindE_def
        sha2_words_def h512_quiet_def)
qed

lemma sha2_zeroize_idle:
  assumes "h512_idle r"
  shows "\<exists>t. sha2_zeroize_internal c r = (Ok (), t) \<and> h512_idle t \<and> h512_vault t = h512_vault r"
proof -
  have "sha2_zeroize_internal c r = (Ok (), h512_zeroize (r\<lparr>h512_control := 16, pcr_present := False\<rparr>))"
    by (simp add: sha2_zeroize_internal_def mmio_def h512_on_write_control_def Let_def bit_numeral_rec)
  then show ?thesis
    using assms by (simp add: h512_idle_def h512_quiet_def h512_zeroize_def h512_ready_def block_read_ready_def)
qed

lemma sha2_digest_ref:
  assumes r: "compress_ok c" "h512_idle r" and len: "length msg \<le> SHA512_MAX_DATA_SIZE"
  shows "\<exists>t. sha2_384_digest c msg r = (Ok (sha384_ref c msg), t) \<and> h512_idle t \<and> h512_vault t = h512_vault r"
    "\<exists>t. sha2_512_digest c msg r = (Ok (sha512_ref c msg), t) \<and> h512_idle t \<and> h512_vault t = h512_vault r"
proof -
  have run: "\<exists>t u. sha_digest_helper c msg mode r = (Ok (), t) \<and>
      sha2_read_digest c mode t = (Ok (sha2_ref c mode msg), t) \<and> sha2_zeroize_internal c t = (Ok (), u) \<and>
      h512_idle u \<and> h512_vault u = h512_vault r" for mode
  proof -
    have "sha2_ok c (h512_vault r) r" using r by (simp add: sha2_ok_def)
    from sha2_hasher.digest_loop_ref [OF this, of mode msg] obtain t where
      t: "digest_loop (sha2_engine c mode) (length msg) msg True r = (Ok (), t)" "sha2_ok c (h512_vault r) t" "h512_shows t"
      "sha_hash (h512_engine t) = sha_ref c 128 16 (hash_iv (sha2_mode mode)) msg"
      by (auto simp: sha2_engine_def)
    have t2: "h512_idle t" "h512_vault t = h512_vault r" "h512_quiet t" using t(2) by (simp_all add: sha2_ok_def h512_idle_def)
    then show ?thesis
      using t(1) len sha2_read_digest_shows [OF t(3) t2(3)] sha2_zeroize_idle [OF t2(1), of c] t(4) t2(2)
      by (auto simp: sha_digest_helper_def failIf_def sha2_ref_def)
  qed
  show "\<exists>t. sha2_384_digest c msg r = (Ok (sha384_ref c msg), t) \<and> h512_idle t \<and> h512_vault t = h512_vault r"
    using run [of ShaMode384] by (auto simp: sha2_384_digest_def bindE_def sha2_read_digest_def sha2_ref_eq)
  show "\<exists>t. sha2_512_digest c msg r = (Ok (sha512_ref c msg), t) \<and> h512_idle t \<and> h512_vault t = h512_vault r"
    using run [of ShaMode512] by (auto simp: sha2_512_digest_def bindE_def sha2_read_digest_def sha2_ref_eq)
qed

end
