(* ===== verification/Sha2Correct.thy ===== *)
theory Sha2Correct
  imports Sha2Driver
begin

unbundle bit_operations_syntax

text \<open>
  What the SHA-2 driver guarantees: multi-step digests, digests resumed from a saved state, and the
  extension of a PCR.
\<close>

section \<open>Multi-step digests\<close>

text \<open>The operation object and the engine have taken in \<open>msg\<close>; the vault is \<open>kv\<close>.\<close>

definition sha2_hashing ::
  "compress512 \<Rightarrow> ShaMode \<Rightarrow> KeyVaultRegs \<Rightarrow> u8 list \<Rightarrow> DigestOp \<Rightarrow> HashSha512Regs \<Rightarrow> bool" where
  "sha2_hashing c mode kv msg op r \<longleftrightarrow> sha2_hasher.holds c mode kv msg op r"

lemma sha2_engine_sizes [simp]: "blk_size (sha2_engine c mode) = 128" "len_size (sha2_engine c mode) = 16"
  by (simp_all add: sha2_engine_def)

lemmas sha2_holds_def = sha2_hasher.holds_def [folded sha2_hashing_def, unfolded sha2_engine_sizes]

lemma sha2_hashing_init: "sha2_ok c kv r \<Longrightarrow> sha2_hashing c mode kv [] sha2_digest_init r"
  using sha2_hasher.holds_new [of c kv r mode] by (simp add: sha2_hashing_def sha2_digest_init_def)

lemma sha2_hashing_state:
  assumes "sha2_hashing c mode kv msg op r"
  shows "op_state op \<noteq> Final" "op_data_size op = length msg" "op_buf_idx op = length msg mod 128"
    "length (op_buf op) = 128" "sha2_ok c kv r"
    "take (op_buf_idx op) (op_buf op) = drop (128 * (length msg div 128)) msg"
    "op_state op = Pending \<Longrightarrow> h512_shows r \<and>
       sha_hash (h512_engine r) = absorb c 128 (hash_iv (sha2_mode mode)) (length msg div 128) msg"
  using assms by (auto simp: sha2_holds_def split: if_splits)

lemma sha2_hashing_update:
  assumes "sha2_hashing c mode kv msg op r" "length data \<le> SHA512_MAX_DATA_SIZE"
  shows "\<exists>op' t. sha2_update c mode data op r = (Ok op', t) \<and> sha2_hashing c mode kv (msg @ data) op' t \<and>
    (128 \<le> length msg mod 128 + length data \<longrightarrow> op_state op' = Pending)"
proof -
  obtain op' t where "update_loop (sha2_engine c mode) data op r = (Ok op', t)" "sha2_hashing c mode kv (msg @ data) op' t"
    using sha2_hasher.update_loop_holds [of c mode kv msg op r data] assms(1) by (auto simp: sha2_hashing_def)
  then show ?thesis
    using assms(2) sha2_hashing_state [OF assms(1)] update_loop_pending [of "sha2_engine c mode" data op r op' t]
    by (auto simp: sha2_update_def failIf_def)
qed

lemma sha2_hashing_finalize:
  assumes "sha2_hashing c mode kv msg op r"
  shows "\<exists>t. sha2_finalize c mode op r = (Ok (sha2_ref c mode msg), t) \<and> sha2_ok c kv t"
proof -
  obtain t where t: "finalize_op (sha2_engine c mode) op r = (Ok (), t)" "sha2_ok c kv t" "h512_shows t"
    "sha_hash (h512_engine t) = sha_ref c 128 16 (hash_iv (sha2_mode mode)) msg"
    using sha2_hasher.finalize_op_ref [of c mode kv msg op r] assms by (auto simp: sha2_hashing_def)
  then show ?thesis
    using sha2_read_digest_shows [OF t(3), of c mode]
    by (auto simp: sha2_finalize_def bindE_def sha2_ref_def sha2_ok_def h512_idle_def)
qed

section \<open>Saving and resuming\<close>

lemma sha2_hashing_save:
  "sha2_hashing c mode kv msg op r \<Longrightarrow>
     sha2_save_buffer op = Ok (drop (128 * (length msg div 128)) msg, length msg)"
  using sha2_hashing_state(2,3,6) [of c mode kv msg op r] by (auto simp: sha2_save_buffer_def not_le)

lemma concat_be64_word:
  "i < length h \<Longrightarrow> take 8 (drop (i * 8) (concat (map be64 h))) = be64 (h ! i)"
proof (induction h arbitrary: i)
  case (Cons w h)
  then show ?case by (cases i) simp_all
qed simp

lemma set_hash_digest_words:
  assumes "length h = 8"
  shows "sha_hash (Sha512_set_hash (u32_le_to_u8 (digest_words 16 h)) e) = h"
proof -
  have "swap4 (u32_le_to_u8 (digest_words 16 h)) = concat (map be64 h)"
    using u32_be_to_u8_inverse [of "concat (map be64 h)" 16] assms
    by (simp add: swap4_u32_le digest_words_def u8_to_u32_be_def length_concat_be64 mult.commute)
  then have "sha_hash (Sha512_set_hash (u32_le_to_u8 (digest_words 16 h)) e) = map (\<lambda>i. from_be_bytes (be64 (h ! i))) [0..<8]"
    using assms by (simp add: Sha512_set_hash_def concat_be64_word)
  then show ?thesis using map_nth [of h] assms by (simp add: from_be_be_bytes)
qed

lemma sha2_resume_holds:
  fixes msg :: "u8 list"
  defines "k \<equiv> length msg div 128"
  assumes r: "sha2_ok c kv r"
    and digest: "0 < k \<Longrightarrow> digest = digest_words 16 (absorb c 128 (hash_iv (sha2_mode mode)) k msg)"
  shows "\<exists>op t. sha2_resume c mode (128 * k) digest (drop (128 * k) msg) sha2_digest_init r = (Ok op, t) \<and>
    sha2_hashing c mode kv msg op t"
proof -
  have short: "length (drop (128 * k) msg) \<le> SHA512_MAX_DATA_SIZE" by (simp add: k_def)
  show ?thesis
  proof (cases "k = 0")
    case True
    then show ?thesis
      using sha2_hashing_update [OF sha2_hashing_init [OF r] short, of mode]
      by (auto simp: sha2_resume_def sha2_digest_init_def op_new_def)
  next
    case False
    let ?h = "absorb c 128 (hash_iv (sha2_mode mode)) k msg"
    let ?r = "r\<lparr>h512_hash := u32_le_to_u8 digest\<rparr>"
    have le: "128 * k \<le> length msg" by (simp add: k_def)
    have ok: "sha2_ok c kv ?r"
      using r by (auto simp: sha2_ok_def h512_idle_def h512_quiet_def h512_ready_def block_read_ready_def)
    have h: "length ?h = 8" using r by (simp add: sha2_ok_def absorb_length)
    have "absorb c 128 (hash_iv (sha2_mode mode)) k (take (128 * k) msg) = ?h"
      using le by (intro absorb_cong) simp
    then have "sha2_hashing c mode kv (take (128 * k) msg)
        (sha2_digest_init\<lparr>op_data_size := 128 * k, op_state := Restore\<rparr>) ?r"
      using sha2_hasher.holds_restore [OF ok, of k "take (128 * k) msg" mode] False le digest set_hash_digest_words [OF h]
      by (simp add: sha2_hashing_def sha2_digest_init_def min_absorb2)
    from sha2_hashing_update [OF this short] show ?thesis
      using False wait_for_now [of h512_ready r "h512_tick c"] r
      by (auto simp: sha2_resume_def bindE_def sha2_ok_def h512_idle_def h512_quiet_def)
  qed
qed

lemma sha512_read_pending:
  assumes "sha2_hashing c mode kv msg op r" "op_state op = Pending"
  shows "sha512_read_digest c r =
    (Ok (digest_words 16 (absorb c 128 (hash_iv (sha2_mode mode)) (length msg div 128) msg)), r)"
  using sha2_hashing_state [OF assms(1)] assms(2) sha2_read_digest_shows [of r c ShaMode512]
  by (simp add: sha2_read_digest_def sha2_words_def sha2_ok_def h512_idle_def)

section \<open>Retrieving a PCR\<close>

lemma pv_ctrl_bits:
  fixes k :: nat and ctrl :: u32
  assumes "k < 32"
  defines "val \<equiv> 1 OR push_bit 1 (of_nat k) OR 64 :: u32"
  defines "new \<equiv> field_modify 6 1 (field_read 6 1 val) (field_modify 1 5 (field_read 1 5 val) (field_modify 0 1 (field_read 0 1 val) ctrl))"
  shows "bit val 0" "bit new 6" "unat (field_read 1 5 new) = k"
proof -
  have k: "take_bit 5 k = k" using assms(1) by (simp add: take_bit_nat_eq_self)
  have lt: "\<not> bit k i" if "5 \<le> i" for i
    using that k by (metis bit_take_bit_iff not_le)
  have b64: "bit (64 :: u32) i \<longleftrightarrow> i = 6" for i
  proof -
    have "(64 :: u32) = 2 ^ 6" by simp
    then show ?thesis by (simp only: bit_exp_iff) auto
  qed
  have b: "bit val i \<longleftrightarrow> i = 0 \<or> i = 6 \<or> 0 < i \<and> i < 32 \<and> bit k (i - 1)" for i
    unfolding val_def bit_or_iff bit_push_bit_iff bit_1_iff bit_of_nat_iff b64 by auto
  show "bit val 0" by (simp add: b)
  show "bit new 6" by (simp add: new_def bit_field_modify bit_field_read b)
  have "field_read 1 5 new = of_nat k"
  proof (rule bit_word_eqI)
    fix i assume "i < LENGTH(32)"
    then have i: "i < 32" by simp
    have "bit (field_read 1 5 new) i \<longleftrightarrow> i < 5 \<and> bit val (1 + i)"
      by (auto simp: bit_field_read new_def bit_field_modify)
    also have "\<dots> \<longleftrightarrow> bit k i" using lt by (cases "5 \<le> i") (auto simp: b)
    finally show "bit (field_read 1 5 new) i = bit (of_nat k :: u32) i" using i by (simp add: bit_of_nat_iff)
  qed
  then show "unat (field_read 1 5 new) = k" using assms(1) by (simp add: unat_of_nat)
qed

lemma extend_from_pv_run:
  assumes r: "h512_idle r" and k: "k < PCR_COUNT"
  shows "\<exists>t. extend_from_pv c k r = (Ok (Inr ()), t) \<and> h512_quiet t \<and> pcr_present t \<and> bit (block_read_ctrl t) 6 \<and>
    unat (field_read 1 5 (block_read_ctrl t)) = k \<and> take 12 (h512_block t) = pcr_words (h512_vault r) k \<and>
    h512_vault t = h512_vault r"
proof -
  let ?val = "1 OR push_bit 1 (of_nat k) OR 64 :: u32"
  define ctrl where "ctrl = field_modify 6 1 (field_read 6 1 ?val)
    (field_modify 1 5 (field_read 1 5 ?val) (field_modify 0 1 (field_read 0 1 ?val) (block_read_ctrl r)))"
  define status where "status = field_modify 2 8 0 (block_read_status r AND NOT 3)"
  define r1 where "r1 = r\<lparr>block_read_ctrl := ctrl, block_read_status := status, block_read_action := Some 100\<rparr>"
  note bits = pv_ctrl_bits(1) [OF k] pv_ctrl_bits(2,3) [OF k, of "block_read_ctrl r", folded ctrl_def]
  have q: "h512_ready r" "h512_action r = None" "block_read_action r = None" "hash_write_action r = None"
    "pcr_gen_hash_action r = None" "\<not> bit (hash_write_ctrl r) 0" "length (h512_block r) = 32"
    "length (sha_hash (h512_engine r)) = 8" "kv_wf (h512_vault r)" "block_read_ready r"
    using r by (simp_all add: h512_idle_def h512_quiet_def)
  define t where "t = r\<lparr>block_read_ctrl := ctrl, block_read_action := None,
    h512_block := pcr_words (h512_vault r) k @ replicate 20 0, pcr_present := True,
    block_read_status := field_modify 2 8 0 (status OR 3)\<rparr>"
  have "wait_for block_read_valid (h512_tick c) r1 = (Ok (), block_read_done r1)"
    using q bits(2) by (intro block_read_device.wait_completes [where n = 100])
      (simp_all add: r1_def block_read_pending_def block_read_valid_def status_def bit_field_modify bit_simps bit_numeral_rec)
  moreover have "block_read_done r1 = t"
    using q(9) bits(2,3) unfolding block_read_done_def
    by (subst block_read_complete_pcr) (simp_all add: r1_def t_def)
  moreover have "mmio (on_write_block_read_control Word ?val) r = (Ok (), r1)"
    using bits(1) by (simp add: mmio_def on_write_block_read_control_def Let_def r1_def ctrl_def status_def)
  moreover have "kv_status_result (block_read_status t) = Inr ()"
    by (simp add: t_def kv_status_result_def field_read_modify)
  ultimately have "extend_from_pv c k r = (Ok (Inr ()), t)"
    using q(10) by (simp add: extend_from_pv_def bindE_def wait_for_now)
  moreover have "h512_quiet t"
    using q length_pcr_words [OF q(9) k]
    by (simp add: t_def h512_quiet_def h512_ready_def block_read_ready_def bit_field_modify bit_or_3_word)
  ultimately show ?thesis using bits length_pcr_words [OF q(9) k] by (auto simp: t_def)
qed

section \<open>Extending a PCR\<close>

text \<open>The blocks that are hashed: the first 48 bytes of the first one are those of the PCR.\<close>

lemma drop_u32_be_to_u8: "drop (4 * n) (u32_be_to_u8 ws) = u32_be_to_u8 (drop n ws)"
proof (induction ws arbitrary: n)
  case (Cons w ws)
  then show ?case by (cases n) (simp_all add: u32_be_to_u8_def)
qed (simp add: u32_be_to_u8_def)

lemma block_words_pcr:
  assumes "pcr_present r" "take 12 (h512_block r) = ws" "length ws = 12" "length blk = 128"
  shows "u32_be_to_u8 (block_words r blk) = u32_be_to_u8 ws @ drop 48 blk"
proof -
  have "u32_be_to_u8 (drop 12 (u8_to_u32_be 32 blk)) = drop 48 (u32_be_to_u8 (u8_to_u32_be 32 blk))"
    using drop_u32_be_to_u8 [of 12 "u8_to_u32_be 32 blk"] by simp
  then show ?thesis
    using assms u32_be_to_u8_inverse [of blk 32] by (simp add: block_words_def u32_be_to_u8_def)
qed

lemma pcr_digest_words:
  assumes "length (sha_hash e) = 8"
  shows "u8_to_u32_le 12 (take 48 (Sha512_copy_hash 64 e)) = digest_words 12 (sha_hash e)"
proof -
  have "take 4 (drop (i * 4) (take 48 (Sha512_copy_hash 64 e))) = take 4 (drop (4 * i) (swap4 (concat (map be64 (sha_hash e)))))"
    if "i < 12" for i
    using that assms by (simp add: Sha512_copy_hash_def drop_take min_def mult.commute)
  then show ?thesis
    using assms by (simp add: u8_to_u32_le_def digest_words_def from_le_swap4 length_concat_be64)
qed

text \<open>One block of an extension: the state from which it is hashed, and the PCR it may be written to.\<close>

lemma pcr_block_run:
  fixes first :: bool and blk :: "u8 list"
  assumes c: "compress_ok c" and r: "h512_quiet r" "bit (block_read_ctrl r) 6" "unat (field_read 1 5 (block_read_ctrl r)) = k"
  defines "h \<equiv> c (block_base r ShaMode384 first False) (u32_be_to_u8 (block_words r blk))"
  shows "\<exists>t. sha2_digest_block c ShaMode384 blk first final False r = (Ok (), t) \<and> h512_quiet t \<and> \<not> pcr_present t \<and>
    sha_hash (h512_engine t) = h \<and>
    (if final then h512_idle t \<and>
       h512_vault t = (h512_vault r)\<lparr>pcrs := splice (k * 12) (digest_words 12 h) (pcrs (h512_vault r))\<rparr>
     else block_read_ctrl t = block_read_ctrl r \<and> h512_vault t = h512_vault r)"
proof -
  obtain t where t: "sha2_digest_block c ShaMode384 blk first final False r = (Ok (), t)" "h512_quiet t" "\<not> pcr_present t"
    "sha_hash (h512_engine t) = h"
    "if final then \<not> bit (block_read_ctrl t) 6 \<and> h512_vault t = (h512_vault r)\<lparr>pcrs :=
       splice (k * 12) (u8_to_u32_le 12 (take 48 (Sha512_copy_hash 64 (h512_engine t)))) (pcrs (h512_vault r))\<rparr>
     else block_read_ctrl t = block_read_ctrl r \<and> h512_vault t = h512_vault r"
    using sha2_digest_block_run [OF c r(1), of ShaMode384 blk first final False] r(2,3) unfolding h_def by auto
  have "length h = 8"
    using c length_block_base [OF r(1), of ShaMode384 first False] by (simp add: h_def compress_ok_def)
  then show ?thesis
    using t pcr_digest_words [of "h512_engine t"] by (auto simp: h512_idle_def split: if_splits)
qed

text \<open>The reference: the digest of the old value and the data, of one or two blocks.\<close>

lemma sha384_ref_tail:
  "length msg < 128 \<Longrightarrow> sha384_ref c msg = digest_words 12 (foldl c (hash_iv Mode384) (tail_blocks 128 16 msg (length msg)))"
  by (simp add: sha384_ref_def sha_ref_tail)

lemma pcr_extend_run:
  assumes c: "compress_ok c" and r: "h512_idle r" and k: "k < PCR_COUNT" and len: "length data + 48 \<le> 127"
  defines "kv \<equiv> h512_vault r"
  shows "\<exists>t. pcr_extend c k data r = (Ok (), t) \<and> h512_idle t \<and>
    h512_vault t = kv\<lparr>pcrs := splice (k * 12) (sha384_ref c (u32_be_to_u8 (pcr_words kv k) @ data)) (pcrs kv)\<rparr>"
proof -
  have wf: "kv_wf kv" using r by (simp add: kv_def h512_idle_def h512_quiet_def)
  define ws where "ws = pcr_words kv k"
  have ws: "length ws = 12" "length (u32_be_to_u8 ws) = 48" using length_pcr_words [OF wf k] by (simp_all add: ws_def)
  obtain u where u: "extend_from_pv c k r = (Ok (Inr ()), u)" "h512_quiet u" "pcr_present u" "bit (block_read_ctrl u) 6"
    "unat (field_read 1 5 (block_read_ctrl u)) = k" "take 12 (h512_block u) = ws" "h512_vault u = kv"
    using extend_from_pv_run [OF r k, of c] by (auto simp: kv_def ws_def)
  define n where "n = length data + 48"
  define slc where "slc = replicate 48 0 @ data"
  define D where "D = sha2_engine c ShaMode384"
  have pe: "pcr_extend c k data r = BlockHash.partial_block D slc True n False u"
    using len u(1) by (simp add: pcr_extend_def Let_def failIf_def retrieve_pcr_def bindE_def sha2_digest_partial_block_def
        slc_def n_def D_def)
  have base: "block_base u ShaMode384 True False = hash_iv Mode384" by (simp add: block_base_def sha2_mode_def)
  have op: "blk_op D = sha2_digest_block c ShaMode384" "blk_size D = 128" "len_size D = 16" by (simp_all add: D_def sha2_engine_def)
  have first: "u32_be_to_u8 (block_words u (slc @ rest)) = u32_be_to_u8 ws @ data @ rest" if "n + length rest = 128" for rest
    using block_words_pcr [OF u(3,6) ws(1), of "slc @ rest"] that by (simp add: slc_def n_def)
  let ?msg = "u32_be_to_u8 ws @ data"
  have ref: "sha384_ref c ?msg = digest_words 12 (foldl c (hash_iv Mode384) (tail_blocks 128 16 ?msg n))"
    using sha384_ref_tail [of ?msg c] len ws(2) by (simp add: n_def add.commute)
  show ?thesis
  proof (cases "n < 112")
    case True
    define rest where "rest = [0x80] @ replicate (111 - n) 0 @ be_nat 16 (8 * n)"
    have rl: "n + length rest = 128" using True by (simp add: rest_def)
    have pb: "BlockHash.partial_block D slc True n False u =
        bindE (sha2_digest_block c ShaMode384 (slc @ rest) True True False) (\<lambda>_. ret ()) u"
      using True unfolding BlockHash.partial_block_def op
      by (simp add: failIf_def Let_def set_block_len_def slc_def n_def rest_def min_absorb1 take_Cons')
    have "tail_blocks 128 16 ?msg n = [u32_be_to_u8 ws @ data @ rest]"
      using True ws(2) by (simp add: tail_blocks_def n_def rest_def add.commute)
    then have "sha384_ref c ?msg = digest_words 12 (c (hash_iv Mode384) (u32_be_to_u8 ws @ data @ rest))"
      using ref by simp
    then show ?thesis
      unfolding pe pb ws_def [symmetric]
      using pcr_block_run [OF c u(2,4,5), where first = True and blk = "slc @ rest" and final = True] first [OF rl] base u(7) by (auto simp: bindE_def)
  next
    case False
    define rest where "rest = 0x80 # replicate (127 - n) (0 :: u8)"
    define pad where "pad = replicate 112 0 @ be_nat 16 (8 * n)"
    have rl: "n + length rest = 128" using len by (simp add: rest_def n_def)
    have pb: "BlockHash.partial_block D slc True n False u =
        bindE (sha2_digest_block c ShaMode384 (slc @ rest) True False False)
          (\<lambda>_. sha2_digest_block c ShaMode384 pad False True False) u"
      using False len unfolding BlockHash.partial_block_def op
      by (simp add: failIf_def Let_def set_block_len_def slc_def n_def rest_def pad_def min_absorb1)
    obtain t where t: "sha2_digest_block c ShaMode384 (slc @ rest) True False False u = (Ok (), t)" "h512_quiet t" "\<not> pcr_present t"
      "sha_hash (h512_engine t) = c (hash_iv Mode384) (u32_be_to_u8 ws @ data @ rest)"
      "block_read_ctrl t = block_read_ctrl u" "h512_vault t = kv"
      using pcr_block_run [OF c u(2,4,5), where first = True and blk = "slc @ rest" and final = False] first [OF rl] base u(7) by auto
    have "u32_be_to_u8 (block_words t pad) = pad"
      using t(3) u32_be_to_u8_inverse [of pad 32] by (simp add: block_words_def pad_def)
    moreover have "block_base t ShaMode384 False False = sha_hash (h512_engine t)" by (simp add: block_base_def)
    moreover have "tail_blocks 128 16 ?msg n = [u32_be_to_u8 ws @ data @ rest, pad]"
      using False ws(2) by (simp add: tail_blocks_def n_def rest_def pad_def add.commute)
    then have "sha384_ref c ?msg = digest_words 12 (c (c (hash_iv Mode384) (u32_be_to_u8 ws @ data @ rest)) pad)"
      using ref by simp
    ultimately show ?thesis
      unfolding pe pb ws_def [symmetric]
      using pcr_block_run [OF c t(2), where k = k and first = False and blk = pad and final = True] t u(4,5) by (auto simp: bindE_def)
  qed
qed

section \<open>What the driver guarantees\<close>

text \<open>Updates with several pieces of data in a row.\<close>

fun sha2_updates :: "compress512 \<Rightarrow> ShaMode \<Rightarrow> u8 list list \<Rightarrow> DigestOp \<Rightarrow> (HashSha512Regs, DigestOp) action" where
  "sha2_updates c mode [] op = ret op"
| "sha2_updates c mode (data # parts) op = bindE (sha2_update c mode data op) (sha2_updates c mode parts)"

lemma sha2_hashing_updates:
  "sha2_hashing c mode kv msg op r \<Longrightarrow> list_all (\<lambda>p. length p \<le> SHA512_MAX_DATA_SIZE) parts \<Longrightarrow>
     \<exists>op' t. sha2_updates c mode parts op r = (Ok op', t) \<and> sha2_hashing c mode kv (msg @ concat parts) op' t"
proof (induction parts arbitrary: msg op r)
  case (Cons data parts)
  obtain op' t where "sha2_update c mode data op r = (Ok op', t)" "sha2_hashing c mode kv (msg @ data) op' t"
    using sha2_hashing_update [OF Cons.prems(1), of data] Cons.prems(2) by auto
  then show ?case using Cons.IH [of "msg @ data" op' t] Cons.prems(2) by (simp add: bindE_def)
qed auto

lemma h512_idle_new: "kv_wf kv \<Longrightarrow> h512_idle (HashSha512Regs_new kv)"
  by (simp add: HashSha512Regs_new_def h512_idle_def h512_quiet_def h512_ready_def block_read_ready_def Sha512_new_def)

abbreviation sample_h512 :: HashSha512Regs where "sample_h512 \<equiv> HashSha512Regs_new KeyVaultRegs_new"

lemmas sample_h512_idle = h512_idle_new [OF kv_wf_new]

text \<open>C29: The driver computes SHA-384 and SHA-512: from an idle engine the one-shot digest and the
  incremental digest of any pieces of a message return its digest, leave the engine idle and the key
  vault untouched. The waits for the engine end.\<close>

theorem sha2_any_pieces:
  assumes c: "compress_ok c" and r: "h512_idle r"
    and len: "length (concat parts) \<le> SHA512_MAX_DATA_SIZE"
  shows "(\<exists>t. sha2_384_digest c (concat parts) r = (Ok (sha384_ref c (concat parts)), t) \<and> h512_idle t \<and> h512_vault t = h512_vault r) \<and>
    (\<exists>t. sha2_512_digest c (concat parts) r = (Ok (sha512_ref c (concat parts)), t) \<and> h512_idle t \<and> h512_vault t = h512_vault r) \<and>
    (\<exists>t. bindE (sha2_updates c mode parts sha2_digest_init) (sha2_finalize c mode) r =
      (Ok (sha2_ref c mode (concat parts)), t) \<and> h512_idle t \<and> h512_vault t = h512_vault r)"
proof -
  have ok: "sha2_ok c (h512_vault r) r" using c r by (simp add: sha2_ok_def)
  have "list_all (\<lambda>p. length p \<le> SHA512_MAX_DATA_SIZE) parts"
    using len by (induction parts) auto
  then obtain op t where t: "sha2_updates c mode parts sha2_digest_init r = (Ok op, t)"
    "sha2_hashing c mode (h512_vault r) (concat parts) op t"
    using sha2_hashing_updates [OF sha2_hashing_init [OF ok], of parts mode] by auto
  then show ?thesis
    using sha2_digest_ref [OF c r len] sha2_hashing_finalize [OF t(2)] by (auto simp: bindE_def sha2_ok_def)
qed

theorem sha2_any_pieces_witness:
  "\<exists>t. bindE (sha2_updates keep_hash ShaMode512 [[1], [2, 3]] sha2_digest_init) (sha2_finalize keep_hash ShaMode512) sample_h512 =
     (Ok (sha2_ref keep_hash ShaMode512 [1, 2, 3]), t) \<and> h512_idle t \<and> h512_vault t = KeyVaultRegs_new"
  using sha2_any_pieces [OF compress_ok_keep sample_h512_idle, of "[[1], [2, 3]]" ShaMode512]
  by (simp add: HashSha512Regs_new_def)

text \<open>C10: Extending a PCR: for data that fits in a block with the PCR, from an idle engine the driver
  replaces the PCR by the SHA-384 digest of its old value followed by the data, changes no other word
  of the vault, and leaves the engine idle.\<close>

theorem pcr_extend_updates_pcr:
  assumes "compress_ok c" "h512_idle r" "k < PCR_COUNT" "length data + SHA384_HASH_SIZE \<le> SHA512_BLOCK_BYTE_SIZE - 1"
  shows "\<exists>t. pcr_extend c k data r = (Ok (), t) \<and> h512_idle t \<and>
    h512_vault t = (h512_vault r)\<lparr>pcrs := splice (k * PCR_SIZE_WORDS)
      (sha384_ref c (u32_be_to_u8 (pcr_words (h512_vault r) k) @ data)) (pcrs (h512_vault r))\<rparr>"
  using pcr_extend_run [OF assms(1-3), of data] assms(4) by simp

theorem pcr_extend_updates_pcr_witness:
  "\<exists>t. pcr_extend keep_hash 31 (replicate 79 7) sample_h512 = (Ok (), t) \<and> h512_idle t \<and>
    pcrs (h512_vault t) = replicate 372 0 @ sha384_ref keep_hash (replicate 48 0 @ replicate 79 7)"
proof -
  have "pcr_words KeyVaultRegs_new 31 = replicate 12 0" by (simp add: pcr_words_def KeyVaultRegs_new_def)
  moreover have "u32_be_to_u8 (replicate 12 0) = replicate 48 0" by code_simp
  ultimately show ?thesis
    using pcr_extend_updates_pcr [OF compress_ok_keep sample_h512_idle, of 31 "replicate 79 7"]
    by (force simp: HashSha512Regs_new_def KeyVaultRegs_new_def splice_def)
qed

end
