(* ===== verification/PcrBank.thy ===== *)
theory PcrBank
  imports Sha2Correct
begin

unbundle bit_operations_syntax

text \<open>
  The bank of platform configuration registers, \<^verbatim>\<open>drivers/src/pcr_bank.rs\<close>, on the PCR vault of the
  emulator. A \<^verbatim>\<open>PcrId\<close> is its number. The lemmas show what erasing, locking and extending do to each
  PCR.
\<close>

section \<open>Operations\<close>

type_synonym PcrId = nat

definition PcrId_try_from :: "u8 \<Rightarrow> PcrId option" where
  "PcrId_try_from original = (if original < 32 then Some (unat original) else None)"

definition ALL_PCR_IDS :: "PcrId list" where
  "ALL_PCR_IDS = [0..<32]"

definition pcr_lock :: "PcrId \<Rightarrow> (KeyVaultRegs, bool) action" where
  "pcr_lock k r = in_range (k < length (pcr_control r)) (gets (\<lambda>r. bit (pcr_control r ! k) 0)) r"

definition set_pcr_lock :: "PcrId \<Rightarrow> (KeyVaultRegs, unit) action" where
  "set_pcr_lock k = mmio (write_pcr_ctrl k 1)"

definition clear_pcr_lock :: "PcrId \<Rightarrow> (KeyVaultRegs, unit) action" where
  "clear_pcr_lock k = mmio (write_pcr_ctrl k 0)"

definition erase_pcr :: "PcrId \<Rightarrow> (KeyVaultRegs, unit) action" where
  "erase_pcr k =
     bindE (pcr_lock k) (\<lambda>locked.
     bindE (failIf locked DRIVER_PCR_BANK_ERASE_WRITE_LOCK_SET_FAILURE) (\<lambda>_.
     mmio (write_pcr_ctrl k 2)))"

fun erase_pcrs :: "PcrId list \<Rightarrow> (KeyVaultRegs, unit) action" where
  "erase_pcrs [] = ret ()"
| "erase_pcrs (k # ks) =
     bindE (pcr_lock k) (\<lambda>locked.
     bindE (if \<not> locked then mmio (write_pcr_ctrl k 2) else ret ()) (\<lambda>_. erase_pcrs ks))"

definition erase_all_pcrs :: "(KeyVaultRegs, unit) action" where
  "erase_all_pcrs = erase_pcrs ALL_PCR_IDS"

definition bank_read_pcr :: "PcrId \<Rightarrow> (KeyVaultRegs, u32 list) action" where
  "bank_read_pcr k r = in_range (k * PCR_SIZE_WORDS + PCR_SIZE_WORDS \<le> length (pcrs r))
     (gets (\<lambda>r. map (\<lambda>i. pcrs r ! (k * PCR_SIZE_WORDS + i)) [0..<PCR_SIZE_WORDS])) r"

fun read_pcrs :: "PcrId list \<Rightarrow> (KeyVaultRegs, u32 list list) action" where
  "read_pcrs [] = ret []"
| "read_pcrs (k # ks) = bindE (bank_read_pcr k) (\<lambda>v. bindE (read_pcrs ks) (\<lambda>vs. ret (v # vs)))"

definition read_all_pcrs :: "(KeyVaultRegs, u32 list list) action" where
  "read_all_pcrs = read_pcrs ALL_PCR_IDS"

definition extend_pcr :: "compress512 \<Rightarrow> PcrId \<Rightarrow> u8 list \<Rightarrow> (HashSha512Regs, unit) action" where
  "extend_pcr c k data = pcr_extend c k data"

section \<open>Slots of the vault\<close>

definition pcr_locked :: "KeyVaultRegs \<Rightarrow> PcrId \<Rightarrow> bool" where
  "pcr_locked r k \<longleftrightarrow> bit (pcr_control r ! k) 0"

lemma pcr_words_splice:
  assumes "kv_wf r" "j < PCR_COUNT" "k < PCR_COUNT" "length new = 12"
  shows "pcr_words (r\<lparr>pcrs := splice (k * 12) new (pcrs r)\<rparr>) j = (if j = k then new else pcr_words r j)"
proof (cases "j = k")
  case True
  then show ?thesis
    using assms nth_splice_slot [of "k * 12" new "pcrs r"] by (simp add: pcr_words_def kv_wf_def)
next
  case False
  have "splice (k * 12) new (pcrs r) ! (j * 12 + i) = pcrs r ! (j * 12 + i)" if "i < 12" for i
  proof (rule nth_splice_outside)
    have "(j * 12 + i) div 12 = j" using that by simp
    then show "j * 12 + i < k * 12 \<or> k * 12 + length new \<le> j * 12 + i"
      using slots_disjoint [of k j "j * 12 + i" 12 12] False assms(4) by auto
  qed (use assms that in \<open>simp_all add: kv_wf_def\<close>)
  then show ?thesis
    using False assms by (intro nth_equalityI) (simp_all add: pcr_words_def kv_wf_def)
qed

lemma bank_read_pcr_words: "kv_wf r \<Longrightarrow> k < PCR_COUNT \<Longrightarrow> bank_read_pcr k r = (Ok (pcr_words r k), r)"
  by (auto simp: bank_read_pcr_def in_range_def kv_wf_def pcr_words_def intro!: nth_equalityI)

lemma read_pcrs_words:
  "kv_wf r \<Longrightarrow> \<forall>k \<in> set ks. k < PCR_COUNT \<Longrightarrow> read_pcrs ks r = (Ok (map (pcr_words r) ks), r)"
  by (induction ks) (simp_all add: bindE_def bank_read_pcr_words)

lemma write_pcr_ctrl_cases:
  assumes "kv_wf r" "k < PCR_COUNT"
  shows "mmio (write_pcr_ctrl k 1) r = (Ok (), r\<lparr>pcr_control := (pcr_control r)[k := pcr_control r ! k OR 1]\<rparr>)"
    "mmio (write_pcr_ctrl k 0) r = (Ok (), r)"
    "pcr_locked r k \<Longrightarrow> mmio (write_pcr_ctrl k 2) r = (Ok (), r)"
    "\<not> pcr_locked r k \<Longrightarrow> mmio (write_pcr_ctrl k 2) r =
       (Ok (), r\<lparr>pcrs := splice (k * 12) (replicate 12 0) (pcrs r)\<rparr>)"
proof -
  have k: "k < length (pcr_control r)" using assms by (simp add: kv_wf_def)
  have lock: "lock_modify 0 1 w = w OR 1" "lock_modify 0 0 w = w" "lock_modify 0 2 w = w" for w :: u32
    by (rule bit_word_eqI; auto simp: bit_lock_modify bit_simps bit_numeral_rec)+
  have upd: "r\<lparr>pcr_control := (pcr_control r)[k := pcr_control r ! k]\<rparr> = r" by simp
  show "mmio (write_pcr_ctrl k 1) r = (Ok (), r\<lparr>pcr_control := (pcr_control r)[k := pcr_control r ! k OR 1]\<rparr>)"
    "mmio (write_pcr_ctrl k 0) r = (Ok (), r)"
    "pcr_locked r k \<Longrightarrow> mmio (write_pcr_ctrl k 2) r = (Ok (), r)"
    "\<not> pcr_locked r k \<Longrightarrow> mmio (write_pcr_ctrl k 2) r =
       (Ok (), r\<lparr>pcrs := splice (k * 12) (replicate 12 0) (pcrs r)\<rparr>)"
    using k by (simp_all add: mmio_def write_pcr_ctrl_def in_range_def Let_def lock field_read_bit pcr_locked_def bit_numeral_rec)
qed

section \<open>Erasing and locking\<close>

lemma pcr_lock_locked: "kv_wf r \<Longrightarrow> k < PCR_COUNT \<Longrightarrow> pcr_lock k r = (Ok (pcr_locked r k), r)"
  by (simp add: pcr_lock_def in_range_def kv_wf_def pcr_locked_def)

lemma erase_pcr_cases:
  assumes "kv_wf r" "k < PCR_COUNT"
  shows "erase_pcr k r = (if pcr_locked r k then (Err DRIVER_PCR_BANK_ERASE_WRITE_LOCK_SET_FAILURE, r)
    else (Ok (), r\<lparr>pcrs := splice (k * 12) (replicate 12 0) (pcrs r)\<rparr>))"
  using assms by (simp add: erase_pcr_def bindE_def pcr_lock_locked failIf_apply write_pcr_ctrl_cases)

lemma splice_pcrs_wf:
  "kv_wf r \<Longrightarrow> k < PCR_COUNT \<Longrightarrow> length new = 12 \<Longrightarrow> kv_wf (r\<lparr>pcrs := splice (k * 12) new (pcrs r)\<rparr>)"
  by (simp add: kv_wf_def)

lemma erase_pcrs_run:
  assumes "kv_wf r" "\<forall>k \<in> set ks. k < PCR_COUNT"
  shows "\<exists>t. erase_pcrs ks r = (Ok (), t) \<and> kv_wf t \<and> pcr_control t = pcr_control r \<and>
    (\<forall>j < PCR_COUNT. pcr_words t j = (if j \<in> set ks \<and> \<not> pcr_locked r j then replicate 12 0 else pcr_words r j))"
  using assms
proof (induction ks arbitrary: r)
  case (Cons k ks)
  show ?case
  proof (cases "pcr_locked r k")
    case True
    then have "erase_pcrs (k # ks) r = erase_pcrs ks r" using Cons.prems by (simp add: bindE_def pcr_lock_locked)
    moreover obtain t where "erase_pcrs ks r = (Ok (), t)" "kv_wf t" "pcr_control t = pcr_control r"
      "\<forall>j < PCR_COUNT. pcr_words t j = (if j \<in> set ks \<and> \<not> pcr_locked r j then replicate 12 0 else pcr_words r j)"
      using Cons.IH [of r] Cons.prems by auto
    ultimately show ?thesis using True by auto
  next
    case False
    let ?r = "r\<lparr>pcrs := splice (k * 12) (replicate 12 0) (pcrs r)\<rparr>"
    have run: "erase_pcrs (k # ks) r = erase_pcrs ks ?r"
      using Cons.prems False by (simp add: bindE_def pcr_lock_locked write_pcr_ctrl_cases)
    have wf: "kv_wf ?r" using Cons.prems splice_pcrs_wf [of r k "replicate 12 0"] by simp
    have locked: "pcr_locked ?r j = pcr_locked r j" for j by (simp add: pcr_locked_def)
    obtain t where t: "erase_pcrs ks ?r = (Ok (), t)" "kv_wf t" "pcr_control t = pcr_control r"
      "\<forall>j < PCR_COUNT. pcr_words t j = (if j \<in> set ks \<and> \<not> pcr_locked r j then replicate 12 0 else pcr_words ?r j)"
      using Cons.IH [OF wf] Cons.prems by (auto simp: locked)
    have "pcr_words ?r j = (if j = k then replicate 12 0 else pcr_words r j)" if "j < PCR_COUNT" for j
      using pcr_words_splice [of r j k "replicate 12 0"] Cons.prems that by simp
    with t False show ?thesis unfolding run by auto
  qed
qed auto

lemma pcr_lock_step:
  assumes "kv_access r t" "kv_wf r" "k < PCR_COUNT" "pcr_locked r k"
  shows "pcr_locked t k"
  using assms(1)
  by cases (use assms(2-4) in \<open>auto simp: kv_access_simps kv_wf_def pcr_locked_def nth_list_update bit_lock_modify
      split: if_splits\<close>)

lemma pcr_lock_steps:
  "kv_access\<^sup>*\<^sup>* r t \<Longrightarrow> kv_wf r \<Longrightarrow> k < PCR_COUNT \<Longrightarrow> pcr_locked r k \<Longrightarrow> kv_wf t \<and> pcr_locked t k"
  by (induction rule: rtranclp_induct) (use pcr_lock_step kv_access_wf in auto)

text \<open>Erasing all PCRs sets every PCR that is not locked to zero, leaves the locked ones as they are,
  and changes no lock.\<close>

theorem erase_all_pcrs_erases:
  assumes "kv_wf r"
  shows "\<exists>t. erase_all_pcrs r = (Ok (), t) \<and> (\<forall>k < PCR_COUNT. pcr_locked t k = pcr_locked r k \<and>
    bank_read_pcr k t = (Ok (if pcr_locked r k then pcr_words r k else replicate PCR_SIZE_WORDS 0), t))"
  using erase_pcrs_run [OF assms, of ALL_PCR_IDS]
  by (auto simp: erase_all_pcrs_def ALL_PCR_IDS_def pcr_locked_def bank_read_pcr_words)

theorem erase_all_pcrs_erases_witness:
  "\<exists>t. erase_all_pcrs KeyVaultRegs_new = (Ok (), t) \<and> bank_read_pcr 5 t = (Ok (replicate 12 0), t)"
  using erase_all_pcrs_erases [OF kv_wf_new] by (force simp: pcr_locked_def KeyVaultRegs_new_def)

text \<open>C33: A locked PCR cannot be erased until the next reset: after it is locked, whatever register writes
  and engine accesses follow, including an attempt to clear the lock, erasing it returns the error and
  changes nothing.\<close>

theorem locked_pcr_not_erased:
  assumes wf: "kv_wf r" and k: "k < PCR_COUNT" and lock: "set_pcr_lock k r = (Ok (), s)" and steps: "kv_access\<^sup>*\<^sup>* s t"
  shows "erase_pcr k t = (Err DRIVER_PCR_BANK_ERASE_WRITE_LOCK_SET_FAILURE, t) \<and> clear_pcr_lock k t = (Ok (), t)"
proof -
  have "s = r\<lparr>pcr_control := (pcr_control r)[k := pcr_control r ! k OR 1]\<rparr>"
    using lock write_pcr_ctrl_cases(1) [OF wf k] by (simp add: set_pcr_lock_def)
  then have "kv_wf s" "pcr_locked s k" using wf k by (simp_all add: kv_wf_def pcr_locked_def bit_simps)
  then have "kv_wf t" "pcr_locked t k" using pcr_lock_steps [OF steps _ k] by auto
  then show ?thesis by (simp add: erase_pcr_cases k clear_pcr_lock_def write_pcr_ctrl_cases)
qed

theorem locked_pcr_not_erased_witness:
  "fst (erase_pcr 7 (snd (set_pcr_lock 7 KeyVaultRegs_new))) = Err DRIVER_PCR_BANK_ERASE_WRITE_LOCK_SET_FAILURE"
proof -
  have "set_pcr_lock 7 KeyVaultRegs_new = (Ok (), snd (set_pcr_lock 7 KeyVaultRegs_new))"
    using write_pcr_ctrl_cases(1) [OF kv_wf_new, of 7] by (simp add: set_pcr_lock_def)
  from locked_pcr_not_erased [OF kv_wf_new _ this rtranclp.rtrancl_refl] show ?thesis by simp
qed

section \<open>Measurements\<close>

text \<open>Extensions of PCRs, in the order they are made.\<close>

fun extend_pcrs :: "compress512 \<Rightarrow> (PcrId \<times> u8 list) list \<Rightarrow> (HashSha512Regs, unit) action" where
  "extend_pcrs c [] = ret ()"
| "extend_pcrs c ((k, data) # ms) = bindE (extend_pcr c k data) (\<lambda>_. extend_pcrs c ms)"

text \<open>The value a sequence of measurements leads to.\<close>

definition pcr_chain :: "compress512 \<Rightarrow> u32 list \<Rightarrow> u8 list list \<Rightarrow> u32 list" where
  "pcr_chain c v ms = foldl (\<lambda>v data. sha384_ref c (u32_be_to_u8 v @ data)) v ms"

lemma extend_pcrs_run:
  assumes "compress_ok c" "h512_idle r" "\<forall>(k, data) \<in> set ms. k < PCR_COUNT \<and> length data \<le> 79"
  shows "\<exists>t. extend_pcrs c ms r = (Ok (), t) \<and> h512_idle t \<and>
    (\<forall>j < PCR_COUNT. pcr_words (h512_vault t) j =
       pcr_chain c (pcr_words (h512_vault r) j) (map snd (filter (\<lambda>m. fst m = j) ms)))"
  using assms(2,3)
proof (induction ms arbitrary: r)
  case Nil
  then show ?case by (simp add: pcr_chain_def)
next
  case (Cons m ms)
  obtain k data where m: "m = (k, data)" "k < PCR_COUNT" "length data \<le> 79" using Cons.prems(2) by (cases m) auto
  let ?kv = "h512_vault r"
  let ?new = "sha384_ref c (u32_be_to_u8 (pcr_words ?kv k) @ data)"
  obtain t where t: "pcr_extend c k data r = (Ok (), t)" "h512_idle t"
    "h512_vault t = ?kv\<lparr>pcrs := splice (k * 12) ?new (pcrs ?kv)\<rparr>"
    using pcr_extend_run [OF assms(1) Cons.prems(1) m(2), of data] m(3) by auto
  have wf: "kv_wf ?kv" using Cons.prems(1) by (simp add: h512_idle_def h512_quiet_def)
  have "pcr_words (h512_vault t) j = (if j = k then ?new else pcr_words ?kv j)" if "j < PCR_COUNT" for j
    using pcr_words_splice [OF wf that m(2), of ?new] t(3) by simp
  then show ?case
    using Cons.IH [OF t(2)] Cons.prems(2) t(1)
    by (auto simp: m(1) extend_pcr_def bindE_def pcr_chain_def)
qed

text \<open>C11: The bank is a set of measurement chains: after any sequence of extensions of any PCRs, each PCR
  holds the chain of exactly the measurements made into it, in their order, starting from its old
  value, whatever was measured into the others in between.\<close>

theorem pcr_measurements_chain:
  assumes "compress_ok c" "h512_idle r" "\<forall>(k, data) \<in> set ms. k < PCR_COUNT \<and> length data \<le> 79"
  shows "\<exists>t. extend_pcrs c ms r = (Ok (), t) \<and> h512_idle t \<and>
    (\<forall>j < PCR_COUNT. bank_read_pcr j (h512_vault t) =
       (Ok (pcr_chain c (pcr_words (h512_vault r) j) (map snd (filter (\<lambda>m. fst m = j) ms))), h512_vault t))"
  using extend_pcrs_run [OF assms] by (auto simp: bank_read_pcr_words h512_idle_def h512_quiet_def)

theorem pcr_measurements_chain_witness:
  "\<exists>t. extend_pcrs keep_hash [(1, [1, 2]), (3, [9]), (1, [3])] sample_h512 = (Ok (), t) \<and> h512_idle t \<and>
     bank_read_pcr 1 (h512_vault t) = (Ok (pcr_chain keep_hash (replicate 12 0) [[1, 2], [3]]), h512_vault t)"
proof -
  have "pcr_words KeyVaultRegs_new 1 = replicate 12 0" by (simp add: pcr_words_def KeyVaultRegs_new_def)
  then show ?thesis
    using pcr_measurements_chain [OF compress_ok_keep sample_h512_idle, of "[(1, [1, 2]), (3, [9]), (1, [3])]"]
    by (force simp: HashSha512Regs_new_def)
qed

end
