(* ===== verification/AsymEcc384.thy ===== *)
theory AsymEcc384
  imports HashSha512
begin

unbundle bit_operations_syntax

text \<open>
  The ECC-384 peripheral of the emulator, \<^verbatim>\<open>sw-emulator/lib/periph/src/asym_ecc384.rs\<close>, and the
  functions of \<^verbatim>\<open>sw-emulator/lib/crypto/src/ecc384.rs\<close> it calls. The curve arithmetic of the
  \<^verbatim>\<open>p384\<close> and \<^verbatim>\<open>rfc6979\<close> crates is a record of functions on big-endian byte strings. The
  peripheral shares the vault with the hash peripheral it holds. A panic of the emulator inside
  \<^verbatim>\<open>poll\<close> is a command that never completes.
\<close>

section \<open>Curve arithmetic\<close>

text \<open>
  \<open>p384_public\<close> and \<open>p384_sign\<close> yield \<open>None\<close> where \<^verbatim>\<open>SigningKey::from_slice\<close> rejects the key,
  \<open>p384_point_ok\<close> is whether \<^verbatim>\<open>VerifyingKey::from_encoded_point\<close> accepts a public key,
  \<open>p384_scalars_ok\<close> whether \<^verbatim>\<open>Signature::from_scalars\<close> accepts a signature.
\<close>

record p384 =
  p384_drbg :: "u8 list \<Rightarrow> u8 list \<Rightarrow> u8 list"
  p384_public :: "u8 list \<Rightarrow> (u8 list \<times> u8 list) option"
  p384_sign :: "u8 list \<Rightarrow> u8 list \<Rightarrow> (u8 list \<times> u8 list) option"
  p384_point_ok :: "u8 list \<Rightarrow> u8 list \<Rightarrow> bool"
  p384_scalars_ok :: "u8 list \<Rightarrow> u8 list \<Rightarrow> bool"
  p384_verify :: "u8 list \<Rightarrow> u8 list \<Rightarrow> u8 list \<Rightarrow> u8 list \<Rightarrow> u8 list \<Rightarrow> bool"
  p384_ecdh :: "u8 list \<Rightarrow> u8 list \<Rightarrow> u8 list \<Rightarrow> u8 list option"

definition emu_ecc_gen_key_pair :: "p384 \<Rightarrow> u8 list \<Rightarrow> u8 list \<Rightarrow> (u8 list \<times> u8 list \<times> u8 list) outcome" where
  "emu_ecc_gen_key_pair E seed nonce =
     (let priv_key = p384_drbg E (swap4 seed) (swap4 nonce)
      in case p384_public E priv_key of
           None \<Rightarrow> RustPanic
         | Some (x, y) \<Rightarrow> Ok (swap4 priv_key, swap4 x, swap4 y))"

definition emu_ecc_sign :: "p384 \<Rightarrow> u8 list \<Rightarrow> u8 list \<Rightarrow> (u8 list \<times> u8 list) outcome" where
  "emu_ecc_sign E priv_key hash =
     (case p384_sign E (swap4 priv_key) (swap4 hash) of
        None \<Rightarrow> RustPanic
      | Some (r, s) \<Rightarrow> Ok (swap4 r, swap4 s))"

definition emu_ecc_verify ::
  "p384 \<Rightarrow> u8 list \<times> u8 list \<Rightarrow> u8 list \<Rightarrow> u8 list \<times> u8 list \<Rightarrow> u8 list outcome" where
  "emu_ecc_verify E pub_key hash sig =
     (let x = swap4 (fst pub_key); y = swap4 (snd pub_key); h = swap4 hash;
          r = swap4 (fst sig); s = swap4 (snd sig)
      in if \<not> p384_point_ok E x y then RustPanic
         else if \<not> p384_scalars_ok E r s then RustPanic
         else Ok (if p384_verify E x y h r s then fst sig else map (\<lambda>b. NOT b) (fst sig)))"

definition emu_ecc_compute_shared_secret ::
  "p384 \<Rightarrow> u8 list \<Rightarrow> u8 list \<times> u8 list \<Rightarrow> u8 list option" where
  "emu_ecc_compute_shared_secret E priv_key pub_key =
     map_option swap4 (p384_ecdh E (swap4 priv_key) (swap4 (fst pub_key)) (swap4 (snd pub_key)))"

section \<open>Registers\<close>

record AsymEcc384 =
  ecc_control :: u32
  ecc_status :: u32
  ecc_seed :: "u32 list"
  ecc_hash :: "u32 list"
  priv_key_out :: "u32 list"
  priv_key_in :: "u32 list"
  pub_key_x :: "u32 list"
  pub_key_y :: "u32 list"
  reg_sig_r :: "u32 list"
  reg_sig_s :: "u32 list"
  ecc_verify_r :: "u32 list"
  ecc_iv :: "u32 list"
  ecc_nonce :: "u32 list"
  dh_shared_key :: "u32 list"
  key_read_ctrl :: u32
  key_read_status :: u32
  seed_read_ctrl :: u32
  seed_read_status :: u32
  key_write_ctrl :: u32
  key_write_status :: u32
  ecc_error_global_intr :: u32
  ecc_error_internal_intr :: u32
  priv_key_in_set_internally :: bool
  ecc_hash_sha512 :: HashSha512Regs
  ecc_op_complete_action :: "nat option"
  op_key_read_complete_action :: "nat option"
  op_seed_read_complete_action :: "nat option"
  op_key_write_complete_action :: "nat option"

type_synonym 'a ecc_io = "(AsymEcc384, 'a) bus_io"

definition AsymEcc384_new :: "HashSha512Regs \<Rightarrow> AsymEcc384" where
  "AsymEcc384_new h = (let zero = replicate 12 0 in
     \<lparr>ecc_control = 0, ecc_status = 1, ecc_seed = zero, ecc_hash = zero, priv_key_out = zero,
      priv_key_in = zero, pub_key_x = zero, pub_key_y = zero, reg_sig_r = zero, reg_sig_s = zero,
      ecc_verify_r = zero, ecc_iv = zero, ecc_nonce = zero, dh_shared_key = zero, key_read_ctrl = 0,
      key_read_status = 1, seed_read_ctrl = 0, seed_read_status = 1, key_write_ctrl = 0,
      key_write_status = 1, ecc_error_global_intr = 0, ecc_error_internal_intr = 0,
      priv_key_in_set_internally = False, ecc_hash_sha512 = h, ecc_op_complete_action = None,
      op_key_read_complete_action = None, op_seed_read_complete_action = None,
      op_key_write_complete_action = None\<rparr>)"

definition ecc_ready :: "AsymEcc384 \<Rightarrow> bool" where "ecc_ready r \<longleftrightarrow> bit (ecc_status r) 0"
definition ecc_valid :: "AsymEcc384 \<Rightarrow> bool" where "ecc_valid r \<longleftrightarrow> bit (ecc_status r) 1"

text \<open>An access to the vault.\<close>

definition ecc_vault :: "(KeyVaultRegs, 'a) bus_io \<Rightarrow> 'a ecc_io" where
  "ecc_vault m r = (case on_vault m (ecc_hash_sha512 r) of (x, h) \<Rightarrow> (x, r\<lparr>ecc_hash_sha512 := h\<rparr>))"

section \<open>Register writes\<close>

definition ecc_zeroize :: "AsymEcc384 \<Rightarrow> AsymEcc384" where
  "ecc_zeroize r = (let zero = (\<lambda>ws :: u32 list. replicate (length ws) 0) in
     r\<lparr>ecc_seed := zero (ecc_seed r), ecc_hash := zero (ecc_hash r), priv_key_out := zero (priv_key_out r),
       pub_key_x := zero (pub_key_x r), pub_key_y := zero (pub_key_y r), reg_sig_r := zero (reg_sig_r r),
       reg_sig_s := zero (reg_sig_s r), ecc_verify_r := zero (ecc_verify_r r), ecc_iv := zero (ecc_iv r),
       ecc_nonce := zero (ecc_nonce r), priv_key_in := zero (priv_key_in r),
       dh_shared_key := zero (dh_shared_key r)\<rparr>)"

definition ecc_on_write_control :: "RvSize \<Rightarrow> u32 \<Rightarrow> unit ecc_io" where
  "ecc_on_write_control sz val r =
     (if sz \<noteq> Word then bus_fault StoreAccessFault r
      else
        let r = r\<lparr>ecc_control := val\<rparr>;
            start = (\<lambda>r. r\<lparr>ecc_status := ecc_status r AND NOT 3, ecc_op_complete_action := Some 1000\<rparr>);
            r = (if field_read 0 2 (ecc_control r) \<noteq> 0 then start r else r);
            r = (if bit (ecc_control r) 4 then start r else r)
        in (Ok (Inr ()), if bit (ecc_control r) 2 then ecc_zeroize (r\<lparr>ecc_error_internal_intr := 0\<rparr>) else r))"

definition on_write_key_read_control :: "RvSize \<Rightarrow> u32 \<Rightarrow> unit ecc_io" where
  "on_write_key_read_control sz val r =
     (if sz \<noteq> Word then bus_fault StoreAccessFault r
      else
        let r = r\<lparr>key_read_ctrl := field_modify 1 5 (field_read 1 5 val) (field_modify 0 1 (field_read 0 1 val) (key_read_ctrl r))\<rparr>
        in (Ok (Inr ()),
            if bit val 0
            then r\<lparr>key_read_status := field_modify 2 8 0 (key_read_status r AND NOT 3),
                   op_key_read_complete_action := Some 100\<rparr>
            else r))"

definition on_write_seed_read_control :: "RvSize \<Rightarrow> u32 \<Rightarrow> unit ecc_io" where
  "on_write_seed_read_control sz val r =
     (if sz \<noteq> Word then bus_fault StoreAccessFault r
      else
        let r = r\<lparr>seed_read_ctrl := field_modify 1 5 (field_read 1 5 val) (field_modify 0 1 (field_read 0 1 val) (seed_read_ctrl r))\<rparr>
        in (Ok (Inr ()),
            if bit val 0
            then r\<lparr>seed_read_status := field_modify 2 8 0 (seed_read_status r AND NOT 3),
                   op_seed_read_complete_action := Some 100\<rparr>
            else r))"

definition on_write_key_write_control :: "RvSize \<Rightarrow> u32 \<Rightarrow> unit ecc_io" where
  "on_write_key_write_control sz val r =
     (if sz \<noteq> Word then bus_fault StoreAccessFault r
      else (Ok (Inr ()), r\<lparr>key_write_ctrl := field_modify 6 6 (field_read 6 6 val)
              (field_modify 1 5 (field_read 1 5 val) (field_modify 0 1 (field_read 0 1 val) (key_write_ctrl r)))\<rparr>))"

definition write_priv_key_in :: "RvSize \<Rightarrow> nat \<Rightarrow> u32 \<Rightarrow> unit ecc_io" where
  "write_priv_key_in sz index val r =
     (if sz \<noteq> Word then bus_fault StoreAccessFault r
      else
        let r = r\<lparr>priv_key_in_set_internally := False\<rparr>
        in if index < length (priv_key_in r)
           then (Ok (Inr ()), r\<lparr>priv_key_in := (priv_key_in r)[index := val]\<rparr>)
           else bus_fault StoreAccessFault r)"

section \<open>Completion\<close>

text \<open>The vault transfers. \<open>kv_error_code\<close> is the error field of the status register.\<close>

definition key_read_complete :: "AsymEcc384 \<Rightarrow> AsymEcc384" where
  "key_read_complete r =
     (case ecc_vault (read_key (unat (field_read 1 5 (key_read_ctrl r))) (push_bit 3 1)) r of
        (Ok result, r) \<Rightarrow>
          let r = (case result of
              Inr key \<Rightarrow> r\<lparr>priv_key_in := u8_to_u32_le 12 (take 48 key), priv_key_in_set_internally := True\<rparr>
            | Inl _ \<Rightarrow> r)
          in r\<lparr>key_read_status := field_modify 2 8 (kv_error_code result) (key_read_status r OR 3)\<rparr>
      | (_, r) \<Rightarrow> r)"

definition seed_read_complete :: "AsymEcc384 \<Rightarrow> AsymEcc384" where
  "seed_read_complete r =
     (case ecc_vault (read_key (unat (field_read 1 5 (seed_read_ctrl r))) (push_bit 4 1)) r of
        (Ok result, r) \<Rightarrow>
          let r = (case result of Inr seed \<Rightarrow> r\<lparr>ecc_seed := u8_to_u32_le 12 (take 48 seed)\<rparr> | Inl _ \<Rightarrow> r)
          in r\<lparr>seed_read_status := field_modify 2 8 (kv_error_code result) (seed_read_status r OR 3)\<rparr>
      | (_, r) \<Rightarrow> r)"

definition key_write_complete :: "AsymEcc384 \<Rightarrow> AsymEcc384" where
  "key_write_complete r =
     (case ecc_vault (write_key (unat (field_read 1 5 (key_write_ctrl r))) (u32_le_to_u8 (priv_key_in r))
             (field_read 6 6 (key_write_ctrl r))) r of
        (Ok result, r) \<Rightarrow>
          r\<lparr>priv_key_in_set_internally := False,
            key_write_status := field_modify 2 8 (kv_error_code result) (key_write_status r OR 3)\<rparr>
      | (_, r) \<Rightarrow> r)"

text \<open>The operations. \<open>None\<close> is a panic.\<close>

definition begin_key_write :: "AsymEcc384 \<Rightarrow> AsymEcc384" where
  "begin_key_write r = r\<lparr>key_write_status := field_modify 2 8 0 (key_write_status r AND NOT 3),
     op_key_write_complete_action := Some 100\<rparr>"

definition ecc_gen_key :: "p384 \<Rightarrow> AsymEcc384 \<Rightarrow> AsymEcc384 option" where
  "ecc_gen_key E r =
     (case emu_ecc_gen_key_pair E (u32_le_to_u8 (ecc_seed r)) (u32_le_to_u8 (ecc_nonce r)) of
        Ok (priv_key, x, y) \<Rightarrow>
          let r = r\<lparr>priv_key_in := u8_to_u32_le 12 priv_key\<rparr>;
              r = (if bit (key_write_ctrl r) 0 then begin_key_write r else r\<lparr>priv_key_out := priv_key_in r\<rparr>)
          in Some (r\<lparr>pub_key_x := u8_to_u32_le 12 x, pub_key_y := u8_to_u32_le 12 y\<rparr>)
      | _ \<Rightarrow> None)"

definition set_signature :: "(u8 list \<times> u8 list) outcome \<Rightarrow> AsymEcc384 \<Rightarrow> AsymEcc384 option" where
  "set_signature sig r = (case sig of
      Ok (sr, ss) \<Rightarrow> Some (r\<lparr>reg_sig_r := u8_to_u32_le 12 sr, reg_sig_s := u8_to_u32_le 12 ss\<rparr>)
    | _ \<Rightarrow> None)"

definition ecc_sign :: "p384 \<Rightarrow> AsymEcc384 \<Rightarrow> AsymEcc384 option" where
  "ecc_sign E r = set_signature (emu_ecc_sign E (u32_le_to_u8 (priv_key_in r)) (u32_le_to_u8 (ecc_hash r))) r"

definition pcr_digest_sign :: "p384 \<Rightarrow> AsymEcc384 \<Rightarrow> AsymEcc384 option" where
  "pcr_digest_sign E r =
     (case ecc_vault (read_key_locked 7 (push_bit 3 1)) r of
        (Ok (Inr pcr_key), r) \<Rightarrow>
          let pcr_digest = take 48 (u32_le_to_u8 (pcr_hash_digest (ecc_hash_sha512 r)))
          in set_signature (emu_ecc_sign E (take 48 pcr_key) pcr_digest) r
      | _ \<Rightarrow> None)"

definition ecc_verify :: "p384 \<Rightarrow> AsymEcc384 \<Rightarrow> AsymEcc384 option" where
  "ecc_verify E r =
     (case emu_ecc_verify E (u32_le_to_u8 (pub_key_x r), u32_le_to_u8 (pub_key_y r)) (u32_le_to_u8 (ecc_hash r))
             (u32_le_to_u8 (reg_sig_r r), u32_le_to_u8 (reg_sig_s r)) of
        Ok vr \<Rightarrow> Some (r\<lparr>ecc_verify_r := u8_to_u32_le 12 vr\<rparr>)
      | _ \<Rightarrow> None)"

text \<open>The shared key; \<open>None\<close> is the error of an invalid key.\<close>

definition generate_dh_shared_key :: "p384 \<Rightarrow> AsymEcc384 \<Rightarrow> AsymEcc384 option" where
  "generate_dh_shared_key E r =
     (case emu_ecc_compute_shared_secret E (u32_le_to_u8 (priv_key_in r))
             (u32_le_to_u8 (pub_key_x r), u32_le_to_u8 (pub_key_y r)) of
        None \<Rightarrow> None
      | Some shared_key \<Rightarrow> Some (
          if bit (key_write_ctrl r) 0
          then (begin_key_write r)\<lparr>priv_key_in := u8_to_u32_le 12 shared_key, priv_key_in_set_internally := True\<rparr>
          else if priv_key_in_set_internally r then r\<lparr>priv_key_in := u8_to_u32_le 12 shared_key\<rparr>
          else r\<lparr>dh_shared_key := u8_to_u32_le 12 shared_key\<rparr>))"

definition ecc_op_complete :: "p384 \<Rightarrow> AsymEcc384 \<Rightarrow> AsymEcc384" where
  "ecc_op_complete E r =
     (let op = field_read 0 2 (ecc_control r);
          result = (if op = 1 then ecc_gen_key E r
                  else if op = 2 then (if bit (ecc_control r) 3 then pcr_digest_sign E r else ecc_sign E r)
                  else if op = 3 then ecc_verify E r
                  else Some r)
      in case result of
           None \<Rightarrow> r
         | Some r \<Rightarrow>
             if bit (ecc_control r) 4
             then (case generate_dh_shared_key E r of
                     None \<Rightarrow> r\<lparr>ecc_status := ecc_status r OR 1, ecc_error_internal_intr := 1\<rparr>
                   | Some r \<Rightarrow> r\<lparr>ecc_status := ecc_status r OR 3\<rparr>)
             else r\<lparr>ecc_status := ecc_status r OR 3\<rparr>)"

definition ecc_poll :: "p384 \<Rightarrow> AsymEcc384 \<Rightarrow> AsymEcc384" where
  "ecc_poll E r =
     (if ecc_op_complete_action r = Some 0 then ecc_op_complete E (r\<lparr>ecc_op_complete_action := None\<rparr>)
      else if op_key_read_complete_action r = Some 0 then key_read_complete (r\<lparr>op_key_read_complete_action := None\<rparr>)
      else if op_seed_read_complete_action r = Some 0 then seed_read_complete (r\<lparr>op_seed_read_complete_action := None\<rparr>)
      else if op_key_write_complete_action r = Some 0 then key_write_complete (r\<lparr>op_key_write_complete_action := None\<rparr>)
      else r)"

definition ecc_tick :: "p384 \<Rightarrow> AsymEcc384 \<Rightarrow> AsymEcc384" where
  "ecc_tick E r = ecc_poll E (r\<lparr>ecc_op_complete_action := map_option (\<lambda>n. n - 1) (ecc_op_complete_action r),
     op_key_read_complete_action := map_option (\<lambda>n. n - 1) (op_key_read_complete_action r),
     op_seed_read_complete_action := map_option (\<lambda>n. n - 1) (op_seed_read_complete_action r),
     op_key_write_complete_action := map_option (\<lambda>n. n - 1) (op_key_write_complete_action r)\<rparr>)"

end
