(* ===== verification/Cfi.thy ===== *)
theory Cfi
  imports CaliptraError
begin

unbundle bit_operations_syntax

text \<open>
  The control-flow-integrity library \<^verbatim>\<open>cfi/lib/src\<close> and the wrapper that
  \<^verbatim>\<open>cfi/derive/src/lib.rs\<close> puts around a function, in the configuration of the firmware
  (features \<^verbatim>\<open>cfi\<close> and \<^verbatim>\<open>cfi-counter\<close>, 32-bit RISC-V target).

  \<^item> Assertions end in \<open>CfiPanic\<close> with the code of the panic information when the condition is
    false; \<^verbatim>\<open>cfi_launder\<close> is the identity. The delay in front of each check is a busy wait
    whose only effect is on the random number generator of \<^verbatim>\<open>CFI_STATE\<close>: the assertions that other
    components call leave it out, and \<open>cfi_assert_eq_timed\<close> with it has the same outcome.
  \<^item> The counter and the generator are the record \<open>CfiState\<close>; the entropy source of
    \<^verbatim>\<open>mix_entropy\<close> is the sequence of results its calls return.
\<close>

section \<open>Panic information\<close>

datatype CfiPanicInfo =
    CounterCorrupt
  | CounterOverflow
  | CounterUnderflow
  | CounterMismatch
  | AssertEqFail
  | AssertNeFail
  | AssertGtFail
  | AssertLtFail
  | AssertGeFail
  | AssertLeFail
  | TrngError
  | UnexpectedMatchBranch
  | UnknownError

definition cfi_panic_code :: "CfiPanicInfo \<Rightarrow> u32" where
  "cfi_panic_code info = (case info of
      CounterCorrupt \<Rightarrow> ROM_CFI_PANIC_COUNTER_CORRUPT
    | CounterOverflow \<Rightarrow> ROM_CFI_PANIC_COUNTER_OVERFLOW
    | CounterUnderflow \<Rightarrow> ROM_CFI_PANIC_COUNTER_UNDERFLOW
    | CounterMismatch \<Rightarrow> ROM_CFI_PANIC_COUNTER_MISMATCH
    | AssertEqFail \<Rightarrow> ROM_CFI_PANIC_ASSERT_EQ_FAILURE
    | AssertNeFail \<Rightarrow> ROM_CFI_PANIC_ASSERT_NE_FAILURE
    | AssertGtFail \<Rightarrow> ROM_CFI_PANIC_ASSERT_GT_FAILURE
    | AssertLtFail \<Rightarrow> ROM_CFI_PANIC_ASSERT_LT_FAILURE
    | AssertGeFail \<Rightarrow> ROM_CFI_PANIC_ASSERT_GE_FAILURE
    | AssertLeFail \<Rightarrow> ROM_CFI_PANIC_ASSERT_LE_FAILURE
    | TrngError \<Rightarrow> ROM_CFI_PANIC_TRNG_FAILURE
    | _ \<Rightarrow> ROM_CFI_PANIC_UNKNOWN)"

definition cfi_panic :: "CfiPanicInfo \<Rightarrow> ('s, 'a) action" where
  "cfi_panic info = liftO (CfiPanic (cfi_panic_code info))"

definition cfi_launder :: "'a \<Rightarrow> 'a" where
  "cfi_launder x = x"

lemma cfi_launder_id [simp]: "cfi_launder x = x"
  by (simp add: cfi_launder_def)

section \<open>Assertions\<close>

text \<open>The body of \<^verbatim>\<open>cfi_assert_macro\<close>: the check, and the second check for glitch protection.\<close>

definition cfi_assert_op :: "('a \<Rightarrow> 'a \<Rightarrow> bool) \<Rightarrow> CfiPanicInfo \<Rightarrow> 'a \<Rightarrow> 'a \<Rightarrow> ('s, unit) action" where
  "cfi_assert_op op info lhs rhs =
     (if \<not> op lhs rhs then cfi_panic info
      else if \<not> op (cfi_launder lhs) (cfi_launder rhs) then cfi_panic info
      else ret ())"

definition cfi_assert_eq :: "'a \<Rightarrow> 'a \<Rightarrow> ('s, unit) action" where
  "cfi_assert_eq = cfi_assert_op (=) AssertEqFail"

definition cfi_assert_ne :: "'a \<Rightarrow> 'a \<Rightarrow> ('s, unit) action" where
  "cfi_assert_ne = cfi_assert_op (\<noteq>) AssertNeFail"

definition cfi_assert_gt :: "'a::linorder \<Rightarrow> 'a \<Rightarrow> ('s, unit) action" where
  "cfi_assert_gt = cfi_assert_op (>) AssertGtFail"

definition cfi_assert_lt :: "'a::linorder \<Rightarrow> 'a \<Rightarrow> ('s, unit) action" where
  "cfi_assert_lt = cfi_assert_op (<) AssertLtFail"

definition cfi_assert_ge :: "'a::linorder \<Rightarrow> 'a \<Rightarrow> ('s, unit) action" where
  "cfi_assert_ge = cfi_assert_op (\<ge>) AssertGeFail"

definition cfi_assert_le :: "'a::linorder \<Rightarrow> 'a \<Rightarrow> ('s, unit) action" where
  "cfi_assert_le = cfi_assert_op (\<le>) AssertLeFail"

definition cfi_assert_bool :: "bool \<Rightarrow> ('s, unit) action" where
  "cfi_assert_bool cond =
     (if \<not> cond then cfi_panic AssertEqFail
      else if \<not> cfi_launder cond then cfi_panic AssertEqFail
      else ret ())"

lemma cfi_assert_holds [simp]:
  "cfi_assert_eq x x = ret ()" "x \<noteq> y \<Longrightarrow> cfi_assert_ne x y = ret ()"
  "b \<le> a \<Longrightarrow> cfi_assert_ge a b = ret ()" "a \<le> b \<Longrightarrow> cfi_assert_le a b = ret ()"
  "cfi_assert_bool True = ret ()"
  for a b :: "'a::linorder"
  by (simp_all add: cfi_assert_eq_def cfi_assert_ne_def cfi_assert_ge_def cfi_assert_le_def
      cfi_assert_bool_def cfi_assert_op_def)

text \<open>
  The unrolled assembly of the word-array assertions: load the two words at each byte offset,
  branch to the trampoline on a difference; the trampoline loads the literal code and jumps to
  the panic handler. The not-equal variant leaves at the first difference.
\<close>

definition lw :: "u32 list \<Rightarrow> nat \<Rightarrow> u32" where
  "lw a off = a ! (off div 4)"

primrec asm_eq_words :: "nat list \<Rightarrow> u32 list \<Rightarrow> u32 list \<Rightarrow> ('s, unit) action" where
  "asm_eq_words [] a b = ret ()"
| "asm_eq_words (off # offs) a b =
     (if lw a off \<noteq> lw b off then liftO (CfiPanic 0x01040055) else asm_eq_words offs a b)"

primrec asm_ne_words :: "nat list \<Rightarrow> u32 list \<Rightarrow> u32 list \<Rightarrow> ('s, unit) action" where
  "asm_ne_words [] a b = liftO (CfiPanic 0x01040056)"
| "asm_ne_words (off # offs) a b =
     (if lw a off \<noteq> lw b off then ret () else asm_ne_words offs a b)"

definition cfi_assert_eq_16_words :: "u32 list \<Rightarrow> u32 list \<Rightarrow> ('s, unit) action" where
  "cfi_assert_eq_16_words =
     asm_eq_words [0, 4, 8, 12, 16, 20, 24, 28, 32, 36, 40, 44, 48, 52, 56, 60]"

definition cfi_assert_ne_16_words :: "u32 list \<Rightarrow> u32 list \<Rightarrow> ('s, unit) action" where
  "cfi_assert_ne_16_words =
     asm_ne_words [0, 4, 8, 12, 16, 20, 24, 28, 32, 36, 40, 44, 48, 52, 56, 60]"

definition cfi_assert_eq_12_words :: "u32 list \<Rightarrow> u32 list \<Rightarrow> ('s, unit) action" where
  "cfi_assert_eq_12_words = asm_eq_words [0, 4, 8, 12, 16, 20, 24, 28, 32, 36, 40, 44]"

definition cfi_assert_eq_8_words :: "u32 list \<Rightarrow> u32 list \<Rightarrow> ('s, unit) action" where
  "cfi_assert_eq_8_words = asm_eq_words [0, 4, 8, 12, 16, 20, 24, 28]"

definition cfi_assert_eq_6_words :: "u32 list \<Rightarrow> u32 list \<Rightarrow> ('s, unit) action" where
  "cfi_assert_eq_6_words = asm_eq_words [0, 4, 8, 12, 16, 20]"

lemmas cfi_assert_words_defs = cfi_assert_eq_16_words_def cfi_assert_ne_16_words_def
  cfi_assert_eq_12_words_def cfi_assert_eq_8_words_def cfi_assert_eq_6_words_def

lemma asm_eq_words_refl [simp]: "asm_eq_words offs a a = ret ()"
  by (induction offs) auto

lemma cfi_assert_eq_words_refl [simp]:
  "cfi_assert_eq_12_words a a = ret ()" "cfi_assert_eq_6_words a a = ret ()"
  "cfi_assert_eq_8_words a a = ret ()" "cfi_assert_eq_16_words a a = ret ()"
  by (simp_all add: cfi_assert_words_defs)

lemma asm_eq_words_all:
  "asm_eq_words offs a b =
     (if \<forall>off \<in> set offs. lw a off = lw b off then ret () else cfi_panic AssertEqFail)"
  by (induction offs)
    (auto simp: cfi_panic_def cfi_panic_code_def)

lemma asm_ne_words_all:
  "asm_ne_words offs a b =
     (if \<forall>off \<in> set offs. lw a off = lw b off then cfi_panic AssertNeFail else ret ())"
  by (induction offs)
    (auto simp: cfi_panic_def cfi_panic_code_def)

lemma lw_words_eq:
  "length a = n \<Longrightarrow> length b = n \<Longrightarrow>
     (\<forall>off \<in> (\<lambda>i. 4 * i) ` {..<n}. lw a off = lw b off) \<longleftrightarrow> a = b"
  by (auto simp: lw_def list_eq_iff_nth_eq)

lemma byte_offsets:
  "{0, 4, 8, 12, 16, 20} = (\<lambda>i. 4 * i) ` {..<6::nat}"
  "{0, 4, 8, 12, 16, 20, 24, 28} = (\<lambda>i. 4 * i) ` {..<8::nat}"
  "{0, 4, 8, 12, 16, 20, 24, 28, 32, 36, 40, 44} = (\<lambda>i. 4 * i) ` {..<12::nat}"
  "{0, 4, 8, 12, 16, 20, 24, 28, 32, 36, 40, 44, 48, 52, 56, 60} = (\<lambda>i. 4 * i) ` {..<16::nat}"
  by (auto simp: lessThan_nat_numeral lessThan_Suc)

lemma cfi_assert_words_eq_spec:
  "length a = 6 \<Longrightarrow> length b = 6 \<Longrightarrow> cfi_assert_eq_6_words a b = cfi_assert_eq a b"
  "length a = 8 \<Longrightarrow> length b = 8 \<Longrightarrow> cfi_assert_eq_8_words a b = cfi_assert_eq a b"
  "length a = 12 \<Longrightarrow> length b = 12 \<Longrightarrow> cfi_assert_eq_12_words a b = cfi_assert_eq a b"
  "length a = 16 \<Longrightarrow> length b = 16 \<Longrightarrow> cfi_assert_eq_16_words a b = cfi_assert_eq a b"
  "length a = 16 \<Longrightarrow> length b = 16 \<Longrightarrow> cfi_assert_ne_16_words a b = cfi_assert_ne a b"
  by (simp_all only: cfi_assert_words_defs asm_eq_words_all asm_ne_words_all cfi_assert_eq_def
      cfi_assert_ne_def cfi_assert_op_def cfi_launder_id list.set byte_offsets lw_words_eq)
    simp_all

section \<open>The xoshiro128** generator\<close>

record Xoshiro128 =
  s0 :: u32
  s1 :: u32
  s2 :: u32
  s3 :: u32

definition new_with_seed :: "u32 \<Rightarrow> u32 \<Rightarrow> u32 \<Rightarrow> u32 \<Rightarrow> Xoshiro128" where
  "new_with_seed a b c d = \<lparr>s0 = a, s1 = b, s2 = c, s3 = d\<rparr>"

definition new_unseeded :: Xoshiro128 where
  "new_unseeded = new_with_seed 0 0 0 0"

definition rotate_left :: "nat \<Rightarrow> u32 \<Rightarrow> u32" where
  "rotate_left n w = push_bit n w OR drop_bit (32 - n) w"

definition xoshiro_next :: "Xoshiro128 \<Rightarrow> u32 \<times> Xoshiro128" where
  "xoshiro_next g =
     (let a = s0 g; b = s1 g; c = s2 g; d = s3 g;
          result = rotate_left 7 (b * 5) * 9;
          t = push_bit 9 b;
          c = c XOR a;
          d = d XOR b;
          b = b XOR c;
          a = a XOR d;
          c = c XOR t;
          d = rotate_left 11 d
      in (result, \<lparr>s0 = a, s1 = b, s2 = c, s3 = d\<rparr>))"

definition xoshiro_nonzero :: "Xoshiro128 \<Rightarrow> bool" where
  "xoshiro_nonzero g \<longleftrightarrow> s0 g OR s1 g OR s2 g OR s3 g \<noteq> 0"

text \<open>
  \<^verbatim>\<open>mix_entropy\<close> loops until the state is not zero. Its entropy source is the list of results of
  the calls to come; \<open>None\<close> is a loop that has not left after all of them.
\<close>

primrec mix_entropy ::
  "(u32 \<times> u32 \<times> u32 \<times> u32) outcome list \<Rightarrow> Xoshiro128 \<Rightarrow> (unit outcome \<times> Xoshiro128) option" where
  "mix_entropy [] g = None"
| "mix_entropy (r # rs) g =
     (case r of
        Ok (a, b, c, d) \<Rightarrow>
          (let g' = \<lparr>s0 = s0 g XOR a, s1 = s1 g XOR b, s2 = s2 g XOR c, s3 = s3 g XOR d\<rparr>
           in if xoshiro_nonzero g' then Some (Ok (), g') else mix_entropy rs g')
      | _ \<Rightarrow> Some (cfi_panic TrngError g))"

lemma or_eq_0_word: "x OR y = 0 \<longleftrightarrow> x = 0 \<and> y = 0" for x y :: "'a::len word"
  by (metis or_eq_0_iff word_bw_comms(2))

lemma xoshiro_nonzero_iff: "xoshiro_nonzero g \<longleftrightarrow> \<not> (s0 g = 0 \<and> s1 g = 0 \<and> s2 g = 0 \<and> s3 g = 0)"
  by (simp add: xoshiro_nonzero_def or_eq_0_word)

lemma bit_rotate_left:
  assumes "n < 32"
  shows "bit (rotate_left n w) i \<longleftrightarrow> i < 32 \<and> bit w ((i + (32 - n)) mod 32)"
proof (cases "i < n")
  case True
  then have "(i + (32 - n)) mod 32 = i + (32 - n)" using assms by (intro mod_less) simp
  with True assms show ?thesis by (simp add: rotate_left_def bit_simps add.commute)
next
  case False
  have eq: "i + (32 - n) = i - n + 32" using False assms by simp
  have "(i + (32 - n)) mod 32 = (i - n) mod 32" unfolding eq by simp
  moreover have "\<not> bit w (i + (32 - n))"
    using False assms by (auto dest: bit_imp_le_length)
  ultimately show ?thesis using False
    by (auto simp: rotate_left_def bit_simps add.commute)
qed

lemma rotate_left_0_iff:
  assumes "n < 32"
  shows "rotate_left n w = 0 \<longleftrightarrow> w = 0"
proof
  assume zero: "rotate_left n w = 0"
  show "w = 0"
  proof (rule bit_word_eqI)
    fix i assume "i < LENGTH(32)"
    then have i: "i < 32" by simp
    have "((i + n) mod 32 + (32 - n)) mod 32 = (i + n + (32 - n)) mod 32"
      by (rule mod_add_left_eq)
    also have "i + n + (32 - n) = i + 32" using assms by simp
    finally have "bit (rotate_left n w) ((i + n) mod 32) = bit w i"
      using assms i by (simp only: bit_rotate_left) simp
    then show "bit w i = bit 0 i" using zero by simp
  qed
qed (simp add: rotate_left_def)

lemma xor_shift_0:
  fixes w :: u32
  assumes "w XOR push_bit 9 w = 0"
  shows "w = 0"
proof (rule bit_word_eqI)
  fix i
  show "bit w i = bit 0 i"
  proof (induction i rule: less_induct)
    case (less i)
    have "bit (w XOR push_bit 9 w) i = False" using assms by simp
    then show ?case using less [of "i - 9"] by (auto simp: bit_simps dest: bit_imp_le_length)
  qed
qed

lemma xor_eq_0_iff_word: "x XOR y = 0 \<longleftrightarrow> x = y" for x y :: "'a::len word"
  by (metis xor.assoc xor.left_neutral xor.right_neutral xor_self_eq)

lemma xoshiro_next_zero:
  assumes "\<not> xoshiro_nonzero (snd (xoshiro_next g))"
  shows "\<not> xoshiro_nonzero g"
proof -
  let ?c = "s2 g XOR s0 g" and ?d = "s3 g XOR s1 g"
  have "s0 g XOR ?d = 0" "s1 g XOR ?c = 0" "?c XOR push_bit 9 (s1 g) = 0" "rotate_left 11 ?d = 0"
    using assms by (simp_all add: xoshiro_nonzero_iff xoshiro_next_def Let_def)
  then have d: "?d = 0" and a: "s0 g = ?d" and b: "s1 g = ?c" and c: "?c = push_bit 9 (s1 g)"
    by (simp_all add: rotate_left_0_iff xor_eq_0_iff_word)
  have "s1 g XOR push_bit 9 (s1 g) = 0" using b c by simp
  then have "s1 g = 0" by (rule xor_shift_0)
  with a b d show ?thesis by (simp add: xoshiro_nonzero_iff)
qed

lemma mix_entropy_nonzero: "mix_entropy rs g = Some (Ok (), g') \<Longrightarrow> xoshiro_nonzero g'"
  by (induction rs arbitrary: g)
    (auto simp: cfi_panic_def Let_def split: outcome.splits prod.splits if_splits)

text \<open>The loop leaves at the first call that fails or yields a state other than zero.\<close>

lemma mix_entropy_returns:
  "\<exists>r \<in> set rs. \<forall>e. r = Ok e \<longrightarrow> False \<Longrightarrow> \<exists>y. mix_entropy rs g = Some y"
  by (induction rs arbitrary: g) (auto simp: Let_def split: outcome.splits prod.splits)

section \<open>The counter\<close>

record CfiInt =
  cfi_val :: u32
  cfi_masked_val :: u32

definition CfiInt_MASK :: u32 where "CfiInt_MASK = 0xA5A5A5A5"

definition CfiInt_from_raw :: "u32 \<Rightarrow> u32 \<Rightarrow> CfiInt" where
  "CfiInt_from_raw v m = \<lparr>cfi_val = v, cfi_masked_val = m\<rparr>"

definition CfiInt_encode :: "u32 \<Rightarrow> CfiInt" where
  "CfiInt_encode v = \<lparr>cfi_val = v, cfi_masked_val = v XOR CfiInt_MASK\<rparr>"

definition CfiInt_is_valid :: "CfiInt \<Rightarrow> bool" where
  "CfiInt_is_valid i \<longleftrightarrow> cfi_val i = cfi_masked_val i XOR CfiInt_MASK"

definition CfiInt_default :: CfiInt where
  "CfiInt_default = CfiInt_encode 0"

record CfiState =
  state_val :: u32
  state_mask :: u32
  state_prng :: Xoshiro128

definition CfiCounter_read :: "CfiState \<Rightarrow> CfiInt" where
  "CfiCounter_read st = CfiInt_from_raw (state_val st) (state_mask st)"

definition CfiCounter_write :: "CfiInt \<Rightarrow> CfiState \<Rightarrow> CfiState" where
  "CfiCounter_write i st = st\<lparr>state_val := cfi_val i, state_mask := cfi_masked_val i\<rparr>"

definition reset_internal :: "CfiState \<Rightarrow> CfiState" where
  "reset_internal st = CfiCounter_write CfiInt_default st"

definition CfiCounter_reset ::
  "(u32 \<times> u32 \<times> u32 \<times> u32) outcome list \<Rightarrow> CfiState \<Rightarrow> (unit outcome \<times> CfiState) option" where
  "CfiCounter_reset entropy st =
     (case mix_entropy entropy (state_prng st) of
        None \<Rightarrow> None
      | Some (Ok _, g) \<Rightarrow> Some (Ok (), reset_internal (st\<lparr>state_prng := g\<rparr>))
      | Some (r, g) \<Rightarrow> Some (r, st\<lparr>state_prng := g\<rparr>))"

definition CfiCounter_corrupt :: "CfiState \<Rightarrow> CfiState" where
  "CfiCounter_corrupt st = CfiCounter_write \<lparr>cfi_val = 0, cfi_masked_val = 0\<rparr> st"

definition CfiCounter_increment :: "(CfiState, CfiInt) action" where
  "CfiCounter_increment = bindE (gets CfiCounter_read) (\<lambda>int.
     if \<not> CfiInt_is_valid int then cfi_panic CounterCorrupt
     else let (new, overflow) = overflowing_add (cfi_val int) 1
     in if overflow then cfi_panic CounterOverflow
     else (\<lambda>st. (Ok int, CfiCounter_write (CfiInt_encode new) st)))"

definition CfiCounter_decrement :: "(CfiState, CfiInt) action" where
  "CfiCounter_decrement = bindE (gets CfiCounter_read) (\<lambda>v.
     if \<not> CfiInt_is_valid v then cfi_panic CounterCorrupt
     else let (new, underflow) = overflowing_sub (cfi_val v) 1
     in if underflow then cfi_panic CounterUnderflow
     else (\<lambda>st. let st' = CfiCounter_write (CfiInt_encode new) st in (Ok (CfiCounter_read st'), st')))"

definition CfiCounter_assert_eq :: "CfiInt \<Rightarrow> CfiInt \<Rightarrow> ('s, unit) action" where
  "CfiCounter_assert_eq v1 v2 =
     (if \<not> CfiInt_is_valid v1 then cfi_panic CounterCorrupt
      else if \<not> CfiInt_is_valid v2 then cfi_panic CounterCorrupt
      else if v1 \<noteq> v2 then cfi_panic CounterMismatch
      else ret ())"

text \<open>\<^verbatim>\<open>delay\<close> draws a number for the length of a busy wait.\<close>

definition CfiCounter_delay :: "(CfiState, unit) action" where
  "CfiCounter_delay st = (Ok (), st\<lparr>state_prng := snd (xoshiro_next (state_prng st))\<rparr>)"

definition cfi_assert_eq_timed :: "'a \<Rightarrow> 'a \<Rightarrow> (CfiState, unit) action" where
  "cfi_assert_eq_timed lhs rhs =
     bindE CfiCounter_delay (\<lambda>_.
     if lhs \<noteq> rhs then cfi_panic AssertEqFail
     else bindE CfiCounter_delay (\<lambda>_.
     if cfi_launder lhs \<noteq> cfi_launder rhs then cfi_panic AssertEqFail
     else ret ()))"

lemma cfi_assert_eq_timed_outcome: "fst (cfi_assert_eq_timed a b st) = fst (cfi_assert_eq a b s)"
  by (simp add: cfi_assert_eq_timed_def cfi_assert_eq_def cfi_assert_op_def bindE_def
      CfiCounter_delay_def cfi_panic_def)

section \<open>The wrapper of a protected function\<close>

text \<open>
  \<open>onCfi\<close> runs a counter operation on the CFI part of the state. \<open>attempt\<close> makes the result of a
  call a value, as the wrapper does with the result it returns at its end; panics do not return.
\<close>

definition onCfi :: "(CfiState, 'a) action \<Rightarrow> (CfiState \<times> 's, 'a) action" where
  "onCfi m = (\<lambda>(c, s). case m c of (r, c') \<Rightarrow> (r, (c', s)))"

definition attempt :: "('s, 'a) action \<Rightarrow> ('s, 'a outcome) action" where
  "attempt m = (\<lambda>s. case m s of
      (Ok x, t) \<Rightarrow> (Ok (Ok x), t)
    | (Err e, t) \<Rightarrow> (Ok (Err e), t)
    | (CfiPanic p, t) \<Rightarrow> (CfiPanic p, t)
    | (RustPanic, t) \<Rightarrow> (RustPanic, t))"

definition orig_fn :: "(CfiState \<times> 's, 'a) action \<Rightarrow> (CfiState \<times> 's, 'a) action" where
  "orig_fn body = bindE (onCfi CfiCounter_increment) (\<lambda>_. body)"

definition wrapper_fn :: "(CfiState \<times> 's, 'a) action \<Rightarrow> (CfiState \<times> 's, 'a) action" where
  "wrapper_fn fn_call =
     bindE (onCfi (gets CfiCounter_read)) (\<lambda>saved_ctr.
     bindE (onCfi CfiCounter_delay) (\<lambda>_.
     bindE (attempt fn_call) (\<lambda>result.
     bindE (onCfi CfiCounter_delay) (\<lambda>_.
     bindE (onCfi CfiCounter_decrement) (\<lambda>new_ctr.
     bindE (CfiCounter_assert_eq saved_ctr new_ctr) (\<lambda>_.
     liftO result))))))"

definition cfi_fn :: "(CfiState \<times> 's, 'a) action \<Rightarrow> (CfiState \<times> 's, 'a) action" where
  "cfi_fn body = wrapper_fn (orig_fn body)"

lemma CfiCounter_read_write [simp]: "CfiCounter_read (CfiCounter_write i st) = i"
  by (simp add: CfiCounter_read_def CfiCounter_write_def CfiInt_from_raw_def)

lemma CfiCounter_read_prng [simp]: "CfiCounter_read (st\<lparr>state_prng := g\<rparr>) = CfiCounter_read st"
  by (simp add: CfiCounter_read_def)

lemma CfiInt_encode_valid [simp]: "CfiInt_is_valid (CfiInt_encode v)"
  by (simp add: CfiInt_encode_def CfiInt_is_valid_def xor.assoc)

lemma CfiInt_encode_val [simp]: "cfi_val (CfiInt_encode v) = v"
  by (simp add: CfiInt_encode_def)

lemma CfiInt_valid_eq: "CfiInt_is_valid i \<Longrightarrow> CfiInt_encode (cfi_val i) = i"
  by (cases i) (simp add: CfiInt_is_valid_def CfiInt_encode_def xor.assoc)

lemma CfiInt_encode_inj [simp]: "CfiInt_encode v = CfiInt_encode w \<longleftrightarrow> v = w"
  by (metis CfiInt_encode_val)

lemma onCfi_apply: "onCfi m (c, s) = (fst (m c), (snd (m c), s))"
  by (simp add: onCfi_def split: prod.splits)

lemma onCfi_delay [simp]:
  "onCfi CfiCounter_delay (c, s) = (Ok (), (c\<lparr>state_prng := snd (xoshiro_next (state_prng c))\<rparr>, s))"
  by (simp add: onCfi_apply CfiCounter_delay_def)

lemma onCfi_read [simp]: "onCfi (gets CfiCounter_read) (c, s) = (Ok (CfiCounter_read c), (c, s))"
  by (simp add: onCfi_apply)

lemma increment_ok:
  "CfiInt_is_valid (CfiCounter_read c) \<Longrightarrow> cfi_val (CfiCounter_read c) < 0xFFFFFFFF \<Longrightarrow>
     CfiCounter_increment c =
       (Ok (CfiCounter_read c), CfiCounter_write (CfiInt_encode (cfi_val (CfiCounter_read c) + 1)) c)"
  by (simp add: CfiCounter_increment_def overflowing_add_def bindE_def word_less_nat_alt)

lemma decrement_cases:
  "CfiCounter_decrement c =
     (if \<not> CfiInt_is_valid (CfiCounter_read c) then (CfiPanic (cfi_panic_code CounterCorrupt), c)
      else if cfi_val (CfiCounter_read c) = 0 then (CfiPanic (cfi_panic_code CounterUnderflow), c)
      else (Ok (CfiInt_encode (cfi_val (CfiCounter_read c) - 1)),
            CfiCounter_write (CfiInt_encode (cfi_val (CfiCounter_read c) - 1)) c))"
proof -
  have lt: "v < 1 \<longleftrightarrow> v = 0" for v :: u32 by (simp add: word_less_nat_alt unat_eq_zero)
  show ?thesis
    by (simp add: CfiCounter_decrement_def overflowing_sub_def bindE_def cfi_panic_def Let_def lt)
qed

lemma assert_eq_apply:
  "CfiCounter_assert_eq v1 v2 s =
     (if \<not> CfiInt_is_valid v1 \<or> \<not> CfiInt_is_valid v2 then CfiPanic (cfi_panic_code CounterCorrupt)
      else if v1 \<noteq> v2 then CfiPanic (cfi_panic_code CounterMismatch) else Ok (), s)"
  by (simp add: CfiCounter_assert_eq_def cfi_panic_def)

text \<open>
  What the wrapper returns, given what the wrapped call did: panics of the call go through;
  otherwise the counter the call left must be one more than the counter at the entry.
\<close>

lemma wrapper_fn_apply:
  assumes "fn_call (c\<lparr>state_prng := snd (xoshiro_next (state_prng c))\<rparr>, s) = (r, (d, t))"
    and "\<not> is_panic r"
  defines "d' \<equiv> d\<lparr>state_prng := snd (xoshiro_next (state_prng d))\<rparr>"
    and "v \<equiv> cfi_val (CfiCounter_read d)"
  shows "wrapper_fn fn_call (c, s) =
     (if \<not> CfiInt_is_valid (CfiCounter_read d) then (CfiPanic (cfi_panic_code CounterCorrupt), (d', t))
      else if v = 0 then (CfiPanic (cfi_panic_code CounterUnderflow), (d', t))
      else (if \<not> CfiInt_is_valid (CfiCounter_read c) then CfiPanic (cfi_panic_code CounterCorrupt)
            else if CfiCounter_read c \<noteq> CfiInt_encode (v - 1) then CfiPanic (cfi_panic_code CounterMismatch)
            else r,
            (CfiCounter_write (CfiInt_encode (v - 1)) d', t)))"
proof -
  have tr: "attempt fn_call (c\<lparr>state_prng := snd (xoshiro_next (state_prng c))\<rparr>, s) = (Ok r, (d, t))"
    using assms(1,2) by (cases r) (simp_all add: attempt_def)
  show ?thesis
    unfolding wrapper_fn_def d'_def v_def
    by (simp add: bindE_def tr onCfi_apply [of CfiCounter_decrement] decrement_cases assert_eq_apply)
qed

lemma wrapper_fn_panic:
  assumes "fn_call (c\<lparr>state_prng := snd (xoshiro_next (state_prng c))\<rparr>, s) = (r, (d, t))" "is_panic r"
  shows "is_panic (fst (wrapper_fn fn_call (c, s)))"
proof -
  have "fst (attempt fn_call (c\<lparr>state_prng := snd (xoshiro_next (state_prng c))\<rparr>, s)) = CfiPanic p
      \<or> fst (attempt fn_call (c\<lparr>state_prng := snd (xoshiro_next (state_prng c))\<rparr>, s)) = RustPanic"
    if "r = CfiPanic p \<or> r = RustPanic" for p
    using that assms(1) by (auto simp: attempt_def)
  then show ?thesis
    using assms(2) unfolding wrapper_fn_def
    by (cases r) (auto simp: bindE_def split: prod.splits outcome.splits)
qed

lemma wrapper_fn_restores:
  assumes "wrapper_fn fn_call (c, s) = (r, (c', s'))" "\<not> is_panic r"
  shows "CfiCounter_read c' = CfiCounter_read c"
proof -
  obtain q d t where call: "fn_call (c\<lparr>state_prng := snd (xoshiro_next (state_prng c))\<rparr>, s) = (q, (d, t))"
    by (metis surj_pair)
  have "\<not> is_panic q" using wrapper_fn_panic [of fn_call c s q d t] call assms by auto
  from wrapper_fn_apply [of fn_call c s q d t, OF call this] assms show ?thesis
    by (auto split: if_splits)
qed

text \<open>A call is balanced when it returns with the counter it was entered with.\<close>

definition balanced :: "(CfiState \<times> 's, 'a) action \<Rightarrow> bool" where
  "balanced m \<longleftrightarrow> (\<forall>c s r c' s'. m (c, s) = (r, (c', s')) \<longrightarrow> \<not> is_panic r \<longrightarrow>
     CfiCounter_read c' = CfiCounter_read c)"

lemma balanced_wrapper: "balanced (wrapper_fn f)"
  by (auto simp: balanced_def intro: wrapper_fn_restores)

lemma wrapper_skip_panics:
  assumes bal: "balanced f"
  shows "is_panic (fst (wrapper_fn f (c, s)))"
proof -
  obtain q d t where call: "f (c\<lparr>state_prng := snd (xoshiro_next (state_prng c))\<rparr>, s) = (q, (d, t))"
    by (metis surj_pair)
  show ?thesis
  proof (cases "is_panic q")
    case True
    then show ?thesis using wrapper_fn_panic [of f c s q d t] call by simp
  next
    case False
    have "CfiCounter_read d = CfiCounter_read c"
      using bal call False unfolding balanced_def by fastforce
    moreover have "CfiCounter_read c \<noteq> CfiInt_encode (cfi_val (CfiCounter_read c) - 1)"
      using CfiInt_encode_val by (metis diff_0_right diff_left_imp_eq zero_neq_one)
    ultimately show ?thesis
      using wrapper_fn_apply [of f c s q d t, OF call False] by auto
  qed
qed

text \<open>The CFI state in which the body of a protected function starts.\<close>

definition cfi_entered :: "CfiState \<Rightarrow> CfiState" where
  "cfi_entered c = CfiCounter_write (CfiInt_encode (cfi_val (CfiCounter_read c) + 1))
     (c\<lparr>state_prng := snd (xoshiro_next (state_prng c))\<rparr>)"

lemma orig_fn_apply:
  assumes "CfiInt_is_valid (CfiCounter_read c)" "cfi_val (CfiCounter_read c) < 0xFFFFFFFF"
  shows "orig_fn body (c\<lparr>state_prng := snd (xoshiro_next (state_prng c))\<rparr>, s) = body (cfi_entered c, s)"
  using assms by (simp add: orig_fn_def onCfi_apply increment_ok bindE_def cfi_entered_def)

lemma max_word_add1_neq_0: "v < 0xFFFFFFFF \<Longrightarrow> v + 1 \<noteq> 0" for v :: u32
proof
  assume v: "v < 0xFFFFFFFF" and "v + 1 = 0"
  then have "v = - 1" by (simp add: eq_neg_iff_add_eq_0)
  with v show False by simp
qed

lemma cfi_fn_transparent_lemma:
  assumes ctr: "CfiInt_is_valid (CfiCounter_read c)" "cfi_val (CfiCounter_read c) < 0xFFFFFFFF"
    and bal: "balanced body"
  shows "fst (cfi_fn body (c, s)) = fst (body (cfi_entered c, s)) \<or>
         is_panic (fst (cfi_fn body (c, s))) \<and> is_panic (fst (body (cfi_entered c, s)))"
proof -
  obtain q d t where call: "body (cfi_entered c, s) = (q, (d, t))"
    by (metis surj_pair)
  note run = orig_fn_apply [OF ctr, of body s, unfolded call]
  show ?thesis
  proof (cases "is_panic q")
    case True
    then show ?thesis using wrapper_fn_panic [of "orig_fn body" c s q d t, OF run] call by (simp add: cfi_fn_def)
  next
    case False
    have rd: "CfiCounter_read d = CfiInt_encode (cfi_val (CfiCounter_read c) + 1)"
      using bal call False unfolding balanced_def cfi_entered_def by fastforce
    have "wrapper_fn (orig_fn body) (c, s) = (q, snd (wrapper_fn (orig_fn body) (c, s)))"
      using wrapper_fn_apply [of "orig_fn body" c s q d t, OF run False] ctr rd
      by (simp add: max_word_add1_neq_0 CfiInt_valid_eq)
    then show ?thesis using call by (simp add: cfi_fn_def) (metis fst_conv)
  qed
qed

section \<open>What the library guarantees\<close>

definition sample_cfi_state :: CfiState where
  "sample_cfi_state = reset_internal \<lparr>state_val = 7, state_mask = 9, state_prng = new_with_seed 1 2 3 4\<rparr>"

lemma sample_cfi_counter: "CfiCounter_read sample_cfi_state = CfiInt_encode 0"
  by (simp add: sample_cfi_state_def reset_internal_def CfiInt_default_def)

lemma balanced_ret: "balanced (ret x)"
  by (simp add: balanced_def)

text \<open>C21: Whatever the wrapped call does to the counter, a function under the control-flow-integrity
  wrapper that returns (with a value or an error) leaves the counter as it was at the entry.\<close>

theorem cfi_wrapper_restores_counter:
  assumes "cfi_fn body (c, s) = (r, (c', s'))" "\<not> is_panic r"
  shows "CfiCounter_read c' = CfiCounter_read c"
  using assms unfolding cfi_fn_def by (rule wrapper_fn_restores)

theorem cfi_wrapper_restores_counter_witness:
  "fst (cfi_fn (ret (5::nat)) (sample_cfi_state, ())) = Ok 5 \<and>
     CfiCounter_read (fst (snd (cfi_fn (ret (5::nat)) (sample_cfi_state, ())))) =
     CfiCounter_read sample_cfi_state"
proof -
  have run: "fst (cfi_fn (ret (5::nat)) (sample_cfi_state, ())) = Ok 5"
    using cfi_fn_transparent_lemma [OF _ _ balanced_ret, of sample_cfi_state "5::nat" "()"] sample_cfi_counter by simp
  then show ?thesis
    using cfi_wrapper_restores_counter [of "ret (5::nat)" sample_cfi_state "()" "Ok 5"]
    by (metis is_panic_simps(1) prod.collapse)
qed

text \<open>C22: A jump over the entry of a protected function is detected: when the call inside the wrapper
  returns without having counted the entry, the wrapper panics, from every counter and for every
  behaviour of the rest.\<close>

theorem cfi_skipped_entry_panics:
  assumes "balanced rest"
  shows "is_panic (fst (wrapper_fn rest (c, s)))"
  using assms by (rule wrapper_skip_panics)

theorem cfi_skipped_entry_panics_witness:
  "is_panic (fst (wrapper_fn (ret (5::nat)) (sample_cfi_state, ())))"
  by (rule cfi_skipped_entry_panics [OF balanced_ret])

text \<open>C23: The wrapper is transparent for a body that leaves the counter balanced, that is, that restores the
  counter it was called with whenever it returns: from a valid counter below its maximum, the
  protected function returns exactly what its body returns in the state where the entry has been
  counted, or both panic. An unbalanced body is what the wrapper is there to stop.\<close>

theorem cfi_fn_transparent:
  assumes "CfiInt_is_valid (CfiCounter_read c)" "cfi_val (CfiCounter_read c) < 0xFFFFFFFF" "balanced body"
  shows "fst (cfi_fn body (c, s)) = fst (body (cfi_entered c, s)) \<or>
    is_panic (fst (cfi_fn body (c, s))) \<and> is_panic (fst (body (cfi_entered c, s)))"
  using assms by (rule cfi_fn_transparent_lemma)

theorem cfi_fn_transparent_witness:
  "fst (cfi_fn (ret (5::nat)) (sample_cfi_state, ())) = Ok 5"
  using cfi_fn_transparent [OF _ _ balanced_ret, of sample_cfi_state "5::nat" "()"] sample_cfi_counter by simp

text \<open>C36: The hand-written assembly of the word-array assertions agrees with the generic assertion:
  on arrays of their length the equality assertions pass exactly when the arrays are equal, and panic
  with the assertion failure otherwise; the inequality assertion on 16 words passes exactly when the
  arrays differ in some word, and panics otherwise.\<close>

theorem cfi_assert_words_equiv:
  assumes "(n, assert) \<in> {(6, cfi_assert_eq_6_words), (8, cfi_assert_eq_8_words),
      (12, cfi_assert_eq_12_words), (16, cfi_assert_eq_16_words)}"
    and "length a = n" "length b = n"
  shows "assert a b = cfi_assert_eq a b \<and>
    assert a b s = (if a = b then Ok () else CfiPanic ROM_CFI_PANIC_ASSERT_EQ_FAILURE, s) \<and>
    (n = 16 \<longrightarrow> cfi_assert_ne_16_words a b s = (if a = b then CfiPanic ROM_CFI_PANIC_ASSERT_NE_FAILURE else Ok (), s))"
proof -
  have "assert a b = cfi_assert_eq a b"
    using assms cfi_assert_words_eq_spec(1-4) by auto
  moreover have "n = 16 \<Longrightarrow> cfi_assert_ne_16_words a b s = cfi_assert_ne a b s"
    using assms by (auto simp: cfi_assert_words_eq_spec(5))
  ultimately show ?thesis
    by (auto simp: cfi_assert_eq_def cfi_assert_ne_def cfi_assert_op_def cfi_launder_id cfi_panic_def cfi_panic_code_def)
qed

theorem cfi_assert_words_equiv_witness:
  "cfi_assert_eq_12_words [7, 7, 7, 7, 7, 7, 7, 7, 7, 7, 7, 7] [7, 7, 7, 7, 7, 7, 7, 7, 7, 7, 7, 8] () = (CfiPanic ROM_CFI_PANIC_ASSERT_EQ_FAILURE, ())"
  using cfi_assert_words_equiv [of 12 cfi_assert_eq_12_words 
    "[7, 7, 7, 7, 7, 7, 7, 7, 7, 7, 7, 7]" "[7, 7, 7, 7, 7, 7, 7, 7, 7, 7, 7, 8]" "()", THEN conjunct2, THEN conjunct1] by simp

lemma xoshiro_nonzero_iterate: "xoshiro_nonzero g \<Longrightarrow> xoshiro_nonzero (((snd \<circ> xoshiro_next) ^^ n) g)"
  by (induction n) (use xoshiro_next_zero in auto)

text \<open>After a successful reset the counter is valid and zero, and the generator of the random
  delays never reaches the all-zero state, in which it would repeat zero for ever, however many
  numbers are drawn.\<close>

theorem cfi_reset_prng_nonzero:
  assumes "CfiCounter_reset entropy st = Some (Ok (), st')"
  shows "xoshiro_nonzero (((snd \<circ> xoshiro_next) ^^ n) (state_prng st')) \<and> CfiCounter_read st' = CfiInt_encode 0"
  using assms mix_entropy_nonzero
  by (auto simp: CfiCounter_reset_def reset_internal_def CfiInt_default_def CfiCounter_write_def
      CfiCounter_read_def CfiInt_from_raw_def CfiInt_encode_def
      intro!: xoshiro_nonzero_iterate split: option.splits prod.splits outcome.splits)

theorem cfi_reset_prng_nonzero_witness:
  "xoshiro_nonzero (((snd \<circ> xoshiro_next) ^^ 1000)
     (state_prng (snd (the (CfiCounter_reset [Ok (0, 0, 0, 0), Ok (0, 4, 0, 0)] \<lparr>state_val = 0, state_mask = 0, state_prng = new_unseeded\<rparr>)))))"
proof -
  have "\<exists>st'. CfiCounter_reset [Ok (0, 0, 0, 0), Ok (0, 4, 0, 0)]
      \<lparr>state_val = 0, state_mask = 0, state_prng = new_unseeded\<rparr> = Some (Ok (), st')"
    by (simp add: CfiCounter_reset_def new_unseeded_def new_with_seed_def xoshiro_nonzero_def Let_def split: unit.split)
  then show ?thesis using cfi_reset_prng_nonzero by force
qed

text \<open>C37: The loop that mixes entropy into the generator ends: it returns as soon as a call of the
  entropy source after the first one fails or delivers a value other than zero, from every state of
  the generator.\<close>

theorem mix_entropy_terminates:
  assumes "r \<in> set (tl rs)" "r \<noteq> Ok (0, 0, 0, 0)"
  shows "\<exists>y. mix_entropy rs g = Some y"
proof -
  have zero: "\<exists>y. mix_entropy rs g = Some y"
    if "r \<in> set rs" "r \<noteq> Ok (0, 0, 0, 0)" "\<not> xoshiro_nonzero g" for rs and g
    using that
    by (induction rs arbitrary: g) (auto simp: Let_def xoshiro_nonzero_iff split: outcome.splits prod.splits)
  obtain q qs where rs: "rs = q # qs" "r \<in> set qs" using assms by (cases rs) auto
  then show ?thesis
    using zero [OF rs(2) assms(2)] by (simp add: Let_def split: outcome.splits)
qed

theorem mix_entropy_terminates_witness: "\<exists>y. mix_entropy [Ok (1, 2, 3, 4), Ok (0, 5, 0, 0)] new_unseeded = Some y"
  by (rule mix_entropy_terminates [of "Ok (0, 5, 0, 0)"]) simp_all

end
