(* ===== verification/Ecc384Driver.thy ===== *)
theory Ecc384Driver
  imports AsymEcc384 Cfi
begin

unbundle bit_operations_syntax

text \<open>
  The verification half of the ECC-384 driver, \<^verbatim>\<open>drivers/src/ecc384.rs\<close>, on the emulated peripheral:
  the range check of the scalars, the wait with its error condition, and both verification
  functions. The lemmas show that the range check is the test for a nonzero residue of the group
  order, and that a verification returns the \<open>r\<close> of the engine and leaves the engine idle.
\<close>

section \<open>Operations\<close>

datatype Ecc384Result = Ecc384_Success | Ecc384_SigVerifyFailed

record Ecc384PubKey =
  ec_x :: "u32 list"
  ec_y :: "u32 list"

record Ecc384Signature =
  ec_r :: "u32 list"
  ec_s :: "u32 list"

definition SECP384_ORDER_MIN1 :: "u32 list" where
  "SECP384_ORDER_MIN1 = [0xffffffff, 0xffffffff, 0xffffffff, 0xffffffff, 0xffffffff, 0xffffffff, 0xc7634d81,
     0xf4372ddf, 0x581a0db2, 0x48b0a77a, 0xecec196a, 0xccc52972]"

text \<open>The comparison loop: whether it ends without finding the scalar to be greater.\<close>

fun not_above :: "u32 list \<Rightarrow> u32 list \<Rightarrow> bool" where
  "not_above (w # ws) (x # xs) = (if w > x then False else if w < x then True else not_above ws xs)"
| "not_above _ _ = True"

definition scalar_range_check :: "u32 list \<Rightarrow> bool" where
  "scalar_range_check scalar \<longleftrightarrow> not_above scalar SECP384_ORDER_MIN1 \<and> list_ex (\<lambda>word. word \<noteq> 0) scalar"

definition ecc_err_condition :: "AsymEcc384 \<Rightarrow> bool" where
  "ecc_err_condition r \<longleftrightarrow> ecc_error_global_intr r \<noteq> 0 \<or> ecc_error_internal_intr r \<noteq> 0"

definition Ecc384_wait :: "p384 \<Rightarrow> (AsymEcc384 \<Rightarrow> bool) \<Rightarrow> (AsymEcc384, unit) action" where
  "Ecc384_wait E condition =
     bindE (wait_for (\<lambda>r. condition r \<or> ecc_err_condition r) (ecc_tick E)) (\<lambda>_.
     bindE (gets ecc_err_condition) (\<lambda>err.
     if err
     then bindE (\<lambda>r. (Ok (), r\<lparr>ecc_error_internal_intr := ecc_error_internal_intr r\<rparr>)) (\<lambda>_.
          bindE (mmio (ecc_on_write_control Word 4)) (\<lambda>_. throw DRIVER_ECC384_HW_ERROR))
     else ret ()))"

definition Ecc384_zeroize_internal :: "(AsymEcc384, unit) action" where
  "Ecc384_zeroize_internal = mmio (ecc_on_write_control Word 4)"

definition Ecc384_verify_r ::
  "p384 \<Rightarrow> Ecc384PubKey \<Rightarrow> u32 list \<Rightarrow> Ecc384Signature \<Rightarrow> (AsymEcc384, u32 list) action" where
  "Ecc384_verify_r E pub_key digest signature =
     bindE (failIf (\<not> scalar_range_check (ec_r signature) \<or> \<not> scalar_range_check (ec_s signature))
              DRIVER_ECC384_SCALAR_RANGE_CHECK_FAILED) (\<lambda>_.
     bindE (Ecc384_wait E ecc_ready) (\<lambda>_.
     bindE (\<lambda>r. (Ok (), r\<lparr>pub_key_x := ec_x pub_key, pub_key_y := ec_y pub_key, ecc_hash := digest,
                        reg_sig_r := ec_r signature, reg_sig_s := ec_s signature\<rparr>)) (\<lambda>_.
     bindE (mmio (ecc_on_write_control Word 3)) (\<lambda>_.
     bindE (Ecc384_wait E ecc_valid) (\<lambda>_.
     bindE (gets ecc_verify_r) (\<lambda>verify_r.
     bindE Ecc384_zeroize_internal (\<lambda>_. ret verify_r)))))))"

definition Ecc384_verify ::
  "p384 \<Rightarrow> Ecc384PubKey \<Rightarrow> u32 list \<Rightarrow> Ecc384Signature \<Rightarrow> (AsymEcc384, Ecc384Result) action" where
  "Ecc384_verify E pub_key digest signature =
     bindE (Ecc384_verify_r E pub_key digest signature) (\<lambda>verify_r.
     if verify_r = ec_r signature
     then bindE (cfi_assert_eq_12_words verify_r (ec_r signature)) (\<lambda>_. ret Ecc384_Success)
     else ret Ecc384_SigVerifyFailed)"

section \<open>The range check\<close>

text \<open>The number of a list of big-endian words, and the order of the group.\<close>

definition words_num :: "u32 list \<Rightarrow> nat" where
  "words_num ws = foldl (\<lambda>a w. a * 2 ^ 32 + unat w) 0 ws"

definition SECP384_ORDER :: nat where
  "SECP384_ORDER = 0xffffffffffffffffffffffffffffffffffffffffffffffffc7634d81f4372ddf581a0db248b0a77aecec196accc52973"

lemma words_num_foldl: "foldl (\<lambda>a w. a * 2 ^ 32 + unat w) k ws = k * 2 ^ (32 * length ws) + words_num ws"
proof (induction ws arbitrary: k)
  case (Cons w ws)
  show ?case
    using Cons [of "k * 2 ^ 32 + unat w"] Cons [of "unat w"]
    by (simp add: words_num_def algebra_simps power_add)
qed (simp add: words_num_def)

lemma words_num_simps [simp]:
  "words_num [] = 0" "words_num (w # ws) = unat w * 2 ^ (32 * length ws) + words_num ws"
  using words_num_foldl [of "unat w" ws] by (simp_all add: words_num_def)

lemma mixed_radix_less: "a < b \<Longrightarrow> m < B \<Longrightarrow> a * B + m < b * B + n" for a b m n B :: nat
proof -
  assume "a < b" "m < B"
  have "(a + 1) * B \<le> b * B" using \<open>a < b\<close> by (intro mult_right_mono) auto
  then show ?thesis using \<open>m < B\<close> by (simp add: algebra_simps)
qed

lemma words_num_less: "words_num ws < 2 ^ (32 * length ws)"
proof (induction ws)
  case (Cons w ws)
  have "unat w < 2 ^ 32" using unsigned_less [of w] by simp
  from mixed_radix_less [OF this Cons, of 0] show ?case by (simp add: power_add)
qed simp

lemma words_num_0: "words_num ws = 0 \<longleftrightarrow> \<not> list_ex (\<lambda>w. w \<noteq> 0) ws"
  by (induction ws) (auto simp: unat_eq_zero)

lemma not_above_le: "length ws = length xs \<Longrightarrow> not_above ws xs \<longleftrightarrow> words_num ws \<le> words_num xs"
proof (induction ws xs rule: not_above.induct)
  case (1 w ws x xs)
  note bounds = words_num_less [of ws] words_num_less [of xs]
  consider "unat w < unat x" | "unat x < unat w" | "w = x" by (metis linorder_neqE_nat word_unat_eq_iff)
  then show ?case
  proof cases
    case 1
    then show ?thesis using mixed_radix_less [OF 1 bounds(1), of "words_num xs"] \<open>length (w # ws) = length (x # xs)\<close>
      by (auto simp: word_less_nat_alt)
  next
    case 2
    then show ?thesis using mixed_radix_less [OF 2 bounds(2), of "words_num ws"] \<open>length (w # ws) = length (x # xs)\<close>
      by (auto simp: word_less_nat_alt)
  next
    case 3
    then show ?thesis using "1.IH" "1.prems" by simp
  qed
qed auto

lemma scalar_range_check_num:
  assumes "length ws = 12"
  shows "scalar_range_check ws \<longleftrightarrow> 0 < words_num ws \<and> words_num ws < SECP384_ORDER"
proof -
  have "words_num SECP384_ORDER_MIN1 = SECP384_ORDER - 1" "0 < SECP384_ORDER"
    by (simp_all add: SECP384_ORDER_MIN1_def SECP384_ORDER_def)
  then show ?thesis
    using not_above_le [of ws SECP384_ORDER_MIN1] words_num_0 [of ws] assms
    by (auto simp: scalar_range_check_def SECP384_ORDER_MIN1_def)
qed

section \<open>Verification\<close>

text \<open>Between commands: ready, no error, no timer running.\<close>

definition ecc_idle :: "AsymEcc384 \<Rightarrow> bool" where
  "ecc_idle r \<longleftrightarrow> ecc_ready r \<and> \<not> ecc_err_condition r \<and> ecc_op_complete_action r = None \<and>
     op_key_read_complete_action r = None \<and> op_seed_read_complete_action r = None \<and> op_key_write_complete_action r = None"

text \<open>A verification under way that the engine can carry out.\<close>

definition ecc_verify_pending :: "p384 \<Rightarrow> AsymEcc384 \<Rightarrow> nat option" where
  "ecc_verify_pending E r = (if op_key_read_complete_action r = None \<and> op_seed_read_complete_action r = None \<and>
       op_key_write_complete_action r = None \<and> field_read 0 2 (ecc_control r) = 3 \<and> \<not> bit (ecc_control r) 4 \<and>
       ecc_verify E r \<noteq> None
     then ecc_op_complete_action r else None)"

definition ecc_op_done :: "p384 \<Rightarrow> AsymEcc384 \<Rightarrow> AsymEcc384" where
  "ecc_op_done E r = ecc_op_complete E (r\<lparr>ecc_op_complete_action := None\<rparr>)"

lemma ecc_tick_op:
  assumes "ecc_verify_pending E r = Some n"
  shows "ecc_tick E r = (if n \<le> 1 then ecc_op_done E r else r\<lparr>ecc_op_complete_action := Some (n - 1)\<rparr>)"
proof -
  have a: "ecc_op_complete_action r = Some n" "op_key_read_complete_action r = None"
    "op_seed_read_complete_action r = None" "op_key_write_complete_action r = None"
    using assms by (auto simp: ecc_verify_pending_def split: if_splits)
  have "ecc_tick E r = ecc_poll E (r\<lparr>ecc_op_complete_action := Some (n - 1)\<rparr>)"
    using a by (cases r) (simp add: ecc_tick_def)
  then show ?thesis using a by (auto simp: ecc_poll_def ecc_op_done_def)
qed

lemma ecc_verify_action: "ecc_verify E (r\<lparr>ecc_op_complete_action := a\<rparr>) = map_option (\<lambda>r. r\<lparr>ecc_op_complete_action := a\<rparr>) (ecc_verify E r)"
  by (simp add: ecc_verify_def split: outcome.splits)

lemma ecc_verify_control: "ecc_verify E r = Some t \<Longrightarrow> ecc_control t = ecc_control r \<and> ecc_status t = ecc_status r"
  by (auto simp: ecc_verify_def split: outcome.splits)

lemma ecc_op_done_verify:
  assumes "ecc_verify_pending E r = Some n" "ecc_verify E r = Some t"
  shows "ecc_op_done E r = t\<lparr>ecc_op_complete_action := None, ecc_status := ecc_status r OR 3\<rparr>"
proof -
  have "field_read 0 2 (ecc_control r) = 3" "\<not> bit (ecc_control r) 4"
    using assms(1) by (auto simp: ecc_verify_pending_def split: if_splits)
  then show ?thesis
    using assms(2) ecc_verify_control [OF assms(2)]
    by (simp add: ecc_op_done_def ecc_op_complete_def Let_def ecc_verify_action)
qed

interpretation ecc_device: timed_device "ecc_verify_pending E" "\<lambda>r n. r\<lparr>ecc_op_complete_action := Some n\<rparr>"
  "ecc_op_done E" "ecc_tick E" "\<lambda>r. ecc_valid r \<or> ecc_err_condition r" for E
proof unfold_locales
  fix s m assume p: "ecc_verify_pending E s = Some m"
  then obtain t where "ecc_verify E s = Some t" by (auto simp: ecc_verify_pending_def split: if_splits)
  from ecc_op_done_verify [OF p this] show "ecc_valid (ecc_op_done E s) \<or> ecc_err_condition (ecc_op_done E s)"
    by (simp add: ecc_valid_def bit_or_3_word)
qed (auto simp: ecc_tick_op ecc_verify_pending_def ecc_op_done_def ecc_verify_action ecc_valid_def
    ecc_err_condition_def split: if_splits)

text \<open>The documented behaviour of \<^verbatim>\<open>Signature::from_scalars\<close>: it accepts nonzero residues of the order.\<close>

definition p384_scalars_law :: "p384 \<Rightarrow> bool" where
  "p384_scalars_law E \<longleftrightarrow> (\<forall>r s. length r = 12 \<longrightarrow> length s = 12 \<longrightarrow>
     0 < words_num r \<longrightarrow> words_num r < SECP384_ORDER \<longrightarrow> 0 < words_num s \<longrightarrow> words_num s < SECP384_ORDER \<longrightarrow>
     p384_scalars_ok E (u32_be_to_u8 r) (u32_be_to_u8 s))"

text \<open>What a verification yields: the \<open>r\<close> of the signature when the engine accepts it.\<close>

definition ecdsa_r :: "p384 \<Rightarrow> Ecc384PubKey \<Rightarrow> u32 list \<Rightarrow> Ecc384Signature \<Rightarrow> u32 list" where
  "ecdsa_r E pk digest sig =
     (if p384_verify E (u32_be_to_u8 (ec_x pk)) (u32_be_to_u8 (ec_y pk)) (u32_be_to_u8 digest)
           (u32_be_to_u8 (ec_r sig)) (u32_be_to_u8 (ec_s sig))
      then ec_r sig else map (\<lambda>w. NOT w) (ec_r sig))"

lemma le_bytes_not: "map (\<lambda>b. NOT b) (le32 w) = le32 (NOT w)"
proof (rule nth_equalityI)
  fix i assume "i < length (map (\<lambda>b. NOT b) (le32 w))"
  then have i: "i < 4" by simp
  show "map (\<lambda>b. NOT b) (le32 w) ! i = le32 (NOT w) ! i"
    using i by (intro bit_word_eqI) (simp add: nth_le_bytes bit_simps)
qed simp

lemma u32_le_to_u8_not: "map (\<lambda>b. NOT b) (u32_le_to_u8 ws) = u32_le_to_u8 (map (\<lambda>w. NOT w) ws)"
  by (induction ws) (simp_all add: u32_le_to_u8_def le_bytes_not)

lemma ecc_verify_result:
  assumes "pub_key_x r = ec_x pk" "pub_key_y r = ec_y pk" "ecc_hash r = d" "reg_sig_r r = ec_r sig" "reg_sig_s r = ec_s sig"
    and "length (ec_r sig) = 12" "p384_point_ok E (u32_be_to_u8 (ec_x pk)) (u32_be_to_u8 (ec_y pk))"
    and "p384_scalars_ok E (u32_be_to_u8 (ec_r sig)) (u32_be_to_u8 (ec_s sig))"
  shows "ecc_verify E r = Some (r\<lparr>ecc_verify_r := ecdsa_r E pk d sig\<rparr>)"
  using assms
  by (simp add: ecc_verify_def emu_ecc_verify_def Let_def swap4_u32_le ecdsa_r_def u32_le_to_u8_not u8_to_u32_le_inverse)

lemma Ecc384_wait_now:
  "condition r \<Longrightarrow> \<not> ecc_err_condition r \<Longrightarrow> Ecc384_wait E condition r = (Ok (), r)"
  by (simp add: Ecc384_wait_def bindE_def wait_for_now)

lemma Ecc384_wait_valid:
  assumes "ecc_verify_pending E r = Some n" "0 < n" "\<not> ecc_valid r" "\<not> ecc_err_condition r" "ecc_verify E r = Some t"
    "\<not> ecc_err_condition t"
  shows "Ecc384_wait E ecc_valid r = (Ok (), t\<lparr>ecc_op_complete_action := None, ecc_status := ecc_status r OR 3\<rparr>)"
  using ecc_device.wait_completes [of E r n] assms ecc_op_done_verify [OF assms(1,5)]
  by (simp add: Ecc384_wait_def bindE_def ecc_err_condition_def)

lemma Ecc384_verify_r_run:
  assumes "p384_scalars_law E" "ecc_idle r" "length (ec_r sig) = 12" "length (ec_s sig) = 12"
    and point: "p384_point_ok E (u32_be_to_u8 (ec_x pk)) (u32_be_to_u8 (ec_y pk))"
  shows "\<exists>t. Ecc384_verify_r E pk d sig r =
      (if scalar_range_check (ec_r sig) \<and> scalar_range_check (ec_s sig) then Ok (ecdsa_r E pk d sig)
       else Err DRIVER_ECC384_SCALAR_RANGE_CHECK_FAILED, t) \<and>
    ecc_idle t \<and> ecc_hash_sha512 t = ecc_hash_sha512 r"
proof (cases "scalar_range_check (ec_r sig) \<and> scalar_range_check (ec_s sig)")
  case True
  let ?a = "r\<lparr>pub_key_x := ec_x pk, pub_key_y := ec_y pk, ecc_hash := d, reg_sig_r := ec_r sig, reg_sig_s := ec_s sig\<rparr>"
  let ?b = "?a\<lparr>ecc_control := 3, ecc_status := ecc_status r AND NOT 3, ecc_op_complete_action := Some 1000\<rparr>"
  let ?c = "?b\<lparr>ecc_verify_r := ecdsa_r E pk d sig\<rparr>"
  have "p384_scalars_ok E (u32_be_to_u8 (ec_r sig)) (u32_be_to_u8 (ec_s sig))"
    using assms(1,3,4) True by (simp add: p384_scalars_law_def scalar_range_check_num)
  then have ver: "ecc_verify E ?b = Some ?c" using point assms(3) by (intro ecc_verify_result) simp_all
  have start: "ecc_on_write_control Word 3 ?a = (Ok (Inr ()), ?b)"
    by (simp add: ecc_on_write_control_def field_read_def bit_numeral_rec)
  have idle: "ecc_ready r" "\<not> ecc_err_condition r" "op_key_read_complete_action r = None"
    "op_seed_read_complete_action r = None" "op_key_write_complete_action r = None"
    using assms(2) by (simp_all add: ecc_idle_def)
  then have pend: "ecc_verify_pending E ?b = Some 1000"
    using ver by (simp add: ecc_verify_pending_def field_read_def bit_numeral_rec)
  have "\<not> ecc_valid ?b" "\<not> ecc_err_condition ?b" "\<not> ecc_err_condition ?c"
    using idle(2) by (simp_all add: ecc_valid_def ecc_err_condition_def bit_simps bit_numeral_rec)
  from Ecc384_wait_valid [OF pend _ this(1,2) ver this(3)] have wait: "Ecc384_wait E ecc_valid ?b =
      (Ok (), ?c\<lparr>ecc_op_complete_action := None, ecc_status := (ecc_status r AND NOT 3) OR 3\<rparr>)"
    by simp
  show ?thesis
    using True idle start wait
    by (simp add: Ecc384_verify_r_def bindE_def Ecc384_wait_now Ecc384_zeroize_internal_def ecc_on_write_control_def
        ecc_zeroize_def ecc_idle_def ecc_ready_def ecc_err_condition_def field_read_def bit_numeral_rec bit_or_3_word)
next
  case False
  then show ?thesis using assms(2) by (auto simp: Ecc384_verify_r_def bindE_def failIf_def)
qed

lemma map_not_neq: "xs \<noteq> [] \<Longrightarrow> map (\<lambda>w. NOT w) xs \<noteq> (xs :: u32 list)"
proof (cases xs)
  case (Cons x ys)
  have "bit (NOT x) 0 \<noteq> bit x 0" by (simp add: bit_not_iff)
  then have "NOT x \<noteq> x" by metis
  then show ?thesis using Cons by simp
qed simp

section \<open>What the driver guarantees\<close>

text \<open>An engine that accepts everything.\<close>

definition sample_p384 :: p384 where
  "sample_p384 = \<lparr>p384_drbg = (\<lambda>_ _. []), p384_public = (\<lambda>_. None), p384_sign = (\<lambda>_ _. None), p384_point_ok = (\<lambda>_ _. True),
     p384_scalars_ok = (\<lambda>_ _. True), p384_verify = (\<lambda>_ _ _ _ _. True), p384_ecdh = (\<lambda>_ _ _. None)\<rparr>"

lemma p384_scalars_law_sample: "p384_scalars_law sample_p384"
  by (simp add: p384_scalars_law_def sample_p384_def)

lemma ecc_idle_new: "ecc_idle (AsymEcc384_new h)"
  by (simp add: ecc_idle_def AsymEcc384_new_def Let_def ecc_ready_def ecc_err_condition_def)

text \<open>The outcome of a verification in terms of the engine.\<close>

definition ecdsa_outcome :: "p384 \<Rightarrow> Ecc384PubKey \<Rightarrow> u32 list \<Rightarrow> Ecc384Signature \<Rightarrow> Ecc384Result outcome" where
  "ecdsa_outcome E pk d sig =
     (if words_num (ec_r sig) \<in> {1..<SECP384_ORDER} \<and> words_num (ec_s sig) \<in> {1..<SECP384_ORDER}
      then Ok (if p384_verify E (u32_be_to_u8 (ec_x pk)) (u32_be_to_u8 (ec_y pk)) (u32_be_to_u8 d)
                 (u32_be_to_u8 (ec_r sig)) (u32_be_to_u8 (ec_s sig))
               then Ecc384_Success else Ecc384_SigVerifyFailed)
      else Err DRIVER_ECC384_SCALAR_RANGE_CHECK_FAILED)"

lemma Ecc384_verify_run:
  assumes "p384_scalars_law E" "ecc_idle r" "length (ec_r sig) = 12" "length (ec_s sig) = 12"
    and "p384_point_ok E (u32_be_to_u8 (ec_x pk)) (u32_be_to_u8 (ec_y pk))"
  shows "\<exists>t. Ecc384_verify E pk d sig r = (ecdsa_outcome E pk d sig, t) \<and> ecc_idle t"
proof -
  have "ec_r sig \<noteq> []" using assms(3) by auto
  then show ?thesis
    using Ecc384_verify_r_run [OF assms, of d] map_not_neq [of "ec_r sig"]
      scalar_range_check_num [OF assms(3)] scalar_range_check_num [OF assms(4)]
    by (auto simp: Ecc384_verify_def ecdsa_r_def bindE_def ecdsa_outcome_def)
qed

text \<open>C16: ECDSA verification by the driver. For a point on the curve, a signature with a scalar that is zero
  or not below the order of the group is refused with an error before the engine starts; any other
  signature is accepted exactly when the engine accepts it. The driver returns, and the engine is idle
  and zeroized of the operation afterwards.\<close>

theorem ecc_verify_exact:
  assumes "p384_scalars_law E" "ecc_idle r" "length (ec_r sig) = 12" "length (ec_s sig) = 12"
    and "p384_point_ok E (u32_be_to_u8 (ec_x pk)) (u32_be_to_u8 (ec_y pk))"
  shows "\<exists>t. Ecc384_verify E pk d sig r =
      (if words_num (ec_r sig) \<in> {1..<SECP384_ORDER} \<and> words_num (ec_s sig) \<in> {1..<SECP384_ORDER}
       then Ok (if p384_verify E (u32_be_to_u8 (ec_x pk)) (u32_be_to_u8 (ec_y pk)) (u32_be_to_u8 d)
                  (u32_be_to_u8 (ec_r sig)) (u32_be_to_u8 (ec_s sig))
                then Ecc384_Success else Ecc384_SigVerifyFailed)
       else Err DRIVER_ECC384_SCALAR_RANGE_CHECK_FAILED, t) \<and> ecc_idle t"
  using Ecc384_verify_run [OF assms, of d] by (simp add: ecdsa_outcome_def)

theorem ecc_verify_exact_witness:
  "\<exists>t. Ecc384_verify sample_p384 \<lparr>ec_x = replicate 12 1, ec_y = replicate 12 1\<rparr> (replicate 12 5)
      \<lparr>ec_r = replicate 12 1, ec_s = replicate 12 2\<rparr> (AsymEcc384_new (HashSha512Regs_new KeyVaultRegs_new)) = (Ok Ecc384_Success, t) \<and> ecc_idle t"
proof -
  have "scalar_range_check (replicate 12 1)" "scalar_range_check (replicate 12 2)" by (code_simp, code_simp)
  then have "words_num (replicate 12 1) \<in> {1..<SECP384_ORDER}" "words_num (replicate 12 2) \<in> {1..<SECP384_ORDER}"
    using scalar_range_check_num [of "replicate 12 1"] scalar_range_check_num [of "replicate 12 2"] by simp_all
  moreover have "p384_point_ok sample_p384 x y" "p384_verify sample_p384 x y d a b" for x y d a b
    by (simp_all add: sample_p384_def)
  ultimately show ?thesis
    using ecc_verify_exact [OF p384_scalars_law_sample ecc_idle_new, of "\<lparr>ec_r = replicate 12 1, ec_s = replicate 12 2\<rparr>"
        "\<lparr>ec_x = replicate 12 1, ec_y = replicate 12 1\<rparr>" "replicate 12 5" "HashSha512Regs_new KeyVaultRegs_new"] by simp
qed

end
