(* ===== verification/Abr.thy ===== *)
theory Abr
  imports HashSha512
begin

unbundle bit_operations_syntax

text \<open>
  The ML-DSA half of the lattice peripheral of the emulator, \<^verbatim>\<open>sw-emulator/lib/periph/src/abr.rs\<close>: key
  generation, signing and verification with fixed and streamed messages, the seed from the vault
  and the zeroisation. The functions of the \<^verbatim>\<open>fips204\<close> and \<^verbatim>\<open>ml_dsa\<close> crates are a record of
  functions. A panic of the emulator inside \<^verbatim>\<open>poll\<close> is a command that never completes.
\<close>

section \<open>Lattice arithmetic\<close>

text \<open>
  \<open>None\<close> is where the crate returns an error, which the emulator unwraps; \<open>fips204_pk_ok\<close> is
  whether \<^verbatim>\<open>PublicKey::try_from_bytes\<close> accepts a key.
\<close>

record fips204 =
  fips204_keygen :: "u8 list \<Rightarrow> (u8 list \<times> u8 list) option"
  fips204_sign :: "u8 list \<Rightarrow> u8 list \<Rightarrow> u8 list \<Rightarrow> u8 list option"
  fips204_sign_mu :: "u8 list \<Rightarrow> u8 list \<Rightarrow> u8 list"
  fips204_pk_ok :: "u8 list \<Rightarrow> bool"
  fips204_verify :: "u8 list \<Rightarrow> u8 list \<Rightarrow> u8 list \<Rightarrow> u8 list \<Rightarrow> bool"
  fips204_verify_mu :: "u8 list \<Rightarrow> u8 list \<Rightarrow> u8 list \<Rightarrow> bool"

abbreviation (input) SIG_LEN :: nat where "SIG_LEN \<equiv> 4627"

section \<open>Registers\<close>

record Abr =
  mldsa_ctrl :: u32
  mldsa_status :: u32
  abr_entropy :: "u32 list"
  mldsa_seed :: "u32 list"
  mldsa_sign_rnd :: "u32 list"
  mldsa_msg :: "u32 list"
  mldsa_verify_res :: "u32 list"
  mldsa_external_mu :: "u32 list"
  mldsa_msg_strobe :: u32
  mldsa_ctx_config :: u32
  mldsa_ctx :: "u32 list"
  mldsa_pubkey :: "u32 list"
  mldsa_signature :: "u32 list"
  mldsa_privkey_out :: "u32 list"
  mldsa_privkey_in :: "u32 list"
  kv_mldsa_seed_rd_ctrl :: u32
  kv_mldsa_seed_rd_status :: u32
  abr_error_global_intr :: u32
  abr_error_internal_intr :: u32
  mldsa_private_key :: "u8 list"
  abr_hash_sha512 :: HashSha512Regs
  mldsa_op_complete_action :: "nat option"
  mldsa_op_seed_read_complete_action :: "nat option"
  mldsa_op_zeroize_complete_action :: "nat option"
  mldsa_op_msg_stream_ready_action :: "nat option"
  mldsa_streamed_msg :: "u8 list"

type_synonym 'a abr_io = "(Abr, 'a) bus_io"

definition Abr_new :: "HashSha512Regs \<Rightarrow> Abr" where
  "Abr_new h = \<lparr>mldsa_ctrl = 0, mldsa_status = 1, abr_entropy = replicate 16 0, mldsa_seed = replicate 8 0,
     mldsa_sign_rnd = replicate 8 0, mldsa_msg = replicate 16 0, mldsa_verify_res = replicate 16 0,
     mldsa_external_mu = replicate 16 0, mldsa_msg_strobe = 0xf, mldsa_ctx_config = 0,
     mldsa_ctx = replicate 64 0, mldsa_pubkey = replicate 648 0, mldsa_signature = replicate 1157 0,
     mldsa_privkey_out = replicate 1224 0, mldsa_privkey_in = replicate 1224 0, kv_mldsa_seed_rd_ctrl = 0,
     kv_mldsa_seed_rd_status = 1, abr_error_global_intr = 0, abr_error_internal_intr = 0,
     mldsa_private_key = replicate 4896 0, abr_hash_sha512 = h, mldsa_op_complete_action = None,
     mldsa_op_seed_read_complete_action = None, mldsa_op_zeroize_complete_action = None,
     mldsa_op_msg_stream_ready_action = None, mldsa_streamed_msg = []\<rparr>"

definition mldsa_ready :: "Abr \<Rightarrow> bool" where "mldsa_ready r \<longleftrightarrow> bit (mldsa_status r) 0"
definition mldsa_valid :: "Abr \<Rightarrow> bool" where "mldsa_valid r \<longleftrightarrow> bit (mldsa_status r) 1"
definition mldsa_msg_stream_ready :: "Abr \<Rightarrow> bool" where "mldsa_msg_stream_ready r \<longleftrightarrow> bit (mldsa_status r) 2"

definition abr_vault :: "(KeyVaultRegs, 'a) bus_io \<Rightarrow> 'a abr_io" where
  "abr_vault m r = (case on_vault m (abr_hash_sha512 r) of (x, h) \<Rightarrow> (x, r\<lparr>abr_hash_sha512 := h\<rparr>))"

section \<open>Register writes\<close>

definition on_write_mldsa_control :: "RvSize \<Rightarrow> u32 \<Rightarrow> unit abr_io" where
  "on_write_mldsa_control sz val r =
     (if sz \<noteq> Word then bus_fault StoreAccessFault r
      else
        let r = r\<lparr>mldsa_ctrl := val\<rparr>;
            op = field_read 0 3 (mldsa_ctrl r);
            stream = (\<lambda>r. r\<lparr>mldsa_streamed_msg := [], mldsa_status := mldsa_status r AND NOT 4,
              mldsa_op_msg_stream_ready_action := Some 10\<rparr>);
            begin_op = (\<lambda>b r. let r = r\<lparr>mldsa_status := mldsa_status r AND NOT 3\<rparr> in
              if b then stream r else r\<lparr>mldsa_op_complete_action := Some 1000\<rparr>);
            zeroize = (\<lambda>r. if bit (mldsa_ctrl r) 3
              then r\<lparr>mldsa_status := mldsa_status r AND NOT 1, mldsa_op_zeroize_complete_action := Some 1000\<rparr>
              else r)
        in if op = 1 \<or> op = 2 \<or> op = 4
           then (if list_ex (\<lambda>v. v \<noteq> 0) (abr_entropy r)
                 then (Ok (Inr ()), zeroize (begin_op (bit (mldsa_ctrl r) 6 \<and> (op = 2 \<or> op = 4)) r))
                 else (RustPanic, r))
           else if op = 3 then (Ok (Inr ()), zeroize (begin_op (bit (mldsa_ctrl r) 6) r))
           else (Ok (Inr ()), zeroize r))"

definition on_write_mldsa_kv_rd_seed_ctrl :: "RvSize \<Rightarrow> u32 \<Rightarrow> unit abr_io" where
  "on_write_mldsa_kv_rd_seed_ctrl sz val r =
     (if sz \<noteq> Word then bus_fault StoreAccessFault r
      else
        let r = r\<lparr>kv_mldsa_seed_rd_ctrl := val\<rparr>
        in (Ok (Inr ()),
            if bit (kv_mldsa_seed_rd_ctrl r) 0
            then r\<lparr>kv_mldsa_seed_rd_status := field_modify 2 8 0 (kv_mldsa_seed_rd_status r AND NOT 3),
                   mldsa_op_seed_read_complete_action := Some 100\<rparr>
            else r))"

text \<open>The bytes of a word that the strobe marks as valid.\<close>

definition strobed :: "u32 \<Rightarrow> u32 \<Rightarrow> u8 list" where
  "strobed strobe_value val = map snd (filter (\<lambda>(i, byte). bit strobe_value i) (enumerate 0 (le32 val)))"

definition on_write_mldsa_msg :: "RvSize \<Rightarrow> nat \<Rightarrow> u32 \<Rightarrow> unit abr_io" where
  "on_write_mldsa_msg sz index val r =
     (if sz \<noteq> Word then bus_fault StoreAccessFault r
      else if \<not> bit (mldsa_ctrl r) 6
      then (if index < length (mldsa_msg r) then (Ok (Inr ()), r\<lparr>mldsa_msg := (mldsa_msg r)[index := val]\<rparr>)
            else (RustPanic, r))
      else if index \<noteq> 0 then (RustPanic, r)
      else
        let strobe_value = field_read 0 4 (mldsa_msg_strobe r)
        in if strobe_value = 0xF
           then (Ok (Inr ()), r\<lparr>mldsa_streamed_msg := mldsa_streamed_msg r @ le32 val\<rparr>)
           else (Ok (Inr ()), r\<lparr>mldsa_msg_strobe := 0xF, mldsa_status := mldsa_status r AND NOT 4,
                  mldsa_op_complete_action := Some 1000,
                  mldsa_streamed_msg := mldsa_streamed_msg r @ strobed strobe_value val\<rparr>))"

section \<open>Operations\<close>

text \<open>\<open>None\<close> is a panic.\<close>

definition mldsa_gen_key :: "fips204 \<Rightarrow> Abr \<Rightarrow> Abr option" where
  "mldsa_gen_key F r =
     (case fips204_keygen F (u32_le_to_u8 (mldsa_seed r)) of
        None \<Rightarrow> None
      | Some (pubkey, privkey) \<Rightarrow>
          let r = r\<lparr>mldsa_pubkey := u8_to_u32_le 648 pubkey, mldsa_private_key := privkey\<rparr>
          in Some (if \<not> bit (kv_mldsa_seed_rd_ctrl r) 0
                   then r\<lparr>mldsa_privkey_out := u8_to_u32_le 1224 (mldsa_private_key r)\<rparr> else r))"

definition mldsa_context :: "Abr \<Rightarrow> u8 list" where
  "mldsa_context r = (if bit (mldsa_ctrl r) 6
     then take (unat (field_read 0 7 (mldsa_ctx_config r))) (u32_le_to_u8 (mldsa_ctx r)) else [])"

definition mldsa_message :: "Abr \<Rightarrow> u8 list" where
  "mldsa_message r = (if bit (mldsa_ctrl r) 6 then mldsa_streamed_msg r else u32_le_to_u8 (mldsa_msg r))"

definition mldsa_sign_msg :: "fips204 \<Rightarrow> u8 list \<Rightarrow> Abr \<Rightarrow> u8 list option" where
  "mldsa_sign_msg F sk_bytes r =
     (if bit (mldsa_ctrl r) 6 \<and> mldsa_msg_stream_ready r then None
      else fips204_sign F sk_bytes (mldsa_message r) (mldsa_context r))"

definition mldsa_sign_mu :: "fips204 \<Rightarrow> u8 list \<Rightarrow> Abr \<Rightarrow> u8 list" where
  "mldsa_sign_mu F sk_bytes r = fips204_sign_mu F sk_bytes (u32_le_to_u8 (mldsa_external_mu r))"

definition mldsa_sign :: "fips204 \<Rightarrow> bool \<Rightarrow> Abr \<Rightarrow> Abr option" where
  "mldsa_sign F caller_provided r =
     (if bit (mldsa_ctrl r) 4 then None
      else
        let secret_key = (if caller_provided then u32_le_to_u8 (mldsa_privkey_in r) else mldsa_private_key r)
        in map_option (\<lambda>signature. r\<lparr>mldsa_signature := u8_to_u32_le 1157 (signature @ [0])\<rparr>)
             (if bit (mldsa_ctrl r) 5 then Some (mldsa_sign_mu F secret_key r) else mldsa_sign_msg F secret_key r))"

definition mldsa_read_seed_from_keyvault :: "nat \<Rightarrow> bool \<Rightarrow> Abr \<Rightarrow> (u32 \<times> Abr) option" where
  "mldsa_read_seed_from_keyvault key_id locked r =
     (case abr_vault ((if locked then read_key_locked else read_key) key_id (push_bit 2 1)) r of
        (Ok result, r) \<Rightarrow> Some (kv_error_code result, case result of
            Inr seed \<Rightarrow> r\<lparr>mldsa_seed := rev (u8_to_u32_le 8 (take 32 seed))\<rparr>
          | Inl _ \<Rightarrow> r)
      | _ \<Rightarrow> None)"

definition mldsa_pcr_digest_sign :: "fips204 \<Rightarrow> Abr \<Rightarrow> Abr option" where
  "mldsa_pcr_digest_sign F r =
     (case mldsa_read_seed_from_keyvault 8 True r of
        None \<Rightarrow> None
      | Some (_, r) \<Rightarrow>
          (case mldsa_gen_key F r of
             None \<Rightarrow> None
           | Some r \<Rightarrow>
               let temp = rev (pcr_hash_digest (abr_hash_sha512 r))
               in map_option (\<lambda>signature. r\<lparr>mldsa_signature := u8_to_u32_le 1157 (signature @ [0])\<rparr>)
                    (fips204_sign F (mldsa_private_key r) (u32_le_to_u8 temp) [])))"

definition mldsa_verify_msg :: "fips204 \<Rightarrow> u8 list \<Rightarrow> u8 list \<Rightarrow> Abr \<Rightarrow> bool option" where
  "mldsa_verify_msg F key_bytes signature r =
     (if \<not> fips204_pk_ok F key_bytes then None
      else if bit (mldsa_ctrl r) 6 \<and> mldsa_msg_stream_ready r then None
      else Some (fips204_verify F key_bytes (mldsa_message r) signature (mldsa_context r)))"

definition mldsa_verify_mu :: "fips204 \<Rightarrow> u8 list \<Rightarrow> u8 list \<Rightarrow> Abr \<Rightarrow> bool" where
  "mldsa_verify_mu F key_bytes signature r =
     fips204_verify_mu F key_bytes (u32_le_to_u8 (mldsa_external_mu r)) signature"

definition mldsa_verify :: "fips204 \<Rightarrow> Abr \<Rightarrow> Abr option" where
  "mldsa_verify F r =
     (let key_bytes = u32_le_to_u8 (mldsa_pubkey r);
          signature = take SIG_LEN (u32_le_to_u8 (mldsa_signature r))
      in map_option (\<lambda>success. r\<lparr>mldsa_verify_res :=
             (if success then take 16 (mldsa_signature r) else replicate 16 0)\<rparr>)
           (if bit (mldsa_ctrl r) 5 then Some (mldsa_verify_mu F key_bytes signature r)
            else mldsa_verify_msg F key_bytes signature r))"

section \<open>Completion\<close>

definition mldsa_op_complete :: "fips204 \<Rightarrow> Abr \<Rightarrow> Abr option" where
  "mldsa_op_complete F r =
     (let op = field_read 0 3 (mldsa_ctrl r)
      in map_option (\<lambda>r. r\<lparr>mldsa_status := (mldsa_status r OR 3) AND NOT 4\<rparr>)
           (if op = 1 then mldsa_gen_key F r
            else if op = 2 then mldsa_sign F True r
            else if op = 3 then mldsa_verify F r
            else if op = 4 then
              (if bit (mldsa_ctrl r) 4 then mldsa_pcr_digest_sign F r
               else case mldsa_gen_key F r of None \<Rightarrow> None | Some r \<Rightarrow> mldsa_sign F False r)
            else None))"

definition mldsa_seed_read_complete :: "Abr \<Rightarrow> Abr option" where
  "mldsa_seed_read_complete r =
     map_option (\<lambda>(seed_read_result, r). r\<lparr>kv_mldsa_seed_rd_status :=
         field_modify 2 8 seed_read_result (kv_mldsa_seed_rd_status r OR 3)\<rparr>)
       (mldsa_read_seed_from_keyvault (unat (field_read 1 5 (kv_mldsa_seed_rd_ctrl r))) False r)"

definition mldsa_zeroize :: "Abr \<Rightarrow> Abr" where
  "mldsa_zeroize r = r\<lparr>mldsa_ctrl := 0, mldsa_seed := replicate 8 0, mldsa_sign_rnd := replicate 8 0,
     mldsa_msg := replicate 16 0, mldsa_verify_res := replicate 16 0, mldsa_external_mu := replicate 16 0,
     mldsa_msg_strobe := 0xf, mldsa_ctx_config := 0, mldsa_ctx := replicate 64 0,
     mldsa_pubkey := replicate 648 0, mldsa_signature := replicate 1157 0,
     mldsa_privkey_out := replicate 1224 0, mldsa_privkey_in := replicate 1224 0, kv_mldsa_seed_rd_ctrl := 0,
     kv_mldsa_seed_rd_status := 1, mldsa_private_key := replicate 4896 0, mldsa_streamed_msg := [],
     mldsa_op_complete_action := None, mldsa_op_seed_read_complete_action := None,
     mldsa_op_zeroize_complete_action := None, mldsa_op_msg_stream_ready_action := None,
     mldsa_status := (mldsa_status r OR 1) AND NOT 6\<rparr>"

definition set_msg_stream_ready :: "Abr \<Rightarrow> Abr" where
  "set_msg_stream_ready r = r\<lparr>mldsa_status := mldsa_status r OR 4\<rparr>"

text \<open>One timer after the other; a panic ends the poll.\<close>

definition abr_poll :: "fips204 \<Rightarrow> Abr \<Rightarrow> Abr" where
  "abr_poll F r =
     (let seed = (\<lambda>r. if mldsa_op_seed_read_complete_action r = Some 0
            then mldsa_seed_read_complete (r\<lparr>mldsa_op_seed_read_complete_action := None\<rparr>) else Some r);
          zero = (\<lambda>r. if mldsa_op_zeroize_complete_action r = Some 0
            then mldsa_zeroize (r\<lparr>mldsa_op_zeroize_complete_action := None\<rparr>) else r);
          strm = (\<lambda>r. if mldsa_op_msg_stream_ready_action r = Some 0
            then set_msg_stream_ready (r\<lparr>mldsa_op_msg_stream_ready_action := None\<rparr>) else r);
          rest = (\<lambda>r. case seed r of None \<Rightarrow> r\<lparr>mldsa_op_seed_read_complete_action := None\<rparr> | Some r \<Rightarrow> strm (zero r))
      in if mldsa_op_complete_action r = Some 0
         then (let r = r\<lparr>mldsa_op_complete_action := None\<rparr>
               in case mldsa_op_complete F r of None \<Rightarrow> r | Some r \<Rightarrow> rest r)
         else rest r)"

definition abr_tick :: "fips204 \<Rightarrow> Abr \<Rightarrow> Abr" where
  "abr_tick F r = abr_poll F (r\<lparr>mldsa_op_complete_action := map_option (\<lambda>n. n - 1) (mldsa_op_complete_action r),
     mldsa_op_seed_read_complete_action := map_option (\<lambda>n. n - 1) (mldsa_op_seed_read_complete_action r),
     mldsa_op_zeroize_complete_action := map_option (\<lambda>n. n - 1) (mldsa_op_zeroize_complete_action r),
     mldsa_op_msg_stream_ready_action := map_option (\<lambda>n. n - 1) (mldsa_op_msg_stream_ready_action r)\<rparr>)"

end
