(* ===== verification/LmsTypes.thy ===== *)
theory LmsTypes
  imports Bytes
begin

text \<open>
  The structures of \<^verbatim>\<open>lms-types/src/lib.rs\<close>. The const generics \<open>N\<close> (hash words), \<open>P\<close>
  (chains) and \<open>H\<close> (tree height) are lengths of the lists, stated by the well-formedness
  predicates. zerocopy's \<^verbatim>\<open>U32<BigEndian>\<close> and \<^verbatim>\<open>U32<LittleEndian>\<close> are the word they hold;
  the endianness shows in the byte representation only.
\<close>

section \<open>Algorithm identifiers\<close>

type_synonym LmsAlgorithmType = u32
type_synonym LmotsAlgorithmType = u32
type_synonym LmsIdentifier = "u8 list"

abbreviation (input) LmsReserved :: LmsAlgorithmType where "LmsReserved \<equiv> 0"
abbreviation (input) LmsSha256N32H5 :: LmsAlgorithmType where "LmsSha256N32H5 \<equiv> 5"
abbreviation (input) LmsSha256N32H10 :: LmsAlgorithmType where "LmsSha256N32H10 \<equiv> 6"
abbreviation (input) LmsSha256N32H15 :: LmsAlgorithmType where "LmsSha256N32H15 \<equiv> 7"
abbreviation (input) LmsSha256N32H20 :: LmsAlgorithmType where "LmsSha256N32H20 \<equiv> 8"
abbreviation (input) LmsSha256N32H25 :: LmsAlgorithmType where "LmsSha256N32H25 \<equiv> 9"
abbreviation (input) LmsSha256N24H5 :: LmsAlgorithmType where "LmsSha256N24H5 \<equiv> 10"
abbreviation (input) LmsSha256N24H10 :: LmsAlgorithmType where "LmsSha256N24H10 \<equiv> 11"
abbreviation (input) LmsSha256N24H15 :: LmsAlgorithmType where "LmsSha256N24H15 \<equiv> 12"
abbreviation (input) LmsSha256N24H20 :: LmsAlgorithmType where "LmsSha256N24H20 \<equiv> 13"
abbreviation (input) LmsSha256N24H25 :: LmsAlgorithmType where "LmsSha256N24H25 \<equiv> 14"

abbreviation (input) LmotsReserved :: LmotsAlgorithmType where "LmotsReserved \<equiv> 0"
abbreviation (input) LmotsSha256N32W1 :: LmotsAlgorithmType where "LmotsSha256N32W1 \<equiv> 1"
abbreviation (input) LmotsSha256N32W2 :: LmotsAlgorithmType where "LmotsSha256N32W2 \<equiv> 2"
abbreviation (input) LmotsSha256N32W4 :: LmotsAlgorithmType where "LmotsSha256N32W4 \<equiv> 3"
abbreviation (input) LmotsSha256N32W8 :: LmotsAlgorithmType where "LmotsSha256N32W8 \<equiv> 4"
abbreviation (input) LmotsSha256N24W1 :: LmotsAlgorithmType where "LmotsSha256N24W1 \<equiv> 5"
abbreviation (input) LmotsSha256N24W2 :: LmotsAlgorithmType where "LmotsSha256N24W2 \<equiv> 6"
abbreviation (input) LmotsSha256N24W4 :: LmotsAlgorithmType where "LmotsSha256N24W4 \<equiv> 7"
abbreviation (input) LmotsSha256N24W8 :: LmotsAlgorithmType where "LmotsSha256N24W8 \<equiv> 8"

section \<open>Keys and signatures\<close>

record LmsPublicKey =
  pk_tree_type :: LmsAlgorithmType
  pk_otstype :: LmotsAlgorithmType
  pk_id :: LmsIdentifier
  pk_digest :: "u32 list"

record LmotsSignature =
  ots_type :: LmotsAlgorithmType
  ots_nonce :: "u32 list"
  ots_y :: "u32 list list"

record LmsSignature =
  sig_q :: u32
  sig_ots :: LmotsSignature
  sig_tree_type :: LmsAlgorithmType
  sig_tree_path :: "u32 list list"

record LmsPrivateKey =
  priv_tree_type :: LmsAlgorithmType
  priv_otstype :: LmotsAlgorithmType
  priv_id :: LmsIdentifier
  priv_seed :: "u32 list"

definition wf_words :: "nat \<Rightarrow> u32 list \<Rightarrow> bool" where
  "wf_words N ws \<longleftrightarrow> length ws = N"

definition wf_LmsPublicKey :: "nat \<Rightarrow> LmsPublicKey \<Rightarrow> bool" where
  "wf_LmsPublicKey N k \<longleftrightarrow> length (pk_id k) = 16 \<and> wf_words N (pk_digest k)"

definition wf_LmotsSignature :: "nat \<Rightarrow> nat \<Rightarrow> LmotsSignature \<Rightarrow> bool" where
  "wf_LmotsSignature N P s \<longleftrightarrow>
     wf_words N (ots_nonce s) \<and> length (ots_y s) = P \<and> list_all (wf_words N) (ots_y s)"

definition wf_LmsSignature :: "nat \<Rightarrow> nat \<Rightarrow> nat \<Rightarrow> LmsSignature \<Rightarrow> bool" where
  "wf_LmsSignature N P H s \<longleftrightarrow>
     wf_LmotsSignature N P (sig_ots s) \<and>
     length (sig_tree_path s) = H \<and> list_all (wf_words N) (sig_tree_path s)"

section \<open>Byte representations\<close>

definition LmsPublicKey_as_bytes :: "LmsPublicKey \<Rightarrow> u8 list" where
  "LmsPublicKey_as_bytes k =
     be32 (pk_tree_type k) @ be32 (pk_otstype k) @ pk_id k @ enc_array le32 (pk_digest k)"

definition LmsPublicKey_read :: "nat \<Rightarrow> LmsPublicKey decoder" where
  "LmsPublicKey_read N bs =
     (let (t, bs) = dec_be 4 bs;
          (ots, bs) = dec_be 4 bs;
          (ident, bs) = dec_raw 16 bs;
          (d, bs) = dec_array N (dec_le 4) bs
      in (\<lparr>pk_tree_type = t, pk_otstype = ots, pk_id = ident, pk_digest = d\<rparr>, bs))"

definition LmotsSignature_as_bytes :: "LmotsSignature \<Rightarrow> u8 list" where
  "LmotsSignature_as_bytes s =
     be32 (ots_type s) @ enc_array le32 (ots_nonce s) @ enc_array (enc_array le32) (ots_y s)"

definition LmotsSignature_read :: "nat \<Rightarrow> nat \<Rightarrow> LmotsSignature decoder" where
  "LmotsSignature_read N P bs =
     (let (t, bs) = dec_be 4 bs;
          (c, bs) = dec_array N (dec_le 4) bs;
          (ys, bs) = dec_array P (dec_array N (dec_le 4)) bs
      in (\<lparr>ots_type = t, ots_nonce = c, ots_y = ys\<rparr>, bs))"

definition LmsSignature_as_bytes :: "LmsSignature \<Rightarrow> u8 list" where
  "LmsSignature_as_bytes s =
     be32 (sig_q s) @ LmotsSignature_as_bytes (sig_ots s) @ be32 (sig_tree_type s) @
     enc_array (enc_array le32) (sig_tree_path s)"

definition LmsSignature_read :: "nat \<Rightarrow> nat \<Rightarrow> nat \<Rightarrow> LmsSignature decoder" where
  "LmsSignature_read N P H bs =
     (let (q, bs) = dec_be 4 bs;
          (ots, bs) = LmotsSignature_read N P bs;
          (t, bs) = dec_be 4 bs;
          (path, bs) = dec_array H (dec_array N (dec_le 4)) bs
      in (\<lparr>sig_q = q, sig_ots = ots, sig_tree_type = t, sig_tree_path = path\<rparr>, bs))"

lemma wf_words_eq: "wf_words N = (\<lambda>xs. length xs = N \<and> list_all (\<lambda>_. True) xs)"
  by (simp add: fun_eq_iff wf_words_def)

interpretation words: codec "enc_array le32" "dec_array N (dec_le 4)" "wf_words N" "N * 4" for N
  unfolding wf_words_eq by (rule u32le.array_codec)

interpretation word_rows: codec "enc_array (enc_array le32)" "dec_array n (dec_array N (dec_le 4))"
  "\<lambda>xs. length xs = n \<and> list_all (wf_words N) xs" "n * (N * 4)" for n N
  by (rule words.array_codec)

lemmas leaf_codecs = u16le.codec_axioms u32le.codec_axioms u32be.codec_axioms rawb.codec_axioms
  byte1.codec_axioms words.codec_axioms word_rows.codec_axioms

lemma LmsPublicKey_codec:
  "codec LmsPublicKey_as_bytes (LmsPublicKey_read N) (wf_LmsPublicKey N) (4 + (4 + (16 + N * 4)))"
  by (rule codec_iso [where f = "\<lambda>k. (pk_tree_type k, pk_otstype k, pk_id k, pk_digest k)"
        and g = "\<lambda>(t, ots, ident, d). \<lparr>pk_tree_type = t, pk_otstype = ots, pk_id = ident, pk_digest = d\<rparr>"],
      (rule codec_pair leaf_codecs)+)
    (auto simp: codec_defs LmsPublicKey_as_bytes_def LmsPublicKey_read_def wf_LmsPublicKey_def
      split: prod.splits)

interpretation lms_pk: codec LmsPublicKey_as_bytes "LmsPublicKey_read N" "wf_LmsPublicKey N"
  "4 + (4 + (16 + N * 4))" for N
  by (rule LmsPublicKey_codec)

lemma LmotsSignature_codec:
  "codec LmotsSignature_as_bytes (LmotsSignature_read N P) (wf_LmotsSignature N P)
     (4 + (N * 4 + P * (N * 4)))"
  by (rule codec_iso [where f = "\<lambda>s. (ots_type s, ots_nonce s, ots_y s)"
        and g = "\<lambda>(t, c, ys). \<lparr>ots_type = t, ots_nonce = c, ots_y = ys\<rparr>"],
      (rule codec_pair leaf_codecs)+)
    (auto simp: codec_defs LmotsSignature_as_bytes_def LmotsSignature_read_def wf_LmotsSignature_def
      split: prod.splits)

interpretation lmots_sig: codec LmotsSignature_as_bytes "LmotsSignature_read N P"
  "wf_LmotsSignature N P" "4 + (N * 4 + P * (N * 4))" for N P
  by (rule LmotsSignature_codec)

lemma LmsSignature_codec:
  "codec LmsSignature_as_bytes (LmsSignature_read N P H) (wf_LmsSignature N P H)
     (4 + (4 + (N * 4 + P * (N * 4)) + (4 + H * (N * 4))))"
  by (rule codec_iso [where f = "\<lambda>s. (sig_q s, sig_ots s, sig_tree_type s, sig_tree_path s)"
        and g = "\<lambda>(q, ots, t, path).
          \<lparr>sig_q = q, sig_ots = ots, sig_tree_type = t, sig_tree_path = path\<rparr>"],
      (rule codec_pair leaf_codecs lmots_sig.codec_axioms)+)
    (auto simp: codec_defs LmsSignature_as_bytes_def LmsSignature_read_def wf_LmsSignature_def
      split: prod.splits)

interpretation lms_sig: codec LmsSignature_as_bytes "LmsSignature_read N P H"
  "wf_LmsSignature N P H" "4 + (4 + (N * 4 + P * (N * 4)) + (4 + H * (N * 4)))" for N P H
  by (rule LmsSignature_codec)

text \<open>\<^verbatim>\<open>bytes_to_words_6\<close> and \<^verbatim>\<open>bytes_to_words_8\<close>.\<close>

definition bytes_to_words_6 :: "u8 list \<Rightarrow> u32 list" where
  "bytes_to_words_6 bytes =
     map (\<lambda>i. from_le_bytes [bytes ! (i * 4), bytes ! (i * 4 + 1), bytes ! (i * 4 + 2), bytes ! (i * 4 + 3)])
       [0..<6]"

definition bytes_to_words_8 :: "u8 list \<Rightarrow> u32 list" where
  "bytes_to_words_8 bytes =
     map (\<lambda>i. from_le_bytes [bytes ! (i * 4), bytes ! (i * 4 + 1), bytes ! (i * 4 + 2), bytes ! (i * 4 + 3)])
       [0..<8]"

lemma take4_nth: "i * 4 + 4 \<le> length xs \<Longrightarrow>
   [xs ! (i * 4), xs ! (i * 4 + 1), xs ! (i * 4 + 2), xs ! (i * 4 + 3)] = take 4 (drop (i * 4) xs)"
  by (rule nth_equalityI) (auto simp: less_Suc_eq numeral_eq_Suc)

lemma bytes_to_words_eq:
  "length bs = 24 \<Longrightarrow> bytes_to_words_6 bs = u8_to_u32_le 6 bs"
  "length bs = 32 \<Longrightarrow> bytes_to_words_8 bs = u8_to_u32_le 8 bs"
  unfolding bytes_to_words_6_def bytes_to_words_8_def u8_to_u32_le_def
  by (rule map_cong [OF refl arg_cong [where f = from_le_bytes, OF take4_nth]];
      auto simp del: upt_rec_numeral)+

section \<open>Hash values\<close>

text \<open>
  The words of \<^verbatim>\<open>HashValue<N>\<close> of \<^verbatim>\<open>drivers/src/lms.rs\<close> are the big-endian words of the hash;
  converting the little-endian words of a key or signature swaps the bytes of each.
\<close>

type_synonym HashValue = "u32 list"

definition u32_swap_bytes :: "u32 \<Rightarrow> u32" where
  "u32_swap_bytes w = from_be_bytes (le32 w)"

definition swap_bytes :: "u32 list \<Rightarrow> HashValue" where
  "swap_bytes b = map u32_swap_bytes b"

lemma be32_swap [simp]: "be32 (u32_swap_bytes w) = le32 w"
  by (simp add: u32_swap_bytes_def be_from_be_bytes)

lemma length_swap_bytes [simp]: "length (swap_bytes b) = length b"
  by (simp add: swap_bytes_def)

lemma u32_be_to_u8_swap: "u32_be_to_u8 (swap_bytes b) = enc_array le32 b"
  by (induction b) (simp_all add: swap_bytes_def enc_array_def)

lemma u32_swap_bytes_inject [simp]: "u32_swap_bytes v = u32_swap_bytes w \<longleftrightarrow> v = w"
  by (metis be32_swap u32le.enc_inj)

lemma swap_bytes_inject [simp]: "swap_bytes v = swap_bytes w \<longleftrightarrow> v = w"
  by (simp add: swap_bytes_def inj_def inj_map_eq_map)

end
