(* ===== verification/ImageTypes.thy ===== *)
theory ImageTypes
  imports LmsTypes CaliptraError
begin

unbundle bit_operations_syntax

text \<open>
  The firmware image bundle of \<^verbatim>\<open>image/types/src/lib.rs\<close>: manifest, preamble, header and table
  of contents as records, their \<^verbatim>\<open>repr(C)\<close> byte representations, and the operations on them.
  Fixed-size arrays are lists whose length the \<open>wf_\<close> predicates state. Field names that
  several structures share carry a prefix (\<open>pre_\<close> preamble, \<open>hdr_\<close> header, \<open>toc_\<close> table of
  contents entry, \<open>man_\<close> manifest).
\<close>

section \<open>Constants\<close>

definition MANIFEST_MARKER :: u32 where "MANIFEST_MARKER = 0x324e4d43"
definition IMAGE_FLAGS_PL0_PAUSER :: u32 where "IMAGE_FLAGS_PL0_PAUSER = push_bit 0 1"
definition IMAGE_FLAGS_DEBUG_IMAGE :: u32 where "IMAGE_FLAGS_DEBUG_IMAGE = push_bit 1 1"
definition KEY_DESCRIPTOR_VERSION :: u16 where "KEY_DESCRIPTOR_VERSION = 1"

abbreviation (input) VENDOR_ECC_MAX_KEY_COUNT :: u32 where "VENDOR_ECC_MAX_KEY_COUNT \<equiv> 4"
abbreviation (input) VENDOR_LMS_MAX_KEY_COUNT :: u32 where "VENDOR_LMS_MAX_KEY_COUNT \<equiv> 32"
abbreviation (input) VENDOR_MLDSA_MAX_KEY_COUNT :: u32 where "VENDOR_MLDSA_MAX_KEY_COUNT \<equiv> 4"
abbreviation (input) VENDOR_PQC_MAX_KEY_COUNT :: u32 where "VENDOR_PQC_MAX_KEY_COUNT \<equiv> VENDOR_LMS_MAX_KEY_COUNT"
abbreviation (input) MAX_TOC_ENTRY_COUNT :: u32 where "MAX_TOC_ENTRY_COUNT \<equiv> 2"
abbreviation (input) IMAGE_REVISION_BYTE_SIZE :: nat where "IMAGE_REVISION_BYTE_SIZE \<equiv> 20"
abbreviation (input) SHA192_DIGEST_BYTE_SIZE :: nat where "SHA192_DIGEST_BYTE_SIZE \<equiv> 24"
abbreviation (input) SHA192_DIGEST_WORD_SIZE :: nat where "SHA192_DIGEST_WORD_SIZE \<equiv> 6"
abbreviation (input) SHA384_DIGEST_WORD_SIZE :: nat where "SHA384_DIGEST_WORD_SIZE \<equiv> 12"
abbreviation (input) SHA384_DIGEST_BYTE_SIZE :: nat where "SHA384_DIGEST_BYTE_SIZE \<equiv> 48"
abbreviation (input) IMAGE_LMS_OTS_P_PARAM :: nat where "IMAGE_LMS_OTS_P_PARAM \<equiv> 51"
abbreviation (input) IMAGE_LMS_KEY_HEIGHT :: nat where "IMAGE_LMS_KEY_HEIGHT \<equiv> 15"
abbreviation (input) IMAGE_ALIGNMENT :: nat where "IMAGE_ALIGNMENT \<equiv> 256"
abbreviation (input) IMAGE_LMS_TREE_TYPE :: LmsAlgorithmType where "IMAGE_LMS_TREE_TYPE \<equiv> LmsSha256N24H15"
abbreviation (input) IMAGE_LMS_OTS_TYPE :: LmotsAlgorithmType where "IMAGE_LMS_OTS_TYPE \<equiv> LmotsSha256N24W4"
abbreviation (input) LMS_PUB_KEY_BYTE_SIZE :: nat where "LMS_PUB_KEY_BYTE_SIZE \<equiv> 48"
abbreviation (input) MLDSA87_PUB_KEY_BYTE_SIZE :: nat where "MLDSA87_PUB_KEY_BYTE_SIZE \<equiv> 2592"
abbreviation (input) MLDSA87_PUB_KEY_WORD_SIZE :: nat where "MLDSA87_PUB_KEY_WORD_SIZE \<equiv> 648"
abbreviation (input) MLDSA87_SIGNATURE_BYTE_SIZE :: nat where "MLDSA87_SIGNATURE_BYTE_SIZE \<equiv> 4628"
abbreviation (input) MLDSA87_SIGNATURE_WORD_SIZE :: nat where "MLDSA87_SIGNATURE_WORD_SIZE \<equiv> 1157"
abbreviation (input) PQC_PUB_KEY_BYTE_SIZE :: nat where "PQC_PUB_KEY_BYTE_SIZE \<equiv> MLDSA87_PUB_KEY_BYTE_SIZE"
abbreviation (input) PQC_SIGNATURE_BYTE_SIZE :: nat where "PQC_SIGNATURE_BYTE_SIZE \<equiv> MLDSA87_SIGNATURE_BYTE_SIZE"

type_synonym ImageDigest384 = "u32 list"
type_synonym ImageLmsPublicKey = LmsPublicKey
type_synonym ImageLmsSignature = LmsSignature
type_synonym ImageMldsaPubKey = "u32 list"
type_synonym ImageMldsaSignature = "u32 list"
type_synonym ImagePqcPubKey = "u8 list"
type_synonym ImagePqcSignature = "u8 list"

section \<open>Structures\<close>

record ImageEccPubKey =
  ecc_pk_x :: "u32 list"
  ecc_pk_y :: "u32 list"

record ImageEccSignature =
  ecc_sig_r :: "u32 list"
  ecc_sig_s :: "u32 list"

datatype FwVerificationPqcKeyType = MLDSA | LMS

definition pqc_key_type_as_u8 :: "FwVerificationPqcKeyType \<Rightarrow> u8" where
  "pqc_key_type_as_u8 t = (case t of MLDSA \<Rightarrow> 1 | LMS \<Rightarrow> 3)"

definition pqc_key_type_from_u8 :: "u8 \<Rightarrow> FwVerificationPqcKeyType option" where
  "pqc_key_type_from_u8 v = (if v = 1 then Some MLDSA else if v = 3 then Some LMS else None)"

record ImageSignData =
  digest_384 :: ImageDigest384
  mldsa_msg :: "u8 list option"

record ImageEccKeyDescriptor =
  ecc_version :: u16
  ecc_reserved :: u8
  ecc_key_hash_count :: u8
  ecc_key_hash :: "ImageDigest384 list"

record ImagePqcKeyDescriptor =
  pqc_version :: u16
  pqc_key_type :: u8
  pqc_key_hash_count :: u8
  pqc_key_hash :: "ImageDigest384 list"

record ImageVendorPubKeyInfo =
  ecc_key_descriptor :: ImageEccKeyDescriptor
  pqc_key_descriptor :: ImagePqcKeyDescriptor

record ImageOwnerPubKeys =
  owner_ecc_pub_key :: ImageEccPubKey
  owner_pqc_pub_key :: ImagePqcPubKey

record ImageSignatures =
  ecc_sig :: ImageEccSignature
  pqc_sig :: ImagePqcSignature

record ImagePreamble =
  vendor_pub_key_info :: ImageVendorPubKeyInfo
  pre_vendor_ecc_pub_key_idx :: u32
  vendor_ecc_active_pub_key :: ImageEccPubKey
  pre_vendor_pqc_pub_key_idx :: u32
  vendor_pqc_active_pub_key :: ImagePqcPubKey
  vendor_sigs :: ImageSignatures
  owner_pub_keys :: ImageOwnerPubKeys
  owner_sigs :: ImageSignatures
  pre_rsvd :: "u32 list"

record VendorSignedData =
  vendor_not_before :: "u8 list"
  vendor_not_after :: "u8 list"
  vendor_reserved :: "u8 list"

record OwnerSignedData =
  owner_not_before :: "u8 list"
  owner_not_after :: "u8 list"
  owner_reserved :: "u8 list"

record ImageHeader =
  hdr_revision :: "u32 list"
  hdr_vendor_ecc_pub_key_idx :: u32
  hdr_vendor_pqc_pub_key_idx :: u32
  hdr_flags :: u32
  toc_len :: u32
  pl0_pauser :: u32
  toc_digest :: ImageDigest384
  hdr_svn :: u32
  vendor_data :: VendorSignedData
  owner_data :: OwnerSignedData

record ImageTocEntry =
  toc_id :: u32
  toc_type :: u32
  toc_revision :: "u8 list"
  toc_version :: u32
  toc_reserved :: "u32 list"
  load_addr :: u32
  entry_point :: u32
  toc_offset :: u32
  toc_size :: u32
  toc_entry_digest :: ImageDigest384

record ImageManifest =
  marker :: u32
  man_size :: u32
  man_pqc_key_type :: u8
  man_reserved :: "u8 list"
  preamble :: ImagePreamble
  header :: ImageHeader
  fmc :: ImageTocEntry
  runtime :: ImageTocEntry

record ImageBundle =
  bundle_manifest :: ImageManifest
  bundle_fmc :: "u8 list"
  bundle_runtime :: "u8 list"

section \<open>Well-formedness: the lengths of the arrays\<close>

definition wf_ImageEccPubKey :: "ImageEccPubKey \<Rightarrow> bool" where
  "wf_ImageEccPubKey k \<longleftrightarrow> wf_words 12 (ecc_pk_x k) \<and> wf_words 12 (ecc_pk_y k)"

definition wf_ImageEccSignature :: "ImageEccSignature \<Rightarrow> bool" where
  "wf_ImageEccSignature s \<longleftrightarrow> wf_words 12 (ecc_sig_r s) \<and> wf_words 12 (ecc_sig_s s)"

definition wf_ImageEccKeyDescriptor :: "ImageEccKeyDescriptor \<Rightarrow> bool" where
  "wf_ImageEccKeyDescriptor d \<longleftrightarrow>
     length (ecc_key_hash d) = 4 \<and> list_all (wf_words 12) (ecc_key_hash d)"

definition wf_ImagePqcKeyDescriptor :: "ImagePqcKeyDescriptor \<Rightarrow> bool" where
  "wf_ImagePqcKeyDescriptor d \<longleftrightarrow>
     length (pqc_key_hash d) = 32 \<and> list_all (wf_words 12) (pqc_key_hash d)"

definition wf_ImageVendorPubKeyInfo :: "ImageVendorPubKeyInfo \<Rightarrow> bool" where
  "wf_ImageVendorPubKeyInfo i \<longleftrightarrow>
     wf_ImageEccKeyDescriptor (ecc_key_descriptor i) \<and> wf_ImagePqcKeyDescriptor (pqc_key_descriptor i)"

definition wf_ImageOwnerPubKeys :: "ImageOwnerPubKeys \<Rightarrow> bool" where
  "wf_ImageOwnerPubKeys k \<longleftrightarrow>
     wf_ImageEccPubKey (owner_ecc_pub_key k) \<and> length (owner_pqc_pub_key k) = PQC_PUB_KEY_BYTE_SIZE"

definition wf_ImageSignatures :: "ImageSignatures \<Rightarrow> bool" where
  "wf_ImageSignatures s \<longleftrightarrow>
     wf_ImageEccSignature (ecc_sig s) \<and> length (pqc_sig s) = PQC_SIGNATURE_BYTE_SIZE"

definition wf_ImagePreamble :: "ImagePreamble \<Rightarrow> bool" where
  "wf_ImagePreamble p \<longleftrightarrow>
     wf_ImageVendorPubKeyInfo (vendor_pub_key_info p) \<and>
     wf_ImageEccPubKey (vendor_ecc_active_pub_key p) \<and>
     length (vendor_pqc_active_pub_key p) = PQC_PUB_KEY_BYTE_SIZE \<and>
     wf_ImageSignatures (vendor_sigs p) \<and> wf_ImageOwnerPubKeys (owner_pub_keys p) \<and>
     wf_ImageSignatures (owner_sigs p) \<and> wf_words 2 (pre_rsvd p)"

definition wf_VendorSignedData :: "VendorSignedData \<Rightarrow> bool" where
  "wf_VendorSignedData d \<longleftrightarrow>
     length (vendor_not_before d) = 15 \<and> length (vendor_not_after d) = 15 \<and> length (vendor_reserved d) = 10"

definition wf_OwnerSignedData :: "OwnerSignedData \<Rightarrow> bool" where
  "wf_OwnerSignedData d \<longleftrightarrow>
     length (owner_not_before d) = 15 \<and> length (owner_not_after d) = 15 \<and> length (owner_reserved d) = 10"

definition wf_ImageHeader :: "ImageHeader \<Rightarrow> bool" where
  "wf_ImageHeader h \<longleftrightarrow>
     wf_words 2 (hdr_revision h) \<and> wf_words 12 (toc_digest h) \<and>
     wf_VendorSignedData (vendor_data h) \<and> wf_OwnerSignedData (owner_data h)"

definition wf_ImageTocEntry :: "ImageTocEntry \<Rightarrow> bool" where
  "wf_ImageTocEntry t \<longleftrightarrow>
     length (toc_revision t) = IMAGE_REVISION_BYTE_SIZE \<and> wf_words 2 (toc_reserved t) \<and>
     wf_words 12 (toc_entry_digest t)"

definition wf_ImageManifest :: "ImageManifest \<Rightarrow> bool" where
  "wf_ImageManifest m \<longleftrightarrow>
     length (man_reserved m) = 3 \<and> wf_ImagePreamble (preamble m) \<and> wf_ImageHeader (header m) \<and>
     wf_ImageTocEntry (fmc m) \<and> wf_ImageTocEntry (runtime m)"

section \<open>Byte representations\<close>

text \<open>
  zerocopy's \<^verbatim>\<open>as_bytes\<close> of each structure, its inverse \<^verbatim>\<open>read\<close>, and the proof that the two form a
  codec of the structure's size: none of the structures has padding.
\<close>

named_theorems struct_codecs \<open>codecs of the fields a structure is made of\<close>

declare leaf_codecs [struct_codecs]

definition ImageEccPubKey_as_bytes :: "ImageEccPubKey \<Rightarrow> u8 list" where
  "ImageEccPubKey_as_bytes r =
     enc_array le32 (ecc_pk_x r) @ enc_array le32 (ecc_pk_y r)"

definition ImageEccPubKey_read :: "ImageEccPubKey decoder" where
  "ImageEccPubKey_read bs =
     (let (x, bs) = dec_array 12 (dec_le 4) bs;
          (y, bs) = dec_array 12 (dec_le 4) bs
      in (\<lparr>ecc_pk_x = x, ecc_pk_y = y\<rparr>, bs))"

lemma ImageEccPubKey_codec [struct_codecs]: "codec ImageEccPubKey_as_bytes ImageEccPubKey_read wf_ImageEccPubKey 96"
proof -
  have "codec ImageEccPubKey_as_bytes ImageEccPubKey_read wf_ImageEccPubKey (12 * 4 + (12 * 4))"
    by (rule codec_iso [where f = "\<lambda>r. (ecc_pk_x r, ecc_pk_y r)"
        and g = "\<lambda>(x, y). \<lparr>ecc_pk_x = x, ecc_pk_y = y\<rparr>"],
      (rule codec_pair struct_codecs)+)
    (auto simp: codec_defs ImageEccPubKey_as_bytes_def ImageEccPubKey_read_def wf_ImageEccPubKey_def split: prod.splits)
  then show ?thesis by simp
qed

interpretation ecc_pub_key_bytes: codec ImageEccPubKey_as_bytes ImageEccPubKey_read wf_ImageEccPubKey 96
  by (rule ImageEccPubKey_codec)

definition ImageEccSignature_as_bytes :: "ImageEccSignature \<Rightarrow> u8 list" where
  "ImageEccSignature_as_bytes r =
     enc_array le32 (ecc_sig_r r) @ enc_array le32 (ecc_sig_s r)"

definition ImageEccSignature_read :: "ImageEccSignature decoder" where
  "ImageEccSignature_read bs =
     (let (r, bs) = dec_array 12 (dec_le 4) bs;
          (s, bs) = dec_array 12 (dec_le 4) bs
      in (\<lparr>ecc_sig_r = r, ecc_sig_s = s\<rparr>, bs))"

lemma ImageEccSignature_codec [struct_codecs]: "codec ImageEccSignature_as_bytes ImageEccSignature_read wf_ImageEccSignature 96"
proof -
  have "codec ImageEccSignature_as_bytes ImageEccSignature_read wf_ImageEccSignature (12 * 4 + (12 * 4))"
    by (rule codec_iso [where f = "\<lambda>r. (ecc_sig_r r, ecc_sig_s r)"
        and g = "\<lambda>(r, s). \<lparr>ecc_sig_r = r, ecc_sig_s = s\<rparr>"],
      (rule codec_pair struct_codecs)+)
    (auto simp: codec_defs ImageEccSignature_as_bytes_def ImageEccSignature_read_def wf_ImageEccSignature_def split: prod.splits)
  then show ?thesis by simp
qed

interpretation ecc_sig_bytes: codec ImageEccSignature_as_bytes ImageEccSignature_read wf_ImageEccSignature 96
  by (rule ImageEccSignature_codec)

definition ImageEccKeyDescriptor_as_bytes :: "ImageEccKeyDescriptor \<Rightarrow> u8 list" where
  "ImageEccKeyDescriptor_as_bytes r =
     le16 (ecc_version r) @ [ecc_reserved r] @ [ecc_key_hash_count r] @
     enc_array (enc_array le32) (ecc_key_hash r)"

definition ImageEccKeyDescriptor_read :: "ImageEccKeyDescriptor decoder" where
  "ImageEccKeyDescriptor_read bs =
     (let (ver, bs) = dec_le 2 bs;
          (rsv, bs) = byte_dec bs;
          (cnt, bs) = byte_dec bs;
          (hs, bs) = dec_array 4 (dec_array 12 (dec_le 4)) bs
      in (\<lparr>ecc_version = ver, ecc_reserved = rsv, ecc_key_hash_count = cnt, ecc_key_hash = hs\<rparr>, bs))"

lemma ImageEccKeyDescriptor_codec [struct_codecs]: "codec ImageEccKeyDescriptor_as_bytes ImageEccKeyDescriptor_read wf_ImageEccKeyDescriptor 196"
proof -
  have "codec ImageEccKeyDescriptor_as_bytes ImageEccKeyDescriptor_read wf_ImageEccKeyDescriptor (2 + (1 + (1 + (4 * (12 * 4)))))"
    by (rule codec_iso [where f = "\<lambda>r. (ecc_version r, ecc_reserved r, ecc_key_hash_count r, ecc_key_hash r)"
        and g = "\<lambda>(ver, rsv, cnt, hs). \<lparr>ecc_version = ver, ecc_reserved = rsv, ecc_key_hash_count = cnt, ecc_key_hash = hs\<rparr>"],
      (rule codec_pair struct_codecs)+)
    (auto simp: codec_defs ImageEccKeyDescriptor_as_bytes_def ImageEccKeyDescriptor_read_def wf_ImageEccKeyDescriptor_def split: prod.splits)
  then show ?thesis by simp
qed

definition ImagePqcKeyDescriptor_as_bytes :: "ImagePqcKeyDescriptor \<Rightarrow> u8 list" where
  "ImagePqcKeyDescriptor_as_bytes r =
     le16 (pqc_version r) @ [pqc_key_type r] @ [pqc_key_hash_count r] @
     enc_array (enc_array le32) (pqc_key_hash r)"

definition ImagePqcKeyDescriptor_read :: "ImagePqcKeyDescriptor decoder" where
  "ImagePqcKeyDescriptor_read bs =
     (let (ver, bs) = dec_le 2 bs;
          (kt, bs) = byte_dec bs;
          (cnt, bs) = byte_dec bs;
          (hs, bs) = dec_array 32 (dec_array 12 (dec_le 4)) bs
      in (\<lparr>pqc_version = ver, pqc_key_type = kt, pqc_key_hash_count = cnt, pqc_key_hash = hs\<rparr>, bs))"

lemma ImagePqcKeyDescriptor_codec [struct_codecs]: "codec ImagePqcKeyDescriptor_as_bytes ImagePqcKeyDescriptor_read wf_ImagePqcKeyDescriptor 1540"
proof -
  have "codec ImagePqcKeyDescriptor_as_bytes ImagePqcKeyDescriptor_read wf_ImagePqcKeyDescriptor (2 + (1 + (1 + (32 * (12 * 4)))))"
    by (rule codec_iso [where f = "\<lambda>r. (pqc_version r, pqc_key_type r, pqc_key_hash_count r, pqc_key_hash r)"
        and g = "\<lambda>(ver, kt, cnt, hs). \<lparr>pqc_version = ver, pqc_key_type = kt, pqc_key_hash_count = cnt, pqc_key_hash = hs\<rparr>"],
      (rule codec_pair struct_codecs)+)
    (auto simp: codec_defs ImagePqcKeyDescriptor_as_bytes_def ImagePqcKeyDescriptor_read_def wf_ImagePqcKeyDescriptor_def split: prod.splits)
  then show ?thesis by simp
qed

definition ImageVendorPubKeyInfo_as_bytes :: "ImageVendorPubKeyInfo \<Rightarrow> u8 list" where
  "ImageVendorPubKeyInfo_as_bytes r =
     ImageEccKeyDescriptor_as_bytes (ecc_key_descriptor r) @
     ImagePqcKeyDescriptor_as_bytes (pqc_key_descriptor r)"

definition ImageVendorPubKeyInfo_read :: "ImageVendorPubKeyInfo decoder" where
  "ImageVendorPubKeyInfo_read bs =
     (let (e, bs) = ImageEccKeyDescriptor_read bs;
          (p, bs) = ImagePqcKeyDescriptor_read bs
      in (\<lparr>ecc_key_descriptor = e, pqc_key_descriptor = p\<rparr>, bs))"

lemma ImageVendorPubKeyInfo_codec [struct_codecs]: "codec ImageVendorPubKeyInfo_as_bytes ImageVendorPubKeyInfo_read wf_ImageVendorPubKeyInfo 1736"
proof -
  have "codec ImageVendorPubKeyInfo_as_bytes ImageVendorPubKeyInfo_read wf_ImageVendorPubKeyInfo (196 + (1540))"
    by (rule codec_iso [where f = "\<lambda>r. (ecc_key_descriptor r, pqc_key_descriptor r)"
        and g = "\<lambda>(e, p). \<lparr>ecc_key_descriptor = e, pqc_key_descriptor = p\<rparr>"],
      (rule codec_pair struct_codecs)+)
    (auto simp: codec_defs ImageVendorPubKeyInfo_as_bytes_def ImageVendorPubKeyInfo_read_def wf_ImageVendorPubKeyInfo_def split: prod.splits)
  then show ?thesis by simp
qed

interpretation vendor_info_bytes: codec ImageVendorPubKeyInfo_as_bytes ImageVendorPubKeyInfo_read wf_ImageVendorPubKeyInfo 1736
  by (rule ImageVendorPubKeyInfo_codec)

definition ImageOwnerPubKeys_as_bytes :: "ImageOwnerPubKeys \<Rightarrow> u8 list" where
  "ImageOwnerPubKeys_as_bytes r =
     ImageEccPubKey_as_bytes (owner_ecc_pub_key r) @ owner_pqc_pub_key r"

definition ImageOwnerPubKeys_read :: "ImageOwnerPubKeys decoder" where
  "ImageOwnerPubKeys_read bs =
     (let (e, bs) = ImageEccPubKey_read bs;
          (p, bs) = dec_raw 2592 bs
      in (\<lparr>owner_ecc_pub_key = e, owner_pqc_pub_key = p\<rparr>, bs))"

lemma ImageOwnerPubKeys_codec [struct_codecs]: "codec ImageOwnerPubKeys_as_bytes ImageOwnerPubKeys_read wf_ImageOwnerPubKeys 2688"
proof -
  have "codec ImageOwnerPubKeys_as_bytes ImageOwnerPubKeys_read wf_ImageOwnerPubKeys (96 + (2592))"
    by (rule codec_iso [where f = "\<lambda>r. (owner_ecc_pub_key r, owner_pqc_pub_key r)"
        and g = "\<lambda>(e, p). \<lparr>owner_ecc_pub_key = e, owner_pqc_pub_key = p\<rparr>"],
      (rule codec_pair struct_codecs)+)
    (auto simp: codec_defs ImageOwnerPubKeys_as_bytes_def ImageOwnerPubKeys_read_def wf_ImageOwnerPubKeys_def split: prod.splits)
  then show ?thesis by simp
qed

interpretation owner_keys_bytes: codec ImageOwnerPubKeys_as_bytes ImageOwnerPubKeys_read wf_ImageOwnerPubKeys 2688
  by (rule ImageOwnerPubKeys_codec)

definition ImageSignatures_as_bytes :: "ImageSignatures \<Rightarrow> u8 list" where
  "ImageSignatures_as_bytes r =
     ImageEccSignature_as_bytes (ecc_sig r) @ pqc_sig r"

definition ImageSignatures_read :: "ImageSignatures decoder" where
  "ImageSignatures_read bs =
     (let (e, bs) = ImageEccSignature_read bs;
          (p, bs) = dec_raw 4628 bs
      in (\<lparr>ecc_sig = e, pqc_sig = p\<rparr>, bs))"

lemma ImageSignatures_codec [struct_codecs]: "codec ImageSignatures_as_bytes ImageSignatures_read wf_ImageSignatures 4724"
proof -
  have "codec ImageSignatures_as_bytes ImageSignatures_read wf_ImageSignatures (96 + (4628))"
    by (rule codec_iso [where f = "\<lambda>r. (ecc_sig r, pqc_sig r)"
        and g = "\<lambda>(e, p). \<lparr>ecc_sig = e, pqc_sig = p\<rparr>"],
      (rule codec_pair struct_codecs)+)
    (auto simp: codec_defs ImageSignatures_as_bytes_def ImageSignatures_read_def wf_ImageSignatures_def split: prod.splits)
  then show ?thesis by simp
qed

definition ImagePreamble_as_bytes :: "ImagePreamble \<Rightarrow> u8 list" where
  "ImagePreamble_as_bytes r =
     ImageVendorPubKeyInfo_as_bytes (vendor_pub_key_info r) @
     le32 (pre_vendor_ecc_pub_key_idx r) @
     ImageEccPubKey_as_bytes (vendor_ecc_active_pub_key r) @
     le32 (pre_vendor_pqc_pub_key_idx r) @ vendor_pqc_active_pub_key r @
     ImageSignatures_as_bytes (vendor_sigs r) @
     ImageOwnerPubKeys_as_bytes (owner_pub_keys r) @
     ImageSignatures_as_bytes (owner_sigs r) @ enc_array le32 (pre_rsvd r)"

definition ImagePreamble_read :: "ImagePreamble decoder" where
  "ImagePreamble_read bs =
     (let (info, bs) = ImageVendorPubKeyInfo_read bs;
          (ei, bs) = dec_le 4 bs;
          (ek, bs) = ImageEccPubKey_read bs;
          (pidx, bs) = dec_le 4 bs;
          (pk, bs) = dec_raw 2592 bs;
          (vs, bs) = ImageSignatures_read bs;
          (ok, bs) = ImageOwnerPubKeys_read bs;
          (os, bs) = ImageSignatures_read bs;
          (rsv, bs) = dec_array 2 (dec_le 4) bs
      in (\<lparr>vendor_pub_key_info = info, pre_vendor_ecc_pub_key_idx = ei, vendor_ecc_active_pub_key = ek, pre_vendor_pqc_pub_key_idx = pidx, vendor_pqc_active_pub_key = pk, vendor_sigs = vs, owner_pub_keys = ok, owner_sigs = os, pre_rsvd = rsv\<rparr>, bs))"

lemma ImagePreamble_codec [struct_codecs]: "codec ImagePreamble_as_bytes ImagePreamble_read wf_ImagePreamble 16576"
proof -
  have "codec ImagePreamble_as_bytes ImagePreamble_read wf_ImagePreamble (1736 + (4 + (96 + (4 + (2592 + (4724 + (2688 + (4724 + (2 * 4)))))))))"
    by (rule codec_iso [where f = "\<lambda>r. (vendor_pub_key_info r, pre_vendor_ecc_pub_key_idx r, vendor_ecc_active_pub_key r, pre_vendor_pqc_pub_key_idx r, vendor_pqc_active_pub_key r, vendor_sigs r, owner_pub_keys r, owner_sigs r, pre_rsvd r)"
        and g = "\<lambda>(info, ei, ek, pidx, pk, vs, ok, os, rsv). \<lparr>vendor_pub_key_info = info, pre_vendor_ecc_pub_key_idx = ei, vendor_ecc_active_pub_key = ek, pre_vendor_pqc_pub_key_idx = pidx, vendor_pqc_active_pub_key = pk, vendor_sigs = vs, owner_pub_keys = ok, owner_sigs = os, pre_rsvd = rsv\<rparr>"],
      (rule codec_pair struct_codecs)+)
    (auto simp: codec_defs ImagePreamble_as_bytes_def ImagePreamble_read_def wf_ImagePreamble_def split: prod.splits)
  then show ?thesis by simp
qed

interpretation preamble_bytes: codec ImagePreamble_as_bytes ImagePreamble_read wf_ImagePreamble 16576
  by (rule ImagePreamble_codec)

definition VendorSignedData_as_bytes :: "VendorSignedData \<Rightarrow> u8 list" where
  "VendorSignedData_as_bytes r =
     vendor_not_before r @ vendor_not_after r @ vendor_reserved r"

definition VendorSignedData_read :: "VendorSignedData decoder" where
  "VendorSignedData_read bs =
     (let (nb, bs) = dec_raw 15 bs;
          (na, bs) = dec_raw 15 bs;
          (rsv, bs) = dec_raw 10 bs
      in (\<lparr>vendor_not_before = nb, vendor_not_after = na, vendor_reserved = rsv\<rparr>, bs))"

lemma VendorSignedData_codec [struct_codecs]: "codec VendorSignedData_as_bytes VendorSignedData_read wf_VendorSignedData 40"
proof -
  have "codec VendorSignedData_as_bytes VendorSignedData_read wf_VendorSignedData (15 + (15 + (10)))"
    by (rule codec_iso [where f = "\<lambda>r. (vendor_not_before r, vendor_not_after r, vendor_reserved r)"
        and g = "\<lambda>(nb, na, rsv). \<lparr>vendor_not_before = nb, vendor_not_after = na, vendor_reserved = rsv\<rparr>"],
      (rule codec_pair struct_codecs)+)
    (auto simp: codec_defs VendorSignedData_as_bytes_def VendorSignedData_read_def wf_VendorSignedData_def split: prod.splits)
  then show ?thesis by simp
qed

definition OwnerSignedData_as_bytes :: "OwnerSignedData \<Rightarrow> u8 list" where
  "OwnerSignedData_as_bytes r =
     owner_not_before r @ owner_not_after r @ owner_reserved r"

definition OwnerSignedData_read :: "OwnerSignedData decoder" where
  "OwnerSignedData_read bs =
     (let (nb, bs) = dec_raw 15 bs;
          (na, bs) = dec_raw 15 bs;
          (rsv, bs) = dec_raw 10 bs
      in (\<lparr>owner_not_before = nb, owner_not_after = na, owner_reserved = rsv\<rparr>, bs))"

lemma OwnerSignedData_codec [struct_codecs]: "codec OwnerSignedData_as_bytes OwnerSignedData_read wf_OwnerSignedData 40"
proof -
  have "codec OwnerSignedData_as_bytes OwnerSignedData_read wf_OwnerSignedData (15 + (15 + (10)))"
    by (rule codec_iso [where f = "\<lambda>r. (owner_not_before r, owner_not_after r, owner_reserved r)"
        and g = "\<lambda>(nb, na, rsv). \<lparr>owner_not_before = nb, owner_not_after = na, owner_reserved = rsv\<rparr>"],
      (rule codec_pair struct_codecs)+)
    (auto simp: codec_defs OwnerSignedData_as_bytes_def OwnerSignedData_read_def wf_OwnerSignedData_def split: prod.splits)
  then show ?thesis by simp
qed

definition ImageHeader_as_bytes :: "ImageHeader \<Rightarrow> u8 list" where
  "ImageHeader_as_bytes r =
     enc_array le32 (hdr_revision r) @ le32 (hdr_vendor_ecc_pub_key_idx r) @
     le32 (hdr_vendor_pqc_pub_key_idx r) @ le32 (hdr_flags r) @ le32 (toc_len r) @
     le32 (pl0_pauser r) @ enc_array le32 (toc_digest r) @ le32 (hdr_svn r) @
     VendorSignedData_as_bytes (vendor_data r) @ OwnerSignedData_as_bytes (owner_data r)"

definition ImageHeader_read :: "ImageHeader decoder" where
  "ImageHeader_read bs =
     (let (rev, bs) = dec_array 2 (dec_le 4) bs;
          (ei, bs) = dec_le 4 bs;
          (pidx, bs) = dec_le 4 bs;
          (fl, bs) = dec_le 4 bs;
          (tl, bs) = dec_le 4 bs;
          (pl0, bs) = dec_le 4 bs;
          (td, bs) = dec_array 12 (dec_le 4) bs;
          (svn, bs) = dec_le 4 bs;
          (vd, bs) = VendorSignedData_read bs;
          (od, bs) = OwnerSignedData_read bs
      in (\<lparr>hdr_revision = rev, hdr_vendor_ecc_pub_key_idx = ei, hdr_vendor_pqc_pub_key_idx = pidx, hdr_flags = fl, toc_len = tl, pl0_pauser = pl0, toc_digest = td, hdr_svn = svn, vendor_data = vd, owner_data = od\<rparr>, bs))"

lemma ImageHeader_codec [struct_codecs]: "codec ImageHeader_as_bytes ImageHeader_read wf_ImageHeader 160"
proof -
  have "codec ImageHeader_as_bytes ImageHeader_read wf_ImageHeader (2 * 4 + (4 + (4 + (4 + (4 + (4 + (12 * 4 + (4 + (40 + (40))))))))))"
    by (rule codec_iso [where f = "\<lambda>r. (hdr_revision r, hdr_vendor_ecc_pub_key_idx r, hdr_vendor_pqc_pub_key_idx r, hdr_flags r, toc_len r, pl0_pauser r, toc_digest r, hdr_svn r, vendor_data r, owner_data r)"
        and g = "\<lambda>(rev, ei, pidx, fl, tl, pl0, td, svn, vd, od). \<lparr>hdr_revision = rev, hdr_vendor_ecc_pub_key_idx = ei, hdr_vendor_pqc_pub_key_idx = pidx, hdr_flags = fl, toc_len = tl, pl0_pauser = pl0, toc_digest = td, hdr_svn = svn, vendor_data = vd, owner_data = od\<rparr>"],
      (rule codec_pair struct_codecs)+)
    (auto simp: codec_defs ImageHeader_as_bytes_def ImageHeader_read_def wf_ImageHeader_def split: prod.splits)
  then show ?thesis by simp
qed

interpretation header_bytes: codec ImageHeader_as_bytes ImageHeader_read wf_ImageHeader 160
  by (rule ImageHeader_codec)

definition ImageTocEntry_as_bytes :: "ImageTocEntry \<Rightarrow> u8 list" where
  "ImageTocEntry_as_bytes r =
     le32 (toc_id r) @ le32 (toc_type r) @ toc_revision r @ le32 (toc_version r) @
     enc_array le32 (toc_reserved r) @ le32 (load_addr r) @ le32 (entry_point r) @
     le32 (toc_offset r) @ le32 (toc_size r) @ enc_array le32 (toc_entry_digest r)"

definition ImageTocEntry_read :: "ImageTocEntry decoder" where
  "ImageTocEntry_read bs =
     (let (i, bs) = dec_le 4 bs;
          (tt, bs) = dec_le 4 bs;
          (rev, bs) = dec_raw 20 bs;
          (ver, bs) = dec_le 4 bs;
          (rsv, bs) = dec_array 2 (dec_le 4) bs;
          (la, bs) = dec_le 4 bs;
          (ep, bs) = dec_le 4 bs;
          (off, bs) = dec_le 4 bs;
          (sz, bs) = dec_le 4 bs;
          (dg, bs) = dec_array 12 (dec_le 4) bs
      in (\<lparr>toc_id = i, toc_type = tt, toc_revision = rev, toc_version = ver, toc_reserved = rsv, load_addr = la, entry_point = ep, toc_offset = off, toc_size = sz, toc_entry_digest = dg\<rparr>, bs))"

lemma ImageTocEntry_codec [struct_codecs]: "codec ImageTocEntry_as_bytes ImageTocEntry_read wf_ImageTocEntry 104"
proof -
  have "codec ImageTocEntry_as_bytes ImageTocEntry_read wf_ImageTocEntry (4 + (4 + (20 + (4 + (2 * 4 + (4 + (4 + (4 + (4 + (12 * 4))))))))))"
    by (rule codec_iso [where f = "\<lambda>r. (toc_id r, toc_type r, toc_revision r, toc_version r, toc_reserved r, load_addr r, entry_point r, toc_offset r, toc_size r, toc_entry_digest r)"
        and g = "\<lambda>(i, tt, rev, ver, rsv, la, ep, off, sz, dg). \<lparr>toc_id = i, toc_type = tt, toc_revision = rev, toc_version = ver, toc_reserved = rsv, load_addr = la, entry_point = ep, toc_offset = off, toc_size = sz, toc_entry_digest = dg\<rparr>"],
      (rule codec_pair struct_codecs)+)
    (auto simp: codec_defs ImageTocEntry_as_bytes_def ImageTocEntry_read_def wf_ImageTocEntry_def split: prod.splits)
  then show ?thesis by simp
qed

interpretation toc_entry_bytes: codec ImageTocEntry_as_bytes ImageTocEntry_read wf_ImageTocEntry 104
  by (rule ImageTocEntry_codec)

definition ImageManifest_as_bytes :: "ImageManifest \<Rightarrow> u8 list" where
  "ImageManifest_as_bytes r =
     le32 (marker r) @ le32 (man_size r) @ [man_pqc_key_type r] @ man_reserved r @
     ImagePreamble_as_bytes (preamble r) @ ImageHeader_as_bytes (header r) @
     ImageTocEntry_as_bytes (fmc r) @ ImageTocEntry_as_bytes (runtime r)"

definition ImageManifest_read :: "ImageManifest decoder" where
  "ImageManifest_read bs =
     (let (mk, bs) = dec_le 4 bs;
          (sz, bs) = dec_le 4 bs;
          (kt, bs) = byte_dec bs;
          (rsv, bs) = dec_raw 3 bs;
          (p, bs) = ImagePreamble_read bs;
          (h, bs) = ImageHeader_read bs;
          (f, bs) = ImageTocEntry_read bs;
          (rt, bs) = ImageTocEntry_read bs
      in (\<lparr>marker = mk, man_size = sz, man_pqc_key_type = kt, man_reserved = rsv, preamble = p, header = h, fmc = f, runtime = rt\<rparr>, bs))"

lemma ImageManifest_codec [struct_codecs]: "codec ImageManifest_as_bytes ImageManifest_read wf_ImageManifest 16956"
proof -
  have "codec ImageManifest_as_bytes ImageManifest_read wf_ImageManifest (4 + (4 + (1 + (3 + (16576 + (160 + (104 + (104))))))))"
    by (rule codec_iso [where f = "\<lambda>r. (marker r, man_size r, man_pqc_key_type r, man_reserved r, preamble r, header r, fmc r, runtime r)"
        and g = "\<lambda>(mk, sz, kt, rsv, p, h, f, rt). \<lparr>marker = mk, man_size = sz, man_pqc_key_type = kt, man_reserved = rsv, preamble = p, header = h, fmc = f, runtime = rt\<rparr>"],
      (rule codec_pair struct_codecs)+)
    (auto simp: codec_defs ImageManifest_as_bytes_def ImageManifest_read_def wf_ImageManifest_def split: prod.splits)
  then show ?thesis by simp
qed

interpretation manifest_bytes: codec ImageManifest_as_bytes ImageManifest_read wf_ImageManifest 16956
  by (rule ImageManifest_codec)

section \<open>Ranges of the manifest\<close>

text \<open>A \<^verbatim>\<open>Range<u32>\<close> is its start and its end. \<open>size_of\<close> and \<open>offset_of\<close> are those of the layout.\<close>

type_synonym u32_range = "u32 \<times> u32"

definition range_start :: "u32_range \<Rightarrow> u32" where "range_start r = fst r"
definition range_end :: "u32_range \<Rightarrow> u32" where "range_end r = snd r"

definition range_len :: "u32_range \<Rightarrow> nat" where
  "range_len r = unat (range_end r) - unat (range_start r)"

definition range_contains :: "u32_range \<Rightarrow> u32 \<Rightarrow> bool" where
  "range_contains r x \<longleftrightarrow> range_start r \<le> x \<and> x < range_end r"

definition slice :: "u32_range \<Rightarrow> u8 list \<Rightarrow> u8 list" where
  "slice r bs = take (range_len r) (drop (unat (range_start r)) bs)"

abbreviation (input) size_of_ImageVendorPubKeyInfo :: u32 where "size_of_ImageVendorPubKeyInfo \<equiv> 1736"
abbreviation (input) size_of_ImageEccPubKey :: u32 where "size_of_ImageEccPubKey \<equiv> 96"
abbreviation (input) size_of_ImagePqcPubKey :: u32 where "size_of_ImagePqcPubKey \<equiv> 2592"
abbreviation (input) size_of_ImageSignatures :: u32 where "size_of_ImageSignatures \<equiv> 4724"
abbreviation (input) size_of_ImageOwnerPubKeys :: u32 where "size_of_ImageOwnerPubKeys \<equiv> 2688"
abbreviation (input) size_of_ImagePreamble :: u32 where "size_of_ImagePreamble \<equiv> 16576"
abbreviation (input) size_of_ImageHeader :: u32 where "size_of_ImageHeader \<equiv> 160"
abbreviation (input) size_of_ImageTocEntry :: u32 where "size_of_ImageTocEntry \<equiv> 104"

definition IMAGE_MANIFEST_BYTE_SIZE :: nat where "IMAGE_MANIFEST_BYTE_SIZE = 16956"

definition offset_of_preamble :: u32 where "offset_of_preamble = 4 + 4 + 1 + 3"
definition offset_of_header :: u32 where
  "offset_of_header = offset_of_preamble + size_of_ImagePreamble"
definition offset_of_fmc :: u32 where
  "offset_of_fmc = offset_of_header + size_of_ImageHeader"
definition offset_of_owner_pub_keys :: u32 where
  "offset_of_owner_pub_keys =
     size_of_ImageVendorPubKeyInfo + 4 + size_of_ImageEccPubKey + 4 + size_of_ImagePqcPubKey +
     size_of_ImageSignatures"

lemmas offset_defs = offset_of_preamble_def offset_of_header_def offset_of_fmc_def
  offset_of_owner_pub_keys_def

text \<open>
  The accessors of \<^verbatim>\<open>ImageManifest\<close> for the byte ranges of its parts. No firmware calls them: the verifier
  hashes its structures directly and computes the span of the table of contents, which is that of
  \<open>toc_range\<close>, inline.
\<close>

definition vendor_pub_key_descriptors_range :: u32_range where
  "vendor_pub_key_descriptors_range =
     (0 + offset_of_preamble, size_of_ImageVendorPubKeyInfo + offset_of_preamble)"

definition owner_pub_key_range :: u32_range where
  "owner_pub_key_range =
     (offset_of_owner_pub_keys + offset_of_preamble,
      offset_of_owner_pub_keys + size_of_ImageOwnerPubKeys + offset_of_preamble)"

definition header_range :: u32_range where
  "header_range = (offset_of_header, offset_of_header + size_of_ImageHeader)"

definition toc_range :: u32_range where
  "toc_range = (offset_of_fmc, offset_of_fmc + size_of_ImageTocEntry + size_of_ImageTocEntry)"

lemmas range_defs = range_start_def range_end_def range_len_def slice_def
  vendor_pub_key_descriptors_range_def owner_pub_key_range_def header_range_def toc_range_def

text \<open>Cutting a field out of a concatenation of fields of known lengths.\<close>

lemma take_drop_field:
  "length pre = i \<Longrightarrow> length fld = n \<Longrightarrow> take n (drop i (pre @ fld @ post)) = fld"
  by simp

lemma IMAGE_MANIFEST_BYTE_SIZE_eq:
  "wf_ImageManifest m \<Longrightarrow> length (ImageManifest_as_bytes m) = IMAGE_MANIFEST_BYTE_SIZE"
  by (simp add: manifest_bytes.enc_len IMAGE_MANIFEST_BYTE_SIZE_def)

lemma manifest_layout:
  assumes "wf_ImageManifest m"
  shows "ImageManifest_as_bytes m =
           (le32 (marker m) @ le32 (man_size m) @ [man_pqc_key_type m] @ man_reserved m) @
           ImagePreamble_as_bytes (preamble m) @ ImageHeader_as_bytes (header m) @
           ImageTocEntry_as_bytes (fmc m) @ ImageTocEntry_as_bytes (runtime m)"
    "length (le32 (marker m) @ le32 (man_size m) @ [man_pqc_key_type m] @ man_reserved m) = 12"
    "length (ImagePreamble_as_bytes (preamble m)) = 16576"
    "length (ImageHeader_as_bytes (header m)) = 160"
    "length (ImageTocEntry_as_bytes (fmc m)) = 104"
    "length (ImageTocEntry_as_bytes (runtime m)) = 104"
  using assms
  by (simp_all add: ImageManifest_as_bytes_def wf_ImageManifest_def preamble_bytes.enc_len
      header_bytes.enc_len toc_entry_bytes.enc_len)

lemma header_slice:
  assumes "wf_ImageManifest m"
  shows "slice header_range (ImageManifest_as_bytes m @ rest) = ImageHeader_as_bytes (header m)"
  using manifest_layout [OF assms]
  by (simp add: range_defs offset_defs)

lemma toc_slice:
  assumes "wf_ImageManifest m"
  shows "slice toc_range (ImageManifest_as_bytes m @ rest) =
           ImageTocEntry_as_bytes (fmc m) @ ImageTocEntry_as_bytes (runtime m)"
  using manifest_layout [OF assms]
  by (simp add: range_defs offset_defs)

lemma preamble_layout:
  assumes "wf_ImagePreamble p"
  shows "ImagePreamble_as_bytes p =
      ImageVendorPubKeyInfo_as_bytes (vendor_pub_key_info p) @
      (le32 (pre_vendor_ecc_pub_key_idx p) @ ImageEccPubKey_as_bytes (vendor_ecc_active_pub_key p) @
       le32 (pre_vendor_pqc_pub_key_idx p) @ vendor_pqc_active_pub_key p @
       ImageSignatures_as_bytes (vendor_sigs p)) @
      ImageOwnerPubKeys_as_bytes (owner_pub_keys p) @
      ImageSignatures_as_bytes (owner_sigs p) @ enc_array le32 (pre_rsvd p)"
    "length (ImageVendorPubKeyInfo_as_bytes (vendor_pub_key_info p)) = 1736"
    "length (le32 (pre_vendor_ecc_pub_key_idx p) @ ImageEccPubKey_as_bytes (vendor_ecc_active_pub_key p) @
       le32 (pre_vendor_pqc_pub_key_idx p) @ vendor_pqc_active_pub_key p @
       ImageSignatures_as_bytes (vendor_sigs p)) = 7420"
    "length (ImageOwnerPubKeys_as_bytes (owner_pub_keys p)) = 2688"
  using assms
  by (simp_all add: ImagePreamble_as_bytes_def wf_ImagePreamble_def vendor_info_bytes.enc_len
      ecc_pub_key_bytes.enc_len owner_keys_bytes.enc_len codec.enc_len [OF ImageSignatures_codec])

lemma vendor_pub_key_descriptors_slice:
  assumes "wf_ImageManifest m"
  shows "slice vendor_pub_key_descriptors_range (ImageManifest_as_bytes m @ rest) =
           ImageVendorPubKeyInfo_as_bytes (vendor_pub_key_info (preamble m))"
  using manifest_layout [OF assms] preamble_layout [of "preamble m"] assms
  by (simp add: range_defs offset_defs wf_ImageManifest_def)

lemma owner_pub_key_slice:
  assumes "wf_ImageManifest m"
  shows "slice owner_pub_key_range (ImageManifest_as_bytes m @ rest) =
           ImageOwnerPubKeys_as_bytes (owner_pub_keys (preamble m))"
  using manifest_layout [OF assms] preamble_layout [of "preamble m"] assms
  by (simp add: range_defs offset_defs wf_ImageManifest_def)

section \<open>Table of contents entries\<close>

datatype ImageTocEntryType = Executable

definition toc_entry_type_as_u32 :: "ImageTocEntryType \<Rightarrow> u32" where
  "toc_entry_type_as_u32 t = (case t of Executable \<Rightarrow> 1)"

datatype ImageTocEntryId = Fmc | Runtime

definition toc_entry_id_as_u32 :: "ImageTocEntryId \<Rightarrow> u32" where
  "toc_entry_id_as_u32 t = (case t of Fmc \<Rightarrow> 1 | Runtime \<Rightarrow> 2)"

definition image_range :: "ImageTocEntry \<Rightarrow> u32_range outcome" where
  "image_range t =
     (case checked_add (toc_offset t) (toc_size t) of
        None \<Rightarrow> Err IMAGE_VERIFIER_ERR_TOC_ENTRY_RANGE_ARITHMETIC_OVERFLOW
      | Some e \<Rightarrow> Ok (toc_offset t, e))"

definition image_size :: "ImageTocEntry \<Rightarrow> u32" where
  "image_size t = toc_size t"

definition overlaps :: "ImageTocEntry \<Rightarrow> ImageTocEntry \<Rightarrow> bool" where
  "overlaps t u \<longleftrightarrow>
     load_addr t < load_addr u + image_size u \<and> load_addr t + image_size t > load_addr u"

lemma image_range_Ok:
  "image_range t = Ok r \<longleftrightarrow>
     r = (toc_offset t, toc_offset t + toc_size t) \<and>
     unat (toc_offset t + toc_size t) = unat (toc_offset t) + unat (toc_size t)"
proof -
  have "image_range t = Ok r \<longleftrightarrow>
      (\<exists>e. checked_add (toc_offset t) (toc_size t) = Some e \<and> r = (toc_offset t, e))"
    by (auto simp: image_range_def split: option.splits)
  then show ?thesis by (auto simp: checked_add_Some_iff)
qed

lemma image_range_not_panic: "\<not> is_panic (image_range t)"
  by (simp add: image_range_def split: option.splits)

section \<open>Image bundle\<close>

text \<open>\<^verbatim>\<open>usize::next_multiple_of\<close> and \<^verbatim>\<open>ImageBundle::to_bytes\<close>; an \<^verbatim>\<open>io::Error::other\<close> is its message.\<close>

definition next_multiple_of :: "nat \<Rightarrow> nat \<Rightarrow> nat" where
  "next_multiple_of n k = (if n mod k = 0 then n else n + (k - n mod k))"

definition resize :: "nat \<Rightarrow> 'a \<Rightarrow> 'a list \<Rightarrow> 'a list" where
  "resize n x xs = take n xs @ replicate (n - length xs) x"

definition to_bytes :: "ImageBundle \<Rightarrow> string + u8 list" where
  "to_bytes b =
     (let m = bundle_manifest b;
          result = ImageManifest_as_bytes m
      in if unat (toc_offset (fmc m)) \<noteq> length result
         then Inl ''actual fmc offset does not match manifest''
         else if unat (toc_size (fmc m)) \<noteq> length (bundle_fmc b)
         then Inl ''actual fmc size does not match manifest''
         else let result = result @ bundle_fmc b
         in if unat (toc_offset (runtime m)) \<noteq> length result
         then Inl ''actual runtime offset does not match manifest''
         else if unat (toc_size (runtime m)) \<noteq> length (bundle_runtime b)
         then Inl ''actual runtime size does not match manifest''
         else let result = result @ bundle_runtime b
         in Inr (resize (next_multiple_of (length result) IMAGE_ALIGNMENT) 0 result))"

lemma next_multiple_of_ge: "n \<le> next_multiple_of n k"
  by (metis le_add1 next_multiple_of_def order_refl)

lemma next_multiple_of_dvd:
  assumes "0 < k"
  shows "k dvd next_multiple_of n k"
proof (cases "n mod k = 0")
  case True
  then show ?thesis by (simp add: next_multiple_of_def dvd_eq_mod_eq_0)
next
  case False
  have "n mod k < k" using assms by simp
  moreover have "k * (n div k) + n mod k = n" by simp
  ultimately have "n + (k - n mod k) = k * (n div k) + k" by linarith
  then have "n + (k - n mod k) = k * (n div k + 1)" by simp
  with False show ?thesis by (simp add: next_multiple_of_def)
qed

lemma next_multiple_of_lt: "0 < k \<Longrightarrow> next_multiple_of n k < n + k"
  by (auto simp: next_multiple_of_def)

lemma resize_grow: "length xs \<le> n \<Longrightarrow> resize n x xs = xs @ replicate (n - length xs) x"
  by (simp add: resize_def)

lemma to_bytes_Inr:
  assumes "to_bytes b = Inr bs"
  obtains pad where
    "bs = ImageManifest_as_bytes (bundle_manifest b) @ bundle_fmc b @ bundle_runtime b @ replicate pad 0"
    "pad < IMAGE_ALIGNMENT" "IMAGE_ALIGNMENT dvd length bs"
    "unat (toc_offset (fmc (bundle_manifest b))) = length (ImageManifest_as_bytes (bundle_manifest b))"
    "unat (toc_size (fmc (bundle_manifest b))) = length (bundle_fmc b)"
    "unat (toc_offset (runtime (bundle_manifest b))) =
       length (ImageManifest_as_bytes (bundle_manifest b)) + length (bundle_fmc b)"
    "unat (toc_size (runtime (bundle_manifest b))) = length (bundle_runtime b)"
proof -
  let ?r = "ImageManifest_as_bytes (bundle_manifest b) @ bundle_fmc b @ bundle_runtime b"
  let ?n = "next_multiple_of (length ?r) IMAGE_ALIGNMENT"
  have ge: "length ?r \<le> ?n" by (rule next_multiple_of_ge)
  have lt: "?n - length ?r < IMAGE_ALIGNMENT" using next_multiple_of_lt [of IMAGE_ALIGNMENT "length ?r"] by simp
  have bs: "bs = ?r @ replicate (?n - length ?r) 0"
    using assms ge by (auto simp: to_bytes_def Let_def resize_grow split: if_splits)
  have "length bs = ?n" using bs ge by simp
  then have "IMAGE_ALIGNMENT dvd length bs" by (simp add: next_multiple_of_dvd)
  with that [of "?n - length ?r"] bs lt assms show ?thesis
    by (auto simp: to_bytes_def Let_def split: if_splits)
qed

section \<open>What the representation guarantees\<close>

text \<open>A sample: the manifest of all-zero bytes, and a bundle of two small images.\<close>

definition sample_manifest :: ImageManifest where
  "sample_manifest = fst (ImageManifest_read (replicate 16956 0))"

lemma wf_sample_manifest: "wf_ImageManifest sample_manifest"
  by (simp add: sample_manifest_def manifest_bytes.dec_wf)

definition sample_bundle :: ImageBundle where
  "sample_bundle = \<lparr>bundle_manifest = sample_manifest\<lparr>
       fmc := (fmc sample_manifest)\<lparr>toc_offset := 16956, toc_size := 2\<rparr>,
       runtime := (runtime sample_manifest)\<lparr>toc_offset := 16958, toc_size := 3\<rparr>\<rparr>,
     bundle_fmc = [1, 2], bundle_runtime = [3, 4, 5]\<rparr>"

lemma wf_sample_bundle: "wf_ImageManifest (bundle_manifest sample_bundle)"
  using wf_sample_manifest by (simp add: sample_bundle_def wf_ImageManifest_def wf_ImageTocEntry_def)

text \<open>C32: A bundle that is written out can be read back: its bytes start with the manifest, each image
  stands where its table-of-contents entry says, only zero bytes follow, fewer than the alignment,
  and the length is a multiple of the alignment.\<close>

theorem to_bytes_layout:
  assumes "to_bytes b = Inr bs" "wf_ImageManifest (bundle_manifest b)"
  defines "m \<equiv> fst (ImageManifest_read bs)"
  shows "m = bundle_manifest b \<and>
    take (unat (toc_size (fmc m))) (drop (unat (toc_offset (fmc m))) bs) = bundle_fmc b \<and>
    take (unat (toc_size (runtime m))) (drop (unat (toc_offset (runtime m))) bs) = bundle_runtime b \<and>
    (\<exists>pad < IMAGE_ALIGNMENT. drop (unat (toc_offset (runtime m)) + unat (toc_size (runtime m))) bs = replicate pad 0) \<and>
    IMAGE_ALIGNMENT dvd length bs"
proof (rule to_bytes_Inr [OF assms(1)])
  fix pad assume bs: "bs = ImageManifest_as_bytes (bundle_manifest b) @ bundle_fmc b @ bundle_runtime b @ replicate pad 0"
    and pad: "pad < IMAGE_ALIGNMENT" "IMAGE_ALIGNMENT dvd length bs"
    and toc: "unat (toc_offset (fmc (bundle_manifest b))) = length (ImageManifest_as_bytes (bundle_manifest b))"
      "unat (toc_size (fmc (bundle_manifest b))) = length (bundle_fmc b)"
      "unat (toc_offset (runtime (bundle_manifest b))) =
         length (ImageManifest_as_bytes (bundle_manifest b)) + length (bundle_fmc b)"
      "unat (toc_size (runtime (bundle_manifest b))) = length (bundle_runtime b)"
  have m: "m = bundle_manifest b"
    unfolding m_def bs by (simp add: manifest_bytes.dec_enc [OF assms(2)])
  show ?thesis
    unfolding m toc using bs pad by (auto intro!: exI [of _ pad])
qed

theorem to_bytes_layout_witness:
  "\<exists>bs. to_bytes sample_bundle = Inr bs \<and> fst (ImageManifest_read bs) = bundle_manifest sample_bundle \<and>
     take 3 (drop 16958 bs) = [3, 4, 5]"
proof -
  have "length (ImageManifest_as_bytes (bundle_manifest sample_bundle)) = 16956"
    using wf_sample_bundle by (rule manifest_bytes.enc_len)
  then have "\<exists>bs. to_bytes sample_bundle = Inr bs"
    by (simp add: to_bytes_def sample_bundle_def)
  then obtain bs where bs: "to_bytes sample_bundle = Inr bs" ..
  show ?thesis
    using to_bytes_layout [OF bs wf_sample_bundle] bs by (auto simp: sample_bundle_def)
qed

end
