(* ===== verification/ImageVerifyEnv.thy ===== *)
theory ImageVerifyEnv
  imports ImageTypes Cfi
begin

unbundle bit_operations_syntax

text \<open>
  The interface of the image verifier, \<^verbatim>\<open>image/verify/src/lib.rs\<close>. The trait
  \<^verbatim>\<open>ImageVerificationEnv\<close> is a record of operations over a state \<open>'s\<close>: the cryptographic
  operations are actions, the getters (methods on \<^verbatim>\<open>&self\<close>) read one \<open>env_view\<close> of the
  state.
\<close>

section \<open>Types of the environment\<close>

datatype Lifecycle = Unprovisioned | Manufacturing | Reserved2 | Production

definition lifecycle_as_u32 :: "Lifecycle \<Rightarrow> u32" where
  "lifecycle_as_u32 l =
     (case l of Unprovisioned \<Rightarrow> 0 | Manufacturing \<Rightarrow> 1 | Reserved2 \<Rightarrow> 2 | Production \<Rightarrow> 3)"

datatype ResetReason = ColdReset | WarmReset | UpdateReset | Unknown

datatype Mldsa87Result = Mldsa87_Success | Mldsa87_SigVerifyFailed

text \<open>The bit flags \<^verbatim>\<open>VendorEccPubKeyRevocation\<close> have the bits of the keys 0 to 3.\<close>

type_synonym VendorEccPubKeyRevocation = u32

definition from_bits_truncate :: "u32 \<Rightarrow> VendorEccPubKeyRevocation" where
  "from_bits_truncate v = v AND 0xF"

definition revocation_contains :: "VendorEccPubKeyRevocation \<Rightarrow> VendorEccPubKeyRevocation \<Rightarrow> bool" where
  "revocation_contains r k \<longleftrightarrow> r AND k = k"

text \<open>\<^verbatim>\<open>0x01u32 << key_idx\<close> in the release profile: the shift amount is taken modulo 32.\<close>

definition key_bit :: "u32 \<Rightarrow> u32" where
  "key_bit key_idx = push_bit (unat (key_idx AND 31)) 1"

record env_view =
  vendor_pub_key_info_digest_fuses :: ImageDigest384
  vendor_ecc_pub_key_revocation :: VendorEccPubKeyRevocation
  vendor_lms_pub_key_revocation :: u32
  vendor_mldsa_pub_key_revocation :: u32
  owner_pub_key_digest_fuses :: ImageDigest384
  anti_rollback_disable :: bool
  dev_lifecycle :: Lifecycle
  vendor_ecc_pub_key_idx_dv :: u32
  vendor_pqc_pub_key_idx_dv :: u32
  owner_pub_key_digest_dv :: ImageDigest384
  get_fmc_digest_dv :: ImageDigest384
  get_cold_reset_fmc_load_addr :: u32
  get_cold_reset_fmc_size :: u32
  fw_fuse_svn :: u32
  iccm_range :: u32_range
  pqc_key_type_fuse :: "FwVerificationPqcKeyType outcome"
  dot_owner_pk_hash :: "ImageDigest384 option"
  debug_image_allowed :: bool

record 's ImageVerificationEnv =
  sha384_digest :: "u32 \<Rightarrow> u32 \<Rightarrow> ('s, ImageDigest384) action"
  sha512_digest :: "u32 \<Rightarrow> u32 \<Rightarrow> ('s, u32 list) action"
  sha384_acc_digest_slice :: "u8 list \<Rightarrow> u32 \<Rightarrow> ('s, ImageDigest384) action"
  sha384_acc_digest :: "u32 \<Rightarrow> u32 \<Rightarrow> u32 \<Rightarrow> ('s, ImageDigest384) action"
  sha512_acc_digest :: "u32 \<Rightarrow> u32 \<Rightarrow> u32 \<Rightarrow> ('s, u32 list) action"
  ecc384_verify :: "ImageDigest384 \<Rightarrow> ImageEccPubKey \<Rightarrow> ImageEccSignature \<Rightarrow> ('s, u32 list) action"
  lms_verify :: "ImageDigest384 \<Rightarrow> ImageLmsPublicKey \<Rightarrow> ImageLmsSignature \<Rightarrow> ('s, HashValue) action"
  mldsa87_verify :: "u8 list \<Rightarrow> ImageMldsaPubKey \<Rightarrow> ImageMldsaSignature \<Rightarrow> ('s, Mldsa87Result) action"
  set_fw_extended_error :: "u32 \<Rightarrow> 's \<Rightarrow> 's"
  env_view :: "'s \<Rightarrow> env_view"

abbreviation asks :: "'s ImageVerificationEnv \<Rightarrow> (env_view \<Rightarrow> 'a) \<Rightarrow> ('s, 'a) action" where
  "asks E f \<equiv> gets (\<lambda>s. f (env_view E s))"

text \<open>\<^verbatim>\<open>map_err(|err| { self.env.set_fw_extended_error(err.into()); e })\<close>\<close>

definition mapErrExt :: "'s ImageVerificationEnv \<Rightarrow> u32 \<Rightarrow> ('s, 'a) action \<Rightarrow> ('s, 'a) action" where
  "mapErrExt E e m = (\<lambda>s. case m s of (Err c, t) \<Rightarrow> (Err e, set_fw_extended_error E c t) | r \<Rightarrow> r)"

section \<open>Results of the verification\<close>

definition MAX_FIRMWARE_SVN :: u32 where "MAX_FIRMWARE_SVN = 128"

record FirmwareSvnLogInfo =
  log_manifest_svn :: u32
  log_reserved :: u32
  log_fuse_svn :: u32

record ImageVerificationExeInfo =
  exe_load_addr :: u32
  exe_size :: u32
  exe_entry_point :: u32
  exe_digest :: ImageDigest384

record ImageVerificationLogInfo =
  log_vendor_ecc_pub_key_idx :: u32
  log_fuse_vendor_ecc_pub_key_revocation :: VendorEccPubKeyRevocation
  log_vendor_pqc_pub_key_idx :: u32
  log_fuse_vendor_pqc_pub_key_revocation :: u32
  fw_log_info :: FirmwareSvnLogInfo

record ImageVerificationInfo =
  info_vendor_ecc_pub_key_idx :: u32
  info_vendor_pqc_pub_key_idx :: u32
  info_pqc_key_type :: FwVerificationPqcKeyType
  info_owner_pub_keys_digest :: ImageDigest384
  info_owner_pub_keys_digest_in_fuses :: bool
  info_fw_svn :: u32
  info_effective_fuse_svn :: u32
  info_fmc :: ImageVerificationExeInfo
  info_runtime :: ImageVerificationExeInfo
  info_log_info :: ImageVerificationLogInfo

end
