(* ===== verification/Mldsa87Driver.thy ===== *)
theory Mldsa87Driver
  imports Abr ImageVerifyEnv
begin

unbundle bit_operations_syntax

text \<open>
  The verification half of the ML-DSA-87 driver, \<^verbatim>\<open>drivers/src/mldsa87.rs\<close>, on the emulated peripheral:
  the wait with its error condition, the streaming of a message, and the verification of streamed,
  fixed and externally hashed messages. The lemmas show that a streamed verification returns the
  verdict of the engine on exactly the message, and that the waits end.
\<close>

section \<open>Operations\<close>

abbreviation (input) MLDSA87_VERIFY_RES_WORD_LEN :: nat where "MLDSA87_VERIFY_RES_WORD_LEN \<equiv> 16"

definition abr_err_condition :: "Abr \<Rightarrow> bool" where
  "abr_err_condition r \<longleftrightarrow> abr_error_global_intr r \<noteq> 0 \<or> abr_error_internal_intr r \<noteq> 0"

text \<open>The emulator has the error register as read-only and ignores the write that would clear it.\<close>

definition Mldsa87_wait :: "fips204 \<Rightarrow> (Abr \<Rightarrow> bool) \<Rightarrow> (Abr, unit) action" where
  "Mldsa87_wait F condition =
     bindE (wait_for (\<lambda>r. condition r \<or> abr_err_condition r) (abr_tick F)) (\<lambda>_.
     bindE (gets abr_err_condition) (\<lambda>err.
     if err
     then bindE (mmio (on_write_mldsa_control Word 8)) (\<lambda>_. throw DRIVER_MLDSA87_HW_ERROR)
     else ret ()))"

fun stream_dwords :: "u32 list \<Rightarrow> (Abr, unit) action" where
  "stream_dwords [] = ret ()"
| "stream_dwords (dw # dws) = bindE (mmio (on_write_mldsa_msg Word 0 dw)) (\<lambda>_. stream_dwords dws)"

definition write_strobe :: "u32 \<Rightarrow> (Abr, unit) action" where
  "write_strobe s r = (Ok (), r\<lparr>mldsa_msg_strobe := s\<rparr>)"

definition last_strobe :: "nat \<Rightarrow> u32" where
  "last_strobe n = (if n = 1 then 1 else if n = 2 then 3 else if n = 3 then 7 else 0)"

definition program_var_msg :: "fips204 \<Rightarrow> u8 list \<Rightarrow> (Abr, unit) action" where
  "program_var_msg F msg =
     bindE (Mldsa87_wait F (\<lambda>r. mldsa_msg_stream_ready r \<or> mldsa_valid r)) (\<lambda>_.
     bindE (gets mldsa_valid) (\<lambda>valid.
     if valid then ret ()
     else
       let k = length msg div 4; remainder = drop (4 * k) msg
       in bindE (write_strobe 0xF) (\<lambda>_.
          bindE (stream_dwords (u8_to_u32_le k msg)) (\<lambda>_.
          bindE (write_strobe (last_strobe (length remainder))) (\<lambda>_.
          bindE (mmio (on_write_mldsa_msg Word 0 (from_le_bytes (remainder @ replicate (4 - length remainder) 0)))) (\<lambda>_.
          Mldsa87_wait F mldsa_valid))))))"

definition verify_common_setup :: "fips204 \<Rightarrow> u32 list \<Rightarrow> u32 list \<Rightarrow> (Abr, u32 list) action" where
  "verify_common_setup F pub_key signature =
     (let truncated_signature = take MLDSA87_VERIFY_RES_WORD_LEN signature;
          empty_verify_res = replicate MLDSA87_VERIFY_RES_WORD_LEN 0
      in bindE (failIf (truncated_signature = empty_verify_res) DRIVER_MLDSA87_UNSUPPORTED_SIGNATURE) (\<lambda>_.
         bindE (cfi_assert_ne_16_words truncated_signature empty_verify_res) (\<lambda>_.
         bindE (Mldsa87_wait F mldsa_ready) (\<lambda>_.
         bindE (\<lambda>r. (Ok (), r\<lparr>mldsa_pubkey := pub_key, mldsa_signature := signature\<rparr>)) (\<lambda>_.
         ret truncated_signature)))))"

text \<open>The end of every verification: read the result, clear the hardware, compare.\<close>

definition verify_verdict :: "u32 list \<Rightarrow> (Abr, Mldsa87Result) action" where
  "verify_verdict truncated_signature =
     bindE (gets mldsa_verify_res) (\<lambda>verify_res.
     bindE (mmio (on_write_mldsa_control Word 8)) (\<lambda>_.
     if verify_res = truncated_signature
     then bindE (cfi_assert_eq_16_words verify_res truncated_signature) (\<lambda>_. ret Mldsa87_Success)
     else ret Mldsa87_SigVerifyFailed))"

datatype SigData = Msg "u32 list" | Mu "u32 list"

fun write_mldsa_msg_words :: "nat \<Rightarrow> u32 list \<Rightarrow> (Abr, unit) action" where
  "write_mldsa_msg_words i [] = ret ()"
| "write_mldsa_msg_words i (w # ws) = bindE (mmio (on_write_mldsa_msg Word i w)) (\<lambda>_. write_mldsa_msg_words (i + 1) ws)"

definition verify_internal :: "fips204 \<Rightarrow> u32 list \<Rightarrow> SigData \<Rightarrow> u32 list \<Rightarrow> (Abr, Mldsa87Result) action" where
  "verify_internal F pub_key data signature =
     bindE (verify_common_setup F pub_key signature) (\<lambda>truncated_signature.
     bindE (case data of
              Msg msg \<Rightarrow> write_mldsa_msg_words 0 msg
            | Mu mu \<Rightarrow> (\<lambda>r. (Ok (), r\<lparr>mldsa_external_mu := mu\<rparr>))) (\<lambda>_.
     bindE (mmio (on_write_mldsa_control Word (case data of Msg _ \<Rightarrow> 3 | Mu _ \<Rightarrow> 3 OR 32))) (\<lambda>_.
     bindE (Mldsa87_wait F mldsa_valid) (\<lambda>_. verify_verdict truncated_signature))))"

definition Mldsa87_verify :: "fips204 \<Rightarrow> u32 list \<Rightarrow> u32 list \<Rightarrow> u32 list \<Rightarrow> (Abr, Mldsa87Result) action" where
  "Mldsa87_verify F pub_key msg signature = verify_internal F pub_key (Msg msg) signature"

definition verify_external_mu :: "fips204 \<Rightarrow> u32 list \<Rightarrow> u32 list \<Rightarrow> u32 list \<Rightarrow> (Abr, Mldsa87Result) action" where
  "verify_external_mu F pub_key mu signature = verify_internal F pub_key (Mu mu) signature"

definition verify_var :: "fips204 \<Rightarrow> u32 list \<Rightarrow> u8 list \<Rightarrow> u32 list \<Rightarrow> (Abr, Mldsa87Result) action" where
  "verify_var F pub_key msg signature =
     bindE (verify_common_setup F pub_key signature) (\<lambda>truncated_signature.
     bindE (mmio (on_write_mldsa_control Word (3 OR 64))) (\<lambda>_.
     bindE (program_var_msg F msg) (\<lambda>_. verify_verdict truncated_signature)))"

definition zeroize_no_wait :: "(Abr, unit) action" where
  "zeroize_no_wait = mmio (on_write_mldsa_control Word 8)"

text \<open>\<^verbatim>\<open>zeroize\<close> ignores an error of the wait.\<close>

definition Mldsa87_zeroize :: "fips204 \<Rightarrow> (Abr, unit) action" where
  "Mldsa87_zeroize F = bindE zeroize_no_wait (\<lambda>_ r.
     case Mldsa87_wait F mldsa_ready r of (Err _, t) \<Rightarrow> (Ok (), t) | x \<Rightarrow> x)"

section \<open>The timers\<close>

definition mldsa_only :: "nat option \<Rightarrow> nat option \<Rightarrow> nat option \<Rightarrow> Abr \<Rightarrow> bool" where
  "mldsa_only op zero strm r \<longleftrightarrow> mldsa_op_seed_read_complete_action r = None \<and>
     mldsa_op_complete_action r = op \<and> mldsa_op_zeroize_complete_action r = zero \<and>
     mldsa_op_msg_stream_ready_action r = strm"

definition zeroize_pending :: "Abr \<Rightarrow> nat option" where
  "zeroize_pending r = (if mldsa_only None (mldsa_op_zeroize_complete_action r) None r
     then mldsa_op_zeroize_complete_action r else None)"

definition stream_pending :: "Abr \<Rightarrow> nat option" where
  "stream_pending r = (if mldsa_only None None (mldsa_op_msg_stream_ready_action r) r
     then mldsa_op_msg_stream_ready_action r else None)"

definition mldsa_verify_pending :: "fips204 \<Rightarrow> Abr \<Rightarrow> nat option" where
  "mldsa_verify_pending F r = (if mldsa_only (mldsa_op_complete_action r) None None r \<and>
       field_read 0 3 (mldsa_ctrl r) = 3 \<and> mldsa_verify F r \<noteq> None
     then mldsa_op_complete_action r else None)"

definition stream_done :: "Abr \<Rightarrow> Abr" where
  "stream_done r = set_msg_stream_ready (r\<lparr>mldsa_op_msg_stream_ready_action := None\<rparr>)"

definition mldsa_op_done :: "fips204 \<Rightarrow> Abr \<Rightarrow> Abr" where
  "mldsa_op_done F r = (let r = r\<lparr>mldsa_op_complete_action := None\<rparr> in
     case mldsa_op_complete F r of None \<Rightarrow> r | Some t \<Rightarrow> t)"

lemma mldsa_zeroize_action: "mldsa_zeroize (r\<lparr>mldsa_op_zeroize_complete_action := a\<rparr>) = mldsa_zeroize r"
  by (simp add: mldsa_zeroize_def)

lemma mldsa_verify_action:
  "mldsa_verify F (r\<lparr>mldsa_op_complete_action := a\<rparr>) = map_option (\<lambda>r. r\<lparr>mldsa_op_complete_action := a\<rparr>) (mldsa_verify F r)"
  by (simp add: mldsa_verify_def mldsa_verify_msg_def mldsa_verify_mu_def mldsa_message_def mldsa_context_def
      mldsa_msg_stream_ready_def Let_def option.map_comp comp_def)

lemma mldsa_verify_fields:
  "mldsa_verify F r = Some t \<Longrightarrow> t = r\<lparr>mldsa_verify_res := mldsa_verify_res t\<rparr>"
  by (auto simp: mldsa_verify_def Let_def)

lemma mldsa_op_done_verify:
  assumes "mldsa_verify_pending F r = Some n" "mldsa_verify F r = Some t"
  shows "mldsa_op_done F r = t\<lparr>mldsa_op_complete_action := None, mldsa_status := (mldsa_status r OR 3) AND NOT 4\<rparr>"
proof -
  have "field_read 0 3 (mldsa_ctrl r) = 3"
    using assms(1) by (auto simp: mldsa_verify_pending_def split: if_splits)
  moreover have "mldsa_status t = mldsa_status r" by (subst mldsa_verify_fields [OF assms(2)]) simp
  ultimately show ?thesis
    using assms(2) by (simp add: mldsa_op_done_def mldsa_op_complete_def Let_def mldsa_verify_action)
qed

lemma abr_tick_zeroize:
  assumes "zeroize_pending r = Some n"
  shows "abr_tick F r = (if n \<le> 1 then mldsa_zeroize r else r\<lparr>mldsa_op_zeroize_complete_action := Some (n - 1)\<rparr>)"
proof -
  have a: "mldsa_only None (Some n) None r" using assms by (auto simp: zeroize_pending_def split: if_splits)
  have "abr_tick F r = abr_poll F (r\<lparr>mldsa_op_zeroize_complete_action := Some (n - 1)\<rparr>)"
    using a by (cases r) (simp add: abr_tick_def mldsa_only_def)
  then show ?thesis using a by (auto simp: abr_poll_def mldsa_only_def mldsa_zeroize_def Let_def)
qed

lemma abr_tick_stream:
  assumes "stream_pending r = Some n"
  shows "abr_tick F r = (if n \<le> 1 then stream_done r else r\<lparr>mldsa_op_msg_stream_ready_action := Some (n - 1)\<rparr>)"
proof -
  have a: "mldsa_only None None (Some n) r" using assms by (auto simp: stream_pending_def split: if_splits)
  have "abr_tick F r = abr_poll F (r\<lparr>mldsa_op_msg_stream_ready_action := Some (n - 1)\<rparr>)"
    using a by (cases r) (simp add: abr_tick_def mldsa_only_def)
  then show ?thesis using a by (auto simp: abr_poll_def mldsa_only_def stream_done_def Let_def)
qed

lemma abr_tick_verify:
  assumes "mldsa_verify_pending F r = Some n"
  shows "abr_tick F r = (if n \<le> 1 then mldsa_op_done F r else r\<lparr>mldsa_op_complete_action := Some (n - 1)\<rparr>)"
proof -
  have a: "mldsa_only (Some n) None None r" using assms by (auto simp: mldsa_verify_pending_def split: if_splits)
  obtain t where t: "mldsa_verify F r = Some t" using assms by (auto simp: mldsa_verify_pending_def split: if_splits)
  have tick: "abr_tick F r = abr_poll F (r\<lparr>mldsa_op_complete_action := Some (n - 1)\<rparr>)"
    using a by (cases r) (simp add: abr_tick_def mldsa_only_def)
  have "field_read 0 3 (mldsa_ctrl r) = 3" using assms by (auto simp: mldsa_verify_pending_def split: if_splits)
  moreover have "mldsa_op_seed_read_complete_action t = None" "mldsa_op_zeroize_complete_action t = None"
    "mldsa_op_msg_stream_ready_action t = None"
    using a by (subst mldsa_verify_fields [OF t]; simp add: mldsa_only_def)+
  ultimately show ?thesis
    using a t unfolding tick
    by (auto simp: abr_poll_def mldsa_only_def mldsa_op_done_def mldsa_op_complete_def mldsa_verify_action Let_def)
qed

interpretation mldsa_zeroize_device: timed_device zeroize_pending "\<lambda>r n. r\<lparr>mldsa_op_zeroize_complete_action := Some n\<rparr>"
  mldsa_zeroize "abr_tick F" "\<lambda>r. mldsa_ready r \<or> abr_err_condition r" for F
  by unfold_locales
    (auto simp: abr_tick_zeroize zeroize_pending_def mldsa_only_def mldsa_zeroize_action mldsa_ready_def
      abr_err_condition_def mldsa_zeroize_def bit_simps bit_numeral_rec split: if_splits)

interpretation mldsa_stream_device: timed_device stream_pending "\<lambda>r n. r\<lparr>mldsa_op_msg_stream_ready_action := Some n\<rparr>"
  stream_done "abr_tick F" "\<lambda>r. (mldsa_msg_stream_ready r \<or> mldsa_valid r) \<or> abr_err_condition r" for F
  by unfold_locales
    (auto simp: abr_tick_stream stream_pending_def mldsa_only_def stream_done_def set_msg_stream_ready_def
      mldsa_msg_stream_ready_def mldsa_valid_def abr_err_condition_def bit_simps bit_numeral_rec split: if_splits)

interpretation mldsa_verify_device: timed_device "mldsa_verify_pending F" "\<lambda>r n. r\<lparr>mldsa_op_complete_action := Some n\<rparr>"
  "mldsa_op_done F" "abr_tick F" "\<lambda>r. mldsa_valid r \<or> abr_err_condition r" for F
proof unfold_locales
  fix s m assume p: "mldsa_verify_pending F s = Some m"
  then obtain t where "mldsa_verify F s = Some t" by (auto simp: mldsa_verify_pending_def split: if_splits)
  from mldsa_op_done_verify [OF p this] show "mldsa_valid (mldsa_op_done F s) \<or> abr_err_condition (mldsa_op_done F s)"
    by (simp add: mldsa_valid_def bit_simps bit_numeral_rec)
qed (auto simp: abr_tick_verify mldsa_verify_pending_def mldsa_only_def mldsa_op_done_def mldsa_verify_action
    mldsa_valid_def abr_err_condition_def Let_def split: if_splits)

section \<open>Streaming\<close>

lemma strobed_last:
  assumes "n < 4"
  shows "strobed (last_strobe n) w = take n (le32 w)" "last_strobe n AND 15 = last_strobe n" "last_strobe n \<noteq> 15"
proof -
  have "n = 0 \<or> n = 1 \<or> n = 2 \<or> n = 3" using assms by auto
  then show "strobed (last_strobe n) w = take n (le32 w)" "last_strobe n AND 15 = last_strobe n" "last_strobe n \<noteq> 15"
    by (auto simp: strobed_def last_strobe_def le_bytes_def enumerate_eq_zip upt_rec bit_numeral_rec)
qed

lemma field_read_4: "field_read 0 4 w = w AND 15" for w :: u32
  by (simp add: field_read_def take_bit_eq_mask mask_numeral)

lemma stream_dwords_run:
  assumes "bit (mldsa_ctrl r) 6" "mldsa_msg_strobe r = 0xF"
  shows "stream_dwords dws r = (Ok (), r\<lparr>mldsa_streamed_msg := mldsa_streamed_msg r @ u32_le_to_u8 dws\<rparr>)"
  using assms
proof (induction dws arbitrary: r)
  case (Cons dw dws)
  have "on_write_mldsa_msg Word 0 dw r = (Ok (Inr ()), r\<lparr>mldsa_streamed_msg := mldsa_streamed_msg r @ le32 dw\<rparr>)"
    using Cons.prems by (simp add: on_write_mldsa_msg_def field_read_4)
  then show ?case
    using Cons.IH [of "r\<lparr>mldsa_streamed_msg := mldsa_streamed_msg r @ le32 dw\<rparr>"] Cons.prems
    by (simp add: bindE_mmio u32_le_to_u8_def)
qed (simp add: u32_le_to_u8_def)

lemma u32_le_to_u8_words:
  assumes "4 * k \<le> length bs"
  shows "u32_le_to_u8 (u8_to_u32_le k bs) = take (4 * k) bs"
proof -
  have "take 4 (drop (i * 4) (take (4 * k) bs)) = take 4 (drop (i * 4) bs)" if "i < k" for i
  proof -
    have "4 \<le> 4 * k - i * 4" using that by simp
    then show ?thesis by (simp add: drop_take min_def)
  qed
  then have "u8_to_u32_le k (take (4 * k) bs) = u8_to_u32_le k bs" by (simp add: u8_to_u32_le_def)
  then show ?thesis using u32_le_to_u8_inverse [of "take (4 * k) bs" k] assms by simp
qed

lemma stream_tail:
  assumes "length rem < 4"
  shows "take (length rem) (le32 (from_le_bytes (rem @ replicate (4 - length rem) 0))) = rem"
proof -
  have "le32 (from_le_bytes (rem @ replicate (4 - length rem) 0)) = rem @ replicate (4 - length rem) 0"
    using assms by (intro le_from_le_bytes) auto
  then show ?thesis by simp
qed

lemma last_word_run:
  assumes "bit (mldsa_ctrl r) 6" "mldsa_msg_strobe r = last_strobe (length rem)" "length rem < 4"
  shows "on_write_mldsa_msg Word 0 (from_le_bytes (rem @ replicate (4 - length rem) 0)) r =
    (Ok (Inr ()), r\<lparr>mldsa_msg_strobe := 0xF, mldsa_status := mldsa_status r AND NOT 4,
       mldsa_op_complete_action := Some 1000, mldsa_streamed_msg := mldsa_streamed_msg r @ rem\<rparr>)"
  using assms strobed_last [OF assms(3)] stream_tail [OF assms(3)]
  by (simp add: on_write_mldsa_msg_def field_read_4)

section \<open>Verification\<close>

text \<open>
  Between commands: no error, no context, and either ready with no timer running or with a
  zeroisation under way.
\<close>

definition mldsa_idle :: "Abr \<Rightarrow> bool" where
  "mldsa_idle r \<longleftrightarrow> \<not> abr_err_condition r \<and> mldsa_ctx_config r = 0 \<and>
     (mldsa_ready r \<and> mldsa_only None None None r \<or> (\<exists>n > 0. \<not> mldsa_ready r \<and> mldsa_only None (Some n) None r))"

lemma Mldsa87_wait_step:
  assumes "wait_for (\<lambda>r. condition r \<or> abr_err_condition r) (abr_tick F) r = (Ok (), t)" "\<not> abr_err_condition t"
  shows "Mldsa87_wait F condition r = (Ok (), t)"
  using assms by (simp add: Mldsa87_wait_def bindE_def)

text \<open>Waiting for the engine to be ready, with the zeroisation that may be under way.\<close>

lemma mldsa_wait_ready:
  assumes "mldsa_idle r"
  shows "\<exists>t. Mldsa87_wait F mldsa_ready r = (Ok (), t) \<and> mldsa_only None None None t \<and> \<not> abr_err_condition t \<and>
    mldsa_ctx_config t = 0 \<and> abr_hash_sha512 t = abr_hash_sha512 r"
proof (cases "mldsa_ready r")
  case True
  then have "Mldsa87_wait F mldsa_ready r = (Ok (), r)"
    using assms by (intro Mldsa87_wait_step wait_for_now) (auto simp: mldsa_idle_def)
  then show ?thesis using assms True by (auto simp: mldsa_idle_def)
next
  case False
  then obtain n where n: "n > 0" "mldsa_only None (Some n) None r" "\<not> abr_err_condition r"
    using assms by (auto simp: mldsa_idle_def)
  then have "zeroize_pending r = Some n" by (simp add: zeroize_pending_def mldsa_only_def)
  then have "wait_for (\<lambda>r. mldsa_ready r \<or> abr_err_condition r) (abr_tick F) r = (Ok (), mldsa_zeroize r)"
    using mldsa_zeroize_device.wait_completes [of r n F] n False by simp
  moreover have "\<not> abr_err_condition (mldsa_zeroize r)"
    using n(3) by (simp add: mldsa_zeroize_def abr_err_condition_def)
  ultimately have "Mldsa87_wait F mldsa_ready r = (Ok (), mldsa_zeroize r)" by (rule Mldsa87_wait_step)
  with n show ?thesis by (simp add: mldsa_zeroize_def mldsa_only_def abr_err_condition_def)
qed

text \<open>The states in which a streamed verification of the given key and signature is under way.\<close>

definition streaming :: "u32 list \<Rightarrow> u32 list \<Rightarrow> Abr \<Rightarrow> bool" where
  "streaming pk sig r \<longleftrightarrow> mldsa_ctrl r = 67 \<and> mldsa_pubkey r = pk \<and> mldsa_signature r = sig \<and>
     mldsa_ctx_config r = 0 \<and> \<not> abr_err_condition r"

lemma ctrl_67: "bit (67 :: u32) 6" "\<not> bit (67 :: u32) 5" "field_read 0 3 (67 :: u32) = 3" "\<not> bit (67 :: u32) 3"
  by (simp_all add: bit_numeral_rec field_read_def)

definition mldsa_verdict :: "fips204 \<Rightarrow> u32 list \<Rightarrow> u8 list \<Rightarrow> u32 list \<Rightarrow> bool" where
  "mldsa_verdict F pk msg sig \<longleftrightarrow> fips204_verify F (u32_le_to_u8 pk) msg (take SIG_LEN (u32_le_to_u8 sig)) []"

lemma streaming_verify:
  assumes "streaming pk sig r" "fips204_pk_ok F (u32_le_to_u8 pk)" "\<not> mldsa_msg_stream_ready r" "mldsa_streamed_msg r = msg"
  shows "mldsa_verify F r =
    Some (r\<lparr>mldsa_verify_res := if mldsa_verdict F pk msg sig then take 16 sig else replicate 16 0\<rparr>)"
  using assms ctrl_67
  by (simp add: mldsa_verify_def mldsa_verify_msg_def mldsa_message_def mldsa_context_def streaming_def field_read_def
      mldsa_verdict_def Let_def)

lemma program_var_msg_run:
  assumes r: "streaming pk sig r" "mldsa_only None None (Some 10) r" "\<not> mldsa_msg_stream_ready r" "\<not> mldsa_valid r"
      "mldsa_streamed_msg r = []"
    and pk: "fips204_pk_ok F (u32_le_to_u8 pk)"
  shows "\<exists>t. program_var_msg F msg r = (Ok (), t) \<and> streaming pk sig t \<and> mldsa_only None None None t \<and>
    mldsa_verify_res t = (if mldsa_verdict F pk msg sig then take 16 sig else replicate 16 0) \<and>
    abr_hash_sha512 t = abr_hash_sha512 r"
proof -
  let ?k = "length msg div 4" and ?rem = "drop (4 * (length msg div 4)) msg"
  let ?s = "stream_done r"
  let ?a = "?s\<lparr>mldsa_msg_strobe := 0xF\<rparr>"
  let ?b = "?a\<lparr>mldsa_streamed_msg := take (4 * ?k) msg, mldsa_msg_strobe := last_strobe (length ?rem)\<rparr>"
  let ?c = "?b\<lparr>mldsa_msg_strobe := 0xF, mldsa_status := mldsa_status ?b AND NOT 4,
    mldsa_op_complete_action := Some 1000, mldsa_streamed_msg := msg\<rparr>"
  have rem: "length ?rem < 4" by (simp add: mod_less_divisor minus_mult_div_eq_mod [symmetric])
  have "wait_for (\<lambda>r. (mldsa_msg_stream_ready r \<or> mldsa_valid r) \<or> abr_err_condition r) (abr_tick F) r = (Ok (), ?s)"
    using mldsa_stream_device.wait_completes [of r 10 F] r by (simp add: stream_pending_def mldsa_only_def streaming_def)
  then have ready: "Mldsa87_wait F (\<lambda>r. mldsa_msg_stream_ready r \<or> mldsa_valid r) r = (Ok (), ?s)"
    by (rule Mldsa87_wait_step) (use r(1) in \<open>simp add: stream_done_def set_msg_stream_ready_def streaming_def abr_err_condition_def\<close>)
  have s: "streaming pk sig ?s" "\<not> mldsa_valid ?s" "mldsa_streamed_msg ?s = []" "mldsa_only None None None ?s"
    using r by (simp_all add: stream_done_def set_msg_stream_ready_def streaming_def abr_err_condition_def mldsa_valid_def
        mldsa_only_def bit_simps bit_numeral_rec)
  have "u32_le_to_u8 (u8_to_u32_le ?k msg) = take (4 * ?k) msg"
    by (rule u32_le_to_u8_words) simp
  then have words: "stream_dwords (u8_to_u32_le ?k msg) ?a = (Ok (), ?a\<lparr>mldsa_streamed_msg := take (4 * ?k) msg\<rparr>)"
    using s ctrl_67(1) by (subst stream_dwords_run) (simp_all add: streaming_def)
  have last: "on_write_mldsa_msg Word 0 (from_le_bytes (?rem @ replicate (4 - length ?rem) 0)) ?b = (Ok (Inr ()), ?c)"
    using s ctrl_67(1) by (subst last_word_run [OF _ _ rem]) (simp_all add: streaming_def)
  have c: "streaming pk sig ?c" "\<not> mldsa_msg_stream_ready ?c" "\<not> mldsa_valid ?c" "mldsa_streamed_msg ?c = msg"
    using s by (simp_all add: streaming_def mldsa_msg_stream_ready_def mldsa_valid_def abr_err_condition_def bit_simps bit_numeral_rec)
  note ver = streaming_verify [OF c(1) pk c(2,4)]
  have pend: "mldsa_verify_pending F ?c = Some 1000"
    using ver s ctrl_67(3) c(1) by (simp add: mldsa_verify_pending_def mldsa_only_def streaming_def)
  have "wait_for (\<lambda>r. mldsa_valid r \<or> abr_err_condition r) (abr_tick F) ?c = (Ok (), mldsa_op_done F ?c)"
    using mldsa_verify_device.wait_completes [OF pend] c by (simp add: streaming_def)
  note fin = this [unfolded mldsa_op_done_verify [OF pend ver]]
  show ?thesis
    using ready s words last Mldsa87_wait_step [OF fin] ctrl_67
    by (simp add: program_var_msg_def bindE_def write_strobe_def Let_def streaming_def abr_err_condition_def mldsa_only_def
        stream_done_def set_msg_stream_ready_def)
qed

lemma mldsa_start_stream:
  assumes "mldsa_only None None None r" "\<not> abr_err_condition r" "mldsa_ctx_config r = 0"
    and "mldsa_pubkey r = pk" "mldsa_signature r = sig"
  shows "\<exists>t. on_write_mldsa_control Word 67 r = (Ok (Inr ()), t) \<and> streaming pk sig t \<and>
    mldsa_only None None (Some 10) t \<and> \<not> mldsa_msg_stream_ready t \<and> \<not> mldsa_valid t \<and> mldsa_streamed_msg t = [] \<and>
    abr_hash_sha512 t = abr_hash_sha512 r"
  using assms ctrl_67
  by (simp add: on_write_mldsa_control_def streaming_def mldsa_only_def mldsa_msg_stream_ready_def mldsa_valid_def
      abr_err_condition_def Let_def bit_simps bit_numeral_rec)

text \<open>The end of a verification: the verdict, and an engine that is idle again.\<close>

lemma verify_verdict_run:
  assumes "mldsa_only None None None r" "\<not> abr_err_condition r" "mldsa_ctx_config r = 0" "length sig = 1157"
    and "take 16 sig \<noteq> replicate 16 0" "mldsa_verify_res r = (if ok then take 16 sig else replicate 16 0)"
  shows "\<exists>t. verify_verdict (take 16 sig) r = (Ok (if ok then Mldsa87_Success else Mldsa87_SigVerifyFailed), t) \<and>
    mldsa_idle t \<and> abr_hash_sha512 t = abr_hash_sha512 r"
proof -
  have "field_read 0 3 (8 :: u32) = 0" "bit (8 :: u32) 3" by (simp_all add: field_read_def bit_numeral_rec)
  then have "on_write_mldsa_control Word 8 r = (Ok (Inr ()), r\<lparr>mldsa_ctrl := 8,
      mldsa_status := mldsa_status r AND NOT 1, mldsa_op_zeroize_complete_action := Some 1000\<rparr>)"
    by (simp add: on_write_mldsa_control_def Let_def)
  then show ?thesis
    using assms
    by (auto simp: verify_verdict_def bindE_def mldsa_idle_def mldsa_only_def mldsa_ready_def abr_err_condition_def
        bit_simps)
qed

lemma verify_common_setup_run:
  assumes "mldsa_idle r" "length sig = 1157" "take 16 sig \<noteq> replicate 16 0"
  shows "\<exists>t. verify_common_setup F pk sig r = (Ok (take 16 sig), t) \<and> mldsa_only None None None t \<and>
    \<not> abr_err_condition t \<and> mldsa_ctx_config t = 0 \<and> mldsa_pubkey t = pk \<and> mldsa_signature t = sig \<and>
    abr_hash_sha512 t = abr_hash_sha512 r"
proof -
  have "cfi_assert_ne_16_words (take 16 sig) (replicate 16 0) r = (Ok (), r)"
    using assms(2,3) by (simp add: cfi_assert_words_eq_spec cfi_assert_ne_def cfi_assert_op_def cfi_launder_id)
  then show ?thesis
    using mldsa_wait_ready [OF assms(1), of F] assms(3)
    by (auto simp: verify_common_setup_def bindE_def Let_def mldsa_only_def abr_err_condition_def)
qed

lemma verify_var_run:
  assumes "mldsa_idle r" "length sig = 1157" "fips204_pk_ok F (u32_le_to_u8 pk)"
  shows "\<exists>t. verify_var F pk msg sig r =
      (if take 16 sig = replicate 16 0 then Err DRIVER_MLDSA87_UNSUPPORTED_SIGNATURE
       else Ok (if mldsa_verdict F pk msg sig then Mldsa87_Success else Mldsa87_SigVerifyFailed), t) \<and>
    mldsa_idle t \<and> abr_hash_sha512 t = abr_hash_sha512 r"
proof (cases "take 16 sig = replicate 16 0")
  case True
  then show ?thesis using assms(1) by (simp add: verify_var_def verify_common_setup_def bindE_def Let_def)
next
  case False
  obtain a where a: "verify_common_setup F pk sig r = (Ok (take 16 sig), a)" "mldsa_only None None None a"
    "\<not> abr_err_condition a" "mldsa_ctx_config a = 0" "mldsa_pubkey a = pk" "mldsa_signature a = sig"
    "abr_hash_sha512 a = abr_hash_sha512 r"
    using verify_common_setup_run [OF assms(1,2) False] by blast
  obtain b where b: "on_write_mldsa_control Word 67 a = (Ok (Inr ()), b)" "streaming pk sig b"
    "mldsa_only None None (Some 10) b" "\<not> mldsa_msg_stream_ready b" "\<not> mldsa_valid b" "mldsa_streamed_msg b = []"
    "abr_hash_sha512 b = abr_hash_sha512 r"
    using mldsa_start_stream [OF a(2-6)] a(7) by auto
  obtain t where t: "program_var_msg F msg b = (Ok (), t)" "streaming pk sig t" "mldsa_only None None None t"
    "mldsa_verify_res t = (if mldsa_verdict F pk msg sig then take 16 sig else replicate 16 0)"
    "abr_hash_sha512 t = abr_hash_sha512 r"
    using program_var_msg_run [OF b(2-6) assms(3), of msg] b(7) by auto
  have "\<not> abr_err_condition t" "mldsa_ctx_config t = 0" using t(2) by (simp_all add: streaming_def)
  from verify_verdict_run [OF t(3) this assms(2) False t(4)] t(5) show ?thesis
    using False a(1) b(1) t(1) by (auto simp: verify_var_def bindE_def)
qed

section \<open>What the driver guarantees\<close>

text \<open>An engine that accepts everything.\<close>

definition sample_fips204 :: fips204 where
  "sample_fips204 = \<lparr>fips204_keygen = (\<lambda>_. None), fips204_sign = (\<lambda>_ _ _. None), fips204_sign_mu = (\<lambda>_ _. []),
     fips204_pk_ok = (\<lambda>_. True), fips204_verify = (\<lambda>_ _ _ _. True), fips204_verify_mu = (\<lambda>_ _ _. True)\<rparr>"

lemma mldsa_idle_new: "mldsa_idle (Abr_new h)"
  by (simp add: mldsa_idle_def mldsa_only_def Abr_new_def abr_err_condition_def mldsa_ready_def)

text \<open>C17: ML-DSA verification of a message of any length. The driver streams the message to the engine in
  words, with a strobe for the bytes of the last one; the engine verifies exactly the message, the
  driver returns the verdict, and the engine is idle or being zeroized afterwards. A signature whose
  first 64 bytes are zero, which the engine's result cannot tell from a failure, is refused.\<close>

theorem mldsa_verify_exact:
  assumes "mldsa_idle r" "length sig = 1157" "fips204_pk_ok F (u32_le_to_u8 pk)"
  shows "\<exists>t. verify_var F pk msg sig r =
      (if take 16 sig = replicate 16 0 then Err DRIVER_MLDSA87_UNSUPPORTED_SIGNATURE
       else Ok (if fips204_verify F (u32_le_to_u8 pk) msg (take SIG_LEN (u32_le_to_u8 sig)) []
                then Mldsa87_Success else Mldsa87_SigVerifyFailed), t) \<and>
    mldsa_idle t \<and> abr_hash_sha512 t = abr_hash_sha512 r"
  using verify_var_run [OF assms] unfolding mldsa_verdict_def .

theorem mldsa_verify_exact_witness:
  "\<exists>t. verify_var sample_fips204 (replicate 648 7) [1, 2, 3, 4, 5] (replicate 1157 9) (Abr_new (HashSha512Regs_new KeyVaultRegs_new)) = (Ok Mldsa87_Success, t) \<and>
     mldsa_idle t"
  using mldsa_verify_exact [OF mldsa_idle_new, of "replicate 1157 9" sample_fips204 "replicate 648 7" "[1, 2, 3, 4, 5]" "HashSha512Regs_new KeyVaultRegs_new"]
  by (auto simp: sample_fips204_def)

end
