(* ===== verification/RtMailbox.thy ===== *)
theory RtMailbox
  imports MailboxDriver PcrBank Ecc384Driver Mldsa87Driver
begin

unbundle bit_operations_syntax

text \<open>
  The runtime firmware's side of the mailbox: the checksum of \<^verbatim>\<open>api/src/checksum.rs\<close>, the mailbox interface
  and the request packets of \<^verbatim>\<open>runtime/src/mailbox.rs\<close> and \<^verbatim>\<open>runtime/src/packet.rs\<close>, and the handling of a
  command in \<^verbatim>\<open>runtime/src/lib.rs\<close>, from the pending request to the response and its status.

  The table of command handlers is an argument of the dispatcher, so that what it shows holds for all
  of them; the contract \<open>command_table\<close> is the one the source states in \<^verbatim>\<open>packet.rs\<close>, that no handler
  changes the mailbox before the reply. The payload of a packet is a copy here and a pointer into the
  mailbox memory there; the contract makes them agree. Firmware update and verification and the
  external commands of the subsystem mode are arguments, too. The watchdog, the flow-status
  and boot-status registers, the persistent mark of a running command, the debug-unlock epilogue and the
  control-flow checks of the result are left out of the loop.
\<close>

section \<open>Checksum\<close>

definition calc_checksum :: "u32 \<Rightarrow> u8 list \<Rightarrow> u32" where
  "calc_checksum cmd data =
     (let checksum = foldl (\<lambda>checksum c. checksum + ucast c) (0 :: u32) (le32 cmd);
          checksum = foldl (\<lambda>checksum d. checksum + ucast d) checksum data
      in 0 - checksum)"

definition verify_checksum :: "u32 \<Rightarrow> u32 \<Rightarrow> u8 list \<Rightarrow> bool" where
  "verify_checksum checksum cmd data \<longleftrightarrow> calc_checksum cmd data = checksum"

text \<open>\<open>None\<close> is the panic of \<^verbatim>\<open>split_at_mut\<close> on a message shorter than the checksum.\<close>

definition populate_checksum :: "u8 list \<Rightarrow> u8 list option" where
  "populate_checksum msg =
     (if length msg < 4 then None else Some (le32 (calc_checksum 0 (drop 4 msg)) @ drop 4 msg))"

section \<open>Mailbox interface\<close>

definition is_cmd_ready :: "(Mailbox, bool) action" where
  "is_cmd_ready = bindE (on_mailbox (uc_reg read_status)) (\<lambda>status. ret (fsm_of status = MboxExecuteUc))"

definition cmd_busy :: "(Mailbox, bool) action" where
  "cmd_busy = bindE (on_mailbox (uc_reg read_status)) (\<lambda>status. ret (status_of status = CmdBusy))"

definition mailbox_state :: "(Mailbox, u32) action" where
  "mailbox_state = bindE (on_mailbox (uc_reg read_status)) (\<lambda>status. ret (fsm_of status))"

definition rt_dlen :: "(Mailbox, u32) action" where "rt_dlen = on_mailbox (uc_reg read_dlen)"

definition set_dlen :: "u32 \<Rightarrow> (Mailbox, unit) action" where
  "set_dlen len =
     bindE (gets mailbox_len) (\<lambda>mbox_len.
     bindE (failIf (len > mbox_len) RUNTIME_MAILBOX_INVALID_PARAMS) (\<lambda>_.
     on_mailbox (uc_reg (mb_write_dlen len))))"

definition dlen_words :: "(Mailbox, u32) action" where
  "dlen_words = bindE rt_dlen (\<lambda>dlen. ret (of_nat ((unat dlen + 3) div 4)))"

definition rt_cmd :: "(Mailbox, u32) action" where "rt_cmd = on_mailbox (uc_reg read_cmd)"
definition rt_id :: "(Mailbox, u32) action" where "rt_id = on_mailbox (uc_reg read_user)"

definition rt_lock :: "(Mailbox, bool) action" where
  "rt_lock = bindE (on_mailbox (uc_reg read_lock)) (\<lambda>lock. ret (bit lock 0))"

definition rt_unlock :: "(Mailbox, unit) action" where "rt_unlock = on_mailbox (uc_reg (write_unlock 1))"

definition rt_write_cmd :: "u32 \<Rightarrow> (Mailbox, unit) action" where
  "rt_write_cmd cmd =
     bindE (on_mailbox (uc_reg read_status)) (\<lambda>status.
     if fsm_of status = MboxRdyForCmd then on_mailbox (uc_reg (mb_write_cmd cmd)) else throw RUNTIME_INTERNAL)"

definition copy_from_mbox :: "nat \<Rightarrow> (Mailbox, u32 list) action" where
  "copy_from_mbox n = on_mailbox (get_words (uc_reg read_dout) n)"

definition rt_flush :: "(Mailbox, unit) action" where
  "rt_flush = bindE dlen_words (\<lambda>count. bindE (copy_from_mbox (unat count)) (\<lambda>_. ret ()))"

definition copy_bytes_to_mbox :: "u8 list \<Rightarrow> (Mailbox, unit) action" where
  "copy_bytes_to_mbox buf = on_mailbox (put_bytes (\<lambda>w. uc_reg (write_din w)) buf)"

definition write_response :: "u8 list \<Rightarrow> (Mailbox, unit) action" where
  "write_response buf = bindE (set_dlen (of_nat (length buf))) (\<lambda>_. copy_bytes_to_mbox buf)"

definition set_status :: "u32 \<Rightarrow> (Mailbox, unit) action" where
  "set_status status = on_mailbox (uc_reg (write_status status))"

definition raw_mailbox_contents :: "Mailbox \<Rightarrow> u8 list" where
  "raw_mailbox_contents m = take (unat (mailbox_len m)) (ram_data (fifo_ram (mb_fifo (mb_ctx (mailbox_regs m)))))"

section \<open>Drivers and packets\<close>

record Drivers =
  drv_mbox :: Mailbox
  cptra_fw_error_fatal :: u32
  cptra_fw_error_non_fatal :: u32
  cleared_non_fatal_fw_error :: u32
  drv_sha2_512_384 :: HashSha512Regs
  drv_ecc384 :: AsymEcc384
  drv_abr :: Abr
  manifest_flags :: u32
  manifest_pl0_pauser :: u32
  drv_subsystem_mode :: bool

definition on_mbox :: "(Mailbox, 'a) action \<Rightarrow> (Drivers, 'a) action" where
  "on_mbox = zoom drv_mbox (\<lambda>m d. d\<lparr>drv_mbox := m\<rparr>)"

record Packet =
  pkt_cmd :: u32
  pkt_payload :: "u8 list"

definition get_from_mbox :: "(Drivers, Packet) action" where
  "get_from_mbox =
     bindE (on_mbox rt_cmd) (\<lambda>cmd.
     bindE (on_mbox rt_dlen) (\<lambda>dlen.
     bindE (gets (\<lambda>d. raw_mailbox_contents (drv_mbox d))) (\<lambda>raw_data.
     bindE (failIf (unat dlen > length raw_data) RUNTIME_MAILBOX_INVALID_PARAMS) (\<lambda>_.
     let payload = take (unat dlen) raw_data
     in bindE (failIf (length payload < 4) RUNTIME_MAILBOX_INVALID_PARAMS) (\<lambda>_.
        bindE (failIf (\<not> verify_checksum (from_le_bytes (take 4 payload)) cmd (drop 4 payload))
                 RUNTIME_INVALID_CHECKSUM) (\<lambda>_.
        ret \<lparr>pkt_cmd = cmd, pkt_payload = payload\<rparr>))))))"

section \<open>Privilege\<close>

datatype PauserPrivileges = PL0 | PL1

abbreviation (input) PL0_PAUSER_FLAG :: u32 where "PL0_PAUSER_FLAG \<equiv> 1"
abbreviation (input) CALIPTRA_LOCALITY :: u32 where "CALIPTRA_LOCALITY \<equiv> 0xFFFFFFFF"

definition privilege_level_from_locality :: "Drivers \<Rightarrow> u32 \<Rightarrow> PauserPrivileges" where
  "privilege_level_from_locality d locality =
     (if manifest_flags d AND PL0_PAUSER_FLAG = 0 then PL1
      else if locality = manifest_pl0_pauser d then PL0 else PL1)"

definition caller_privilege_level :: "(Drivers, PauserPrivileges) action" where
  "caller_privilege_level =
     bindE (on_mbox rt_id) (\<lambda>locality. gets (\<lambda>d. privilege_level_from_locality d locality))"

definition ensure_pl0 :: "(Drivers, unit) action" where
  "ensure_pl0 =
     bindE caller_privilege_level (\<lambda>level.
     case level of PL0 \<Rightarrow> ret () | PL1 \<Rightarrow> throw RUNTIME_INCORRECT_PAUSER_PRIVILEGE_LEVEL)"

section \<open>Handling a command\<close>

abbreviation (input) FIRMWARE_LOAD :: u32 where "FIRMWARE_LOAD \<equiv> 0x46574C44"
abbreviation (input) FIRMWARE_VERIFY :: u32 where "FIRMWARE_VERIFY \<equiv> 0x46575652"
abbreviation (input) EXTERNAL_MAILBOX_CMD :: u32 where "EXTERNAL_MAILBOX_CMD \<equiv> 0x4558544D"

text \<open>
  \<open>rt_commands\<close> maps a command and its bytes to the handler, which fills the staged response buffer and
  returns the length of the response. \<open>rt_max_resp\<close> is \<^verbatim>\<open>MAX_RESP_SIZE\<close>, the size of the enum of all response
  types. Its layout is up to the compiler, so it is an argument; it is at least the size of the largest
  of them, \<^verbatim>\<open>InvokeDpeResp\<close>, and thus more than the mailbox of the subsystem mode holds.
\<close>

definition InvokeDpeResp_size :: nat where
  "InvokeDpeResp_size = 8 + 4 + 25168"

record rt_handlers =
  rt_max_resp :: nat
  rt_commands :: "u32 \<Rightarrow> u8 list \<Rightarrow> u8 list \<Rightarrow> (Drivers, nat \<times> u8 list) action"
  rt_impactless_update :: "(Drivers, unit) action"
  rt_firmware_verify :: "(Drivers, u32) action"
  rt_external_cmd :: "u8 list \<Rightarrow> (Drivers, u32) action"

definition execute_command :: "rt_handlers \<Rightarrow> u32 \<Rightarrow> u8 list \<Rightarrow> (Drivers, u32) action" where
  "execute_command H cmd_id cmd_bytes =
     bindE (rt_commands H cmd_id cmd_bytes (replicate (rt_max_resp H) 0)) (\<lambda>(len, resp).
     let len = max len 8
     in bindE (failIf (len > rt_max_resp H) RUNTIME_INSUFFICIENT_MEMORY) (\<lambda>_.
        bindE (liftO (case populate_checksum (take len resp) of None \<Rightarrow> RustPanic | Some r \<Rightarrow> Ok r)) (\<lambda>resp.
        bindE (on_mbox (write_response resp)) (\<lambda>_.
        ret DataReady))))"

definition handle_command :: "rt_handlers \<Rightarrow> (Drivers, u32) action" where
  "handle_command H =
     bindE (on_mbox rt_id) (\<lambda>id.
     bindE (failIf (id = CALIPTRA_LOCALITY) RUNTIME_CMD_RESERVED_PAUSER) (\<lambda>_.
     bindE (on_mbox rt_cmd) (\<lambda>cmd.
     if cmd = FIRMWARE_LOAD
     then bindE (cfi_assert_eq cmd FIRMWARE_LOAD) (\<lambda>_.
          bindE (rt_impactless_update H) (\<lambda>_. throw RUNTIME_UNEXPECTED_UPDATE_RETURN))
     else
       bindE (cfi_assert_ne cmd FIRMWARE_LOAD) (\<lambda>_.
       if cmd = FIRMWARE_VERIFY then rt_firmware_verify H
       else
         bindE (cfi_assert_ne cmd FIRMWARE_VERIFY) (\<lambda>_.
         bindE get_from_mbox (\<lambda>req_packet.
         bindE (gets drv_subsystem_mode) (\<lambda>subsystem_mode.
         if subsystem_mode \<and> pkt_cmd req_packet = EXTERNAL_MAILBOX_CMD
         then bindE ensure_pl0 (\<lambda>_. rt_external_cmd H (pkt_payload req_packet))
         else execute_command H (pkt_cmd req_packet) (pkt_payload req_packet))))))))"

definition report_fw_error_non_fatal :: "u32 \<Rightarrow> (Drivers, unit) action" where
  "report_fw_error_non_fatal val d = (Ok (), d\<lparr>cptra_fw_error_non_fatal := val\<rparr>)"

definition clear_fw_error_non_fatal :: "(Drivers, unit) action" where
  "clear_fw_error_non_fatal =
     bindE (gets cptra_fw_error_non_fatal) (\<lambda>val.
     if val = 0 then ret ()
     else bindE (\<lambda>d. (Ok (), d\<lparr>cleared_non_fatal_fw_error := val\<rparr>)) (\<lambda>_. report_fw_error_non_fatal 0))"

text \<open>One round of the loop of \<^verbatim>\<open>handle_mailbox_commands\<close>, entered with the notification set.\<close>

definition handle_mailbox_round :: "rt_handlers \<Rightarrow> (Drivers, unit) action" where
  "handle_mailbox_round H =
     bindE (on_mbox is_cmd_ready) (\<lambda>ready.
     if \<not> ready then ret ()
     else
       bindE clear_fw_error_non_fatal (\<lambda>_ d.
         (case handle_command H d of
            (Ok status, t) \<Rightarrow> on_mbox (set_status status) t
          | (Err e, t) \<Rightarrow> bindE (report_fw_error_non_fatal e) (\<lambda>_. on_mbox (set_status CmdFailure)) t
          | (CfiPanic p, t) \<Rightarrow> (CfiPanic p, t)
          | (RustPanic, t) \<Rightarrow> (RustPanic, t))))"

section \<open>Runs of the runtime\<close>

lemma on_mbox_Ok: "m (drv_mbox d) = (Ok x, b) \<Longrightarrow> on_mbox m d = (Ok x, d\<lparr>drv_mbox := b\<rparr>)"
  by (simp add: on_mbox_def zoom_def)

definition set_mbox :: "MailboxRegs \<Rightarrow> Drivers \<Rightarrow> Drivers" where
  "set_mbox r d = d\<lparr>drv_mbox := (drv_mbox d)\<lparr>mailbox_regs := r\<rparr>\<rparr>"

abbreviation mbox_of :: "Drivers \<Rightarrow> MailboxRegs" where "mbox_of d \<equiv> mailbox_regs (drv_mbox d)"

lemma set_mbox_simps [simp]:
  "mbox_of (set_mbox r d) = r" "set_mbox (mbox_of d) d = d" "set_mbox r (set_mbox s d) = set_mbox r d"
  "cptra_fw_error_fatal (set_mbox r d) = cptra_fw_error_fatal d"
  "cptra_fw_error_non_fatal (set_mbox r d) = cptra_fw_error_non_fatal d"
  "drv_subsystem_mode (set_mbox r d) = drv_subsystem_mode d" "mailbox_len (drv_mbox (set_mbox r d)) = mailbox_len (drv_mbox d)"
  by (simp_all add: set_mbox_def)

lemma on_mbox_regs: "port_reg user m (mbox_of d) = (Ok x, r) \<Longrightarrow> on_mbox (on_mailbox (port_reg user m)) d = (Ok x, set_mbox r d)"
  by (simp add: on_mbox_Ok on_mailbox_Ok set_mbox_def)

lemma on_mbox_reads:
  assumes "mbox_live sm (mbox_of d)"
  shows "on_mbox rt_cmd d = (Ok (mb_cmd (mb_ctx (mbox_of d))), d)"
    "on_mbox rt_dlen d = (Ok (mb_dlen (mb_ctx (mbox_of d))), d)"
    "on_mbox rt_id d = (Ok (requester_u32 (mb_user (mb_ctx (mbox_of d)))), d)"
    "on_mbox is_cmd_ready d = (Ok (mb_state (mbox_of d) = MbExecUc), d)"
  using port_other_regs(1-4) [OF assms, of Caliptra]
  by (simp_all add: rt_cmd_def rt_dlen_def rt_id_def is_cmd_ready_def on_mbox_regs)
    (simp add: on_mbox_def zoom_def bindE_def on_mailbox_def fsm_of_status fsm_value_states)

lemma get_from_mbox_run:
  assumes "mbox_live sm (mbox_of d)" "mailbox_len (drv_mbox d) = mailbox_size sm" "mb_loaded data (mb_ctx (mbox_of d))"
    and cmd: "cmd = mb_cmd (mb_ctx (mbox_of d))"
  shows "get_from_mbox d =
    (if length data < 4 then Err RUNTIME_MAILBOX_INVALID_PARAMS
     else if \<not> verify_checksum (from_le_bytes (take 4 data)) cmd (drop 4 data) then Err RUNTIME_INVALID_CHECKSUM
     else Ok \<lparr>pkt_cmd = cmd, pkt_payload = data\<rparr>, d)"
proof -
  let ?ram = "ram_data (fifo_ram (mb_fifo (mb_ctx (mbox_of d))))"
  have size: "length ?ram = MBOX_RAM_SIZE sm" and dlen: "unat (mb_dlen (mb_ctx (mbox_of d))) = length data"
    using assms(1,3) by (simp_all add: mbox_live_def mbox_machine_ok_def fifo_ok_def mb_loaded_def Let_def)
  then have raw: "raw_mailbox_contents (drv_mbox d) = ?ram"
    by (simp add: raw_mailbox_contents_def assms(2) unat_mailbox_size)
  have data: "take (length data) ?ram = data" by (rule mb_loaded_bytes [OF assms(3)])
  then have "length data \<le> length ?ram" by (metis length_take min.cobounded1)
  then show ?thesis
    unfolding get_from_mbox_def
    using on_mbox_reads(1,2) [OF assms(1)] dlen data raw cmd
    by (simp add: bindE_Ok failIf_def Let_def del: take_take)
qed

lemma write_response_run:
  assumes "mbox_live sm (mbox_of d)" "mailbox_len (drv_mbox d) = mailbox_size sm" "mb_state (mbox_of d) = MbExecUc"
    "length buf \<le> MBOX_RAM_SIZE sm"
  shows "on_mbox (write_response buf) d = (Ok (), set_mbox (mb_filled buf (mbox_of d)) d)"
proof -
  have "mb_state (mbox_of d) \<in> {MbRdyForDlen, MbExecUc, MbExecSoc}" using assms(3) by simp
  note put = mb_filled_parts(1) [OF assms(1) this assms(4), of Caliptra]
  show ?thesis
    using put of_nat_fits [OF assms(4)] port_other_regs(6) [OF assms(1), of Caliptra] assms(2)
    by (simp add: on_mbox_def zoom_def write_response_def set_dlen_def copy_bytes_to_mbox_def bindE_def on_mailbox_Ok
        set_mbox_def)
qed

text \<open>A response that the mailbox cannot hold is refused before anything is written.\<close>

lemma write_response_too_long:
  assumes "mailbox_len (drv_mbox d) = mailbox_size sm" "MBOX_RAM_SIZE sm < length buf" "length buf < 2 ^ 32"
  shows "on_mbox (write_response buf) d = (Err RUNTIME_MAILBOX_INVALID_PARAMS, d)"
proof -
  have "mailbox_size sm < of_nat (length buf)"
    using assms(2,3) unat_mailbox_size [of sm] by (simp add: word_less_nat_alt unat_of_nat)
  then show ?thesis
    using assms(1) by (simp add: on_mbox_def zoom_def write_response_def set_dlen_def bindE_def failIf_apply)
qed

section \<open>The contract of the command handlers\<close>

definition rt_reply :: "nat \<Rightarrow> u8 list \<Rightarrow> u8 list" where
  "rt_reply len resp = (let resp = take (max len 8) resp in le32 (calc_checksum 0 (drop 4 resp)) @ drop 4 resp)"

text \<open>
  What a request must come to: the checks of the packet, then its handler, then the framed response, if it
  fits the response buffer and the mailbox.
\<close>

definition rt_dispatch :: "rt_handlers \<Rightarrow> u32 \<Rightarrow> u8 list \<Rightarrow> (Drivers, u8 list) action" where
  "rt_dispatch H cmd data =
     bindE (failIf (length data < 4) RUNTIME_MAILBOX_INVALID_PARAMS) (\<lambda>_.
     bindE (failIf (\<not> verify_checksum (from_le_bytes (take 4 data)) cmd (drop 4 data)) RUNTIME_INVALID_CHECKSUM) (\<lambda>_.
     bindE (rt_commands H cmd data (replicate (rt_max_resp H) 0)) (\<lambda>(len, resp).
     bindE (failIf (max len 8 > rt_max_resp H) RUNTIME_INSUFFICIENT_MEMORY) (\<lambda>_.
     bindE (gets (\<lambda>d. mailbox_len (drv_mbox d))) (\<lambda>mbox_len.
     bindE (failIf (max len 8 > unat mbox_len) RUNTIME_MAILBOX_INVALID_PARAMS) (\<lambda>_.
     ret (rt_reply len resp)))))))"

text \<open>
  The commands that take this path: all but the two firmware commands, which do not read a packet, and
  the external command of the subsystem mode, whose packet only names the command to run.
\<close>

definition plain_cmd :: "Drivers \<Rightarrow> u32 \<Rightarrow> bool" where
  "plain_cmd d cmd \<longleftrightarrow> cmd \<notin> {FIRMWARE_LOAD, FIRMWARE_VERIFY} \<and> \<not> (drv_subsystem_mode d \<and> cmd = EXTERNAL_MAILBOX_CMD)"

definition rt_cleared :: "Drivers \<Rightarrow> Drivers" where
  "rt_cleared d = (if cptra_fw_error_non_fatal d = 0 then d
     else d\<lparr>cleared_non_fatal_fw_error := cptra_fw_error_non_fatal d, cptra_fw_error_non_fatal := 0\<rparr>)"

locale command_table =
  fixes H :: rt_handlers
  assumes keeps_mailbox: "rt_commands H cmd bytes resp s = (x, t) \<Longrightarrow> mb_requester (mbox_of s) = Caliptra \<Longrightarrow> drv_mbox t = drv_mbox s"
    and fills_response: "rt_commands H cmd bytes resp s = (Ok (len, resp'), t) \<Longrightarrow> length resp' = length resp"
    and response_buffer: "InvokeDpeResp_size \<le> rt_max_resp H" "rt_max_resp H < 2 ^ 32"
begin

lemma execute_command_run:
  assumes "mbox_live sm (mbox_of d)" "mailbox_len (drv_mbox d) = mailbox_size sm" "mb_state (mbox_of d) = MbExecUc"
    and "4 \<le> length data" "verify_checksum (from_le_bytes (take 4 data)) cmd (drop 4 data)"
  shows "execute_command H cmd data d = (case rt_dispatch H cmd data d of
      (Ok rep, t) \<Rightarrow> (Ok DataReady, set_mbox (mb_filled rep (mbox_of d)) t)
    | (Err e, t) \<Rightarrow> (Err e, t) | (CfiPanic p, t) \<Rightarrow> (CfiPanic p, t) | (RustPanic, t) \<Rightarrow> (RustPanic, t))"
proof -
  let ?run = "rt_commands H cmd data (replicate (rt_max_resp H) 0) d"
  obtain x t where run: "?run = (x, t)" by (cases ?run)
  have mbox: "drv_mbox t = drv_mbox d" using keeps_mailbox [OF run] assms(1) by (simp add: mbox_live_def)
  show ?thesis
  proof (cases "\<exists>len resp. x = Ok (len, resp) \<and> max len 8 \<le> rt_max_resp H")
    case True
    then obtain len resp where x: "x = Ok (len, resp)" and len: "max len 8 \<le> rt_max_resp H" by blast
    have resp: "length resp = rt_max_resp H" using fills_response run x by fastforce
    have rep: "length (rt_reply len resp) = max len 8" using resp len by (simp add: rt_reply_def Let_def)
    have size: "mailbox_len (drv_mbox t) = mailbox_size sm" using mbox assms(2) by simp
    have put: "on_mbox (write_response (rt_reply len resp)) t = (if max len 8 > MBOX_RAM_SIZE sm
        then (Err RUNTIME_MAILBOX_INVALID_PARAMS, t) else (Ok (), set_mbox (mb_filled (rt_reply len resp) (mbox_of d)) t))"
      using write_response_run [of sm t "rt_reply len resp"] write_response_too_long [OF size, of "rt_reply len resp"]
        assms(1,3) mbox size rep len response_buffer(2) by (auto simp: not_less)
    have "populate_checksum (take (max len 8) resp) = Some (rt_reply len resp)"
      using resp len by (simp add: populate_checksum_def rt_reply_def Let_def)
    then have "execute_command H cmd data d = bindE (on_mbox (write_response (rt_reply len resp))) (\<lambda>_. ret DataReady) t"
      using run x len by (simp add: execute_command_def bindE_def Let_def failIf_apply less_max_iff_disj)
    moreover have "rt_dispatch H cmd data d = (if max len 8 > MBOX_RAM_SIZE sm
        then (Err RUNTIME_MAILBOX_INVALID_PARAMS, t) else (Ok (rt_reply len resp), t))"
      using run x len assms(4,5) size
      by (auto simp: rt_dispatch_def bindE_def failIf_apply less_max_iff_disj unat_mailbox_size)
    ultimately show ?thesis using put by (simp add: bindE_def)
  next
    case False
    then show ?thesis
      using run assms(4,5)
      by (cases x) (auto simp: execute_command_def rt_dispatch_def bindE_def Let_def failIf_def)
  qed
qed

lemma handle_command_run:
  assumes "mbox_live sm (mbox_of d)" "mailbox_len (drv_mbox d) = mailbox_size sm" "mb_state (mbox_of d) = MbExecUc"
    and "mb_loaded data (mb_ctx (mbox_of d))" "mb_user (mb_ctx (mbox_of d)) = SocUser p" "p \<noteq> CALIPTRA_LOCALITY"
    and cmd: "cmd = mb_cmd (mb_ctx (mbox_of d))" "plain_cmd d cmd"
  shows "handle_command H d = (case rt_dispatch H cmd data d of
      (Ok rep, t) \<Rightarrow> (Ok DataReady, set_mbox (mb_filled rep (mbox_of d)) t)
    | (Err e, t) \<Rightarrow> (Err e, t) | (CfiPanic pc, t) \<Rightarrow> (CfiPanic pc, t) | (RustPanic, t) \<Rightarrow> (RustPanic, t))"
proof (cases "length data < 4 \<or> \<not> verify_checksum (from_le_bytes (take 4 data)) cmd (drop 4 data)")
  case True
  then show ?thesis
    using on_mbox_reads(1,3) [OF assms(1)] get_from_mbox_run [OF assms(1,2,4) cmd(1)] assms(5,6) cmd
    by (auto simp: handle_command_def rt_dispatch_def bindE_def requester_u32_def plain_cmd_def)
next
  case False
  then have "get_from_mbox d = (Ok \<lparr>pkt_cmd = cmd, pkt_payload = data\<rparr>, d)"
    using get_from_mbox_run [OF assms(1,2,4) cmd(1)] by simp
  then have "handle_command H d = execute_command H cmd data d"
    using on_mbox_reads(1,3) [OF assms(1)] assms(5,6) cmd
    by (auto simp: handle_command_def bindE_def requester_u32_def plain_cmd_def)
  then show ?thesis using execute_command_run [OF assms(1-3)] False by simp
qed

lemma rt_dispatch_keeps:
  assumes "rt_dispatch H cmd data d = (x, t)" "mb_requester (mbox_of d) = Caliptra"
  shows "drv_mbox t = drv_mbox d"
    and "x = Ok rep \<Longrightarrow> mailbox_len (drv_mbox d) = mailbox_size sm \<Longrightarrow> length rep \<le> MBOX_RAM_SIZE sm"
proof -
  obtain y u where run: "rt_commands H cmd data (replicate (rt_max_resp H) 0) d = (y, u)" by (metis surj_pair)
  note mbox = keeps_mailbox [OF run assms(2)]
  show "drv_mbox t = drv_mbox d"
    using assms(1) run mbox
    by (auto simp: rt_dispatch_def bindE_def failIf_apply split: if_splits outcome.splits prod.splits)
  show "length rep \<le> MBOX_RAM_SIZE sm" if x: "x = Ok rep" and size: "mailbox_len (drv_mbox d) = mailbox_size sm"
  proof -
    obtain len resp where y: "y = Ok (len, resp)" "rep = rt_reply len resp" "max len 8 \<le> rt_max_resp H"
        "max len 8 \<le> unat (mailbox_len (drv_mbox u))"
      using assms(1) x run
      by (auto simp: rt_dispatch_def bindE_eq_Ok linorder_not_less)
    then show ?thesis
      using fills_response run mbox size by (fastforce simp: rt_reply_def Let_def unat_mailbox_size)
  qed
qed

lemma mailbox_round_run:
  assumes "mbox_live sm (mbox_of d)" "mailbox_len (drv_mbox d) = mailbox_size sm" "mb_state (mbox_of d) = MbExecUc"
    and "mb_loaded data (mb_ctx (mbox_of d))" "mb_user (mb_ctx (mbox_of d)) = SocUser p" "p \<noteq> CALIPTRA_LOCALITY"
    and cmd: "cmd = mb_cmd (mb_ctx (mbox_of d))" "plain_cmd d cmd"
    and run: "rt_dispatch H cmd data (rt_cleared d) = (x, t)"
  shows "x = Ok rep \<Longrightarrow> \<exists>r. handle_mailbox_round H d = (Ok (), set_mbox r t) \<and> mbox_live sm r \<and>
      mb_state r = MbExecSoc \<and> mb_user (mb_ctx r) = SocUser p \<and> mb_status (mb_ctx r) = DataReady \<and> mb_loaded rep (mb_ctx r)"
    and "x = Err e \<Longrightarrow> \<exists>r. handle_mailbox_round H d = (Ok (), (set_mbox r t)\<lparr>cptra_fw_error_non_fatal := e\<rparr>) \<and>
      mbox_live sm r \<and> mb_state r = MbExecSoc \<and> mb_user (mb_ctx r) = SocUser p \<and> mb_status (mb_ctx r) = CmdFailure"
proof -
  let ?d = "rt_cleared d"
  have d: "drv_mbox ?d = drv_mbox d" "plain_cmd ?d cmd" using cmd(2) by (simp_all add: rt_cleared_def plain_cmd_def)
  note handled = handle_command_run [of sm ?d data p cmd, unfolded d(1), OF assms(1-6) cmd(1) d(2), unfolded run]
  have round: "handle_mailbox_round H d = (case handle_command H ?d of
        (Ok status, t) \<Rightarrow> on_mbox (set_status status) t
      | (Err e, t) \<Rightarrow> bindE (report_fw_error_non_fatal e) (\<lambda>_. on_mbox (set_status CmdFailure)) t
      | (CfiPanic p, t) \<Rightarrow> (CfiPanic p, t) | (RustPanic, t) \<Rightarrow> (RustPanic, t))"
    using on_mbox_reads(4) [OF assms(1)] assms(3)
    by (simp add: handle_mailbox_round_def bindE_def clear_fw_error_non_fatal_def rt_cleared_def report_fw_error_non_fatal_def)
  have req: "mb_requester (mbox_of ?d) = Caliptra" using assms(1) d(1) by (simp add: mbox_live_def)
  have t: "drv_mbox t = drv_mbox d" using rt_dispatch_keeps(1) [OF run req] d(1) by simp
  have small: "field_read 0 4 1 = (1 :: u32)" "field_read 0 4 3 = (3 :: u32)"
    by (simp_all add: field_read_def take_bit_eq_mod)
  show "\<exists>r. handle_mailbox_round H d = (Ok (), set_mbox r t) \<and> mbox_live sm r \<and> mb_state r = MbExecSoc \<and>
      mb_user (mb_ctx r) = SocUser p \<and> mb_status (mb_ctx r) = DataReady \<and> mb_loaded rep (mb_ctx r)" if "x = Ok rep"
  proof -
    have st: "mb_state (mbox_of d) \<in> {MbRdyForDlen, MbExecUc, MbExecSoc}" using assms(3) by simp
    define r where "r = mb_filled rep (mbox_of d)"
    have size: "mailbox_len (drv_mbox ?d) = mailbox_size sm" using d(1) assms(2) by simp
    note parts = mb_filled_parts [OF assms(1) st rt_dispatch_keeps(2) [OF run req that size], folded r_def]
      and keeps = mb_filled_keeps [OF st, of rep, folded r_def]
    have state: "mb_state r = MbExecUc" using keeps(1) assms(3) by simp
    define r' where "r' = r\<lparr>mb_machine := (MbExecSoc, (mb_ctx r)\<lparr>mb_status := 1\<rparr>)\<rparr>"
    have "handle_mailbox_round H d = (Ok (), set_mbox r' t)"
      using round handled that write_status_run(1) [OF parts(2) state, of Caliptra 1]
      by (simp add: set_status_def on_mbox_regs r_def [symmetric] r'_def small)
    then show ?thesis
      using write_status_run(2) [OF parts(2) state, of 1] parts(3) keeps(2) assms(5) mb_loaded_status
      by (auto simp: r'_def small)
  qed
  show "\<exists>r. handle_mailbox_round H d = (Ok (), (set_mbox r t)\<lparr>cptra_fw_error_non_fatal := e\<rparr>) \<and> mbox_live sm r \<and>
      mb_state r = MbExecSoc \<and> mb_user (mb_ctx r) = SocUser p \<and> mb_status (mb_ctx r) = CmdFailure" if "x = Err e"
  proof -
    define r' where "r' = (mbox_of d)\<lparr>mb_machine := (MbExecSoc, (mb_ctx (mbox_of d))\<lparr>mb_status := 3\<rparr>)\<rparr>"
    have "handle_mailbox_round H d = (Ok (), set_mbox r' (t\<lparr>cptra_fw_error_non_fatal := e\<rparr>))"
      using round handled that write_status_run(1) [OF assms(1,3), of Caliptra 3] t
      by (simp add: set_status_def on_mbox_regs r'_def small report_fw_error_non_fatal_def bindE_def)
    moreover have "set_mbox r' (t\<lparr>cptra_fw_error_non_fatal := e\<rparr>) = (set_mbox r' t)\<lparr>cptra_fw_error_non_fatal := e\<rparr>"
      by (simp add: set_mbox_def)
    ultimately show ?thesis
      using write_status_run(2) [OF assms(1,3), of 3] assms(5) by (auto simp: r'_def small)
  qed
qed

end

end
