(* ===== verification/RtCommands.thy ===== *)
theory RtCommands
  imports RtMailbox
begin

unbundle bit_operations_syntax

text \<open>
  Three runtime commands whose drivers are modelled: ECDSA and ML-DSA signature verification
  (\<^verbatim>\<open>common/src/verify.rs\<close>) and the extension of a PCR (\<^verbatim>\<open>runtime/src/pcr.rs\<close>), with their arms of
  \<^verbatim>\<open>execute_command\<close>. The other commands are an argument of the table; if they keep to the contract
  of the table, the whole table does.
\<close>

section \<open>Devices\<close>

definition on_drv_sha2 :: "(HashSha512Regs, 'a) action \<Rightarrow> (Drivers, 'a) action" where
  "on_drv_sha2 = zoom drv_sha2_512_384 (\<lambda>h d. d\<lparr>drv_sha2_512_384 := h\<rparr>)"

definition on_drv_ecc :: "(AsymEcc384, 'a) action \<Rightarrow> (Drivers, 'a) action" where
  "on_drv_ecc = zoom (\<lambda>d. (drv_ecc384 d)\<lparr>ecc_hash_sha512 := drv_sha2_512_384 d\<rparr>)
     (\<lambda>e d. d\<lparr>drv_ecc384 := e, drv_sha2_512_384 := ecc_hash_sha512 e\<rparr>)"

definition on_drv_abr :: "(Abr, 'a) action \<Rightarrow> (Drivers, 'a) action" where
  "on_drv_abr = zoom (\<lambda>d. (drv_abr d)\<lparr>abr_hash_sha512 := drv_sha2_512_384 d\<rparr>)
     (\<lambda>a d. d\<lparr>drv_abr := a, drv_sha2_512_384 := abr_hash_sha512 a\<rparr>)"

text \<open>\<^verbatim>\<open>bytes.get(start..end)\<close>.\<close>

definition bytes_get :: "nat \<Rightarrow> nat \<Rightarrow> u8 list \<Rightarrow> u8 list option" where
  "bytes_get start n bytes = (if start + n \<le> length bytes then Some (take n (drop start bytes)) else None)"

section \<open>Signature verification\<close>

definition EcdsaVerifyCmd_execute :: "p384 \<Rightarrow> u8 list \<Rightarrow> (Drivers, nat) action" where
  "EcdsaVerifyCmd_execute E cmd_args =
     bindE (failIf (length cmd_args \<noteq> 244) RUNTIME_INSUFFICIENT_MEMORY) (\<lambda>_.
     let scalar = (\<lambda>i. u8_to_u32_be 12 (take 48 (drop (4 + 48 * i) cmd_args)));
         pubkey = \<lparr>ec_x = scalar 0, ec_y = scalar 1\<rparr>;
         sig = \<lparr>ec_r = scalar 2, ec_s = scalar 3\<rparr>;
         digest = scalar 4
     in bindE (on_drv_ecc (Ecc384_verify E pubkey digest sig)) (\<lambda>success.
        if success \<noteq> Ecc384_Success then throw RUNTIME_ECDSA_VERIFY_FAILED else ret 0))"

definition MldsaVerifyReq_message :: "u8 list \<Rightarrow> u8 list option" where
  "MldsaVerifyReq_message bytes = (case bytes_get 7224 4 bytes of
      None \<Rightarrow> None
    | Some size_bytes \<Rightarrow>
        let msg_size = unat (from_le_bytes size_bytes :: u32)
        in if msg_size > 4096 then None else bytes_get 7228 msg_size bytes)"

definition MldsaVerifyCmd_execute :: "fips204 \<Rightarrow> u8 list \<Rightarrow> (Drivers, nat) action" where
  "MldsaVerifyCmd_execute F cmd_args =
     bindE (okOr (bytes_get 4 2592 cmd_args) RUNTIME_MAILBOX_INVALID_PARAMS) (\<lambda>pubkey_bytes.
     bindE (okOr (bytes_get 2596 4628 cmd_args) RUNTIME_MAILBOX_INVALID_PARAMS) (\<lambda>signature_bytes.
     bindE (failIf (last signature_bytes \<noteq> 0) RUNTIME_MAILBOX_INVALID_PARAMS) (\<lambda>_.
     bindE (okOr (MldsaVerifyReq_message cmd_args) RUNTIME_MAILBOX_INVALID_PARAMS) (\<lambda>message.
     bindE (on_drv_abr (verify_var F (u8_to_u32_le 648 pubkey_bytes) message (u8_to_u32_le 1157 signature_bytes))) (\<lambda>success.
     if success \<noteq> Mldsa87_Success then throw RUNTIME_MLDSA_VERIFY_FAILED else ret 0)))))"

section \<open>PCR extension\<close>

definition ExtendPcrCmd_execute :: "compress512 \<Rightarrow> u8 list \<Rightarrow> (Drivers, nat) action" where
  "ExtendPcrCmd_execute c cmd_args =
     bindE ensure_pl0 (\<lambda>_.
     bindE (failIf (length cmd_args \<noteq> 56) RUNTIME_INSUFFICIENT_MEMORY) (\<lambda>_.
     let pcr_idx = (from_le_bytes (take 4 (drop 4 cmd_args)) :: u32); data = drop 8 cmd_args
     in bindE (failIf (pcr_idx > 255) RUNTIME_MAILBOX_INVALID_PARAMS) (\<lambda>_.
        bindE (okOr (PcrId_try_from (ucast pcr_idx)) RUNTIME_PCR_INVALID_INDEX) (\<lambda>pcr_index.
        bindE (failIf (pcr_index \<in> {0, 1, 2, 3}) RUNTIME_PCR_RESERVED) (\<lambda>_.
        bindE (on_drv_sha2 (extend_pcr c pcr_index data)) (\<lambda>_. ret 0))))))"

section \<open>The table\<close>

abbreviation (input) ECDSA384_SIGNATURE_VERIFY :: u32 where "ECDSA384_SIGNATURE_VERIFY \<equiv> 0x45435632"
abbreviation (input) MLDSA87_SIGNATURE_VERIFY :: u32 where "MLDSA87_SIGNATURE_VERIFY \<equiv> 0x4d4c5632"
abbreviation (input) EXTEND_PCR :: u32 where "EXTEND_PCR \<equiv> 0x50435245"
abbreviation (input) FIPS_STATUS_NOT_APPROVED_USER_SUPPLIED_DIGEST :: u32 where
  "FIPS_STATUS_NOT_APPROVED_USER_SUPPLIED_DIGEST \<equiv> 0x55535244"

definition rt_command_arm ::
  "compress512 \<Rightarrow> p384 \<Rightarrow> fips204 \<Rightarrow> (u32 \<Rightarrow> u8 list \<Rightarrow> u8 list \<Rightarrow> (Drivers, nat \<times> u8 list) action) \<Rightarrow>
   u32 \<Rightarrow> u8 list \<Rightarrow> u8 list \<Rightarrow> (Drivers, nat \<times> u8 list) action" where
  "rt_command_arm c E F other cmd cmd_bytes resp =
     (if cmd = ECDSA384_SIGNATURE_VERIFY
      then bindE (EcdsaVerifyCmd_execute E cmd_bytes) (\<lambda>_.
           bindE (failIf (length resp < 8) RUNTIME_INTERNAL) (\<lambda>_.
           ret (8, take 4 resp @ le32 FIPS_STATUS_NOT_APPROVED_USER_SUPPLIED_DIGEST @ drop 8 resp)))
      else if cmd = MLDSA87_SIGNATURE_VERIFY
      then bindE (MldsaVerifyCmd_execute F cmd_bytes) (\<lambda>len. ret (len, resp))
      else if cmd = EXTEND_PCR
      then bindE (ExtendPcrCmd_execute c cmd_bytes) (\<lambda>len. ret (len, resp))
      else other cmd cmd_bytes resp)"

text \<open>The last arm of the dispatcher.\<close>

definition unimplemented_command :: "u32 \<Rightarrow> u8 list \<Rightarrow> u8 list \<Rightarrow> (Drivers, nat \<times> u8 list) action" where
  "unimplemented_command cmd cmd_bytes resp = throw RUNTIME_UNIMPLEMENTED_COMMAND"

definition runtime_handlers ::
  "compress512 \<Rightarrow> p384 \<Rightarrow> fips204 \<Rightarrow> rt_handlers \<Rightarrow> rt_handlers" where
  "runtime_handlers c E F H = H\<lparr>rt_commands := rt_command_arm c E F (rt_commands H)\<rparr>"

section \<open>The contract\<close>

definition mbox_frame :: "Drivers \<Rightarrow> Drivers \<Rightarrow> bool" where
  "mbox_frame s t \<longleftrightarrow> (mb_requester (mbox_of s) = Caliptra \<longrightarrow> drv_mbox t = drv_mbox s)"

lemma mbox_frame_order: "reflp mbox_frame" "transp mbox_frame"
  by (auto simp: mbox_frame_def reflp_def transp_def)

lemma frame_devices [frame_rules]:
  "frame mbox_frame (on_drv_sha2 m1)" "frame mbox_frame (on_drv_ecc m2)" "frame mbox_frame (on_drv_abr m3)"
  by (auto simp: frame_def mbox_frame_def on_drv_sha2_def on_drv_ecc_def on_drv_abr_def zoom_def split: prod.splits)

lemma frame_rt_id: "frame mbox_frame (on_mbox rt_id)"
proof (rule frameI)
  fix s r t assume run: "on_mbox rt_id s = (r, t)"
  show "mbox_frame s t"
  proof (unfold mbox_frame_def, rule impI)
    assume req: "mb_requester (mbox_of s) = Caliptra"
    then have "(mbox_of s)\<lparr>mb_requester := Caliptra\<rparr> = mbox_of s" by simp
    then have "port_reg Caliptra read_user (mbox_of s) = (Ok (requester_u32 (mb_user (mb_ctx (mbox_of s)))), mbox_of s)"
      by (simp add: port_reg_def mbox_port_def uc_def read_user_def mb_reg_def mmio_def)
    then show "drv_mbox t = drv_mbox s" using run by (simp add: rt_id_def on_mbox_regs)
  qed
qed

lemma frame_ensure_pl0 [frame_rules]: "frame mbox_frame ensure_pl0"
  unfolding ensure_pl0_def caller_privilege_level_def
  by (intro frame_bindE frame_rt_id mbox_frame_order frame_gets)
    (auto intro!: frame_ret frame_throw mbox_frame_order split: PauserPrivileges.splits)

lemma frame_commands:
  assumes "frame mbox_frame (other cmd bytes resp)"
  shows "frame mbox_frame (rt_command_arm c E F other cmd bytes resp)"
  unfolding rt_command_arm_def EcdsaVerifyCmd_execute_def MldsaVerifyCmd_execute_def ExtendPcrCmd_execute_def Let_def
  by (intro frame_if frame_bindE frame_rules mbox_frame_order assms)

lemma arm_fills:
  assumes "\<And>s len resp' t. other cmd bytes resp s = (Ok (len, resp'), t) \<Longrightarrow> length resp' = length resp"
    and "rt_command_arm c E F other cmd bytes resp s = (Ok (len, resp'), t)"
  shows "length resp' = length resp"
  using assms by (auto simp: rt_command_arm_def bindE_eq_Ok split: if_splits)

text \<open>If the other commands keep to the contract, so does the table with the three; it does with the last
  arm of the dispatcher as the only other one.\<close>

lemma command_table_runtime:
  assumes "command_table H"
  shows "command_table (runtime_handlers c E F H)"
proof
  fix cmd bytes resp s x t len resp'
  have "frame mbox_frame (rt_commands H cmd bytes resp)"
    using command_table.keeps_mailbox [OF assms] by (auto simp: frame_def mbox_frame_def)
  then have "frame mbox_frame (rt_command_arm c E F (rt_commands H) cmd bytes resp)" by (rule frame_commands)
  then show "drv_mbox t = drv_mbox s"
    if "rt_commands (runtime_handlers c E F H) cmd bytes resp s = (x, t)" "mb_requester (mbox_of s) = Caliptra"
    using that by (auto simp: frame_def mbox_frame_def runtime_handlers_def)
  show "length resp' = length resp"
    if "rt_commands (runtime_handlers c E F H) cmd bytes resp s = (Ok (len, resp'), t)"
    using that arm_fills [of "rt_commands H"] command_table.fills_response [OF assms]
    by (fastforce simp: runtime_handlers_def)
  show "InvokeDpeResp_size \<le> rt_max_resp (runtime_handlers c E F H)" "rt_max_resp (runtime_handlers c E F H) < 2 ^ 32"
    using command_table.response_buffer [OF assms] by (simp_all add: runtime_handlers_def)
qed

text \<open>A concrete table: the largest response with a word for the discriminant as the size of the enum.\<close>

definition no_other_commands :: rt_handlers where
  "no_other_commands = \<lparr>rt_max_resp = InvokeDpeResp_size + 4, rt_commands = unimplemented_command,
     rt_impactless_update = throw RUNTIME_UNIMPLEMENTED_COMMAND, rt_firmware_verify = throw RUNTIME_UNIMPLEMENTED_COMMAND,
     rt_external_cmd = (\<lambda>_. throw RUNTIME_UNIMPLEMENTED_COMMAND)\<rparr>"

lemma command_table_none: "command_table no_other_commands"
  by unfold_locales (auto simp: no_other_commands_def unimplemented_command_def InvokeDpeResp_size_def)

definition modelled_handlers :: "compress512 \<Rightarrow> p384 \<Rightarrow> fips204 \<Rightarrow> rt_handlers" where
  "modelled_handlers c E F = runtime_handlers c E F no_other_commands"

interpretation rt: command_table "modelled_handlers c E F" for c E F
  unfolding modelled_handlers_def by (rule command_table_runtime [OF command_table_none])

end
