(* ===== verification/SocManager.thy ===== *)
theory SocManager
  imports RtCommands
begin

unbundle bit_operations_syntax

text \<open>
  The SoC's side of the mailbox: the protocol of \<^verbatim>\<open>api/src/soc_mgr.rs\<close> with the FIFO helpers of
  \<^verbatim>\<open>api/src/mailbox.rs\<close>. A user of the SoC acts on the same device as the firmware; \<open>delay\<close>, the method the
  trait leaves to its implementation, is an argument: what the device does while the SoC waits. The
  lemmas join both sides: a command executed by the SoC while the runtime firmware runs comes to
  exactly what its handler does.
\<close>

section \<open>Errors\<close>

datatype CaliptraApiError =
    UnableToSetPauser | UnableToLockMailbox | UnableToReadMailbox | BufferTooLargeForMailbox
  | UnknownCommandStatus u32 | MailboxTimeout | MailboxCmdFailed u32
  | UnexpectedMailboxFsmStatus u32 u32 | MailboxRespInvalidFipsStatus u32 | MailboxRespInvalidChecksum u32 u32
  | MailboxRespTypeTooSmall | MailboxReqTypeTooSmall | MailboxNoResponseData
  | MailboxUnexpectedResponseLen u32 u32 u32 | UploadFirmwareUnexpectedResponse | UploadMeasurementResponseError
  | ReadBuffTooSmall | FusesAlreadyIniitalized | FuseDoneNotSet | StashMeasurementFailed

type_synonym 'a api_action = "(Drivers, CaliptraApiError + 'a) action"

text \<open>The \<^verbatim>\<open>?\<close> operator of the API.\<close>

definition bindA :: "'a api_action \<Rightarrow> ('a \<Rightarrow> 'b api_action) \<Rightarrow> 'b api_action" where
  "bindA m f = bindE m (\<lambda>x. case x of Inl e \<Rightarrow> ret (Inl e) | Inr y \<Rightarrow> f y)"

definition soc_reg :: "u32 \<Rightarrow> 'a mbox_io \<Rightarrow> (Drivers, 'a) action" where
  "soc_reg pauser m = zoom mbox_of set_mbox (port_reg (SocUser pauser) m)"

section \<open>FIFO helpers\<close>

fun write_remaining :: "(u32 \<Rightarrow> ('s, unit) action) \<Rightarrow> u8 list \<Rightarrow> ('s, unit) action" where
  "write_remaining put (a # b # c # d # rest) =
     bindE (put (from_le_bytes [a, b, c, d])) (\<lambda>_. write_remaining put rest)"
| "write_remaining put [] = ret ()"
| "write_remaining put remaining = put (from_le_bytes (remaining @ replicate (4 - length remaining) 0))"

fun read_remaining :: "('s, u32) action \<Rightarrow> nat \<Rightarrow> ('s, u8 list) action" where
  "read_remaining get n =
     (if n \<ge> 4 then bindE get (\<lambda>word. bindE (read_remaining get (n - 4)) (\<lambda>rest. ret (le32 word @ rest)))
      else if n \<noteq> 0 then bindE get (\<lambda>last_word. ret (take n (le32 last_word)))
      else ret [])"

declare read_remaining.simps [simp del]

definition mbox_write_fifo_with_limit :: "u32 \<Rightarrow> u8 list \<Rightarrow> nat \<Rightarrow> unit api_action" where
  "mbox_write_fifo_with_limit pauser buf mailbox_size_limit =
     (if length buf \<ge> 2 ^ 32 \<or> length buf > mailbox_size_limit then ret (Inl BufferTooLargeForMailbox)
      else bindE (soc_reg pauser (mb_write_dlen (of_nat (length buf)))) (\<lambda>_.
           bindE (write_remaining (\<lambda>w. soc_reg pauser (write_din w)) buf) (\<lambda>_. ret (Inr ()))))"

text \<open>Buffers are given by their lengths and the bytes read are returned.\<close>

definition mbox_read_fifo :: "u32 \<Rightarrow> nat \<Rightarrow> u8 list api_action" where
  "mbox_read_fifo pauser buf_len =
     bindE (soc_reg pauser read_dlen) (\<lambda>dlen.
     if unat dlen > buf_len then ret (Inl UnableToReadMailbox)
     else bindE (read_remaining (soc_reg pauser read_dout) (unat dlen)) (\<lambda>bytes. ret (Inr bytes)))"

definition mbox_read_response :: "u32 \<Rightarrow> nat \<Rightarrow> u8 list api_action" where
  "mbox_read_response pauser buf_len =
     bindE (soc_reg pauser read_dlen) (\<lambda>dlen.
     if unat dlen > buf_len then ret (Inl ReadBuffTooSmall)
     else mbox_read_fifo pauser (unat dlen))"

section \<open>Executing a command\<close>

definition start_mailbox_exec :: "u32 \<Rightarrow> nat \<Rightarrow> u32 \<Rightarrow> u8 list \<Rightarrow> unit api_action" where
  "start_mailbox_exec pauser mailbox_size_limit cmd buf =
     bindE (soc_reg pauser read_lock) (\<lambda>lock.
     if bit lock 0 then ret (Inl UnableToLockMailbox)
     else bindE (soc_reg pauser read_lock) (\<lambda>lock.
          if \<not> bit lock 0 then ret (Inl UnableToReadMailbox)
          else bindE (soc_reg pauser (mb_write_cmd cmd)) (\<lambda>_.
               bindA (mbox_write_fifo_with_limit pauser buf mailbox_size_limit) (\<lambda>_.
               bindE (soc_reg pauser (write_ex 1)) (\<lambda>_. ret (Inr ()))))))"

text \<open>The polling loop; it returns whether it timed out. The counter wraps below zero as in the source.\<close>

function wait_not_busy :: "u32 \<Rightarrow> (Drivers \<Rightarrow> Drivers) \<Rightarrow> u32 \<Rightarrow> (Drivers, bool) action" where
  "wait_not_busy pauser delay timeout_cycles d = (case soc_reg pauser read_status d of
      (Ok status, d) \<Rightarrow>
        if status_of status = CmdBusy
        then let d = delay d; timeout_cycles = timeout_cycles - 1
             in if timeout_cycles = 0 then (Ok True, d) else wait_not_busy pauser delay timeout_cycles d
        else (Ok False, d)
    | (Err e, d) \<Rightarrow> (Err e, d) | (CfiPanic p, d) \<Rightarrow> (CfiPanic p, d) | (RustPanic, d) \<Rightarrow> (RustPanic, d))"
  by pat_completeness auto

lemma word_pred_less: "w \<noteq> 1 \<Longrightarrow> unat (w - 2) < unat (w - 1)" for w :: u32
  using measure_unat [of "w - 1"] by simp

termination wait_not_busy
  by (relation "measure (\<lambda>(pauser, delay, timeout_cycles, d). unat (timeout_cycles - 1))") (auto intro: word_pred_less)

declare wait_not_busy.simps [simp del]

definition finish_mailbox_exec :: "u32 \<Rightarrow> u32 \<Rightarrow> (Drivers \<Rightarrow> Drivers) \<Rightarrow> nat \<Rightarrow> u8 list option api_action" where
  "finish_mailbox_exec pauser max_wait_cycles delay resp_len =
     bindE (wait_not_busy pauser delay max_wait_cycles) (\<lambda>timeout.
     if timeout then ret (Inl MailboxTimeout)
     else bindE (soc_reg pauser read_status) (\<lambda>status.
       let status = status_of status
       in if status = CmdFailure
          then bindE (soc_reg pauser (write_ex 0)) (\<lambda>_.
               bindE (gets (\<lambda>d. if cptra_fw_error_fatal d \<noteq> 0 then cptra_fw_error_fatal d else cptra_fw_error_non_fatal d)) (\<lambda>e.
               ret (Inl (MailboxCmdFailed e))))
          else if status = CmdComplete
          then bindE (soc_reg pauser (write_ex 0)) (\<lambda>_. ret (Inr None))
          else if status \<noteq> DataReady then ret (Inl (UnknownCommandStatus status))
          else bindE (mbox_read_response pauser resp_len) (\<lambda>res.
               bindE (soc_reg pauser (write_ex 0)) (\<lambda>_.
               ret (map_sum id Some res)))))"

definition mailbox_exec ::
  "u32 \<Rightarrow> nat \<Rightarrow> u32 \<Rightarrow> (Drivers \<Rightarrow> Drivers) \<Rightarrow> u32 \<Rightarrow> u8 list \<Rightarrow> nat \<Rightarrow> u8 list option api_action" where
  "mailbox_exec pauser mailbox_size_limit max_wait_cycles delay cmd buf resp_len =
     bindA (start_mailbox_exec pauser mailbox_size_limit cmd buf) (\<lambda>_.
     finish_mailbox_exec pauser max_wait_cycles delay resp_len)"

abbreviation (input) FIPS_STATUS_APPROVED :: u32 where "FIPS_STATUS_APPROVED \<equiv> 0"

text \<open>A typed request is its bytes, with the header first; a response type its size and smallest size.\<close>

definition mailbox_exec_req ::
  "u32 \<Rightarrow> nat \<Rightarrow> u32 \<Rightarrow> (Drivers \<Rightarrow> Drivers) \<Rightarrow> u32 \<Rightarrow> u8 list \<Rightarrow> nat \<Rightarrow> nat \<Rightarrow> nat \<Rightarrow> u8 list api_action" where
  "mailbox_exec_req pauser mailbox_size_limit max_wait_cycles delay cmd_id req resp_size resp_min_size resp_len =
     (if length req < 4 then ret (Inl MailboxReqTypeTooSmall)
      else if resp_size < 8 \<or> resp_min_size < 8 then ret (Inl MailboxRespTypeTooSmall)
      else
        let req = le32 (calc_checksum cmd_id (drop 4 req)) @ drop 4 req
        in bindA (mailbox_exec pauser mailbox_size_limit max_wait_cycles delay cmd_id req resp_len) (\<lambda>data.
           case data of None \<Rightarrow> ret (Inl MailboxNoResponseData)
           | Some data \<Rightarrow>
               if length data < resp_min_size \<or> length data > resp_size
               then ret (Inl (MailboxUnexpectedResponseLen (of_nat resp_min_size) (of_nat resp_size) (of_nat (length data))))
               else
                 let response = data @ replicate (resp_size - length data) 0;
                     chksum = from_le_bytes (take 4 data); fips_status = from_le_bytes (take 4 (drop 4 data));
                     actual_checksum = calc_checksum 0 (drop 4 data)
                 in if actual_checksum \<noteq> chksum then ret (Inl (MailboxRespInvalidChecksum chksum actual_checksum))
                    else if fips_status \<noteq> FIPS_STATUS_APPROVED \<and> fips_status \<noteq> FIPS_STATUS_NOT_APPROVED_USER_SUPPLIED_DIGEST
                    then ret (Inl (MailboxRespInvalidFipsStatus fips_status))
                    else ret (Inr response)))"

definition send_stash_measurement_req ::
  "u32 \<Rightarrow> nat \<Rightarrow> u32 \<Rightarrow> (Drivers \<Rightarrow> Drivers) \<Rightarrow> u8 list \<Rightarrow> nat \<Rightarrow> unit api_action" where
  "send_stash_measurement_req pauser mailbox_size_limit max_wait_cycles delay req resp_len =
     bindA (mailbox_exec_req pauser mailbox_size_limit max_wait_cycles delay 0x4D454153 req 12 12 resp_len) (\<lambda>resp.
     if (from_le_bytes (take 4 (drop 8 resp)) :: u32) = 0 then ret (Inr ()) else ret (Inl StashMeasurementFailed))"

section \<open>The helpers move buffers through the channel\<close>

lemma write_remaining_short:
  "length buf < 4 \<Longrightarrow> write_remaining put buf =
     (if buf = [] then ret () else put (from_le_bytes (buf @ replicate (4 - length buf) 0)))"
  by (induction put buf rule: write_remaining.induct) simp_all

lemma write_remaining_words: "write_remaining put buf = put_words put (byte_words buf)"
proof (induction "length buf" arbitrary: buf rule: less_induct)
  case less
  show ?case
  proof (cases "length buf < 4")
    case True
    then have "(length buf + 3) div 4 = (if buf = [] then 0 else 1)" by (cases buf) auto
    then have "byte_words buf = (if buf = [] then [] else [from_le_bytes buf])"
      using True by (simp add: byte_words_def u8_to_u32_le_def)
    then show ?thesis using True by (simp add: write_remaining_short from_le_bytes_zeros bindE_ret_right)
  next
    case False
    then obtain a b c d rest where buf: "buf = a # b # c # d # rest"
      by (auto simp: not_less numeral_eq_Suc Suc_le_length_iff)
    have "(length buf + 3) div 4 = Suc ((length rest + 3) div 4)" by (simp add: buf)
    then have "byte_words buf = from_le_bytes [a, b, c, d] # byte_words rest"
      unfolding byte_words_def by (simp add: u8_to_u32_le_Suc buf)
    then show ?thesis using less [of rest] by (simp add: buf)
  qed
qed

lemma read_remaining_bytes: "read_remaining get n = get_bytes get n"
proof (induction n rule: less_induct)
  case (less n)
  show ?case
  proof (cases "n \<ge> 4")
    case True
    then have n: "(n + 3) div 4 = Suc ((n - 4 + 3) div 4)" by presburger
    have "read_remaining get n = bindE get (\<lambda>word. bindE (get_bytes get (n - 4)) (\<lambda>rest. ret (le32 word @ rest)))"
      using less [of "n - 4"] True by (subst read_remaining.simps) simp
    then show ?thesis using True unfolding get_bytes_words n
      by (auto simp: fun_eq_iff bindE_def split: prod.splits outcome.splits)
  next
    case False
    then have "(n + 3) div 4 = (if n = 0 then 0 else 1)" by auto
    then show ?thesis using False unfolding get_bytes_words
      by (subst read_remaining.simps) (auto simp: fun_eq_iff bindE_def split: prod.splits outcome.splits)
  qed
qed

lemma soc_reg_Ok: "port_reg (SocUser p) m (mbox_of d) = (Ok x, r) \<Longrightarrow> soc_reg p m d = (Ok x, set_mbox r d)"
  by (simp add: soc_reg_def zoom_def)

lemma put_words_soc:
  "put_words (\<lambda>w. port_reg (SocUser p) (write_din w)) ws (mbox_of d) = (Ok (), r) \<Longrightarrow>
     put_words (\<lambda>w. soc_reg p (write_din w)) ws d = (Ok (), set_mbox r d)"
proof (induction ws arbitrary: d)
  case (Cons w ws)
  then obtain s where s: "port_reg (SocUser p) (write_din w) (mbox_of d) = (Ok (), s)"
      "put_words (\<lambda>w. port_reg (SocUser p) (write_din w)) ws s = (Ok (), r)"
    by (auto simp: bindE_eq_Ok)
  then show ?case using Cons.IH [of "set_mbox s d"] soc_reg_Ok [OF s(1)] by (simp add: bindE_Ok)
qed (use set_mbox_simps(2) in auto)

lemma get_words_soc:
  "get_words (port_reg (SocUser p) read_dout) n (mbox_of d) = (Ok ws, r) \<Longrightarrow>
     get_words (soc_reg p read_dout) n d = (Ok ws, set_mbox r d)"
proof (induction n arbitrary: d ws)
  case (Suc n)
  then obtain w s us where s: "port_reg (SocUser p) read_dout (mbox_of d) = (Ok w, s)"
      "get_words (port_reg (SocUser p) read_dout) n s = (Ok us, r)" "ws = w # us"
    by (auto simp: bindE_eq_Ok)
  then show ?case using Suc.IH [of "set_mbox s d" us] soc_reg_Ok [OF s(1)] by (simp add: bindE_Ok)
qed (use set_mbox_simps(2) in auto)

lemma get_bytes_soc:
  assumes "get_bytes (port_reg (SocUser p) read_dout) n (mbox_of d) = (Ok bs, r)"
  shows "get_bytes (soc_reg p read_dout) n d = (Ok bs, set_mbox r d)"
  using assms get_words_soc [of p "(n + 3) div 4" d] by (auto simp: get_bytes_words bindE_eq_Ok bindE_Ok)

section \<open>Runs of the protocol\<close>

definition mbox_free :: "bool \<Rightarrow> Drivers \<Rightarrow> bool" where
  "mbox_free sm d \<longleftrightarrow> mbox_live sm (mbox_of d) \<and> mb_state (mbox_of d) = MbIdle \<and> mb_locked (mb_ctx (mbox_of d)) = 0 \<and>
     mb_status (mb_ctx (mbox_of d)) = 0 \<and> mailbox_len (drv_mbox d) = mailbox_size sm"

lemma start_mailbox_exec_run:
  assumes free: "mbox_free sm d" and len: "length buf \<le> limit" "length buf \<le> MBOX_RAM_SIZE sm"
  obtains r where "start_mailbox_exec p limit cmd buf d = (Ok (Inr ()), set_mbox r d)" "mbox_live sm r"
    "mb_state r = MbExecUc" "mb_user (mb_ctx r) = SocUser p" "mb_cmd (mb_ctx r) = cmd" "mb_status (mb_ctx r) = 0"
    "mb_loaded buf (mb_ctx r)"
proof -
  let ?r = "mbox_of d" and ?u = "SocUser p"
  obtain c where m: "mb_machine ?r = (MbIdle, c)" and c: "mb_locked c = 0" "mb_status c = 0"
    using free by (cases "mb_machine ?r") (auto simp: mbox_free_def)
  have live: "mbox_live sm ?r" using free by (simp add: mbox_free_def)
  define r0 where "r0 = ?r\<lparr>mb_machine := (MbRdyForCmd, ctx_lock ?u c)\<rparr>"
  have n0: "mb_next (RdMboxLock ?u) (mb_machine ?r) = (MbRdyForCmd, ctx_lock ?u c)" using m c by (simp add: next_rd_lock)
  have live0: "mbox_live sm r0" using mbox_live_next [OF live, of "RdMboxLock ?u"] n0 by (simp add: r0_def)
  have lock: "soc_reg p read_lock d = (Ok 0, set_mbox r0 d)" "soc_reg p read_lock (set_mbox r0 d) = (Ok 1, set_mbox r0 d)"
    using port_read_lock [OF live, of ?u] port_read_lock [OF live0, of ?u] n0 m
    by (simp_all add: soc_reg_Ok r0_def next_rd_lock)
  define r1 where "r1 = r0\<lparr>mb_machine := (MbRdyForDlen, ctx_set_cmd cmd (ctx_lock ?u c))\<rparr>"
  have n1: "mb_next (CmdWrite cmd) (mb_machine r0) = (MbRdyForDlen, ctx_set_cmd cmd (ctx_lock ?u c))"
    by (simp add: r0_def mb_next_def mbox_process_event_def)
  have live1: "mbox_live sm r1" using mbox_live_next [OF live0, of "CmdWrite cmd"] n1 by (simp add: r1_def)
  have cmdw: "soc_reg p (mb_write_cmd cmd) (set_mbox r0 d) = (Ok (), set_mbox r1 d)"
    using port_other_regs(5) [OF live0, of ?u cmd] n1 by (simp add: soc_reg_Ok r1_def)
  have st1: "mb_state r1 \<in> {MbRdyForDlen, MbExecUc, MbExecSoc}" by (simp add: r1_def)
  define r2 where "r2 = mb_filled buf r1"
  note parts = mb_filled_parts [OF live1 st1 len(2), folded r2_def] and keeps = mb_filled_keeps [OF st1, of buf, folded r2_def]
  have "soc_reg p (mb_write_dlen (of_nat (length buf))) (set_mbox r1 d) =
      (Ok (), set_mbox (r1\<lparr>mb_machine := mb_next (DlenWrite (of_nat (length buf))) (mb_machine r1)\<rparr>) d)"
    using port_other_regs(6) [OF live1, of ?u] by (simp add: soc_reg_Ok)
  moreover have "length buf < 2 ^ 32" using len(2) mbox_size_facts(2) [of sm] by simp
  ultimately have fifo: "mbox_write_fifo_with_limit p buf limit (set_mbox r1 d) = (Ok (Inr ()), set_mbox r2 d)"
    using len(1) put_words_soc parts(1) [of ?u]
    by (simp add: mbox_write_fifo_with_limit_def bindE_Ok write_remaining_words put_bytes_words)
  have c2: "mb_state r2 = MbRdyForData" "mb_user (mb_ctx r2) = ?u" "mb_cmd (mb_ctx r2) = cmd" "mb_status (mb_ctx r2) = 0"
    using keeps c(2) by (simp_all add: r1_def ctx_set_cmd_def ctx_lock_def)
  define r3 where "r3 = r2\<lparr>mb_irq := True, mb_execute := 1, mb_machine := (MbExecUc, mb_ctx r2)\<rparr>"
  have n3: "mb_next SocExecSet (mb_machine r2) = (MbExecUc, mb_ctx r2)"
    using c2(1) by (cases "mb_machine r2") (simp add: mb_next_def mbox_process_event_def)
  have "soc_reg p (write_ex 1) (set_mbox r2 d) = (Ok (), set_mbox r3 d)"
    using port_write_ex [OF parts(2) c2(2), of 1] n3 by (simp add: soc_reg_Ok r3_def)
  then have "start_mailbox_exec p limit cmd buf d = (Ok (Inr ()), set_mbox r3 d)"
    using lock cmdw fifo by (simp add: start_mailbox_exec_def bindE_Ok bindA_def)
  moreover have "mbox_live sm r3"
    using mbox_live_next [OF parts(2), of SocExecSet] n3 by (simp add: r3_def mbox_live_def)
  ultimately show thesis using that [of r3] c2 parts(3) by (simp add: r3_def)
qed

lemma soc_read_status:
  "mbox_live sm (mbox_of d) \<Longrightarrow> soc_reg p read_status d =
     (Ok (field_modify 6 3 (fsm_value (mb_state (mbox_of d))) (mb_status (mb_ctx (mbox_of d)))), d)"
  using port_other_regs(4) [of sm "mbox_of d" "SocUser p"] by (simp add: soc_reg_Ok)

text \<open>The polling loop ends as soon as the device answers, if it answers within the limit.\<close>

lemma wait_not_busy_run:
  assumes "\<And>i. i \<le> n \<Longrightarrow> mbox_live sm (mbox_of ((delay ^^ i) d))"
    and "\<And>i. i < n \<Longrightarrow> status_of (mb_status (mb_ctx (mbox_of ((delay ^^ i) d)))) = CmdBusy"
    and "status_of (mb_status (mb_ctx (mbox_of ((delay ^^ n) d)))) \<noteq> CmdBusy" "n < unat timeout_cycles"
  shows "wait_not_busy p delay timeout_cycles d = (Ok False, (delay ^^ n) d)"
  using assms
proof (induction n arbitrary: d timeout_cycles)
  case 0
  then have "mbox_live sm (mbox_of d)" by (metis funpow_0 order_refl)
  then show ?case using 0 by (subst wait_not_busy.simps) (simp add: soc_read_status [where sm = sm] status_of_status)
next
  case (Suc n)
  have live: "mbox_live sm (mbox_of d)" and busy: "status_of (mb_status (mb_ctx (mbox_of d))) = CmdBusy"
    using Suc.prems(1) [of 0] Suc.prems(2) [of 0] by simp_all
  have "timeout_cycles \<noteq> 0" using Suc.prems(4) by auto
  then have t: "timeout_cycles - 1 \<noteq> 0" "n < unat (timeout_cycles - 1)"
    using Suc.prems(4) by (auto simp: unat_minus_one)
  have "wait_not_busy p delay (timeout_cycles - 1) (delay d) = (Ok False, (delay ^^ n) (delay d))"
    using Suc.prems(1) [of "Suc i" for i] Suc.prems(2) [of "Suc i" for i] Suc.prems(3) t(2)
    by (intro Suc.IH) (simp_all add: funpow_swap1)
  then show ?case
    using live busy t(1)
    by (subst wait_not_busy.simps) (simp add: soc_read_status [where sm = sm] status_of_status Let_def funpow_swap1)
qed

lemma small_status: "status_of 0 = 0" "status_of 1 = 1" "status_of 3 = 3"
  by (simp_all add: status_of_def field_read_def take_bit_eq_mod)

text \<open>The SoC collects a response or an error and frees the mailbox.\<close>

lemma clear_execute_run:
  assumes "mbox_live sm r" "mb_state r \<in> {MbExecUc, MbExecSoc}" "mb_user (mb_ctx r) = SocUser p"
    and "mailbox_len (drv_mbox d) = mailbox_size sm"
  obtains s where "soc_reg p (write_ex 0) (set_mbox r d) = (Ok (), set_mbox s d)" "mbox_free sm (set_mbox s d)"
proof -
  let ?s = "r\<lparr>mb_irq := True, mb_execute := 0, mb_machine := (MbIdle, ctx_unlock (mb_ctx r))\<rparr>"
  have "soc_reg p (write_ex 0) (set_mbox r d) = (Ok (), set_mbox ?s d)"
    using write_ex_clear_run(1) [OF assms(1-3)] by (simp add: soc_reg_Ok)
  moreover have "mbox_free sm (set_mbox ?s d)"
    using write_ex_clear_run(2) [OF assms(1-3)] assms(4) by (simp add: mbox_free_def ctx_unlock_def)
  ultimately show thesis using that by blast
qed

lemma read_response_run:
  assumes "mbox_live sm (mbox_of d)" "mb_state (mbox_of d) = MbExecSoc" "mb_loaded rep (mb_ctx (mbox_of d))"
  shows "mbox_read_response p resp_len d = (if length rep \<le> resp_len
      then (Ok (Inr rep), set_mbox (mb_pulled (length (byte_words rep)) (mbox_of d)) d)
      else (Ok (Inl ReadBuffTooSmall), d))"
proof -
  have dlen: "unat (mb_dlen (mb_ctx (mbox_of d))) = length rep" using assms(3) by (simp add: mb_loaded_def Let_def)
  have reg: "soc_reg p read_dlen d = (Ok (mb_dlen (mb_ctx (mbox_of d))), d)"
    using port_other_regs(2) [OF assms(1), of "SocUser p"] by (simp add: soc_reg_Ok)
  have "get_bytes (soc_reg p read_dout) (length rep) d =
      (Ok rep, set_mbox (mb_pulled (length (byte_words rep)) (mbox_of d)) d)"
    using get_loaded(1) [OF assms(1) _ assms(3), of "SocUser p"] assms(2) by (intro get_bytes_soc) simp
  then show ?thesis
    using reg dlen by (simp add: mbox_read_response_def mbox_read_fifo_def bindE_Ok read_remaining_bytes)
qed

lemma collect_response:
  assumes w: "wait_not_busy p delay max_wait_cycles d = (Ok False, set_mbox q t)"
    and q: "mbox_live sm q" "mb_state q = MbExecSoc" "mb_user (mb_ctx q) = SocUser p" "mb_status (mb_ctx q) = DataReady"
      "mb_loaded rep (mb_ctx q)" and len: "mailbox_len (drv_mbox t) = mailbox_size sm"
  shows "\<exists>s. finish_mailbox_exec p max_wait_cycles delay resp_len d =
      (Ok (if length rep \<le> resp_len then Inr (Some rep) else Inl ReadBuffTooSmall), set_mbox s t) \<and> mbox_free sm (set_mbox s t)"
proof -
  define q' where "q' = (if length rep \<le> resp_len then mb_pulled (length (byte_words rep)) q else q)"
  have q': "mbox_live sm q'" "mb_state q' \<in> {MbExecUc, MbExecSoc}" "mb_user (mb_ctx q') = SocUser p"
    using q get_loaded(2) [OF q(1) _ q(5)] by (simp_all add: q'_def mb_pulled_keeps)
  obtain s where s: "soc_reg p (write_ex 0) (set_mbox q' t) = (Ok (), set_mbox s t)" "mbox_free sm (set_mbox s t)"
    using clear_execute_run [OF q' len] by blast
  have "mbox_read_response p resp_len (set_mbox q t) =
      (Ok (if length rep \<le> resp_len then Inr rep else Inl ReadBuffTooSmall), set_mbox q' t)"
    using read_response_run [of sm "set_mbox q t" rep p resp_len] q by (simp add: q'_def)
  then have "finish_mailbox_exec p max_wait_cycles delay resp_len d =
      (Ok (if length rep \<le> resp_len then Inr (Some rep) else Inl ReadBuffTooSmall), set_mbox s t)"
    using soc_read_status [of sm "set_mbox q t" p] q(1,2,4) s(1)
    unfolding finish_mailbox_exec_def bindE_Ok [where m = "wait_not_busy p delay max_wait_cycles" and s = d, OF w]
    by (simp add: bindE_Ok status_of_status small_status Let_def)
  then show ?thesis using s(2) by blast
qed

lemma collect_error:
  assumes w: "wait_not_busy p delay max_wait_cycles d = (Ok False, set_mbox q t)"
    and q: "mbox_live sm q" "mb_state q = MbExecSoc" "mb_user (mb_ctx q) = SocUser p" "mb_status (mb_ctx q) = CmdFailure"
    and len: "mailbox_len (drv_mbox t) = mailbox_size sm"
  shows "\<exists>s. finish_mailbox_exec p max_wait_cycles delay resp_len d =
      (Ok (Inl (MailboxCmdFailed (if cptra_fw_error_fatal t \<noteq> 0 then cptra_fw_error_fatal t else cptra_fw_error_non_fatal t))),
       set_mbox s t) \<and> mbox_free sm (set_mbox s t)"
proof -
  obtain s where s: "soc_reg p (write_ex 0) (set_mbox q t) = (Ok (), set_mbox s t)" "mbox_free sm (set_mbox s t)"
    using clear_execute_run [of sm q p t] q len by auto
  then show ?thesis
    using soc_read_status [of sm "set_mbox q t" p] q(1,2,4)
    unfolding finish_mailbox_exec_def bindE_Ok [where m = "wait_not_busy p delay max_wait_cycles" and s = d, OF w]
    by (auto simp: bindE_Ok status_of_status small_status Let_def)
qed

section \<open>Both sides together\<close>

text \<open>
  While the SoC polls, the device lets \<open>n\<close> polls pass without touching the mailbox, and by the next one
  the runtime has gone through one round of its command loop.
\<close>

definition device_serves :: "rt_handlers \<Rightarrow> (Drivers \<Rightarrow> Drivers) \<Rightarrow> nat \<Rightarrow> Drivers \<Rightarrow> bool" where
  "device_serves H delay n d \<longleftrightarrow>
     (\<forall>i\<le>n. drv_mbox ((delay ^^ i) d) = drv_mbox d \<and> drv_subsystem_mode ((delay ^^ i) d) = drv_subsystem_mode d) \<and>
     (delay ^^ Suc n) d = snd (handle_mailbox_round H ((delay ^^ n) d))"

context command_table
begin

lemma finish_mailbox_exec_run:
  assumes r: "mbox_live sm (mbox_of d)" "mailbox_len (drv_mbox d) = mailbox_size sm" "mb_state (mbox_of d) = MbExecUc"
      "mb_loaded data (mb_ctx (mbox_of d))" "mb_user (mb_ctx (mbox_of d)) = SocUser p" "p \<noteq> CALIPTRA_LOCALITY"
      "mb_cmd (mb_ctx (mbox_of d)) = cmd" "plain_cmd d cmd" "mb_status (mb_ctx (mbox_of d)) = 0"
    and dev: "device_serves H delay n d" "Suc n < unat max_wait_cycles"
    and run: "rt_dispatch H cmd data (rt_cleared ((delay ^^ n) d)) = (x, t)"
  shows "x = Ok rep \<Longrightarrow> \<exists>s. finish_mailbox_exec p max_wait_cycles delay resp_len d =
      (Ok (if length rep \<le> resp_len then Inr (Some rep) else Inl ReadBuffTooSmall), set_mbox s t) \<and> mbox_free sm (set_mbox s t)"
    and "x = Err e \<Longrightarrow> \<exists>s. finish_mailbox_exec p max_wait_cycles delay resp_len d =
      (Ok (Inl (MailboxCmdFailed (if cptra_fw_error_fatal t \<noteq> 0 then cptra_fw_error_fatal t else e))),
       (set_mbox s t)\<lparr>cptra_fw_error_non_fatal := e\<rparr>) \<and> mbox_free sm (set_mbox s t)"
proof -
  let ?d = "(delay ^^ n) d"
  have same: "drv_mbox ((delay ^^ i) d) = drv_mbox d" if "i \<le> n" for i using dev(1) that by (simp add: device_serves_def)
  have plain: "plain_cmd ?d cmd" using r(8) dev(1) by (simp add: plain_cmd_def device_serves_def)
  have served: "(delay ^^ Suc n) d = snd (handle_mailbox_round H ?d)" using dev(1) by (simp add: device_serves_def)
  note round = mailbox_round_run [of sm ?d data p cmd x t, unfolded same [OF order_refl], OF r(1-6) r(7) [symmetric] plain run]
  have "mb_requester (mbox_of (rt_cleared ?d)) = Caliptra"
    using r(1) same [of n] by (simp add: rt_cleared_def mbox_live_def)
  from rt_dispatch_keeps(1) [OF run this]
  have len: "mailbox_len (drv_mbox t) = mailbox_size sm" using r(2) same [of n] by (simp add: rt_cleared_def)
  have wait: "wait_not_busy p delay max_wait_cycles d = (Ok False, d')"
    if "(delay ^^ Suc n) d = d'" "mbox_live sm (mbox_of d')" "status_of (mb_status (mb_ctx (mbox_of d'))) \<noteq> CmdBusy" for d'
    using that same r(1,9) dev(2)
    by (subst wait_not_busy_run [where n = "Suc n" and sm = sm])
      (auto simp: le_Suc_eq less_Suc_eq_le small_status simp del: funpow.simps)
  show "\<exists>s. finish_mailbox_exec p max_wait_cycles delay resp_len d =
      (Ok (if length rep \<le> resp_len then Inr (Some rep) else Inl ReadBuffTooSmall), set_mbox s t) \<and> mbox_free sm (set_mbox s t)"
    if x: "x = Ok rep"
  proof -
    obtain q where q: "handle_mailbox_round H ?d = (Ok (), set_mbox q t)" "mbox_live sm q" "mb_state q = MbExecSoc"
        "mb_user (mb_ctx q) = SocUser p" "mb_status (mb_ctx q) = DataReady" "mb_loaded rep (mb_ctx q)"
      using round(1) [OF x] by blast
    have w: "wait_not_busy p delay max_wait_cycles d = (Ok False, set_mbox q t)"
      using q served by (intro wait) (simp_all add: small_status)
    show ?thesis by (rule collect_response [OF w q(2-6) len])
  qed
  show "\<exists>s. finish_mailbox_exec p max_wait_cycles delay resp_len d =
      (Ok (Inl (MailboxCmdFailed (if cptra_fw_error_fatal t \<noteq> 0 then cptra_fw_error_fatal t else e))),
       (set_mbox s t)\<lparr>cptra_fw_error_non_fatal := e\<rparr>) \<and> mbox_free sm (set_mbox s t)"
    if x: "x = Err e"
  proof -
    obtain q where q: "handle_mailbox_round H ?d = (Ok (), (set_mbox q t)\<lparr>cptra_fw_error_non_fatal := e\<rparr>)" "mbox_live sm q"
        "mb_state q = MbExecSoc" "mb_user (mb_ctx q) = SocUser p" "mb_status (mb_ctx q) = CmdFailure"
      using round(2) [OF x] by blast
    let ?t = "t\<lparr>cptra_fw_error_non_fatal := e\<rparr>"
    have swap: "(set_mbox a t)\<lparr>cptra_fw_error_non_fatal := e\<rparr> = set_mbox a ?t" for a by (simp add: set_mbox_def)
    have w: "wait_not_busy p delay max_wait_cycles d = (Ok False, set_mbox q ?t)"
      using q served by (intro wait) (simp_all add: small_status swap)
    have "mailbox_len (drv_mbox ?t) = mailbox_size sm" using len by simp
    from collect_error [OF w q(2-5) this, of resp_len]
    obtain s where s: "finish_mailbox_exec p max_wait_cycles delay resp_len d =
        (Ok (Inl (MailboxCmdFailed (if cptra_fw_error_fatal t \<noteq> 0 then cptra_fw_error_fatal t else e))), set_mbox s ?t)"
        "mbox_free sm (set_mbox s ?t)" by (auto cong: if_cong)
    then have "mbox_free sm (set_mbox s t)" by (simp add: mbox_free_def set_mbox_def)
    then show ?thesis using s(1) by (auto simp: swap)
  qed
qed

end

text \<open>What the SoC is told about the outcome of the dispatcher.\<close>

definition api_result :: "nat \<Rightarrow> u8 list outcome \<Rightarrow> u32 \<Rightarrow> CaliptraApiError + u8 list option" where
  "api_result resp_len x fatal = (case x of
      Ok rep \<Rightarrow> if length rep \<le> resp_len then Inr (Some rep) else Inl ReadBuffTooSmall
    | Err e \<Rightarrow> Inl (MailboxCmdFailed (if fatal \<noteq> 0 then fatal else e))
    | _ \<Rightarrow> Inl MailboxTimeout)"

definition same_devices :: "Drivers \<Rightarrow> Drivers \<Rightarrow> bool" where
  "same_devices s t \<longleftrightarrow> drv_sha2_512_384 t = drv_sha2_512_384 s \<and> drv_ecc384 t = drv_ecc384 s \<and> drv_abr t = drv_abr s"

context command_table
begin

lemma mailbox_exec_run:
  assumes "mbox_free sm d" "p \<noteq> CALIPTRA_LOCALITY" "plain_cmd d cmd" "length buf \<le> limit" "length buf \<le> MBOX_RAM_SIZE sm"
    and dev: "start_mailbox_exec p limit cmd buf d = (x0, d1)" "device_serves H delay n d1" "Suc n < unat max_wait_cycles"
    and run: "rt_dispatch H cmd buf (rt_cleared ((delay ^^ n) d1)) = (x, t)" "\<not> is_panic x"
  shows "\<exists>t'. mailbox_exec p limit max_wait_cycles delay cmd buf resp_len d =
      (Ok (api_result resp_len x (cptra_fw_error_fatal t)), t') \<and> mbox_free sm t' \<and> same_devices t t'"
proof -
  obtain r where r: "start_mailbox_exec p limit cmd buf d = (Ok (Inr ()), set_mbox r d)" "mbox_live sm r" "mb_state r = MbExecUc"
      "mb_user (mb_ctx r) = SocUser p" "mb_cmd (mb_ctx r) = cmd" "mb_status (mb_ctx r) = 0" "mb_loaded buf (mb_ctx r)"
    using start_mailbox_exec_run [OF assms(1,4,5)] by blast
  have d1: "d1 = set_mbox r d" using dev(1) r(1) by simp
  have len: "mailbox_len (drv_mbox d1) = mailbox_size sm" using assms(1) d1 by (simp add: mbox_free_def)
  have plain: "plain_cmd d1 cmd" using assms(3) d1 by (simp add: plain_cmd_def)
  note fin = finish_mailbox_exec_run [of sm d1 buf p cmd delay n max_wait_cycles x t, OF _ len _ _ _ assms(2) _ plain _ dev(2,3) run(1)]
  have exec: "mailbox_exec p limit max_wait_cycles delay cmd buf resp_len d = finish_mailbox_exec p max_wait_cycles delay resp_len d1"
    using r(1) d1 by (simp add: mailbox_exec_def bindA_def bindE_Ok)
  show ?thesis
  proof (cases x)
    case (Ok rep)
    then show ?thesis using fin(1) [of rep resp_len] r d1 exec by (auto simp: api_result_def same_devices_def set_mbox_def)
  next
    case (Err e)
    then obtain s where s: "finish_mailbox_exec p max_wait_cycles delay resp_len d1 =
        (Ok (api_result resp_len x (cptra_fw_error_fatal t)), (set_mbox s t)\<lparr>cptra_fw_error_non_fatal := e\<rparr>)"
        "mbox_free sm (set_mbox s t)"
      using fin(2) [of e resp_len] r d1 by (auto simp: api_result_def)
    then have "mbox_free sm ((set_mbox s t)\<lparr>cptra_fw_error_non_fatal := e\<rparr>)" by (simp add: mbox_free_def)
    then show ?thesis using s exec by (auto simp: same_devices_def set_mbox_def)
  qed (use run(2) in auto)
qed

end

text \<open>A typed request always carries the checksum the runtime expects, so its handler decides.\<close>

definition sealed :: "u32 \<Rightarrow> u8 list \<Rightarrow> u8 list" where
  "sealed cmd req = le32 (calc_checksum cmd (drop 4 req)) @ drop 4 req"

lemma length_sealed: "4 \<le> length req \<Longrightarrow> length (sealed cmd req) = length req"
  by (simp add: sealed_def)

lemma drop_sealed: "drop 4 (sealed cmd req) = drop 4 req"
  by (simp add: sealed_def)

lemma rt_dispatch_sealed:
  assumes "4 \<le> length req"
  shows "rt_dispatch H cmd (sealed cmd req) d =
    bindE (rt_commands H cmd (sealed cmd req) (replicate (rt_max_resp H) 0)) (\<lambda>(len, resp).
      bindE (failIf (max len 8 > rt_max_resp H) RUNTIME_INSUFFICIENT_MEMORY) (\<lambda>_.
      bindE (gets (\<lambda>d. mailbox_len (drv_mbox d))) (\<lambda>mbox_len.
      bindE (failIf (max len 8 > unat mbox_len) RUNTIME_MAILBOX_INVALID_PARAMS) (\<lambda>_.
      ret (rt_reply len resp))))) d"
  using assms by (simp add: rt_dispatch_def length_sealed drop_sealed verify_checksum_def)
    (simp add: sealed_def from_le_le_bytes)

lemma rt_reply_checks:
  assumes "8 \<le> max len 8" "max len 8 \<le> length resp"
  shows "from_le_bytes (take 4 (rt_reply len resp)) = calc_checksum 0 (drop 4 (rt_reply len resp))"
    "drop 4 (rt_reply len resp) = drop 4 (take (max len 8) resp)" "length (rt_reply len resp) = max len 8"
  using assms by (simp_all add: rt_reply_def Let_def from_le_le_bytes)

definition api_req_result :: "nat \<Rightarrow> nat \<Rightarrow> nat \<Rightarrow> u8 list outcome \<Rightarrow> u32 \<Rightarrow> CaliptraApiError + u8 list" where
  "api_req_result resp_size resp_min_size resp_len x fatal = (case api_result resp_len x fatal of
      Inl e \<Rightarrow> Inl e
    | Inr None \<Rightarrow> Inl MailboxNoResponseData
    | Inr (Some data) \<Rightarrow>
        let fips_status = from_le_bytes (take 4 (drop 4 data)) :: u32
        in if length data < resp_min_size \<or> length data > resp_size
           then Inl (MailboxUnexpectedResponseLen (of_nat resp_min_size) (of_nat resp_size) (of_nat (length data)))
           else if fips_status \<noteq> FIPS_STATUS_APPROVED \<and> fips_status \<noteq> FIPS_STATUS_NOT_APPROVED_USER_SUPPLIED_DIGEST
           then Inl (MailboxRespInvalidFipsStatus fips_status)
           else Inr (data @ replicate (resp_size - length data) 0))"

context command_table
begin

lemma rt_dispatch_reply:
  assumes "rt_dispatch H cmd data d = (Ok rep, t)"
  shows "from_le_bytes (take 4 rep) = calc_checksum 0 (drop 4 rep)"
proof -
  obtain len resp where r: "rt_commands H cmd data (replicate (rt_max_resp H) 0) d = (Ok (len, resp), t)"
      "max len 8 \<le> rt_max_resp H" "rep = rt_reply len resp"
    using assms by (auto simp: rt_dispatch_def bindE_eq_Ok linorder_not_less)
  then have "max len 8 \<le> length resp" using fills_response [OF r(1)] by simp
  then show ?thesis using rt_reply_checks(1) [of len resp] r(3) by simp
qed

lemma mailbox_exec_req_run:
  assumes req: "4 \<le> length req" "8 \<le> resp_size" "8 \<le> resp_min_size"
    and "mbox_free sm d" "p \<noteq> CALIPTRA_LOCALITY" "plain_cmd d cmd" "length req \<le> limit" "length req \<le> MBOX_RAM_SIZE sm"
    and dev: "start_mailbox_exec p limit cmd (sealed cmd req) d = (x0, d1)" "device_serves H delay n d1" "Suc n < unat max_wait_cycles"
    and run: "rt_dispatch H cmd (sealed cmd req) (rt_cleared ((delay ^^ n) d1)) = (x, t)" "\<not> is_panic x"
  shows "\<exists>t'. mailbox_exec_req p limit max_wait_cycles delay cmd req resp_size resp_min_size resp_len d =
      (Ok (api_req_result resp_size resp_min_size resp_len x (cptra_fw_error_fatal t)), t') \<and> mbox_free sm t' \<and> same_devices t t'"
proof -
  obtain t' where t': "mailbox_exec p limit max_wait_cycles delay cmd (sealed cmd req) resp_len d =
      (Ok (api_result resp_len x (cptra_fw_error_fatal t)), t')" "mbox_free sm t'" "same_devices t t'"
    using mailbox_exec_run [OF assms(4-6) _ _ dev run] req(1) assms(7,8) by (auto simp: length_sealed)
  have sum: "from_le_bytes (take 4 data) = calc_checksum 0 (drop 4 data)"
    if "api_result resp_len x (cptra_fw_error_fatal t) = Inr (Some data)" for data
    using rt_dispatch_reply run(1) that by (auto simp: api_result_def split: outcome.splits if_splits)
  have "mailbox_exec_req p limit max_wait_cycles delay cmd req resp_size resp_min_size resp_len d =
      (Ok (api_req_result resp_size resp_min_size resp_len x (cptra_fw_error_fatal t)), t')"
    using t'(1) req sum
    by (auto simp: mailbox_exec_req_def sealed_def [symmetric] Let_def bindA_def bindE_def api_req_result_def
        split: sum.splits option.splits)
  then show ?thesis using t' by blast
qed

end

section \<open>Properties\<close>

text \<open>C7: A mailbox command of the SoC comes to what its handler does. Let the mailbox be free with a clear
  status, the caller not the reserved user, the request no longer than the limit and the mailbox, and the
  firmware go through its command loop within the polling limit; and let the command be neither of
  the two firmware commands nor, in subsystem mode, the external command, which do not take this path.
  If the dispatch of the request does not panic, the call of the SoC returns the framed response of the
  handler, or the error code of the packet checks, of the handler or of a response that exceeds the
  response buffer or the mailbox, or the fatal error of the device instead; the mailbox is free again
  and the engines are as the handler left them. The handlers are only required to leave the mailbox
  alone and to keep the size of the response buffer.\<close>

theorem mailbox_exec_exact:
  assumes "command_table H" "mbox_free sm d" "p \<noteq> 0xFFFFFFFF" "plain_cmd d cmd"
    and "length buf \<le> limit" "length buf \<le> MBOX_RAM_SIZE sm"
    and "start_mailbox_exec p limit cmd buf d = (x0, d1)" "device_serves H delay n d1" "Suc n < unat max_wait_cycles"
    and "rt_dispatch H cmd buf (rt_cleared ((delay ^^ n) d1)) = (x, t)" "\<not> is_panic x"
  shows "\<exists>t'. mailbox_exec p limit max_wait_cycles delay cmd buf resp_len d =
      (Ok (case x of
         Ok rep \<Rightarrow> if length rep \<le> resp_len then Inr (Some rep) else Inl ReadBuffTooSmall
       | Err e \<Rightarrow> Inl (MailboxCmdFailed (if cptra_fw_error_fatal t \<noteq> 0 then cptra_fw_error_fatal t else e))
       | _ \<Rightarrow> Inl MailboxTimeout), t') \<and>
    mbox_free sm t' \<and> drv_sha2_512_384 t' = drv_sha2_512_384 t \<and> drv_ecc384 t' = drv_ecc384 t \<and> drv_abr t' = drv_abr t"
  using command_table.mailbox_exec_run [OF assms, of resp_len] by (simp add: api_result_def same_devices_def)

definition sample_drivers :: Drivers where
  "sample_drivers = \<lparr>drv_mbox = Mailbox_new True (MailboxRegs_new (MailboxRam_new True)), cptra_fw_error_fatal = 0,
     cptra_fw_error_non_fatal = 0, cleared_non_fatal_fw_error = 0, drv_sha2_512_384 = HashSha512Regs_new KeyVaultRegs_new,
     drv_ecc384 = AsymEcc384_new (HashSha512Regs_new KeyVaultRegs_new), drv_abr = Abr_new (HashSha512Regs_new KeyVaultRegs_new),
     manifest_flags = 1, manifest_pl0_pauser = 7, drv_subsystem_mode = True\<rparr>"

lemma sample_drivers_free: "mbox_free True sample_drivers"
  using mbox_reachable_live [OF mbox_init, of True]
  by (simp add: mbox_free_def sample_drivers_def Mailbox_new_def MailboxRegs_new_def MboxContext_new_def)

definition sample_delay :: "rt_handlers \<Rightarrow> Drivers \<Rightarrow> Drivers" where
  "sample_delay H d = snd (handle_mailbox_round H d)"

lemma sample_delay_serves: "device_serves H (sample_delay H) 0 d"
  by (simp add: device_serves_def sample_delay_def)

lemma calm_dispatch_unimplemented:
  assumes "4 \<le> length req" "cmd \<notin> {0x45435632, 0x4d4c5632, 0x50435245}"
  shows "rt_dispatch (modelled_handlers c E F) cmd (sealed cmd req) d = (Err RUNTIME_UNIMPLEMENTED_COMMAND, d)"
  using assms rt_dispatch_sealed [of req "modelled_handlers c E F" cmd d]
  by (simp add: modelled_handlers_def no_other_commands_def runtime_handlers_def rt_command_arm_def unimplemented_command_def)

theorem mailbox_exec_exact_witness:
  "\<exists>t'. mailbox_exec 7 16384 100 (sample_delay (modelled_handlers keep_hash sample_p384 sample_fips204)) 5
      (sealed 5 [0, 0, 0, 0, 9]) 64 sample_drivers = (Ok (Inl (MailboxCmdFailed RUNTIME_UNIMPLEMENTED_COMMAND)), t') \<and>
    mbox_free True t'"
proof -
  let ?H = "modelled_handlers keep_hash sample_p384 sample_fips204" and ?buf = "sealed 5 [0, 0, 0, 0, 9]"
  obtain x0 d1 where start: "start_mailbox_exec 7 16384 5 ?buf sample_drivers = (x0, d1)" by (metis surj_pair)
  obtain r where r: "start_mailbox_exec 7 16384 5 ?buf sample_drivers = (Ok (Inr ()), set_mbox r sample_drivers)"
    using start_mailbox_exec_run [OF sample_drivers_free, of ?buf 16384 7 5] by (auto simp: length_sealed MBOX_RAM_SIZE_def)
  have fatal: "cptra_fw_error_fatal (rt_cleared d1) = 0"
    using start r by (auto simp: rt_cleared_def sample_drivers_def)
  have run: "rt_dispatch ?H 5 ?buf (rt_cleared ((sample_delay ?H ^^ 0) d1)) = (Err RUNTIME_UNIMPLEMENTED_COMMAND, rt_cleared d1)"
    by (simp add: calm_dispatch_unimplemented)
  have "plain_cmd sample_drivers 5" by (simp add: plain_cmd_def)
  with mailbox_exec_exact [OF rt.command_table_axioms sample_drivers_free _ _ _ _ start sample_delay_serves _ run, of 100 64] fatal
  show ?thesis by (auto simp: length_sealed MBOX_RAM_SIZE_def)
qed

section \<open>Commands over the mailbox\<close>

definition api_failure :: "Drivers \<Rightarrow> u32 \<Rightarrow> CaliptraApiError" where
  "api_failure d e = MailboxCmdFailed (if cptra_fw_error_fatal d \<noteq> 0 then cptra_fw_error_fatal d else e)"

lemma rt_cleared_fields [simp]:
  "drv_mbox (rt_cleared d) = drv_mbox d" "cptra_fw_error_fatal (rt_cleared d) = cptra_fw_error_fatal d"
  "drv_sha2_512_384 (rt_cleared d) = drv_sha2_512_384 d" "drv_ecc384 (rt_cleared d) = drv_ecc384 d"
  "drv_abr (rt_cleared d) = drv_abr d" "manifest_flags (rt_cleared d) = manifest_flags d"
  "manifest_pl0_pauser (rt_cleared d) = manifest_pl0_pauser d"
  by (simp_all add: rt_cleared_def)

lemma set_mbox_fields [simp]:
  "drv_sha2_512_384 (set_mbox r d) = drv_sha2_512_384 d" "drv_ecc384 (set_mbox r d) = drv_ecc384 d"
  "drv_abr (set_mbox r d) = drv_abr d" "manifest_flags (set_mbox r d) = manifest_flags d"
  "manifest_pl0_pauser (set_mbox r d) = manifest_pl0_pauser d"
  by (simp_all add: set_mbox_def)

lemma header_result:
  assumes "length rep = 8" "8 \<le> resp_len"
    "from_le_bytes (take 4 (drop 4 rep)) \<in> {FIPS_STATUS_APPROVED, FIPS_STATUS_NOT_APPROVED_USER_SUPPLIED_DIGEST}"
  shows "api_req_result 8 8 resp_len (Ok rep) fatal = Inr rep"
  using assms by (auto simp: api_req_result_def api_result_def Let_def)

text \<open>
  A typed request whose handler answers with a header, served by the next poll: the SoC gets the
  header or the error of the handler.
\<close>

definition header_answer :: "(nat \<times> u8 list) outcome \<Rightarrow> bool" where
  "header_answer y \<longleftrightarrow> (case y of
      Ok (len, resp) \<Rightarrow> len \<le> 8 \<and>
        from_le_bytes (take 4 (drop 4 resp)) \<in> {FIPS_STATUS_APPROVED, FIPS_STATUS_NOT_APPROVED_USER_SUPPLIED_DIGEST}
    | Err _ \<Rightarrow> True | _ \<Rightarrow> False)"

definition soc_answer :: "Drivers \<Rightarrow> (nat \<times> u8 list) outcome \<Rightarrow> CaliptraApiError + u8 list" where
  "soc_answer t y = (case y of
      Ok (_, resp) \<Rightarrow> Inr (rt_reply 8 resp) | Err e \<Rightarrow> Inl (api_failure t e) | _ \<Rightarrow> Inl MailboxTimeout)"

context command_table
begin

lemma header_command_run:
  assumes free: "mbox_free sm d" and cmd: "p \<noteq> CALIPTRA_LOCALITY" "plain_cmd d cmd"
    and req: "4 \<le> length req" "length req \<le> limit" "length req \<le> MBOX_RAM_SIZE sm" "8 \<le> resp_len"
    and dev: "start_mailbox_exec p limit cmd (sealed cmd req) d = (x0, d1)" "device_serves H delay 0 d1" "1 < unat max_wait_cycles"
  obtains r where "d1 = set_mbox r d" "mbox_live sm r" "mb_user (mb_ctx r) = SocUser p"
    and "\<And>y t. rt_commands H cmd (sealed cmd req) (replicate (rt_max_resp H) 0) (rt_cleared d1) = (y, t) \<Longrightarrow> header_answer y \<Longrightarrow>
      \<exists>t'. mailbox_exec_req p limit max_wait_cycles delay cmd req 8 8 resp_len d = (Ok (soc_answer t y), t') \<and>
        mbox_free sm t' \<and> same_devices t t'"
proof -
  obtain r where r: "start_mailbox_exec p limit cmd (sealed cmd req) d = (Ok (Inr ()), set_mbox r d)" "mbox_live sm r"
      "mb_user (mb_ctx r) = SocUser p"
    using start_mailbox_exec_run [OF free, of "sealed cmd req" limit p cmd] req by (auto simp: length_sealed)
  then have d1: "d1 = set_mbox r d" using dev(1) by simp
  have cycles: "Suc 0 < unat max_wait_cycles" using dev(3) by simp
  have run: "\<exists>t'. mailbox_exec_req p limit max_wait_cycles delay cmd req 8 8 resp_len d =
      (Ok (api_req_result 8 8 resp_len x (cptra_fw_error_fatal t)), t') \<and> mbox_free sm t' \<and> same_devices t t'"
    if "rt_dispatch H cmd (sealed cmd req) (rt_cleared d1) = (x, t)" "\<not> is_panic x" for x t
    using mailbox_exec_req_run [OF req(1) _ _ free cmd req(2,3) dev(1,2) cycles, of 8 8 x t resp_len] that by simp
  have err: "rt_dispatch H cmd (sealed cmd req) (rt_cleared d1) = (Err e, t)"
    if "rt_commands H cmd (sealed cmd req) (replicate (rt_max_resp H) 0) (rt_cleared d1) = (Err e, t)" for e t
    using rt_dispatch_sealed [OF req(1)] that by (simp add: bindE_def)
  have ok: "rt_dispatch H cmd (sealed cmd req) (rt_cleared d1) = (Ok (rt_reply 8 resp), t)"
      "api_req_result 8 8 resp_len (Ok (rt_reply 8 resp)) f = Inr (rt_reply 8 resp)"
    if h: "rt_commands H cmd (sealed cmd req) (replicate (rt_max_resp H) 0) (rt_cleared d1) = (Ok (len, resp), t)"
      and answer: "header_answer (Ok (len, resp))" for len resp t f
  proof -
    have resp: "8 \<le> rt_max_resp H" "length resp = rt_max_resp H"
      using response_buffer(1) fills_response [OF h] by (simp_all add: InvokeDpeResp_size_def)
    have "drv_mbox t = drv_mbox d1" using keeps_mailbox [OF h] r(2) d1 by (simp add: mbox_live_def)
    then have "8 \<le> unat (mailbox_len (drv_mbox t))"
      using free d1 by (simp add: mbox_free_def unat_mailbox_size MBOX_RAM_SIZE_def)
    moreover have "max len 8 = 8" using answer by (simp add: header_answer_def)
    ultimately show "rt_dispatch H cmd (sealed cmd req) (rt_cleared d1) = (Ok (rt_reply 8 resp), t)"
      using rt_dispatch_sealed [OF req(1), of H cmd "rt_cleared d1"] h resp
      by (simp add: bindE_def failIf_apply rt_reply_def del: max.absorb1 max.absorb2)
    show "api_req_result 8 8 resp_len (Ok (rt_reply 8 resp)) f = Inr (rt_reply 8 resp)"
      using resp answer req(4) by (intro header_result) (simp_all add: rt_reply_def Let_def take_drop header_answer_def)
  qed
  show thesis
  proof (rule that [OF d1 r(2,3)])
    fix y t assume y: "rt_commands H cmd (sealed cmd req) (replicate (rt_max_resp H) 0) (rt_cleared d1) = (y, t)" "header_answer y"
    then show "\<exists>t'. mailbox_exec_req p limit max_wait_cycles delay cmd req 8 8 resp_len d = (Ok (soc_answer t y), t') \<and>
        mbox_free sm t' \<and> same_devices t t'"
    proof (cases y)
      case (Ok a)
      obtain len resp where a: "a = (len, resp)" by (cases a)
      from run [OF ok(1) [of len resp t]] ok(2) [of len resp t] y show ?thesis by (simp add: Ok a soc_answer_def)
    next
      case (Err e)
      then show ?thesis
        using run [OF err] y(1) by (simp add: api_req_result_def api_result_def api_failure_def soc_answer_def)
    qed (use y(2) in \<open>simp_all add: header_answer_def\<close>)
  qed
qed

end

lemma empty_reply: "8 \<le> n \<Longrightarrow> rt_reply 8 (replicate n 0) = replicate 8 0"
proof -
  assume "8 \<le> n"
  then have "drop 4 (take 8 (replicate n (0 :: u8))) = replicate 4 0" by (simp add: take_replicate drop_replicate)
  moreover have "calc_checksum 0 (replicate 4 0) = 0" by code_simp
  moreover have "le32 0 = replicate 4 0" by code_simp
  ultimately show ?thesis by (simp add: rt_reply_def Let_def flip: replicate_add)
qed

lemma empty_status:
  assumes "8 \<le> n" shows "from_le_bytes (take 4 (drop 4 (replicate n 0))) = (0 :: u32)"
proof -
  have "take 4 (drop 4 (replicate n (0 :: u8))) = replicate 4 0" using assms by (simp add: take_replicate drop_replicate)
  moreover have "from_le_bytes (replicate 4 0) = (0 :: u32)" by code_simp
  ultimately show ?thesis by simp
qed

lemma ensure_pl0_run:
  assumes "mbox_live sm (mbox_of d)" "mb_user (mb_ctx (mbox_of d)) = SocUser p"
  shows "ensure_pl0 d = (if manifest_flags d AND 1 \<noteq> 0 \<and> p = manifest_pl0_pauser d then Ok ()
    else Err RUNTIME_INCORRECT_PAUSER_PRIVILEGE_LEVEL, d)"
  using on_mbox_reads(3) [OF assms(1)] assms(2)
  by (simp add: ensure_pl0_def caller_privilege_level_def bindE_def privilege_level_from_locality_def requester_u32_def)

text \<open>Why an extension is refused.\<close>

definition extend_refusal :: "bool \<Rightarrow> u32 \<Rightarrow> u32 option" where
  "extend_refusal pl0 idx =
     (if \<not> pl0 then Some RUNTIME_INCORRECT_PAUSER_PRIVILEGE_LEVEL
      else if idx > 255 then Some RUNTIME_MAILBOX_INVALID_PARAMS
      else if idx \<ge> 32 then Some RUNTIME_PCR_INVALID_INDEX
      else if idx < 4 then Some RUNTIME_PCR_RESERVED
      else None)"

lemma pcr_index_checks:
  fixes idx :: u32 assumes "\<not> idx > 255"
  shows "PcrId_try_from (ucast idx) = (if idx \<ge> 32 then None else Some (unat idx))"
    and "unat idx \<in> {0, 1, 2, 3} \<longleftrightarrow> idx < 4"
proof -
  have "unat (ucast idx :: u8) = unat idx"
    using assms by (simp add: word_less_nat_alt not_less unsigned_ucast_eq take_bit_nat_eq_self)
  then show "PcrId_try_from (ucast idx) = (if idx \<ge> 32 then None else Some (unat idx))"
    by (simp add: PcrId_try_from_def word_less_nat_alt word_le_nat_alt)
  show "unat idx \<in> {0, 1, 2, 3} \<longleftrightarrow> idx < 4" by (auto simp: word_less_nat_alt)
qed

lemma extend_cmd_run:
  assumes "compress_ok c" "h512_idle (drv_sha2_512_384 d)" "length data = 48"
    and bytes: "length bytes = 56" "drop 4 bytes = le32 idx @ data"
    and pl0: "ensure_pl0 d = (if pl0 then Ok () else Err RUNTIME_INCORRECT_PAUSER_PRIVILEGE_LEVEL, d)"
  shows "\<exists>h. ExtendPcrCmd_execute c bytes d = (case extend_refusal pl0 idx of
      Some e \<Rightarrow> (Err e, d) | None \<Rightarrow> (Ok 0, d\<lparr>drv_sha2_512_384 := h\<rparr>)) \<and>
    (extend_refusal pl0 idx = None \<longrightarrow>
      h512_vault h = (h512_vault (drv_sha2_512_384 d))\<lparr>pcrs := splice (unat idx * PCR_SIZE_WORDS)
        (sha384_ref c (u32_be_to_u8 (pcr_words (h512_vault (drv_sha2_512_384 d)) (unat idx)) @ data)) (pcrs (h512_vault (drv_sha2_512_384 d)))\<rparr>)"
proof (cases "extend_refusal pl0 idx")
  case (Some e)
  have "from_le_bytes (take 4 (drop 4 bytes)) = idx" using bytes by (simp add: from_le_le_bytes)
  then show ?thesis
    using Some pl0 bytes(1) pcr_index_checks [of idx]
    by (auto simp: extend_refusal_def ExtendPcrCmd_execute_def bindE_def failIf_apply okOr_apply Let_def split: if_splits)
next
  case None
  then have ok: pl0 "\<not> idx > 255" "\<not> idx \<ge> 32" "\<not> idx < 4" by (auto simp: extend_refusal_def split: if_splits)
  have idx: "from_le_bytes (take 4 (drop 4 bytes)) = idx" using bytes by (simp add: from_le_le_bytes)
  have data: "drop 8 bytes = data" using arg_cong [OF bytes(2), of "drop 4"] by simp
  have "unat idx < PCR_COUNT" using ok(3) by (simp add: word_le_nat_alt)
  then obtain h where h: "pcr_extend c (unat idx) data (drv_sha2_512_384 d) = (Ok (), h)"
      "h512_vault h = (h512_vault (drv_sha2_512_384 d))\<lparr>pcrs := splice (unat idx * PCR_SIZE_WORDS)
      (sha384_ref c (u32_be_to_u8 (pcr_words (h512_vault (drv_sha2_512_384 d)) (unat idx)) @ data)) (pcrs (h512_vault (drv_sha2_512_384 d)))\<rparr>"
    using pcr_extend_run [OF assms(1,2), of "unat idx" data] assms(3) by auto
  have "ExtendPcrCmd_execute c bytes d = (Ok 0, d\<lparr>drv_sha2_512_384 := h\<rparr>)"
    unfolding ExtendPcrCmd_execute_def Let_def idx data
    using bytes(1) pl0 ok pcr_index_checks [OF ok(2)] h(1)
    by (simp add: on_drv_sha2_def zoom_def extend_pcr_def bindE_def okOr_apply failIf_apply)
  then show ?thesis using None h(2) by auto
qed

text \<open>C8: A PCR extension over the mailbox, from the typed request of the SoC to the PCR vault, for every
  index and caller. A caller that is not the PL0 user of the image manifest gets the privilege error;
  the PL0 user gets an error for an index above 255, for one that is no PCR and for the reserved PCRs 0
  to 3; in all these cases the vault is unchanged. Otherwise the call returns the empty response and
  the PCR holds the SHA-384 digest of its old value and the data, with nothing else in the vault
  changed. The mailbox, free and with a clear status before, is free again. The caller is not the
  reserved user, the firmware serves the request by the next poll, the hash engine is idle, and a
  pending fatal error is reported in place of an error of the command.\<close>

theorem extend_pcr_over_mailbox:
  assumes "command_table H" "compress_ok c" "mbox_free sm d" "h512_idle (drv_sha2_512_384 d)"
    and "p \<noteq> 0xFFFFFFFF" "length data = 48" "56 \<le> limit" "8 \<le> resp_len"
    and req: "req = replicate 4 0 @ le32 idx @ data"
    and dev: "start_mailbox_exec p limit EXTEND_PCR (sealed EXTEND_PCR req) d = (x0, d1)"
      "device_serves (runtime_handlers c E F H) delay 0 d1" "1 < unat max_wait_cycles"
    and pl0: "pl0 \<longleftrightarrow> manifest_flags d AND 1 \<noteq> 0 \<and> p = manifest_pl0_pauser d"
  shows "\<exists>t. mailbox_exec_req p limit max_wait_cycles delay EXTEND_PCR req 8 8 resp_len d =
      (Ok (case extend_refusal pl0 idx of None \<Rightarrow> Inr (replicate 8 0) | Some e \<Rightarrow> Inl (api_failure d e)), t) \<and> mbox_free sm t \<and>
    h512_vault (drv_sha2_512_384 t) = (let v = h512_vault (drv_sha2_512_384 d) in case extend_refusal pl0 idx of
        None \<Rightarrow> v\<lparr>pcrs := splice (unat idx * PCR_SIZE_WORDS) (sha384_ref c (u32_be_to_u8 (pcr_words v (unat idx)) @ data)) (pcrs v)\<rparr>
      | Some _ \<Rightarrow> v)"
proof -
  let ?H = "runtime_handlers c E F H" and ?bytes = "sealed EXTEND_PCR req" and ?buf = "replicate (rt_max_resp H) (0 :: u8)"
  note table = command_table_runtime [OF assms(1), of c E F]
  have len: "length req = 56" "56 \<le> MBOX_RAM_SIZE sm" "8 \<le> rt_max_resp H"
    using req assms(6) command_table.response_buffer(1) [OF assms(1)] by (simp_all add: MBOX_RAM_SIZE_def InvokeDpeResp_size_def)
  have handler: "rt_commands ?H EXTEND_PCR ?bytes (replicate (rt_max_resp ?H) 0) =
      bindE (ExtendPcrCmd_execute c ?bytes) (\<lambda>len. ret (len, ?buf))"
    by (simp add: runtime_handlers_def rt_command_arm_def)
  obtain r where r: "d1 = set_mbox r d" "mbox_live sm r" "mb_user (mb_ctx r) = SocUser p"
    and exec: "\<And>y t. rt_commands ?H EXTEND_PCR ?bytes (replicate (rt_max_resp ?H) 0) (rt_cleared d1) = (y, t) \<Longrightarrow> header_answer y \<Longrightarrow>
      \<exists>t'. mailbox_exec_req p limit max_wait_cycles delay EXTEND_PCR req 8 8 resp_len d = (Ok (soc_answer t y), t') \<and>
        mbox_free sm t' \<and> same_devices t t'"
    using command_table.header_command_run [OF table assms(3,5) _ _ _ _ assms(8) dev] len assms(7) by (auto simp: plain_cmd_def)
  have pl: "ensure_pl0 (rt_cleared d1) = (if pl0 then Ok () else Err RUNTIME_INCORRECT_PAUSER_PRIVILEGE_LEVEL, rt_cleared d1)"
    using ensure_pl0_run [of sm "rt_cleared d1" p] r by (simp add: pl0)
  obtain h where h: "ExtendPcrCmd_execute c ?bytes (rt_cleared d1) = (case extend_refusal pl0 idx of
        Some e \<Rightarrow> (Err e, rt_cleared d1) | None \<Rightarrow> (Ok 0, (rt_cleared d1)\<lparr>drv_sha2_512_384 := h\<rparr>))"
      "extend_refusal pl0 idx = None \<Longrightarrow> h512_vault h = (h512_vault (drv_sha2_512_384 d))\<lparr>pcrs := splice (unat idx * PCR_SIZE_WORDS)
        (sha384_ref c (u32_be_to_u8 (pcr_words (h512_vault (drv_sha2_512_384 d)) (unat idx)) @ data)) (pcrs (h512_vault (drv_sha2_512_384 d)))\<rparr>"
    using extend_cmd_run [of c "rt_cleared d1" data ?bytes idx pl0] assms(2,4,6) len pl r(1) req
    by (auto simp: length_sealed drop_sealed)
  show ?thesis
  proof (cases "extend_refusal pl0 idx")
    case None
    from exec [of "Ok (0, ?buf)", unfolded handler] h show ?thesis
      using None empty_reply [OF len(3)] empty_status [OF len(3)]
      by (auto simp: bindE_def same_devices_def Let_def header_answer_def soc_answer_def)
  next
    case (Some e)
    from exec [of "Err e", unfolded handler] h(1) show ?thesis
      using Some r(1) by (auto simp: bindE_def same_devices_def api_failure_def Let_def header_answer_def soc_answer_def)
  qed
qed

theorem extend_pcr_over_mailbox_witness:
  "\<exists>t u. mailbox_exec_req 7 16384 100 (sample_delay (modelled_handlers keep_hash sample_p384 sample_fips204)) EXTEND_PCR
      (replicate 4 0 @ le32 5 @ replicate 48 9) 8 8 64 sample_drivers = (Ok (Inr (replicate 8 0)), t) \<and> mbox_free True t \<and>
    mailbox_exec_req 7 16384 100 (sample_delay (modelled_handlers keep_hash sample_p384 sample_fips204)) EXTEND_PCR
      (replicate 4 0 @ le32 2 @ replicate 48 9) 8 8 64 sample_drivers = (Ok (Inl (MailboxCmdFailed RUNTIME_PCR_RESERVED)), u)"
proof -
  let ?H = "modelled_handlers keep_hash sample_p384 sample_fips204"
  have d: "h512_idle (drv_sha2_512_384 sample_drivers)" "manifest_flags sample_drivers AND 1 \<noteq> 0" "7 = manifest_pl0_pauser sample_drivers"
    "cptra_fw_error_fatal sample_drivers = 0"
    using h512_idle_new [OF kv_wf_new] by (simp_all add: sample_drivers_def)
  have run: "\<exists>t. mailbox_exec_req 7 16384 100 (sample_delay ?H) EXTEND_PCR (replicate 4 0 @ le32 idx @ replicate 48 9) 8 8 64 sample_drivers =
      (Ok (case extend_refusal True idx of None \<Rightarrow> Inr (replicate 8 0) | Some e \<Rightarrow> Inl (api_failure sample_drivers e)), t) \<and> mbox_free True t" for idx
  proof -
    let ?req = "replicate 4 0 @ le32 idx @ replicate 48 9"
    obtain x0 d1 where start: "start_mailbox_exec 7 16384 EXTEND_PCR (sealed EXTEND_PCR ?req) sample_drivers = (x0, d1)"
      by (metis surj_pair)
    have "device_serves (runtime_handlers keep_hash sample_p384 sample_fips204 no_other_commands) (sample_delay ?H) 0 d1"
      using sample_delay_serves [of ?H d1] by (simp add: modelled_handlers_def)
    from extend_pcr_over_mailbox [OF command_table_none compress_ok_keep sample_drivers_free d(1), of 7 "replicate 48 9" 16384 64
        ?req idx x0 d1 sample_p384 sample_fips204 "sample_delay ?H" 100 True] start this d(2,3)
    show ?thesis by auto
  qed
  show ?thesis using run [of 5] run [of 2] d(4) by (auto simp: extend_refusal_def api_failure_def)
qed

lemma ecdsa_cmd_run:
  assumes "p384_scalars_law E" "ecc_idle ((drv_ecc384 d)\<lparr>ecc_hash_sha512 := drv_sha2_512_384 d\<rparr>)"
    and len: "length qx = 48" "length qy = 48" "length sr = 48" "length ss = 48" "length hash = 48"
    and bytes: "length bytes = 244" "drop 4 bytes = qx @ qy @ sr @ ss @ hash" and "p384_point_ok E qx qy"
  obtains t where "EcdsaVerifyCmd_execute E bytes d = ((case ecdsa_outcome E
      \<lparr>ec_x = u8_to_u32_be 12 qx, ec_y = u8_to_u32_be 12 qy\<rparr> (u8_to_u32_be 12 hash)
      \<lparr>ec_r = u8_to_u32_be 12 sr, ec_s = u8_to_u32_be 12 ss\<rparr> of
        Ok verdict \<Rightarrow> if verdict = Ecc384_Success then Ok 0 else Err RUNTIME_ECDSA_VERIFY_FAILED
      | Err e \<Rightarrow> Err e | CfiPanic pc \<Rightarrow> CfiPanic pc | RustPanic \<Rightarrow> RustPanic), t)"
    "cptra_fw_error_fatal t = cptra_fw_error_fatal d"
proof -
  have field: "drop (4 + 48 * i) bytes = drop (48 * i) (qx @ qy @ sr @ ss @ hash)" for i
    using arg_cong [OF bytes(2), of "drop (48 * i)"] by (simp add: add.commute)
  have fields: "take 48 (drop (4 + 48 * 0) bytes) = qx" "take 48 (drop (4 + 48 * 1) bytes) = qy"
      "take 48 (drop (4 + 48 * 2) bytes) = sr" "take 48 (drop (4 + 48 * 3) bytes) = ss" "take 48 (drop (4 + 48 * 4) bytes) = hash"
    unfolding field by (simp_all add: len)
  let ?pk = "\<lparr>ec_x = u8_to_u32_be 12 qx, ec_y = u8_to_u32_be 12 qy\<rparr>"
    and ?sig = "\<lparr>ec_r = u8_to_u32_be 12 sr, ec_s = u8_to_u32_be 12 ss\<rparr>"
  have "p384_point_ok E (u32_be_to_u8 (ec_x ?pk)) (u32_be_to_u8 (ec_y ?pk))"
    using assms(10) by (simp add: u32_be_to_u8_inverse len)
  then obtain e where e: "Ecc384_verify E ?pk (u8_to_u32_be 12 hash) ?sig ((drv_ecc384 d)\<lparr>ecc_hash_sha512 := drv_sha2_512_384 d\<rparr>) =
      (ecdsa_outcome E ?pk (u8_to_u32_be 12 hash) ?sig, e)"
    using Ecc384_verify_run [OF assms(1,2), of ?sig ?pk "u8_to_u32_be 12 hash"] by auto
  show thesis
    using that [of "d\<lparr>drv_ecc384 := e, drv_sha2_512_384 := ecc_hash_sha512 e\<rparr>"] e bytes(1)
    unfolding EcdsaVerifyCmd_execute_def Let_def fields
    by (cases "ecdsa_outcome E ?pk (u8_to_u32_be 12 hash) ?sig")
      (simp_all add: bindE_def on_drv_ecc_def zoom_def)
qed

lemma user_digest_reply:
  assumes "8 \<le> n"
  shows "drop 4 (rt_reply 8 (take 4 (replicate n 0) @ le32 0x55535244 @ drop 8 (replicate n 0))) = le32 0x55535244"
    "from_le_bytes (take 4 (drop 4 (take 4 (replicate n 0) @ le32 0x55535244 @ drop 8 (replicate n 0)))) = (0x55535244 :: u32)"
  using assms by (simp_all add: rt_reply_def Let_def from_le_le_bytes)

text \<open>C15: ECDSA verification over the mailbox, from the typed request of the SoC to the engine. For a public
  key on the curve the call returns a response, marked as made for a digest the user supplied,
  exactly when both scalars are between 1 and the order of the group, the order excluded, and the
  engine accepts the signature for the key and the digest in the request; otherwise it returns the
  error code of the scalar check or of the failed verification, or a pending fatal error in its
  place. Any user but the reserved one may call it. The mailbox, free and with a clear status
  before, is free again; the firmware serves the request by the next poll and the engine is idle.\<close>

theorem ecdsa_verify_over_mailbox:
  assumes "command_table H" "p384_scalars_law E" "mbox_free sm d"
    and "ecc_idle ((drv_ecc384 d)\<lparr>ecc_hash_sha512 := drv_sha2_512_384 d\<rparr>)" "p \<noteq> 0xFFFFFFFF"
    and len: "length qx = 48" "length qy = 48" "length sr = 48" "length ss = 48" "length hash = 48"
    and "p384_point_ok E qx qy" "244 \<le> limit" "8 \<le> resp_len"
    and req: "req = replicate 4 0 @ qx @ qy @ sr @ ss @ hash"
    and dev: "start_mailbox_exec p limit ECDSA384_SIGNATURE_VERIFY (sealed ECDSA384_SIGNATURE_VERIFY req) d = (x0, d1)"
      "device_serves (runtime_handlers c E F H) delay 0 d1" "1 < unat max_wait_cycles"
    and ok: "scalars_ok \<longleftrightarrow> words_num (u8_to_u32_be 12 sr) \<in> {1..<SECP384_ORDER} \<and> words_num (u8_to_u32_be 12 ss) \<in> {1..<SECP384_ORDER}"
  shows "\<exists>res t. mailbox_exec_req p limit max_wait_cycles delay ECDSA384_SIGNATURE_VERIFY req 8 8 resp_len d = (Ok res, t) \<and>
    mbox_free sm t \<and>
    (if scalars_ok \<and> p384_verify E qx qy hash sr ss
     then \<exists>header. res = Inr header \<and> drop 4 header = le32 FIPS_STATUS_NOT_APPROVED_USER_SUPPLIED_DIGEST
     else res = Inl (api_failure d (if scalars_ok then RUNTIME_ECDSA_VERIFY_FAILED else DRIVER_ECC384_SCALAR_RANGE_CHECK_FAILED)))"
proof -
  let ?H = "runtime_handlers c E F H" and ?cmd = "ECDSA384_SIGNATURE_VERIFY :: u32" and ?resp = "replicate (rt_max_resp H) (0 :: u8)"
  let ?bytes = "sealed ?cmd req" and ?out = "take 4 ?resp @ le32 0x55535244 @ drop 8 ?resp"
  have lens: "length req = 244" "244 \<le> MBOX_RAM_SIZE sm" "8 \<le> rt_max_resp H"
    using req len command_table.response_buffer(1) [OF assms(1)] by (simp_all add: MBOX_RAM_SIZE_def InvokeDpeResp_size_def)
  obtain r where r: "d1 = set_mbox r d"
    and exec: "\<And>y t. rt_commands ?H ?cmd ?bytes (replicate (rt_max_resp ?H) 0) (rt_cleared d1) = (y, t) \<Longrightarrow> header_answer y \<Longrightarrow>
      \<exists>t'. mailbox_exec_req p limit max_wait_cycles delay ?cmd req 8 8 resp_len d = (Ok (soc_answer t y), t') \<and>
        mbox_free sm t' \<and> same_devices t t'"
    using command_table.header_command_run [OF command_table_runtime [OF assms(1)] assms(3,5) _ _ _ _ assms(13) dev] lens assms(12)
    by (auto simp: plain_cmd_def)
  have outcome: "ecdsa_outcome E \<lparr>ec_x = u8_to_u32_be 12 qx, ec_y = u8_to_u32_be 12 qy\<rparr> (u8_to_u32_be 12 hash)
      \<lparr>ec_r = u8_to_u32_be 12 sr, ec_s = u8_to_u32_be 12 ss\<rparr> =
      (if scalars_ok then Ok (if p384_verify E qx qy hash sr ss then Ecc384_Success else Ecc384_SigVerifyFailed)
       else Err DRIVER_ECC384_SCALAR_RANGE_CHECK_FAILED)"
    by (simp add: ecdsa_outcome_def u32_be_to_u8_inverse len ok)
  obtain t where cmd: "EcdsaVerifyCmd_execute E ?bytes (rt_cleared d1) =
      (if scalars_ok then if p384_verify E qx qy hash sr ss then Ok 0 else Err RUNTIME_ECDSA_VERIFY_FAILED
       else Err DRIVER_ECC384_SCALAR_RANGE_CHECK_FAILED, t)" and fatal: "cptra_fw_error_fatal t = cptra_fw_error_fatal d"
    using ecdsa_cmd_run [of E "rt_cleared d1" qx qy sr ss hash ?bytes] assms(2,4,11) len lens r req outcome
    by (auto simp: length_sealed drop_sealed split: if_splits)
  define y :: "(nat \<times> u8 list) outcome" where "y = (if scalars_ok then if p384_verify E qx qy hash sr ss then Ok (8, ?out) else Err RUNTIME_ECDSA_VERIFY_FAILED
    else Err DRIVER_ECC384_SCALAR_RANGE_CHECK_FAILED)"
  note reply = user_digest_reply [OF lens(3)]
  have "rt_commands ?H ?cmd ?bytes (replicate (rt_max_resp ?H) 0) (rt_cleared d1) = (y, t)"
    using cmd lens(3) by (auto simp: runtime_handlers_def rt_command_arm_def bindE_def failIf_apply y_def)
  moreover have "header_answer y" using reply(2) by (simp add: y_def header_answer_def)
  ultimately obtain t' where "mailbox_exec_req p limit max_wait_cycles delay ?cmd req 8 8 resp_len d = (Ok (soc_answer t y), t')"
      "mbox_free sm t'"
    using exec by blast
  then show ?thesis using reply(1) fatal by (auto simp: y_def soc_answer_def api_failure_def)
qed

theorem ecdsa_verify_over_mailbox_witness:
  "\<exists>header t. mailbox_exec_req 9 16384 100 (sample_delay (modelled_handlers keep_hash sample_p384 sample_fips204))
      ECDSA384_SIGNATURE_VERIFY (replicate 4 0 @ replicate 48 1 @ replicate 48 2 @ replicate 48 3 @ replicate 48 4 @ replicate 48 5)
      8 8 64 sample_drivers = (Ok (Inr header), t) \<and> mbox_free True t"
proof -
  let ?H = "modelled_handlers keep_hash sample_p384 sample_fips204" and ?cmd = "ECDSA384_SIGNATURE_VERIFY :: u32"
  let ?req = "replicate 4 0 @ replicate 48 1 @ replicate 48 2 @ replicate 48 3 @ replicate 48 4 @ replicate 48 5"
  obtain x0 d1 where start: "start_mailbox_exec 9 16384 ?cmd (sealed ?cmd ?req) sample_drivers = (x0, d1)" by (metis surj_pair)
  have serve: "device_serves (runtime_handlers keep_hash sample_p384 sample_fips204 no_other_commands) (sample_delay ?H) 0 d1"
    using sample_delay_serves [of ?H d1] by (simp add: modelled_handlers_def)
  have idle: "ecc_idle ((drv_ecc384 sample_drivers)\<lparr>ecc_hash_sha512 := drv_sha2_512_384 sample_drivers\<rparr>)"
    using ecc_idle_new [of "HashSha512Regs_new KeyVaultRegs_new"] by (simp add: sample_drivers_def AsymEcc384_new_def Let_def)
  have "scalar_range_check (u8_to_u32_be 12 (replicate 48 3))" "scalar_range_check (u8_to_u32_be 12 (replicate 48 4))"
    by (code_simp, code_simp)
  then have range: "words_num (u8_to_u32_be 12 (replicate 48 3)) \<in> {1..<SECP384_ORDER}"
      "words_num (u8_to_u32_be 12 (replicate 48 4)) \<in> {1..<SECP384_ORDER}"
    using scalar_range_check_num [of "u8_to_u32_be 12 (replicate 48 3)"] scalar_range_check_num [of "u8_to_u32_be 12 (replicate 48 4)"]
    by simp_all
  have p: "p384_point_ok sample_p384 a b" "p384_verify sample_p384 a b m u v" for a b m u v by (simp_all add: sample_p384_def)
  from ecdsa_verify_over_mailbox [OF command_table_none p384_scalars_law_sample sample_drivers_free idle, of 9
      "replicate 48 1" "replicate 48 2" "replicate 48 3" "replicate 48 4" "replicate 48 5" 16384 64 ?req x0 d1 keep_hash
      sample_fips204 "sample_delay ?H" 100 True] start serve range p
  show ?thesis by auto
qed

section \<open>ML-DSA verification over the mailbox\<close>

lemma words_zero_iff:
  assumes "4 * n \<le> length bs" "n \<le> m"
  shows "take n (u8_to_u32_le m bs) = replicate n 0 \<longleftrightarrow> take (4 * n) bs = replicate (4 * n) 0"
proof -
  have "take n (u8_to_u32_le m bs) = u8_to_u32_le n bs"
    using assms(2) u8_to_u32_le_append [of n "m - n" bs] by simp
  also have "\<dots> = u8_to_u32_le n (take (4 * n) bs)" using u8_to_u32_le_take [OF assms(1)] by simp
  finally have words: "take n (u8_to_u32_le m bs) = u8_to_u32_le n (take (4 * n) bs)" .
  have zeros: "u32_le_to_u8 (replicate n 0) = replicate (4 * n) 0"
  proof -
    have "le32 0 = replicate 4 0" by code_simp
    then show ?thesis by (induction n) (simp_all add: u32_le_to_u8_def replicate_add [symmetric] add.commute)
  qed
  have "u32_le_to_u8 (u8_to_u32_le n (take (4 * n) bs)) = take (4 * n) bs"
    using u32_le_to_u8_words [of n "take (4 * n) bs"] assms by simp
  then show ?thesis
    unfolding words using zeros u8_to_u32_le_inverse [of "replicate n 0" n] by (metis length_replicate)
qed

definition mldsa_cmd_outcome :: "fips204 \<Rightarrow> u8 list \<Rightarrow> u8 list \<Rightarrow> u8 list \<Rightarrow> nat outcome" where
  "mldsa_cmd_outcome F pk sig msg =
     (if last sig \<noteq> 0 \<or> length msg > 4096 then Err RUNTIME_MAILBOX_INVALID_PARAMS
      else if take 64 sig = replicate 64 0 then Err DRIVER_MLDSA87_UNSUPPORTED_SIGNATURE
      else if fips204_verify F pk msg (take SIG_LEN sig) [] then Ok 0
      else Err RUNTIME_MLDSA_VERIFY_FAILED)"

lemma mldsa_cmd_run:
  assumes "mldsa_idle ((drv_abr d)\<lparr>abr_hash_sha512 := drv_sha2_512_384 d\<rparr>)" "fips204_pk_ok F pk"
    and len: "length pk = 2592" "length sig = 4628" "length msg < 2 ^ 32"
    and bytes: "drop 4 bytes = pk @ sig @ le32 (of_nat (length msg)) @ msg @ pad"
  obtains t where "MldsaVerifyCmd_execute F bytes d = (mldsa_cmd_outcome F pk sig msg, t)"
    "cptra_fw_error_fatal t = cptra_fw_error_fatal d"
proof -
  have total: "length bytes = 7228 + length msg + length pad"
    using arg_cong [OF bytes, of length] len by simp
  have at: "drop (4 + k) bytes = drop k (pk @ sig @ le32 (of_nat (length msg)) @ msg @ pad)" for k
    using arg_cong [OF bytes, of "drop k"] by (simp add: add.commute)
  have fields: "bytes_get 4 2592 bytes = Some pk" "bytes_get 2596 4628 bytes = Some sig"
      "bytes_get 7224 4 bytes = Some (le32 (of_nat (length msg)))" "bytes_get 7228 (length msg) bytes = Some msg"
    using at [of 0] at [of 2592] at [of 7220] at [of 7224] len total by (simp_all add: bytes_get_def)
  have size: "unat (from_le_bytes (le32 (of_nat (length msg))) :: u32) = length msg"
    using len(3) by (simp add: from_le_le_bytes unat_of_nat take_bit_nat_eq_self)
  have msg: "MldsaVerifyReq_message bytes = (if length msg > 4096 then None else Some msg)"
    using fields(3,4) size by (simp add: MldsaVerifyReq_message_def Let_def)
  have inv: "u32_le_to_u8 (u8_to_u32_le 648 pk) = pk" "u32_le_to_u8 (u8_to_u32_le 1157 sig) = sig"
    using u32_le_to_u8_words [of 648 pk] u32_le_to_u8_words [of 1157 sig] len by simp_all
  have zero: "take 16 (u8_to_u32_le 1157 sig) = replicate 16 0 \<longleftrightarrow> take 64 sig = replicate 64 0"
    using words_zero_iff [of 16 sig 1157] len by simp
  obtain a where a: "verify_var F (u8_to_u32_le 648 pk) msg (u8_to_u32_le 1157 sig) ((drv_abr d)\<lparr>abr_hash_sha512 := drv_sha2_512_384 d\<rparr>) =
      (if take 64 sig = replicate 64 0 then Err DRIVER_MLDSA87_UNSUPPORTED_SIGNATURE
       else Ok (if fips204_verify F pk msg (take SIG_LEN sig) [] then Mldsa87_Success else Mldsa87_SigVerifyFailed), a)"
    using verify_var_run [OF assms(1), of "u8_to_u32_le 1157 sig" F "u8_to_u32_le 648 pk" msg] assms(2)
    by (auto simp: inv zero mldsa_verdict_def)
  show thesis
  proof (cases "last sig \<noteq> 0 \<or> length msg > 4096")
    case True
    then show thesis
      using that [of d] fields(1,2) msg by (auto simp: MldsaVerifyCmd_execute_def mldsa_cmd_outcome_def bindE_def okOr_apply failIf_apply)
  next
    case False
    then show thesis
      using that [of "d\<lparr>drv_abr := a, drv_sha2_512_384 := abr_hash_sha512 a\<rparr>"] fields(1,2) msg a
      by (auto simp: MldsaVerifyCmd_execute_def mldsa_cmd_outcome_def bindE_def okOr_apply failIf_apply on_drv_abr_def zoom_def)
  qed
qed

text \<open>C31: ML-DSA verification over the mailbox, from the request of the SoC to the engine. For a public key
  that the engine can decode, a request with a signature and a message is answered with the empty
  response exactly when the padding byte of the signature is zero, the message is at most 4096 bytes
  long, the first 64 bytes of the signature are not all zero and the engine accepts the signature for
  the key and exactly the message; otherwise the call returns the error code of the check that
  failed, or a pending fatal error in its place. Any user but the reserved one may call it, for a
  request that fits the mailbox. The mailbox, free and with a clear status before, is free again; the
  firmware serves the request by the next poll and the engine is idle.\<close>

theorem mldsa_verify_over_mailbox:
  assumes "command_table H" "mbox_free sm d"
    and "mldsa_idle ((drv_abr d)\<lparr>abr_hash_sha512 := drv_sha2_512_384 d\<rparr>)" "p \<noteq> 0xFFFFFFFF"
    and len: "length pk = 2592" "length sig = 4628" "length req \<le> limit" "length req \<le> MBOX_RAM_SIZE sm" "8 \<le> resp_len"
    and "fips204_pk_ok F pk"
    and req: "req = replicate 4 0 @ pk @ sig @ le32 (of_nat (length msg)) @ msg @ pad"
    and dev: "start_mailbox_exec p limit MLDSA87_SIGNATURE_VERIFY (sealed MLDSA87_SIGNATURE_VERIFY req) d = (x0, d1)"
      "device_serves (runtime_handlers c E F H) delay 0 d1" "1 < unat max_wait_cycles"
  shows "\<exists>t. mailbox_exec_req p limit max_wait_cycles delay MLDSA87_SIGNATURE_VERIFY req 8 8 resp_len d =
      (Ok (if last sig \<noteq> 0 \<or> length msg > 4096 then Inl (api_failure d RUNTIME_MAILBOX_INVALID_PARAMS)
           else if take 64 sig = replicate 64 0 then Inl (api_failure d DRIVER_MLDSA87_UNSUPPORTED_SIGNATURE)
           else if fips204_verify F pk msg (take SIG_LEN sig) [] then Inr (replicate 8 0)
           else Inl (api_failure d RUNTIME_MLDSA_VERIFY_FAILED)), t) \<and> mbox_free sm t"
proof -
  let ?H = "runtime_handlers c E F H" and ?cmd = "MLDSA87_SIGNATURE_VERIFY :: u32" and ?buf = "replicate (rt_max_resp H) (0 :: u8)"
  let ?bytes = "sealed ?cmd req"
  have lens: "4 \<le> length req" "8 \<le> rt_max_resp H" "length msg < 2 ^ 32"
    using req len(4) command_table.response_buffer(1) [OF assms(1)] mbox_size_facts(2) [of sm] by (simp_all add: InvokeDpeResp_size_def)
  obtain r where r: "d1 = set_mbox r d"
    and exec: "\<And>y t. rt_commands ?H ?cmd ?bytes (replicate (rt_max_resp ?H) 0) (rt_cleared d1) = (y, t) \<Longrightarrow> header_answer y \<Longrightarrow>
      \<exists>t'. mailbox_exec_req p limit max_wait_cycles delay ?cmd req 8 8 resp_len d = (Ok (soc_answer t y), t') \<and>
        mbox_free sm t' \<and> same_devices t t'"
    using command_table.header_command_run [OF command_table_runtime [OF assms(1)] assms(2,4) _ lens(1) len(3,4,5) dev]
    by (auto simp: plain_cmd_def)
  obtain t where cmd: "MldsaVerifyCmd_execute F ?bytes (rt_cleared d1) = (mldsa_cmd_outcome F pk sig msg, t)"
      and fatal: "cptra_fw_error_fatal t = cptra_fw_error_fatal d"
    using mldsa_cmd_run [of "rt_cleared d1" F pk sig msg ?bytes pad] assms(3,10) len(1,2) lens(3) r req
    by (auto simp: drop_sealed)
  define y :: "(nat \<times> u8 list) outcome" where
    "y = (case mldsa_cmd_outcome F pk sig msg of Ok n \<Rightarrow> Ok (n, ?buf) | Err e \<Rightarrow> Err e | CfiPanic e \<Rightarrow> CfiPanic e | RustPanic \<Rightarrow> RustPanic)"
  have "rt_commands ?H ?cmd ?bytes (replicate (rt_max_resp ?H) 0) (rt_cleared d1) = (y, t)"
    using cmd by (auto simp: runtime_handlers_def rt_command_arm_def bindE_def y_def split: outcome.splits)
  moreover have "header_answer y" using empty_status [OF lens(2)] by (simp add: y_def header_answer_def mldsa_cmd_outcome_def)
  ultimately obtain t' where "mailbox_exec_req p limit max_wait_cycles delay ?cmd req 8 8 resp_len d = (Ok (soc_answer t y), t')"
      "mbox_free sm t'"
    using exec by blast
  moreover have "api_failure t e = api_failure d e" for e using fatal by (simp add: api_failure_def)
  ultimately show ?thesis
    using empty_reply [OF lens(2)] by (auto simp: y_def soc_answer_def mldsa_cmd_outcome_def)
qed

theorem mldsa_verify_over_mailbox_witness:
  "\<exists>t. mailbox_exec_req 9 16384 100 (sample_delay (modelled_handlers keep_hash sample_p384 sample_fips204)) MLDSA87_SIGNATURE_VERIFY
      (replicate 4 0 @ replicate 2592 1 @ (replicate 4627 2 @ [0]) @ le32 (of_nat (length [5, 6, 7 :: u8])) @ [5, 6, 7] @ []) 8 8 64 sample_drivers =
    (Ok (Inr (replicate 8 0)), t) \<and> mbox_free True t"
proof -
  let ?H = "modelled_handlers keep_hash sample_p384 sample_fips204" and ?cmd = "MLDSA87_SIGNATURE_VERIFY :: u32"
  let ?req = "replicate 4 0 @ replicate 2592 1 @ (replicate 4627 2 @ [0]) @ le32 (of_nat (length [5, 6, 7 :: u8])) @ [5, 6, 7] @ []"
  obtain x0 d1 where start: "start_mailbox_exec 9 16384 ?cmd (sealed ?cmd ?req) sample_drivers = (x0, d1)" by (metis surj_pair)
  have serve: "device_serves (runtime_handlers keep_hash sample_p384 sample_fips204 no_other_commands) (sample_delay ?H) 0 d1"
    using sample_delay_serves [of ?H d1] by (simp add: modelled_handlers_def)
  have idle: "mldsa_idle ((drv_abr sample_drivers)\<lparr>abr_hash_sha512 := drv_sha2_512_384 sample_drivers\<rparr>)"
    using mldsa_idle_new [of "HashSha512Regs_new KeyVaultRegs_new"] by (simp add: sample_drivers_def Abr_new_def Let_def)
  have F: "fips204_pk_ok sample_fips204 a" "fips204_verify sample_fips204 a m s ctx" for a m s ctx by (simp_all add: sample_fips204_def)
  have sig: "take 64 (replicate 4627 2 @ [0]) \<noteq> replicate 64 (0 :: u8)" by simp
  from mldsa_verify_over_mailbox [OF command_table_none sample_drivers_free idle, of 9 "replicate 2592 1" "replicate 4627 2 @ [0]"
      ?req 16384 64 sample_fips204 "[5, 6, 7]" "[]" x0 d1 keep_hash sample_p384 "sample_delay ?H" 100] start serve F sig
  show ?thesis by (simp add: MBOX_RAM_SIZE_def)
qed

section \<open>A request and its response through the driver\<close>

text \<open>C30: What the SoC sends the driver receives, and what the driver answers the SoC receives. For a
  request and a response that fit the mailbox, a free mailbox with a clear status and an uncorrupted
  memory: after the SoC has started a command, the driver finds it pending, reads the command and
  exactly the bytes of the request into the start of a buffer that is large enough, and sends the
  response; the SoC then collects exactly the response if its own buffer is large enough, and an
  error otherwise, and the mailbox is free again.\<close>

theorem driver_mailbox_roundtrip:
  assumes free: "mbox_free sm d" and req: "length buf \<le> limit" "length buf \<le> MBOX_RAM_SIZE sm" "length buf \<le> length data"
    and resp: "length resp \<le> MBOX_RAM_SIZE sm" and cycles: "max_wait_cycles \<noteq> 0"
  shows "\<exists>d1 txn txn' txn'' d2. start_mailbox_exec p limit cmd buf d = (Ok (Inr ()), d1) \<and>
    try_start_recv_txn (drv_mbox d1) = (Ok (Some txn), drv_mbox d1) \<and> recv_cmd txn = (Ok cmd, txn) \<and>
    recv_copy_request False data txn = (Ok (buf @ drop (length buf) data), txn') \<and>
    send_response resp txn' = (Ok (), txn'') \<and>
    finish_mailbox_exec p max_wait_cycles delay resp_len (set_mbox (recv_mbox txn'') d1) =
      (Ok (if length resp \<le> resp_len then Inr (Some resp) else Inl ReadBuffTooSmall), d2) \<and>
    mbox_free sm d2"
proof -
  obtain r where r: "start_mailbox_exec p limit cmd buf d = (Ok (Inr ()), set_mbox r d)" "mbox_live sm r" "mb_state r = MbExecUc"
      "mb_user (mb_ctx r) = SocUser p" "mb_cmd (mb_ctx r) = cmd" "mb_loaded buf (mb_ctx r)"
    using start_mailbox_exec_run [OF free req(1,2)] by blast
  let ?d1 = "set_mbox r d"
  have size: "mailbox_len (drv_mbox ?d1) = mailbox_size sm" using free by (simp add: mbox_free_def)
  define txn where "txn = new_recv_txn False (drv_mbox ?d1)"
  have txn: "recv_state txn = OpExecute" "recv_mbox txn = r" "recv_mbox_len txn = mailbox_size sm" "\<not> recovery_transaction txn"
    using size by (simp_all add: txn_def new_recv_txn_def)
  have start: "try_start_recv_txn (drv_mbox ?d1) = (Ok (Some txn), drv_mbox ?d1)"
    using port_other_regs(4) [OF r(2), of Caliptra] r(3)
    by (simp add: try_start_recv_txn_def bindE_def on_mailbox_Ok fsm_of_status fsm_value_states txn_def set_mbox_def)
  have cmd: "recv_cmd txn = (Ok cmd, txn)"
    using port_other_regs(1) [OF r(2), of Caliptra] r(5) txn(2) by (simp add: recv_cmd_def on_recv_Ok)
  define txn' where "txn' = txn\<lparr>recv_mbox := mb_pulled (length (byte_words buf)) r\<rparr>"
  have copy: "recv_copy_request False data txn = (Ok (buf @ drop (length buf) data), txn')"
    using recv_copy_request_run [of txn sm buf data] txn r req(3) by (simp add: txn'_def)
  have r': "mbox_live sm (recv_mbox txn')" "mb_state (recv_mbox txn') = MbExecUc" "mb_user (mb_ctx (recv_mbox txn')) = SocUser p"
    using get_loaded(2) [OF r(2) _ r(6)] r by (simp_all add: txn'_def mb_pulled_keeps)
  obtain q where q: "send_response resp txn' = (Ok (), txn'\<lparr>recv_state := OpIdle, recv_mbox := q\<rparr>)" "mbox_live sm q"
      "mb_state q = MbExecSoc" "mb_user (mb_ctx q) = SocUser p" "mb_status (mb_ctx q) = DataReady" "mb_loaded resp (mb_ctx q)"
    using send_response_run [of txn' sm resp] txn r' resp by (auto simp: txn'_def)
  have "wait_not_busy p delay max_wait_cycles (set_mbox q d) = (Ok False, set_mbox q d)"
    using wait_not_busy_run [of 0 sm delay "set_mbox q d" max_wait_cycles p] q cycles
    by (simp add: small_status unat_gt_0)
  from collect_response [OF this q(2-6), of resp_len] size
  obtain s where "finish_mailbox_exec p max_wait_cycles delay resp_len (set_mbox q d) =
      (Ok (if length resp \<le> resp_len then Inr (Some resp) else Inl ReadBuffTooSmall), set_mbox s d)" "mbox_free sm (set_mbox s d)"
    by auto
  moreover have "set_mbox (recv_mbox (txn'\<lparr>recv_state := OpIdle, recv_mbox := q\<rparr>)) ?d1 = set_mbox q d" by simp
  ultimately show ?thesis using r(1) start cmd copy q(1) by metis
qed

theorem driver_mailbox_roundtrip_witness:
  "\<exists>d1 txn txn' txn'' d2. start_mailbox_exec 7 16384 5 [1, 2, 3, 4, 5] sample_drivers = (Ok (Inr ()), d1) \<and>
    try_start_recv_txn (drv_mbox d1) = (Ok (Some txn), drv_mbox d1) \<and>
    recv_copy_request False (replicate 8 9) txn = (Ok [1, 2, 3, 4, 5, 9, 9, 9], txn') \<and>
    send_response [6, 7] txn' = (Ok (), txn'') \<and>
    finish_mailbox_exec 7 1 id 64 (set_mbox (recv_mbox txn'') d1) = (Ok (Inr (Some [6, 7])), d2) \<and> mbox_free True d2"
proof -
  have "[1, 2, 3, 4, 5] @ drop (length [1, 2, 3, 4, 5 :: u8]) (replicate 8 9) = [1, 2, 3, 4, 5, 9, 9, 9 :: u8]" by code_simp
  with driver_mailbox_roundtrip [OF sample_drivers_free, of "[1, 2, 3, 4, 5]" 16384 "replicate 8 9" "[6, 7]" 1 7 5 id 64]
  show ?thesis by (simp add: MBOX_RAM_SIZE_def) blast
qed

end
