(* ===== verification/ImageVerify.thy ===== *)
theory ImageVerify
  imports ImageVerifyEnv
begin

unbundle bit_operations_syntax

text \<open>
  The image verifier of \<^verbatim>\<open>image/verify/src/verifier.rs\<close>. Every method of \<^verbatim>\<open>ImageVerifier\<close> is one
  definition, with its checks in the order of the code. The CFI assertions are kept, so that
  the absence of a panic is a theorem; the FIPS test hooks, which only exist in test builds,
  are left out.
\<close>

section \<open>Intermediate results\<close>

datatype PqcKeyInfo =
    is_Lms: Lms ImageLmsPublicKey ImageLmsSignature
  | is_Mldsa: Mldsa ImageMldsaPubKey ImageMldsaSignature

record HeaderInfo =
  hi_vendor_ecc_pub_key_idx :: u32
  hi_vendor_pqc_pub_key_idx :: u32
  hi_vendor_ecc_pub_key_revocation :: VendorEccPubKeyRevocation
  hi_vendor_ecc_info :: "ImageEccPubKey \<times> ImageEccSignature"
  hi_vendor_pqc_info :: PqcKeyInfo
  hi_vendor_pqc_pub_key_revocation :: u32
  hi_owner_ecc_info :: "ImageEccPubKey \<times> ImageEccSignature"
  hi_owner_pqc_info :: PqcKeyInfo
  hi_owner_pub_keys_digest :: ImageDigest384
  hi_owner_pub_keys_digest_in_fuses :: bool

record TocInfo =
  ti_len :: u32
  ti_digest :: ImageDigest384

record ImageInfo =
  ii_fmc :: ImageTocEntry
  ii_runtime :: ImageTocEntry

definition ZERO_DIGEST :: ImageDigest384 where
  "ZERO_DIGEST = replicate 12 0"

section \<open>Security version number\<close>

definition svn_check_required :: "'s ImageVerificationEnv \<Rightarrow> ('s, bool) action" where
  "svn_check_required E =
     bindE (asks E dev_lifecycle) (\<lambda>lc.
     if cfi_launder (lifecycle_as_u32 lc) = lifecycle_as_u32 Unprovisioned then
       bindE (asks E dev_lifecycle) (\<lambda>lc.
       bindE (cfi_assert_eq (lifecycle_as_u32 lc) (lifecycle_as_u32 Unprovisioned)) (\<lambda>_.
       ret False))
     else
       bindE (asks E anti_rollback_disable) (\<lambda>ard.
       if cfi_launder ard then
         bindE (asks E anti_rollback_disable) (\<lambda>ard.
         bindE (cfi_assert_bool ard) (\<lambda>_.
         ret False))
       else ret True))"

definition verify_svn :: "'s ImageVerificationEnv \<Rightarrow> u32 \<Rightarrow> ('s, unit) action" where
  "verify_svn E fw_svn =
     bindE (if cfi_launder fw_svn > MAX_FIRMWARE_SVN
            then throw IMAGE_VERIFIER_ERR_FIRMWARE_SVN_GREATER_THAN_MAX_SUPPORTED
            else cfi_assert_bool (fw_svn \<le> MAX_FIRMWARE_SVN)) (\<lambda>_.
     bindE (svn_check_required E) (\<lambda>required.
     if required then
       bindE (asks E fw_fuse_svn) (\<lambda>fuse.
       if cfi_launder fw_svn < fuse then throw IMAGE_VERIFIER_ERR_FIRMWARE_SVN_LESS_THAN_FUSE
       else bindE (asks E fw_fuse_svn) (\<lambda>fuse. cfi_assert_ge fw_svn fuse))
     else ret ()))"

definition effective_fuse_svn :: "'s ImageVerificationEnv \<Rightarrow> ('s, u32) action" where
  "effective_fuse_svn E =
     bindE (asks E anti_rollback_disable) (\<lambda>ard.
     if cfi_launder ard then
       bindE (asks E anti_rollback_disable) (\<lambda>ard.
       bindE (cfi_assert_bool ard) (\<lambda>_.
       ret 0))
     else
       bindE (asks E anti_rollback_disable) (\<lambda>ard.
       bindE (cfi_assert_bool (\<not> ard)) (\<lambda>_.
       asks E fw_fuse_svn)))"

section \<open>Vendor key indices\<close>

text \<open>The end of both index checks: on an update reset the index of the cold boot is required.\<close>

definition verify_vendor_ecc_pk_idx ::
  "'s ImageVerificationEnv \<Rightarrow> ImagePreamble \<Rightarrow> ResetReason \<Rightarrow> ('s, u32 \<times> VendorEccPubKeyRevocation) action" where
  "verify_vendor_ecc_pk_idx E pre reason =
     (let key_idx = pre_vendor_ecc_pub_key_idx pre
      in bindE (asks E vendor_ecc_pub_key_revocation) (\<lambda>revocation.
      let key_hash_count = ecc_key_hash_count (ecc_key_descriptor (vendor_pub_key_info pre));
          last_key_idx = ucast key_hash_count - 1 :: u32
      in bindE (failIf (key_idx > last_key_idx)
           IMAGE_VERIFIER_ERR_VENDOR_ECC_PUB_KEY_INDEX_OUT_OF_BOUNDS) (\<lambda>_.
      bindE (if key_idx = last_key_idx then cfi_assert_eq (cfi_launder key_idx) last_key_idx
             else let key = from_bits_truncate (key_bit key_idx)
             in if revocation_contains (cfi_launder revocation) (cfi_launder key)
             then throw IMAGE_VERIFIER_ERR_VENDOR_ECC_PUB_KEY_REVOKED
             else cfi_assert_bool (\<not> revocation_contains revocation key)) (\<lambda>_.
      bindE (if cfi_launder reason = UpdateReset then
               bindE (asks E vendor_ecc_pub_key_idx_dv) (\<lambda>expected.
               if cfi_launder expected \<noteq> key_idx
               then throw IMAGE_VERIFIER_ERR_UPDATE_RESET_VENDOR_ECC_PUB_KEY_IDX_MISMATCH
               else bindE (asks E vendor_ecc_pub_key_idx_dv) (\<lambda>dv. cfi_assert_eq dv key_idx))
             else cfi_assert_ne reason UpdateReset) (\<lambda>_.
      ret (key_idx, revocation))))))"

definition verify_vendor_pqc_pk_idx ::
  "'s ImageVerificationEnv \<Rightarrow> ImagePreamble \<Rightarrow> ResetReason \<Rightarrow> u32 \<Rightarrow> ('s, u32) action" where
  "verify_vendor_pqc_pk_idx E pre reason revocation =
     (let key_idx = pre_vendor_pqc_pub_key_idx pre;
          key_hash_count = pqc_key_hash_count (pqc_key_descriptor (vendor_pub_key_info pre));
          last_key_idx = ucast key_hash_count - 1 :: u32
      in bindE (failIf (key_idx > last_key_idx)
           IMAGE_VERIFIER_ERR_VENDOR_PQC_PUB_KEY_INDEX_OUT_OF_BOUNDS) (\<lambda>_.
      bindE (if key_idx = last_key_idx then cfi_assert_eq (cfi_launder key_idx) last_key_idx
             else if cfi_launder revocation AND key_bit key_idx \<noteq> 0
             then throw IMAGE_VERIFIER_ERR_VENDOR_PQC_PUB_KEY_REVOKED
             else cfi_assert_eq (revocation AND key_bit key_idx) 0) (\<lambda>_.
      bindE (if cfi_launder reason = UpdateReset then
               bindE (asks E vendor_pqc_pub_key_idx_dv) (\<lambda>expected.
               if cfi_launder expected \<noteq> key_idx
               then throw IMAGE_VERIFIER_ERR_UPDATE_RESET_VENDOR_PQC_PUB_KEY_IDX_MISMATCH
               else bindE (asks E vendor_pqc_pub_key_idx_dv) (\<lambda>dv. cfi_assert_eq dv key_idx))
             else cfi_assert_ne reason UpdateReset) (\<lambda>_.
      ret key_idx))))"

section \<open>Public key digests\<close>

text \<open>\<^verbatim>\<open>slice::get\<close>\<close>

definition list_get :: "'a list \<Rightarrow> u32 \<Rightarrow> 'a option" where
  "list_get xs i = (if unat i < length xs then Some (xs ! unat i) else None)"

definition verify_active_ecc_pub_key_digest ::
  "'s ImageVerificationEnv \<Rightarrow> ImagePreamble \<Rightarrow> ('s, unit) action" where
  "verify_active_ecc_pub_key_digest E pre =
     (let pub_key_info = vendor_pub_key_info pre;
          ecc_key_idx = pre_vendor_ecc_pub_key_idx pre
      in bindE (okOr (list_get (ecc_key_hash (ecc_key_descriptor pub_key_info)) ecc_key_idx)
           IMAGE_VERIFIER_ERR_VENDOR_ECC_PUB_KEY_INDEX_OUT_OF_BOUNDS) (\<lambda>expected.
      bindE (sha384_acc_digest_slice E (ImageEccPubKey_as_bytes (vendor_ecc_active_pub_key pre))
           IMAGE_VERIFIER_ERR_VENDOR_PUB_KEY_DIGEST_FAILURE) (\<lambda>actual.
      if cfi_launder expected \<noteq> actual
      then throw IMAGE_VERIFIER_ERR_VENDOR_ECC_PUB_KEY_DIGEST_MISMATCH
      else cfi_assert_eq_12_words expected actual)))"

definition verify_active_pqc_pub_key_digest ::
  "'s ImageVerificationEnv \<Rightarrow> ImagePreamble \<Rightarrow> FwVerificationPqcKeyType \<Rightarrow> ('s, unit) action" where
  "verify_active_pqc_pub_key_digest E pre pqc_ty =
     (let pub_key_info = vendor_pub_key_info pre;
          pqc_key_idx = pre_vendor_pqc_pub_key_idx pre;
          expected = list_get (pqc_key_hash (pqc_key_descriptor pub_key_info)) pqc_key_idx
      in bindE (failIf (expected = None \<or>
             (pqc_ty = LMS \<and> pqc_key_idx \<ge> VENDOR_LMS_MAX_KEY_COUNT) \<or>
             (pqc_ty = MLDSA \<and> pqc_key_idx \<ge> VENDOR_MLDSA_MAX_KEY_COUNT))
           IMAGE_VERIFIER_ERR_VENDOR_PQC_PUB_KEY_INDEX_OUT_OF_BOUNDS) (\<lambda>_.
      bindE (liftO (case expected of None \<Rightarrow> RustPanic | Some d \<Rightarrow> Ok d)) (\<lambda>expected.
      let size = if pqc_ty = MLDSA then MLDSA87_PUB_KEY_BYTE_SIZE else LMS_PUB_KEY_BYTE_SIZE
      in bindE (sha384_acc_digest_slice E (take size (vendor_pqc_active_pub_key pre))
           IMAGE_VERIFIER_ERR_VENDOR_PUB_KEY_DIGEST_FAILURE) (\<lambda>actual.
      if cfi_launder expected \<noteq> actual
      then throw IMAGE_VERIFIER_ERR_VENDOR_PQC_PUB_KEY_DIGEST_MISMATCH
      else cfi_assert_eq_12_words expected actual))))"

definition verify_vendor_pub_key_info_digest ::
  "'s ImageVerificationEnv \<Rightarrow> ImagePreamble \<Rightarrow> FwVerificationPqcKeyType \<Rightarrow> ('s, unit) action" where
  "verify_vendor_pub_key_info_digest E pre pqc_ty =
     bindE (asks E dev_lifecycle) (\<lambda>lc.
     if cfi_launder (lifecycle_as_u32 lc) = lifecycle_as_u32 Unprovisioned then
       bindE (asks E dev_lifecycle) (\<lambda>lc.
       cfi_assert_eq (lifecycle_as_u32 lc) (lifecycle_as_u32 Unprovisioned))
     else
     bindE (bindE (asks E dev_lifecycle) (\<lambda>lc.
       cfi_assert_ne (lifecycle_as_u32 lc) (lifecycle_as_u32 Unprovisioned))) (\<lambda>_.
     bindE (asks E vendor_pub_key_info_digest_fuses) (\<lambda>expected.
     bindE (if cfi_launder expected = ZERO_DIGEST
            then throw IMAGE_VERIFIER_ERR_VENDOR_PUB_KEY_DIGEST_INVALID
            else cfi_assert_ne expected ZERO_DIGEST) (\<lambda>_.
     let info = vendor_pub_key_info pre;
         ecc = ecc_key_descriptor info;
         pqc = pqc_key_descriptor info
     in bindE (failIf (ecc_version ecc \<noteq> KEY_DESCRIPTOR_VERSION)
          IMAGE_VERIFIER_ERR_ECC_KEY_DESCRIPTOR_VERSION_MISMATCH) (\<lambda>_.
     bindE (failIf (ecc_key_hash_count ecc = 0)
          IMAGE_VERIFIER_ERR_ECC_KEY_DESCRIPTOR_INVALID_HASH_COUNT) (\<lambda>_.
     bindE (failIf (ecc_key_hash_count ecc > ucast VENDOR_ECC_MAX_KEY_COUNT)
          IMAGE_VERIFIER_ERR_ECC_KEY_DESCRIPTOR_HASH_COUNT_GT_MAX) (\<lambda>_.
     bindE (failIf (pqc_version pqc \<noteq> KEY_DESCRIPTOR_VERSION)
          IMAGE_VERIFIER_ERR_PQC_KEY_DESCRIPTOR_VERSION_MISMATCH) (\<lambda>_.
     bindE (failIf (pqc_key_type pqc \<noteq> pqc_key_type_as_u8 pqc_ty)
          IMAGE_VERIFIER_ERR_PQC_KEY_DESCRIPTOR_TYPE_MISMATCH) (\<lambda>_.
     bindE (failIf (pqc_key_hash_count pqc = 0)
          IMAGE_VERIFIER_ERR_PQC_KEY_DESCRIPTOR_INVALID_HASH_COUNT) (\<lambda>_.
     bindE (failIf ((pqc_ty = LMS \<and> pqc_key_hash_count pqc > ucast VENDOR_LMS_MAX_KEY_COUNT) \<or>
            (pqc_ty = MLDSA \<and> pqc_key_hash_count pqc > ucast VENDOR_MLDSA_MAX_KEY_COUNT))
          IMAGE_VERIFIER_ERR_PQC_KEY_DESCRIPTOR_HASH_COUNT_GT_MAX) (\<lambda>_.
     bindE (sha384_acc_digest_slice E (ImageVendorPubKeyInfo_as_bytes info)
          IMAGE_VERIFIER_ERR_VENDOR_PUB_KEY_DIGEST_FAILURE) (\<lambda>actual.
     bindE (if cfi_launder expected \<noteq> actual
            then throw IMAGE_VERIFIER_ERR_VENDOR_PUB_KEY_DIGEST_MISMATCH
            else cfi_assert_eq_12_words expected actual) (\<lambda>_.
     bindE (verify_active_ecc_pub_key_digest E pre) (\<lambda>_.
     verify_active_pqc_pub_key_digest E pre pqc_ty))))))))))))))"

definition verify_owner_pk_digest ::
  "'s ImageVerificationEnv \<Rightarrow> ImagePreamble \<Rightarrow> ResetReason \<Rightarrow> ('s, ImageDigest384 \<times> bool) action" where
  "verify_owner_pk_digest E pre reason =
     bindE (sha384_acc_digest_slice E (ImageOwnerPubKeys_as_bytes (owner_pub_keys pre))
          IMAGE_VERIFIER_ERR_OWNER_PUB_KEY_DIGEST_FAILURE) (\<lambda>actual.
     bindE (asks E owner_pub_key_digest_fuses) (\<lambda>fuses_digest.
     bindE (if fuses_digest = ZERO_DIGEST then
              bindE (asks E dot_owner_pk_hash) (\<lambda>dot.
              bindE (case dot of
                  Some dot_hash \<Rightarrow>
                    failIf (dot_hash \<noteq> actual)
                      IMAGE_VERIFIER_ERR_DOT_OWNER_PUB_KEY_DIGEST_MISMATCH
                | None \<Rightarrow> ret ()) (\<lambda>_.
              cfi_assert_eq_12_words fuses_digest ZERO_DIGEST))
            else if fuses_digest \<noteq> actual
            then throw IMAGE_VERIFIER_ERR_OWNER_PUB_KEY_DIGEST_MISMATCH
            else cfi_assert_eq_12_words fuses_digest actual) (\<lambda>_.
     bindE (if cfi_launder reason = UpdateReset then
              bindE (asks E owner_pub_key_digest_dv) (\<lambda>cold_boot_digest.
              if cfi_launder cold_boot_digest \<noteq> actual
              then throw IMAGE_VERIFIER_ERR_UPDATE_RESET_OWNER_DIGEST_FAILURE
              else cfi_assert_eq_12_words cold_boot_digest actual)
            else cfi_assert_ne reason UpdateReset) (\<lambda>_.
     ret (actual, fuses_digest \<noteq> ZERO_DIGEST)))))"

section \<open>Preamble\<close>

text \<open>\<^verbatim>\<open>ref_from_prefix\<close> of the LMS and MLDSA structures in the byte arrays of the preamble.\<close>

definition lms_pub_key_from :: "u8 list \<Rightarrow> ImageLmsPublicKey option" where
  "lms_pub_key_from bs = ref_from_prefix 48 (LmsPublicKey_read 6) bs"

definition lms_sig_from :: "u8 list \<Rightarrow> ImageLmsSignature option" where
  "lms_sig_from bs = ref_from_prefix 1620 (LmsSignature_read 6 51 15) bs"

definition mldsa_pub_key_from :: "u8 list \<Rightarrow> ImageMldsaPubKey option" where
  "mldsa_pub_key_from bs = ref_from_prefix 2592 (dec_array 648 (dec_le 4)) bs"

definition mldsa_sig_from :: "u8 list \<Rightarrow> ImageMldsaSignature option" where
  "mldsa_sig_from bs = ref_from_prefix 4628 (dec_array 1157 (dec_le 4)) bs"

definition verify_preamble ::
  "'s ImageVerificationEnv \<Rightarrow> ImagePreamble \<Rightarrow> ResetReason \<Rightarrow> FwVerificationPqcKeyType \<Rightarrow>
     ('s, HeaderInfo) action" where
  "verify_preamble E pre reason pqc_ty =
     bindE (verify_vendor_pub_key_info_digest E pre pqc_ty) (\<lambda>_.
     bindE (verify_owner_pk_digest E pre reason) (\<lambda>(owner_digest, in_fuses).
     bindE (verify_vendor_ecc_pk_idx E pre reason) (\<lambda>(ecc_idx, ecc_revocation).
     let vendor_ecc_info = (vendor_ecc_active_pub_key pre, ecc_sig (vendor_sigs pre))
     in bindE (case pqc_ty of
         LMS \<Rightarrow>
           bindE (okOr (lms_pub_key_from (vendor_pqc_active_pub_key pre))
             IMAGE_VERIFIER_ERR_LMS_VENDOR_PUB_KEY_INVALID) (\<lambda>lms_pub_key.
           bindE (okOr (lms_sig_from (pqc_sig (vendor_sigs pre)))
             IMAGE_VERIFIER_ERR_LMS_VENDOR_SIG_INVALID) (\<lambda>lms_sig.
           bindE (asks E vendor_lms_pub_key_revocation) (\<lambda>key_revocation.
           bindE (verify_vendor_pqc_pk_idx E pre reason key_revocation) (\<lambda>key_idx.
           ret (Lms lms_pub_key lms_sig, key_idx, key_revocation)))))
       | MLDSA \<Rightarrow>
           bindE (okOr (mldsa_pub_key_from (vendor_pqc_active_pub_key pre))
             IMAGE_VERIFIER_ERR_MLDSA_VENDOR_PUB_KEY_READ_FAILED) (\<lambda>mldsa_pub_key.
           bindE (okOr (mldsa_sig_from (pqc_sig (vendor_sigs pre)))
             IMAGE_VERIFIER_ERR_MLDSA_VENDOR_SIG_READ_FAILED) (\<lambda>mldsa_sig.
           bindE (asks E vendor_mldsa_pub_key_revocation) (\<lambda>key_revocation.
           bindE (verify_vendor_pqc_pk_idx E pre reason key_revocation) (\<lambda>key_idx.
           ret (Mldsa mldsa_pub_key mldsa_sig, key_idx, key_revocation))))))
       (\<lambda>(vendor_pqc_info, key_idx, key_revocation).
     let owner_ecc_info = (owner_ecc_pub_key (owner_pub_keys pre), ecc_sig (owner_sigs pre))
     in bindE (case pqc_ty of
         LMS \<Rightarrow>
           bindE (okOr (lms_pub_key_from (owner_pqc_pub_key (owner_pub_keys pre)))
             IMAGE_VERIFIER_ERR_LMS_OWNER_PUB_KEY_INVALID) (\<lambda>lms_pub_key.
           bindE (okOr (lms_sig_from (pqc_sig (owner_sigs pre)))
             IMAGE_VERIFIER_ERR_LMS_OWNER_SIG_INVALID) (\<lambda>lms_sig.
           ret (Lms lms_pub_key lms_sig)))
       | MLDSA \<Rightarrow>
           bindE (okOr (mldsa_pub_key_from (owner_pqc_pub_key (owner_pub_keys pre)))
             IMAGE_VERIFIER_ERR_MLDSA_OWNER_PUB_KEY_READ_FAILED) (\<lambda>mldsa_pub_key.
           bindE (okOr (mldsa_sig_from (pqc_sig (owner_sigs pre)))
             IMAGE_VERIFIER_ERR_MLDSA_OWNER_SIG_READ_FAILED) (\<lambda>mldsa_sig.
           ret (Mldsa mldsa_pub_key mldsa_sig)))) (\<lambda>owner_pqc_info.
     ret \<lparr>hi_vendor_ecc_pub_key_idx = ecc_idx, hi_vendor_pqc_pub_key_idx = key_idx,
          hi_vendor_ecc_pub_key_revocation = ecc_revocation, hi_vendor_ecc_info = vendor_ecc_info,
          hi_vendor_pqc_info = vendor_pqc_info, hi_vendor_pqc_pub_key_revocation = key_revocation,
          hi_owner_ecc_info = owner_ecc_info, hi_owner_pqc_info = owner_pqc_info,
          hi_owner_pub_keys_digest = owner_digest, hi_owner_pub_keys_digest_in_fuses = in_fuses\<rparr>)))))"

section \<open>Signatures\<close>

definition verify_ecc_sig ::
  "'s ImageVerificationEnv \<Rightarrow> ImageDigest384 \<Rightarrow> ImageEccPubKey \<Rightarrow> ImageEccSignature \<Rightarrow> bool \<Rightarrow>
     ('s, unit) action" where
  "verify_ecc_sig E digest pub_key sig is_owner =
     (let signature_invalid = (if is_owner then IMAGE_VERIFIER_ERR_OWNER_ECC_SIGNATURE_INVALID
                               else IMAGE_VERIFIER_ERR_VENDOR_ECC_SIGNATURE_INVALID);
          pub_key_invalid_arg = (if is_owner then IMAGE_VERIFIER_ERR_OWNER_ECC_PUB_KEY_INVALID_ARG
                                 else IMAGE_VERIFIER_ERR_VENDOR_ECC_PUB_KEY_INVALID_ARG);
          sig_invalid_arg = (if is_owner then IMAGE_VERIFIER_ERR_OWNER_ECC_SIGNATURE_INVALID_ARG
                             else IMAGE_VERIFIER_ERR_VENDOR_ECC_SIGNATURE_INVALID_ARG)
      in bindE (failIf (ecc_pk_x pub_key = ZERO_DIGEST \<or> ecc_pk_y pub_key = ZERO_DIGEST)
           pub_key_invalid_arg) (\<lambda>_.
      bindE (failIf (ecc_sig_r sig = ZERO_DIGEST \<or> ecc_sig_s sig = ZERO_DIGEST)
           sig_invalid_arg) (\<lambda>_.
      bindE (mapErrExt E (if is_owner then IMAGE_VERIFIER_ERR_OWNER_ECC_VERIFY_FAILURE
                          else IMAGE_VERIFIER_ERR_VENDOR_ECC_VERIFY_FAILURE)
           (ecc384_verify E digest pub_key sig)) (\<lambda>verify_r.
      if cfi_launder verify_r \<noteq> ecc_sig_r sig then throw signature_invalid
      else cfi_assert_eq_12_words verify_r (ecc_sig_r sig)))))"

definition verify_lms_sig ::
  "'s ImageVerificationEnv \<Rightarrow> ImageDigest384 \<Rightarrow> ImageLmsPublicKey \<Rightarrow> ImageLmsSignature \<Rightarrow> bool \<Rightarrow>
     ('s, unit) action" where
  "verify_lms_sig E digest lms_pub_key lms_sig is_owner =
     (let verify_failure = (if is_owner then IMAGE_VERIFIER_ERR_OWNER_LMS_VERIFY_FAILURE
                            else IMAGE_VERIFIER_ERR_VENDOR_LMS_VERIFY_FAILURE);
          signature_invalid = (if is_owner then IMAGE_VERIFIER_ERR_OWNER_LMS_SIGNATURE_INVALID
                               else IMAGE_VERIFIER_ERR_VENDOR_LMS_SIGNATURE_INVALID)
      in bindE (mapErrExt E verify_failure (lms_verify E digest lms_pub_key lms_sig)) (\<lambda>candidate_key.
      let pub_key_digest = swap_bytes (pk_digest lms_pub_key)
      in if candidate_key \<noteq> pub_key_digest then throw signature_invalid
      else cfi_assert_eq_6_words candidate_key pub_key_digest))"

definition verify_mldsa_sig ::
  "'s ImageVerificationEnv \<Rightarrow> u8 list \<Rightarrow> ImageMldsaPubKey \<Rightarrow> ImageMldsaSignature \<Rightarrow> bool \<Rightarrow>
     ('s, unit) action" where
  "verify_mldsa_sig E msg mldsa_pub_key mldsa_sig is_owner =
     (let verify_failure = (if is_owner then IMAGE_VERIFIER_ERR_OWNER_MLDSA_VERIFY_FAILURE
                            else IMAGE_VERIFIER_ERR_VENDOR_MLDSA_VERIFY_FAILURE);
          signature_invalid = (if is_owner then IMAGE_VERIFIER_ERR_OWNER_MLDSA_SIGNATURE_INVALID
                               else IMAGE_VERIFIER_ERR_VENDOR_MLDSA_SIGNATURE_INVALID)
      in bindE (mapErrExt E verify_failure (mldsa87_verify E msg mldsa_pub_key mldsa_sig)) (\<lambda>result.
      failIf (cfi_launder result \<noteq> Mldsa87_Success) signature_invalid))"

definition verify_vendor_sig ::
  "'s ImageVerificationEnv \<Rightarrow> ImageSignData \<Rightarrow> ImageEccPubKey \<times> ImageEccSignature \<Rightarrow> PqcKeyInfo \<Rightarrow>
     ('s, unit) action" where
  "verify_vendor_sig E digest_holder ecc_info pqc_info =
     (case ecc_info of (ecc_pub_key, sig) \<Rightarrow>
      bindE (failIf (ecc_pk_x ecc_pub_key = ZERO_DIGEST \<or> ecc_pk_y ecc_pub_key = ZERO_DIGEST)
           IMAGE_VERIFIER_ERR_VENDOR_ECC_PUB_KEY_INVALID_ARG) (\<lambda>_.
      bindE (failIf (ecc_sig_r sig = ZERO_DIGEST \<or> ecc_sig_s sig = ZERO_DIGEST)
           IMAGE_VERIFIER_ERR_VENDOR_ECC_SIGNATURE_INVALID_ARG) (\<lambda>_.
      bindE (mapErrExt E IMAGE_VERIFIER_ERR_VENDOR_ECC_VERIFY_FAILURE
           (ecc384_verify E (digest_384 digest_holder) ecc_pub_key sig)) (\<lambda>verify_r.
      bindE (if cfi_launder verify_r \<noteq> ecc_sig_r sig
             then throw IMAGE_VERIFIER_ERR_VENDOR_ECC_SIGNATURE_INVALID
             else cfi_assert_eq_12_words verify_r (ecc_sig_r sig)) (\<lambda>_.
      case pqc_info of
        Lms lms_pub_key lms_sig \<Rightarrow>
          verify_lms_sig E (digest_384 digest_holder) lms_pub_key lms_sig False
      | Mldsa mldsa_pub_key mldsa_sig \<Rightarrow>
          (case mldsa_msg digest_holder of
             Some msg \<Rightarrow> verify_mldsa_sig E msg mldsa_pub_key mldsa_sig False
           | None \<Rightarrow> throw IMAGE_VERIFIER_ERR_VENDOR_MLDSA_MSG_MISSING))))))"

definition verify_owner_sig ::
  "'s ImageVerificationEnv \<Rightarrow> ImageSignData \<Rightarrow> ImageEccPubKey \<times> ImageEccSignature \<Rightarrow> PqcKeyInfo \<Rightarrow>
     ('s, unit) action" where
  "verify_owner_sig E digest_holder ecc_info pqc_info =
     (case ecc_info of (ecc_pub_key, sig) \<Rightarrow>
      bindE (verify_ecc_sig E (digest_384 digest_holder) ecc_pub_key sig True) (\<lambda>_.
      case pqc_info of
        Lms lms_pub_key lms_sig \<Rightarrow>
          verify_lms_sig E (digest_384 digest_holder) lms_pub_key lms_sig True
      | Mldsa mldsa_pub_key mldsa_sig \<Rightarrow>
          (case mldsa_msg digest_holder of
             Some msg \<Rightarrow> verify_mldsa_sig E msg mldsa_pub_key mldsa_sig True
           | None \<Rightarrow> throw IMAGE_VERIFIER_ERR_OWNER_MLDSA_MSG_MISSING)))"

section \<open>Header\<close>

text \<open>\<^verbatim>\<open>offset_of!(ImageHeader, owner_data)\<close>\<close>

definition vendor_header_len :: nat where
  "vendor_header_len = 2 * 4 + 4 + 4 + 4 + 4 + 4 + 12 * 4 + 4 + 40"

definition verify_header ::
  "'s ImageVerificationEnv \<Rightarrow> ImageHeader \<Rightarrow> HeaderInfo \<Rightarrow> ('s, TocInfo) action" where
  "verify_header E hdr info =
     (let vendor_header = take vendor_header_len (ImageHeader_as_bytes hdr)
      in bindE (sha384_acc_digest_slice E vendor_header
           IMAGE_VERIFIER_ERR_HEADER_DIGEST_FAILURE) (\<lambda>vendor_digest_384.
      bindE (sha384_acc_digest_slice E (ImageHeader_as_bytes hdr)
           IMAGE_VERIFIER_ERR_HEADER_DIGEST_FAILURE) (\<lambda>owner_digest_384.
      let is_mldsa = (case hi_vendor_pqc_info info of Mldsa _ _ \<Rightarrow> True | _ \<Rightarrow> False);
          vendor_signdata_holder = \<lparr>digest_384 = vendor_digest_384,
            mldsa_msg = if is_mldsa then Some vendor_header else None\<rparr>;
          owner_signdata_holder = \<lparr>digest_384 = owner_digest_384,
            mldsa_msg = if is_mldsa then Some (ImageHeader_as_bytes hdr) else None\<rparr>
      in bindE (verify_vendor_sig E vendor_signdata_holder (hi_vendor_ecc_info info)
           (hi_vendor_pqc_info info)) (\<lambda>_.
      bindE (if cfi_launder (hdr_vendor_ecc_pub_key_idx hdr) \<noteq> hi_vendor_ecc_pub_key_idx info
             then throw IMAGE_VERIFIER_ERR_VENDOR_ECC_PUB_KEY_INDEX_MISMATCH
             else cfi_assert_eq (hdr_vendor_ecc_pub_key_idx hdr) (hi_vendor_ecc_pub_key_idx info)) (\<lambda>_.
      bindE (if cfi_launder (hdr_vendor_pqc_pub_key_idx hdr) \<noteq> hi_vendor_pqc_pub_key_idx info
             then throw IMAGE_VERIFIER_ERR_VENDOR_PQC_PUB_KEY_INDEX_MISMATCH
             else cfi_assert_eq (hdr_vendor_pqc_pub_key_idx hdr) (hi_vendor_pqc_pub_key_idx info)) (\<lambda>_.
      let debug_image = hdr_flags hdr AND IMAGE_FLAGS_DEBUG_IMAGE \<noteq> 0
      in bindE (if cfi_launder debug_image then
               bindE (cfi_assert_bool debug_image) (\<lambda>_.
               bindE (asks E debug_image_allowed) (\<lambda>allowed.
               bindE (if \<not> cfi_launder allowed then
                        bindE (cfi_assert_bool (\<not> allowed)) (\<lambda>_.
                        throw IMAGE_VERIFIER_ERR_DEBUG_IMAGE_NOT_ALLOWED)
                      else ret ()) (\<lambda>_.
               cfi_assert_bool allowed)))
             else cfi_assert_bool (\<not> debug_image)) (\<lambda>_.
      bindE (verify_owner_sig E owner_signdata_holder (hi_owner_ecc_info info)
           (hi_owner_pqc_info info)) (\<lambda>_.
      ret \<lparr>ti_len = toc_len hdr, ti_digest = toc_digest hdr\<rparr>))))))))"

section \<open>Table of contents\<close>

definition verify_toc ::
  "'s ImageVerificationEnv \<Rightarrow> ImageManifest \<Rightarrow> TocInfo \<Rightarrow> u32 \<Rightarrow> ('s, ImageInfo) action" where
  "verify_toc E man verify_info img_bundle_sz =
     bindE (if cfi_launder (ti_len verify_info) \<noteq> MAX_TOC_ENTRY_COUNT
            then throw IMAGE_VERIFIER_ERR_TOC_ENTRY_COUNT_INVALID
            else cfi_assert_eq (ti_len verify_info) MAX_TOC_ENTRY_COUNT) (\<lambda>_.
     bindE (sha384_acc_digest_slice E (slice toc_range (ImageManifest_as_bytes man))
          IMAGE_VERIFIER_ERR_TOC_DIGEST_FAILURE) (\<lambda>actual.
     bindE (if cfi_launder (ti_digest verify_info) \<noteq> actual
            then throw IMAGE_VERIFIER_ERR_TOC_DIGEST_MISMATCH
            else cfi_assert_eq_12_words (ti_digest verify_info) actual) (\<lambda>_.
     bindE (failIf (image_size (fmc man) = 0) IMAGE_VERIFIER_ERR_FMC_SIZE_ZERO) (\<lambda>_.
     bindE (failIf (image_size (runtime man) = 0) IMAGE_VERIFIER_ERR_RUNTIME_SIZE_ZERO) (\<lambda>_.
     bindE (failIf (toc_offset (fmc man) \<noteq> of_nat IMAGE_MANIFEST_BYTE_SIZE)
          IMAGE_VERIFIER_ERR_FMC_OFFSET_INVALID) (\<lambda>_.
     let img_len = ucast (man_size man) + ucast (image_size (fmc man)) +
                   ucast (image_size (runtime man)) :: u64
     in bindE (failIf (img_len > ucast img_bundle_sz)
          IMAGE_VERIFIER_ERR_IMAGE_LEN_MORE_THAN_BUNDLE_SIZE) (\<lambda>_.
     bindE (liftO (image_range (fmc man))) (\<lambda>fmc_range.
     bindE (liftO (image_range (runtime man))) (\<lambda>runtime_range.
     bindE (failIf (range_start fmc_range < range_end runtime_range \<and>
                    range_end fmc_range > range_start runtime_range)
          IMAGE_VERIFIER_ERR_FMC_RUNTIME_OVERLAP) (\<lambda>_.
     bindE (failIf (range_end fmc_range > range_start runtime_range)
          IMAGE_VERIFIER_ERR_FMC_RUNTIME_INCORRECT_ORDER) (\<lambda>_.
     bindE (failIf (range_end fmc_range > img_bundle_sz \<or> range_end runtime_range > img_bundle_sz)
          IMAGE_VERIFIER_ERR_IMAGE_LEN_MORE_THAN_BUNDLE_SIZE) (\<lambda>_.
     bindE (failIf (range_start runtime_range \<noteq> range_end fmc_range)
          IMAGE_VERIFIER_ERR_RUNTIME_OFFSET_INVALID) (\<lambda>_.
     let fmc_load_addr_start = load_addr (fmc man);
         (fmc_load_addr_end, fmc_overflow) =
           overflowing_add fmc_load_addr_start (image_size (fmc man) - 1)
     in bindE (failIf fmc_overflow
          IMAGE_VERIFIER_ERR_FMC_LOAD_ADDRESS_IMAGE_SIZE_ARITHMETIC_OVERFLOW) (\<lambda>_.
     let runtime_load_addr_start = load_addr (runtime man);
         (runtime_load_addr_end, runtime_overflow) =
           overflowing_add runtime_load_addr_start (image_size (runtime man) - 1)
     in bindE (failIf runtime_overflow
          IMAGE_VERIFIER_ERR_RUNTIME_LOAD_ADDRESS_IMAGE_SIZE_ARITHMETIC_OVERFLOW) (\<lambda>_.
     bindE (failIf (fmc_load_addr_start \<le> runtime_load_addr_end \<and>
                    fmc_load_addr_end \<ge> runtime_load_addr_start)
          IMAGE_VERIFIER_ERR_FMC_RUNTIME_LOAD_ADDR_OVERLAP) (\<lambda>_.
     ret \<lparr>ii_fmc = fmc man, ii_runtime = runtime man\<rparr>))))))))))))))))"

section \<open>FMC and runtime\<close>

definition is_multiple_of_4 :: "u32 \<Rightarrow> bool" where
  "is_multiple_of_4 a \<longleftrightarrow> a mod 4 = 0"

definition verify_fmc ::
  "'s ImageVerificationEnv \<Rightarrow> ImageTocEntry \<Rightarrow> ResetReason \<Rightarrow> ('s, ImageVerificationExeInfo) action" where
  "verify_fmc E verify_info reason =
     bindE (liftO (image_range verify_info)) (\<lambda>r.
     bindE (sha384_acc_digest E (range_start r) (of_nat (range_len r))
          IMAGE_VERIFIER_ERR_FMC_DIGEST_FAILURE) (\<lambda>actual.
     bindE (if cfi_launder (toc_entry_digest verify_info) \<noteq> actual
            then throw IMAGE_VERIFIER_ERR_FMC_DIGEST_MISMATCH
            else cfi_assert_eq_12_words (toc_entry_digest verify_info) actual) (\<lambda>_.
     let load_addr_end = load_addr verify_info + toc_size verify_info - 1
     in bindE (asks E iccm_range) (\<lambda>iccm.
     bindE (failIf (\<not> range_contains iccm (load_addr verify_info) \<or> \<not> range_contains iccm load_addr_end)
          IMAGE_VERIFIER_ERR_FMC_LOAD_ADDR_INVALID) (\<lambda>_.
     bindE (failIf (\<not> is_multiple_of_4 (load_addr verify_info))
          IMAGE_VERIFIER_ERR_FMC_LOAD_ADDR_UNALIGNED) (\<lambda>_.
     bindE (failIf (\<not> range_contains iccm (entry_point verify_info) \<or>
                    entry_point verify_info < load_addr verify_info \<or>
                    entry_point verify_info > load_addr_end)
          IMAGE_VERIFIER_ERR_FMC_ENTRY_POINT_INVALID) (\<lambda>_.
     bindE (failIf (\<not> is_multiple_of_4 (entry_point verify_info))
          IMAGE_VERIFIER_ERR_FMC_ENTRY_POINT_UNALIGNED) (\<lambda>_.
     bindE (failIf (entry_point verify_info \<noteq> load_addr verify_info)
          IMAGE_VERIFIER_ERR_FMC_ENTRY_POINT_NOT_AT_LOAD_ADDR) (\<lambda>_.
     bindE (if cfi_launder reason = UpdateReset then
              bindE (asks E get_fmc_digest_dv) (\<lambda>dv.
              bindE (if cfi_launder actual \<noteq> dv
                     then throw IMAGE_VERIFIER_ERR_UPDATE_RESET_FMC_DIGEST_MISMATCH
                     else bindE (asks E get_fmc_digest_dv) (\<lambda>dv. cfi_assert_eq actual dv)) (\<lambda>_.
              bindE (asks E get_cold_reset_fmc_load_addr) (\<lambda>cold_load_addr.
              bindE (asks E get_cold_reset_fmc_size) (\<lambda>cold_size.
              failIf (cfi_launder (load_addr verify_info) \<noteq> cold_load_addr \<or>
                      cfi_launder (toc_size verify_info) \<noteq> cold_size)
                IMAGE_VERIFIER_ERR_UPDATE_RESET_FMC_LOAD_ADDR_MISMATCH))))
            else cfi_assert_ne reason UpdateReset) (\<lambda>_.
     ret \<lparr>exe_load_addr = load_addr verify_info, exe_size = toc_size verify_info,
          exe_entry_point = entry_point verify_info, exe_digest = toc_entry_digest verify_info\<rparr>))))))))))"

definition verify_runtime ::
  "'s ImageVerificationEnv \<Rightarrow> ImageTocEntry \<Rightarrow> ('s, ImageVerificationExeInfo) action" where
  "verify_runtime E verify_info =
     bindE (liftO (image_range verify_info)) (\<lambda>r.
     bindE (sha384_acc_digest E (range_start r) (of_nat (range_len r))
          IMAGE_VERIFIER_ERR_RUNTIME_DIGEST_FAILURE) (\<lambda>actual.
     bindE (if cfi_launder (toc_entry_digest verify_info) \<noteq> actual
            then throw IMAGE_VERIFIER_ERR_RUNTIME_DIGEST_MISMATCH
            else cfi_assert_eq_12_words (toc_entry_digest verify_info) actual) (\<lambda>_.
     let load_addr_end = load_addr verify_info + toc_size verify_info - 1
     in bindE (asks E iccm_range) (\<lambda>iccm.
     bindE (failIf (\<not> range_contains iccm (load_addr verify_info) \<or> \<not> range_contains iccm load_addr_end)
          IMAGE_VERIFIER_ERR_RUNTIME_LOAD_ADDR_INVALID) (\<lambda>_.
     bindE (failIf (\<not> is_multiple_of_4 (load_addr verify_info))
          IMAGE_VERIFIER_ERR_RUNTIME_LOAD_ADDR_UNALIGNED) (\<lambda>_.
     bindE (failIf (\<not> range_contains iccm (entry_point verify_info) \<or>
                    entry_point verify_info < load_addr verify_info \<or>
                    entry_point verify_info > load_addr_end)
          IMAGE_VERIFIER_ERR_RUNTIME_ENTRY_POINT_INVALID) (\<lambda>_.
     bindE (failIf (\<not> is_multiple_of_4 (entry_point verify_info))
          IMAGE_VERIFIER_ERR_RUNTIME_ENTRY_POINT_UNALIGNED) (\<lambda>_.
     bindE (failIf (entry_point verify_info \<noteq> load_addr verify_info)
          IMAGE_VERIFIER_ERR_RUNTIME_ENTRY_POINT_NOT_AT_LOAD_ADDR) (\<lambda>_.
     ret \<lparr>exe_load_addr = load_addr verify_info, exe_size = toc_size verify_info,
          exe_entry_point = entry_point verify_info, exe_digest = toc_entry_digest verify_info\<rparr>)))))))))"

section \<open>The verifier\<close>

definition verify ::
  "'s ImageVerificationEnv \<Rightarrow> ImageManifest \<Rightarrow> u32 \<Rightarrow> ResetReason \<Rightarrow> ('s, ImageVerificationInfo) action" where
  "verify E man img_bundle_sz reason =
     bindE (failIf (marker man \<noteq> MANIFEST_MARKER) IMAGE_VERIFIER_ERR_MANIFEST_MARKER_MISMATCH) (\<lambda>_.
     bindE (failIf (unat (man_size man) \<noteq> IMAGE_MANIFEST_BYTE_SIZE)
          IMAGE_VERIFIER_ERR_MANIFEST_SIZE_MISMATCH) (\<lambda>_.
     bindE (okOr (pqc_key_type_from_u8 (man_pqc_key_type man))
          IMAGE_VERIFIER_ERR_PQC_KEY_TYPE_INVALID) (\<lambda>pqc_ty.
     bindE (asks E dev_lifecycle) (\<lambda>lc.
     bindE (if lc \<noteq> Unprovisioned then
              bindE (asks E pqc_key_type_fuse) (\<lambda>fuse.
              bindE (liftO fuse) (\<lambda>pqc_key_type_fuse.
              failIf (pqc_ty \<noteq> pqc_key_type_fuse) IMAGE_VERIFIER_ERR_PQC_KEY_TYPE_MISMATCH))
            else ret ()) (\<lambda>_.
     bindE (verify_preamble E (preamble man) reason pqc_ty) (\<lambda>header_info.
     bindE (verify_header E (header man) header_info) (\<lambda>toc_info.
     bindE (verify_toc E man toc_info img_bundle_sz) (\<lambda>image_info.
     bindE (verify_fmc E (ii_fmc image_info) reason) (\<lambda>fmc_info.
     bindE (verify_runtime E (ii_runtime image_info)) (\<lambda>runtime_info.
     bindE (verify_svn E (hdr_svn (header man))) (\<lambda>_.
     bindE (effective_fuse_svn E) (\<lambda>effective_svn.
     bindE (asks E fw_fuse_svn) (\<lambda>fuse_svn.
     ret \<lparr>info_vendor_ecc_pub_key_idx = hi_vendor_ecc_pub_key_idx header_info,
          info_vendor_pqc_pub_key_idx = hi_vendor_pqc_pub_key_idx header_info,
          info_pqc_key_type = pqc_ty,
          info_owner_pub_keys_digest = hi_owner_pub_keys_digest header_info,
          info_owner_pub_keys_digest_in_fuses = hi_owner_pub_keys_digest_in_fuses header_info,
          info_fw_svn = hdr_svn (header man),
          info_effective_fuse_svn = effective_svn,
          info_fmc = fmc_info,
          info_runtime = runtime_info,
          info_log_info =
            \<lparr>log_vendor_ecc_pub_key_idx = hi_vendor_ecc_pub_key_idx header_info,
             log_fuse_vendor_ecc_pub_key_revocation = hi_vendor_ecc_pub_key_revocation header_info,
             log_vendor_pqc_pub_key_idx = hi_vendor_pqc_pub_key_idx header_info,
             log_fuse_vendor_pqc_pub_key_revocation = hi_vendor_pqc_pub_key_revocation header_info,
             fw_log_info = \<lparr>log_manifest_svn = hdr_svn (header man), log_reserved = 0,
               log_fuse_svn = fuse_svn\<rparr>\<rparr>\<rparr>)))))))))))))"

end
