(* ===== verification/ImageVerifySpec.thy ===== *)
theory ImageVerifySpec
  imports ImageVerify
begin

unbundle bit_operations_syntax

text \<open>
  What the image verifier promises. The specification is a list of checks, each a condition
  with the error code of its failure, in the order in which they are made; \<open>run_checks\<close> is the
  error of the first check that fails. The judgement \<open>meets\<close> relates an action to such a list:
  when the action returns, all checks hold and the result is the stated one; when it ends in an
  error and the environment has no faults, the error is that of the first failing check; and it
  never panics. \<open>ImageVerifyCorrect\<close> has the contract of the trait
  \<^verbatim>\<open>ImageVerificationEnv\<close> and the proofs that every method of the verifier meets its list.
\<close>

section \<open>Lists of checks\<close>

type_synonym check = "bool \<times> u32"

primrec run_checks :: "check list \<Rightarrow> unit outcome" where
  "run_checks [] = Ok ()"
| "run_checks (c # cs) = (if fst c then run_checks cs else Err (snd c))"

definition all_pass :: "check list \<Rightarrow> bool" where
  "all_pass cs \<longleftrightarrow> list_all fst cs"

lemma all_pass_simps [simp]:
  "all_pass []" "all_pass (c # cs) \<longleftrightarrow> fst c \<and> all_pass cs"
  "all_pass (cs @ ds) \<longleftrightarrow> all_pass cs \<and> all_pass ds"
  by (simp_all add: all_pass_def)

lemma run_checks_append: "run_checks (cs @ ds) = (if all_pass cs then run_checks ds else run_checks cs)"
  by (induction cs) auto

lemma run_checks_Ok: "run_checks cs = Ok () \<longleftrightarrow> all_pass cs"
  by (induction cs) auto

lemma run_checks_pass [simp]: "all_pass cs \<Longrightarrow> run_checks cs = Ok ()"
  by (simp add: run_checks_Ok)

lemma run_checks_cases: "all_pass cs \<or> (\<exists>e. run_checks cs = Err e)"
  by (induction cs) auto

section \<open>The judgement\<close>

definition meets ::
  "('s \<Rightarrow> bool) \<Rightarrow> ('s \<Rightarrow> bool) \<Rightarrow> ('s, 'a) action \<Rightarrow> check list \<Rightarrow> 'a \<Rightarrow> bool" where
  "meets I L m cs x \<longleftrightarrow> (\<forall>s. I s \<longrightarrow> (case m s of
      (Ok y, t) \<Rightarrow> y = x \<and> all_pass cs \<and> I t \<and> (L s \<longrightarrow> L t)
    | (Err e, t) \<Rightarrow> L s \<longrightarrow> run_checks cs = Err e
    | (CfiPanic _, _) \<Rightarrow> False
    | (RustPanic, _) \<Rightarrow> False))"

named_theorems meets_rules \<open>introduction rules for meets\<close>

lemma meets_weaken:
  "meets I L m cs x \<Longrightarrow> run_checks cs = run_checks ds \<Longrightarrow> x = y \<Longrightarrow> meets I L m ds y"
  unfolding meets_def run_checks_Ok [symmetric] by (simp only:)

lemma meets_ret [meets_rules]: "meets I L (ret x) [] x"
  by (simp add: meets_def)

lemma meets_gets: "(\<And>s. I s \<Longrightarrow> f s = x) \<Longrightarrow> meets I L (gets f) [] x"
  by (simp add: meets_def)

lemma meets_throw: "meets I L (throw e) [(False, e)] x"
  by (simp add: meets_def)

lemma meets_failIf [meets_rules]: "meets I L (failIf c e) [(\<not> c, e)] ()"
  by (simp add: meets_def failIf_def)

lemma meets_okOr [meets_rules]: "meets I L (okOr x e) [(x \<noteq> None, e)] (the x)"
  by (cases x) (simp_all add: meets_def okOr_def)

lemma meets_liftO_Ok: "r = Ok x \<Longrightarrow> meets I L (liftO r) [] x"
  by (simp add: meets_def)

lemma meets_guard:
  assumes "\<not> c \<Longrightarrow> meets I L a cs x"
  shows "meets I L (if c then throw e else a) ((\<not> c, e) # cs) x"
  using assms by (cases c) (auto simp: meets_def split: outcome.splits prod.splits)

lemma meets_asserts [meets_rules]:
  "x = y \<Longrightarrow> meets I L (cfi_assert_eq x y) [] ()"
  "x \<noteq> y \<Longrightarrow> meets I L (cfi_assert_ne x y) [] ()"
  "m \<le> n \<Longrightarrow> meets I L (cfi_assert_ge n m) [] ()"
  "c \<Longrightarrow> meets I L (cfi_assert_bool c) [] ()"
  "a = b \<Longrightarrow> meets I L (cfi_assert_eq_12_words a b) [] ()"
  "a = b \<Longrightarrow> meets I L (cfi_assert_eq_6_words a b) [] ()"
  for n m :: "'n::linorder"
  by (simp_all add: meets_ret)

lemma meetsD:
  assumes "meets I L m cs x" "I s"
  shows "m s = (Ok y, t) \<Longrightarrow> y = x \<and> all_pass cs \<and> I t \<and> (L s \<longrightarrow> L t)"
    "m s = (Err e, t) \<Longrightarrow> L s \<Longrightarrow> run_checks cs = Err e"
    "m s \<noteq> (CfiPanic p, t)" "m s \<noteq> (RustPanic, t)"
  using assms(1) [unfolded meets_def, rule_format, OF assms(2)] by (auto split: prod.splits)

lemma meetsI:
  assumes "\<And>s y t. I s \<Longrightarrow> m s = (Ok y, t) \<Longrightarrow> y = x \<and> all_pass cs \<and> I t \<and> (L s \<longrightarrow> L t)"
    "\<And>s e t. I s \<Longrightarrow> m s = (Err e, t) \<Longrightarrow> L s \<Longrightarrow> run_checks cs = Err e"
    "\<And>s p t. I s \<Longrightarrow> m s \<noteq> (CfiPanic p, t)" "\<And>s t. I s \<Longrightarrow> m s \<noteq> (RustPanic, t)"
  shows "meets I L m cs x"
  unfolding meets_def by (auto split: prod.splits outcome.splits dest: assms)

lemma meets_bind [meets_rules]:
  assumes m: "meets I L m cs x" and f: "all_pass cs \<Longrightarrow> meets I L (f x) ds y"
  shows "meets I L (bindE m f) (cs @ ds) y"
proof (rule meetsI)
  fix s z u assume "I s" "bindE m f s = (Ok z, u)"
  then obtain w t where "m s = (Ok w, t)" "f w t = (Ok z, u)" by (auto simp: bindE_eq_Ok)
  with meetsD(1) [OF m \<open>I s\<close>] meetsD(1) [OF f]
  show "z = y \<and> all_pass (cs @ ds) \<and> I u \<and> (L s \<longrightarrow> L u)" by fastforce
next
  fix s e u assume I: "I s" and run: "bindE m f s = (Err e, u)" and L: "L s"
  obtain r t where rt: "m s = (r, t)" by fastforce
  show "run_checks (cs @ ds) = Err e"
  proof (cases r)
    case (Ok w)
    with rt meetsD(1) [OF m I] L have w: "w = x" "all_pass cs" "I t" "L t" by auto
    with Ok rt run have "f x t = (Err e, u)" by (simp add: bindE_def)
    with meetsD(2) [OF f [OF w(2)] w(3)] w show ?thesis by (simp add: run_checks_append)
  next
    case (Err e')
    with rt meetsD(2) [OF m I] L have "run_checks cs = Err e'" by blast
    moreover have "e' = e" using Err rt run by (simp add: bindE_def)
    ultimately show ?thesis using run_checks_Ok [of cs] by (auto simp: run_checks_append)
  qed (use rt meetsD(3,4) [OF m I] in auto)
next
  fix s p u assume I: "I s"
  show "bindE m f s \<noteq> (CfiPanic p, u)"
    using meetsD(1,3,4) [OF m I] meetsD(3) [OF f]
    by (fastforce simp: bindE_def split: prod.splits outcome.splits)
next
  fix s u assume I: "I s"
  show "bindE m f s \<noteq> (RustPanic, u)"
    using meetsD(1,3,4) [OF m I] meetsD(4) [OF f]
    by (fastforce simp: bindE_def split: prod.splits outcome.splits)
qed

lemma meets_if:
  "(c \<Longrightarrow> meets I L a cs x) \<Longrightarrow> (\<not> c \<Longrightarrow> meets I L b ds y) \<Longrightarrow>
     meets I L (if c then a else b) (if c then cs else ds) (if c then x else y)"
  by simp

text \<open>Steps through a sequence of guards, for a list of checks that is already known.\<close>

lemma meets_bind0: "meets I L m [] x \<Longrightarrow> meets I L (f x) cs y \<Longrightarrow> meets I L (bindE m f) cs y"
  using meets_bind [of I L m "[]" x f cs y] by simp

lemma meets_step:
  assumes "c = (\<not> p)" "p \<Longrightarrow> meets I L m cs x"
  shows "meets I L (bindE (failIf c e) (\<lambda>_. m)) ((p, e) # cs) x"
proof (cases p)
  case True
  with assms show ?thesis by (auto intro: meets_weaken)
next
  case False
  with assms show ?thesis by (simp add: meets_def)
qed

lemma meets_step_guard:
  assumes "c = (\<not> p)" "p \<Longrightarrow> a = ret ()" "p \<Longrightarrow> meets I L m cs x"
  shows "meets I L (bindE (if c then throw e else a) (\<lambda>_. m)) ((p, e) # cs) x"
proof -
  have "(if c then throw e else a) = failIf c e" using assms(1,2) by (simp add: failIf_def)
  then show ?thesis using meets_step [OF assms(1,3)] by simp
qed

lemma meets_step_bind:
  assumes "meets I L m [(p, e)] x" "p \<Longrightarrow> meets I L (f x) cs y"
  shows "meets I L (bindE m f) ((p, e) # cs) y"
  using meets_bind [OF assms(1), of f cs y] assms(2) by simp

text \<open>What the judgement gives for a run.\<close>

lemma meets_Ok:
  "meets I L m cs x \<Longrightarrow> I s \<Longrightarrow> m s = (Ok y, t) \<Longrightarrow> y = x \<and> all_pass cs \<and> I t"
  using meetsD(1) [of I L m cs x s y t] by blast

lemma meets_calm: "meets I L m cs x \<Longrightarrow> I s \<Longrightarrow> calm m s"
  using meetsD(3,4) [of I L m cs x s]
  by (cases "m s"; cases "fst (m s)") (auto simp: calm_def)

lemma meets_live:
  assumes "meets I L m cs x" "I s" "L s"
  shows "fst (m s) = bindO (run_checks cs) (\<lambda>_. Ok x)"
  using meetsD [OF assms(1,2)] assms(3)
  by (cases "m s"; cases "fst (m s)") auto

section \<open>The checks\<close>

text \<open>
  The functions the hardware computes: SHA-384, the \<open>r\<close> of an ECDSA P-384 verification, the
  candidate key of an LMS verification and the result of an ML-DSA-87 verification. \<open>None\<close> is
  an engine that rejects its input.
\<close>

record crypto =
  SHA384 :: "u8 list \<Rightarrow> ImageDigest384"
  ECC384_R :: "ImageDigest384 \<Rightarrow> ImageEccPubKey \<Rightarrow> ImageEccSignature \<Rightarrow> u32 list option"
  LMS_KEY :: "ImageDigest384 \<Rightarrow> ImageLmsPublicKey \<Rightarrow> ImageLmsSignature \<Rightarrow> HashValue option"
  MLDSA87 :: "u8 list \<Rightarrow> ImageMldsaPubKey \<Rightarrow> ImageMldsaSignature \<Rightarrow> Mldsa87Result option"

definition svn_enforced :: "env_view \<Rightarrow> bool" where
  "svn_enforced v \<longleftrightarrow> dev_lifecycle v \<noteq> Unprovisioned \<and> \<not> anti_rollback_disable v"

definition svn_checks :: "env_view \<Rightarrow> u32 \<Rightarrow> check list" where
  "svn_checks v svn =
     [(svn \<le> MAX_FIRMWARE_SVN, IMAGE_VERIFIER_ERR_FIRMWARE_SVN_GREATER_THAN_MAX_SUPPORTED),
      (svn_enforced v \<longrightarrow> fw_fuse_svn v \<le> svn, IMAGE_VERIFIER_ERR_FIRMWARE_SVN_LESS_THAN_FUSE)]"

definition effective_svn :: "env_view \<Rightarrow> u32" where
  "effective_svn v = (if anti_rollback_disable v then 0 else fw_fuse_svn v)"

definition pqc_max_key_count :: "FwVerificationPqcKeyType \<Rightarrow> u32" where
  "pqc_max_key_count ty =
     (case ty of LMS \<Rightarrow> VENDOR_LMS_MAX_KEY_COUNT | MLDSA \<Rightarrow> VENDOR_MLDSA_MAX_KEY_COUNT)"

definition pqc_key_byte_size :: "FwVerificationPqcKeyType \<Rightarrow> nat" where
  "pqc_key_byte_size ty =
     (case ty of LMS \<Rightarrow> LMS_PUB_KEY_BYTE_SIZE | MLDSA \<Rightarrow> MLDSA87_PUB_KEY_BYTE_SIZE)"

definition active_ecc_key_checks :: "crypto \<Rightarrow> ImagePreamble \<Rightarrow> check list" where
  "active_ecc_key_checks C pre =
     (let h = list_get (ecc_key_hash (ecc_key_descriptor (vendor_pub_key_info pre)))
                (pre_vendor_ecc_pub_key_idx pre)
      in [(h \<noteq> None, IMAGE_VERIFIER_ERR_VENDOR_ECC_PUB_KEY_INDEX_OUT_OF_BOUNDS),
          (h = Some (SHA384 C (ImageEccPubKey_as_bytes (vendor_ecc_active_pub_key pre))),
           IMAGE_VERIFIER_ERR_VENDOR_ECC_PUB_KEY_DIGEST_MISMATCH)])"

definition active_pqc_key_checks :: "crypto \<Rightarrow> ImagePreamble \<Rightarrow> FwVerificationPqcKeyType \<Rightarrow> check list" where
  "active_pqc_key_checks C pre ty =
     (let h = list_get (pqc_key_hash (pqc_key_descriptor (vendor_pub_key_info pre)))
                (pre_vendor_pqc_pub_key_idx pre)
      in [(h \<noteq> None \<and> pre_vendor_pqc_pub_key_idx pre < pqc_max_key_count ty,
           IMAGE_VERIFIER_ERR_VENDOR_PQC_PUB_KEY_INDEX_OUT_OF_BOUNDS),
          (h = Some (SHA384 C (take (pqc_key_byte_size ty) (vendor_pqc_active_pub_key pre))),
           IMAGE_VERIFIER_ERR_VENDOR_PQC_PUB_KEY_DIGEST_MISMATCH)])"

definition vendor_key_checks ::
  "crypto \<Rightarrow> env_view \<Rightarrow> ImagePreamble \<Rightarrow> FwVerificationPqcKeyType \<Rightarrow> check list" where
  "vendor_key_checks C v pre ty =
     (let info = vendor_pub_key_info pre;
          ecc = ecc_key_descriptor info;
          pqc = pqc_key_descriptor info;
          fuse = vendor_pub_key_info_digest_fuses v
      in if dev_lifecycle v = Unprovisioned then []
      else
       [(fuse \<noteq> ZERO_DIGEST, IMAGE_VERIFIER_ERR_VENDOR_PUB_KEY_DIGEST_INVALID),
        (ecc_version ecc = KEY_DESCRIPTOR_VERSION,
         IMAGE_VERIFIER_ERR_ECC_KEY_DESCRIPTOR_VERSION_MISMATCH),
        (ecc_key_hash_count ecc \<noteq> 0, IMAGE_VERIFIER_ERR_ECC_KEY_DESCRIPTOR_INVALID_HASH_COUNT),
        (ecc_key_hash_count ecc \<le> 4, IMAGE_VERIFIER_ERR_ECC_KEY_DESCRIPTOR_HASH_COUNT_GT_MAX),
        (pqc_version pqc = KEY_DESCRIPTOR_VERSION,
         IMAGE_VERIFIER_ERR_PQC_KEY_DESCRIPTOR_VERSION_MISMATCH),
        (pqc_key_type pqc = pqc_key_type_as_u8 ty, IMAGE_VERIFIER_ERR_PQC_KEY_DESCRIPTOR_TYPE_MISMATCH),
        (pqc_key_hash_count pqc \<noteq> 0, IMAGE_VERIFIER_ERR_PQC_KEY_DESCRIPTOR_INVALID_HASH_COUNT),
        (pqc_key_hash_count pqc \<le> ucast (pqc_max_key_count ty),
         IMAGE_VERIFIER_ERR_PQC_KEY_DESCRIPTOR_HASH_COUNT_GT_MAX),
        (fuse = SHA384 C (ImageVendorPubKeyInfo_as_bytes info),
         IMAGE_VERIFIER_ERR_VENDOR_PUB_KEY_DIGEST_MISMATCH)] @
       active_ecc_key_checks C pre @ active_pqc_key_checks C pre ty)"

definition owner_keys_digest :: "crypto \<Rightarrow> ImagePreamble \<Rightarrow> ImageDigest384" where
  "owner_keys_digest C pre = SHA384 C (ImageOwnerPubKeys_as_bytes (owner_pub_keys pre))"

definition owner_key_checks :: "crypto \<Rightarrow> env_view \<Rightarrow> ImagePreamble \<Rightarrow> ResetReason \<Rightarrow> check list" where
  "owner_key_checks C v pre reason =
     (let actual = owner_keys_digest C pre;
          fuse = owner_pub_key_digest_fuses v
      in [(fuse = ZERO_DIGEST \<longrightarrow> dot_owner_pk_hash v \<in> {None, Some actual},
           IMAGE_VERIFIER_ERR_DOT_OWNER_PUB_KEY_DIGEST_MISMATCH),
          (fuse \<noteq> ZERO_DIGEST \<longrightarrow> fuse = actual, IMAGE_VERIFIER_ERR_OWNER_PUB_KEY_DIGEST_MISMATCH),
          (reason = UpdateReset \<longrightarrow> owner_pub_key_digest_dv v = actual,
           IMAGE_VERIFIER_ERR_UPDATE_RESET_OWNER_DIGEST_FAILURE)])"

text \<open>The index of the last key is the number of keys minus one, on 32 bits; it is never revoked.\<close>

definition last_ecc_key_idx :: "ImagePreamble \<Rightarrow> u32" where
  "last_ecc_key_idx pre = ucast (ecc_key_hash_count (ecc_key_descriptor (vendor_pub_key_info pre))) - 1"

definition last_pqc_key_idx :: "ImagePreamble \<Rightarrow> u32" where
  "last_pqc_key_idx pre = ucast (pqc_key_hash_count (pqc_key_descriptor (vendor_pub_key_info pre))) - 1"

definition ecc_idx_checks :: "env_view \<Rightarrow> ImagePreamble \<Rightarrow> ResetReason \<Rightarrow> check list" where
  "ecc_idx_checks v pre reason =
     (let idx = pre_vendor_ecc_pub_key_idx pre
      in [(idx \<le> last_ecc_key_idx pre, IMAGE_VERIFIER_ERR_VENDOR_ECC_PUB_KEY_INDEX_OUT_OF_BOUNDS),
          (idx = last_ecc_key_idx pre \<or>
             \<not> revocation_contains (vendor_ecc_pub_key_revocation v) (from_bits_truncate (key_bit idx)),
           IMAGE_VERIFIER_ERR_VENDOR_ECC_PUB_KEY_REVOKED),
          (reason = UpdateReset \<longrightarrow> vendor_ecc_pub_key_idx_dv v = idx,
           IMAGE_VERIFIER_ERR_UPDATE_RESET_VENDOR_ECC_PUB_KEY_IDX_MISMATCH)])"

definition pqc_revocation :: "env_view \<Rightarrow> FwVerificationPqcKeyType \<Rightarrow> u32" where
  "pqc_revocation v ty = (case ty of LMS \<Rightarrow> vendor_lms_pub_key_revocation v
     | MLDSA \<Rightarrow> vendor_mldsa_pub_key_revocation v)"

definition pqc_idx_checks :: "env_view \<Rightarrow> ImagePreamble \<Rightarrow> ResetReason \<Rightarrow> u32 \<Rightarrow> check list" where
  "pqc_idx_checks v pre reason revocation =
     (let idx = pre_vendor_pqc_pub_key_idx pre
      in [(idx \<le> last_pqc_key_idx pre, IMAGE_VERIFIER_ERR_VENDOR_PQC_PUB_KEY_INDEX_OUT_OF_BOUNDS),
          (idx = last_pqc_key_idx pre \<or> revocation AND key_bit idx = 0,
           IMAGE_VERIFIER_ERR_VENDOR_PQC_PUB_KEY_REVOKED),
          (reason = UpdateReset \<longrightarrow> vendor_pqc_pub_key_idx_dv v = idx,
           IMAGE_VERIFIER_ERR_UPDATE_RESET_VENDOR_PQC_PUB_KEY_IDX_MISMATCH)])"

definition pqc_info :: "FwVerificationPqcKeyType \<Rightarrow> u8 list \<Rightarrow> u8 list \<Rightarrow> PqcKeyInfo" where
  "pqc_info ty pk sig = (case ty of
      LMS \<Rightarrow> Lms (the (lms_pub_key_from pk)) (the (lms_sig_from sig))
    | MLDSA \<Rightarrow> Mldsa (the (mldsa_pub_key_from pk)) (the (mldsa_sig_from sig)))"

definition vendor_pqc_read_checks :: "ImagePreamble \<Rightarrow> FwVerificationPqcKeyType \<Rightarrow> check list" where
  "vendor_pqc_read_checks pre ty = (case ty of
      LMS \<Rightarrow> [(lms_pub_key_from (vendor_pqc_active_pub_key pre) \<noteq> None,
               IMAGE_VERIFIER_ERR_LMS_VENDOR_PUB_KEY_INVALID),
              (lms_sig_from (pqc_sig (vendor_sigs pre)) \<noteq> None, IMAGE_VERIFIER_ERR_LMS_VENDOR_SIG_INVALID)]
    | MLDSA \<Rightarrow> [(mldsa_pub_key_from (vendor_pqc_active_pub_key pre) \<noteq> None,
                 IMAGE_VERIFIER_ERR_MLDSA_VENDOR_PUB_KEY_READ_FAILED),
                (mldsa_sig_from (pqc_sig (vendor_sigs pre)) \<noteq> None,
                 IMAGE_VERIFIER_ERR_MLDSA_VENDOR_SIG_READ_FAILED)])"

definition owner_pqc_read_checks :: "ImagePreamble \<Rightarrow> FwVerificationPqcKeyType \<Rightarrow> check list" where
  "owner_pqc_read_checks pre ty = (case ty of
      LMS \<Rightarrow> [(lms_pub_key_from (owner_pqc_pub_key (owner_pub_keys pre)) \<noteq> None,
               IMAGE_VERIFIER_ERR_LMS_OWNER_PUB_KEY_INVALID),
              (lms_sig_from (pqc_sig (owner_sigs pre)) \<noteq> None, IMAGE_VERIFIER_ERR_LMS_OWNER_SIG_INVALID)]
    | MLDSA \<Rightarrow> [(mldsa_pub_key_from (owner_pqc_pub_key (owner_pub_keys pre)) \<noteq> None,
                 IMAGE_VERIFIER_ERR_MLDSA_OWNER_PUB_KEY_READ_FAILED),
                (mldsa_sig_from (pqc_sig (owner_sigs pre)) \<noteq> None,
                 IMAGE_VERIFIER_ERR_MLDSA_OWNER_SIG_READ_FAILED)])"

definition preamble_checks ::
  "crypto \<Rightarrow> env_view \<Rightarrow> ImagePreamble \<Rightarrow> ResetReason \<Rightarrow> FwVerificationPqcKeyType \<Rightarrow> check list" where
  "preamble_checks C v pre reason ty =
     vendor_key_checks C v pre ty @ owner_key_checks C v pre reason @ ecc_idx_checks v pre reason @
     vendor_pqc_read_checks pre ty @ pqc_idx_checks v pre reason (pqc_revocation v ty) @
     owner_pqc_read_checks pre ty"

definition preamble_info ::
  "crypto \<Rightarrow> env_view \<Rightarrow> ImagePreamble \<Rightarrow> FwVerificationPqcKeyType \<Rightarrow> HeaderInfo" where
  "preamble_info C v pre ty =
     \<lparr>hi_vendor_ecc_pub_key_idx = pre_vendor_ecc_pub_key_idx pre,
      hi_vendor_pqc_pub_key_idx = pre_vendor_pqc_pub_key_idx pre,
      hi_vendor_ecc_pub_key_revocation = vendor_ecc_pub_key_revocation v,
      hi_vendor_ecc_info = (vendor_ecc_active_pub_key pre, ecc_sig (vendor_sigs pre)),
      hi_vendor_pqc_info = pqc_info ty (vendor_pqc_active_pub_key pre) (pqc_sig (vendor_sigs pre)),
      hi_vendor_pqc_pub_key_revocation = pqc_revocation v ty,
      hi_owner_ecc_info = (owner_ecc_pub_key (owner_pub_keys pre), ecc_sig (owner_sigs pre)),
      hi_owner_pqc_info = pqc_info ty (owner_pqc_pub_key (owner_pub_keys pre)) (pqc_sig (owner_sigs pre)),
      hi_owner_pub_keys_digest = owner_keys_digest C pre,
      hi_owner_pub_keys_digest_in_fuses = (owner_pub_key_digest_fuses v \<noteq> ZERO_DIGEST)\<rparr>"

definition ecc_sig_checks ::
  "crypto \<Rightarrow> bool \<Rightarrow> ImageDigest384 \<Rightarrow> ImageEccPubKey \<Rightarrow> ImageEccSignature \<Rightarrow> check list" where
  "ecc_sig_checks C is_owner digest pk sig =
     [(ecc_pk_x pk \<noteq> ZERO_DIGEST \<and> ecc_pk_y pk \<noteq> ZERO_DIGEST,
       if is_owner then IMAGE_VERIFIER_ERR_OWNER_ECC_PUB_KEY_INVALID_ARG
       else IMAGE_VERIFIER_ERR_VENDOR_ECC_PUB_KEY_INVALID_ARG),
      (ecc_sig_r sig \<noteq> ZERO_DIGEST \<and> ecc_sig_s sig \<noteq> ZERO_DIGEST,
       if is_owner then IMAGE_VERIFIER_ERR_OWNER_ECC_SIGNATURE_INVALID_ARG
       else IMAGE_VERIFIER_ERR_VENDOR_ECC_SIGNATURE_INVALID_ARG),
      (ECC384_R C digest pk sig \<noteq> None,
       if is_owner then IMAGE_VERIFIER_ERR_OWNER_ECC_VERIFY_FAILURE
       else IMAGE_VERIFIER_ERR_VENDOR_ECC_VERIFY_FAILURE),
      (ECC384_R C digest pk sig = Some (ecc_sig_r sig),
       if is_owner then IMAGE_VERIFIER_ERR_OWNER_ECC_SIGNATURE_INVALID
       else IMAGE_VERIFIER_ERR_VENDOR_ECC_SIGNATURE_INVALID)]"

definition lms_sig_checks ::
  "crypto \<Rightarrow> bool \<Rightarrow> ImageDigest384 \<Rightarrow> ImageLmsPublicKey \<Rightarrow> ImageLmsSignature \<Rightarrow> check list" where
  "lms_sig_checks C is_owner digest pk sig =
     [(LMS_KEY C digest pk sig \<noteq> None,
       if is_owner then IMAGE_VERIFIER_ERR_OWNER_LMS_VERIFY_FAILURE
       else IMAGE_VERIFIER_ERR_VENDOR_LMS_VERIFY_FAILURE),
      (LMS_KEY C digest pk sig = Some (swap_bytes (pk_digest pk)),
       if is_owner then IMAGE_VERIFIER_ERR_OWNER_LMS_SIGNATURE_INVALID
       else IMAGE_VERIFIER_ERR_VENDOR_LMS_SIGNATURE_INVALID)]"

definition mldsa_sig_checks ::
  "crypto \<Rightarrow> bool \<Rightarrow> u8 list \<Rightarrow> ImageMldsaPubKey \<Rightarrow> ImageMldsaSignature \<Rightarrow> check list" where
  "mldsa_sig_checks C is_owner msg pk sig =
     [(MLDSA87 C msg pk sig \<noteq> None,
       if is_owner then IMAGE_VERIFIER_ERR_OWNER_MLDSA_VERIFY_FAILURE
       else IMAGE_VERIFIER_ERR_VENDOR_MLDSA_VERIFY_FAILURE),
      (MLDSA87 C msg pk sig = Some Mldsa87_Success,
       if is_owner then IMAGE_VERIFIER_ERR_OWNER_MLDSA_SIGNATURE_INVALID
       else IMAGE_VERIFIER_ERR_VENDOR_MLDSA_SIGNATURE_INVALID)]"

text \<open>Both signatures of one party over \<open>msg\<close>: ECDSA and LMS sign its digest, ML-DSA the bytes.\<close>

definition sig_checks ::
  "crypto \<Rightarrow> bool \<Rightarrow> u8 list \<Rightarrow> ImageEccPubKey \<times> ImageEccSignature \<Rightarrow> PqcKeyInfo \<Rightarrow> check list" where
  "sig_checks C is_owner msg ecc pqc =
     ecc_sig_checks C is_owner (SHA384 C msg) (fst ecc) (snd ecc) @
     (case pqc of Lms pk sig \<Rightarrow> lms_sig_checks C is_owner (SHA384 C msg) pk sig
      | Mldsa pk sig \<Rightarrow> mldsa_sig_checks C is_owner msg pk sig)"

definition vendor_signed_bytes :: "ImageHeader \<Rightarrow> u8 list" where
  "vendor_signed_bytes hdr = take vendor_header_len (ImageHeader_as_bytes hdr)"

definition header_checks :: "crypto \<Rightarrow> env_view \<Rightarrow> ImageHeader \<Rightarrow> HeaderInfo \<Rightarrow> check list" where
  "header_checks C v hdr info =
     sig_checks C False (vendor_signed_bytes hdr) (hi_vendor_ecc_info info) (hi_vendor_pqc_info info) @
     [(hdr_vendor_ecc_pub_key_idx hdr = hi_vendor_ecc_pub_key_idx info,
       IMAGE_VERIFIER_ERR_VENDOR_ECC_PUB_KEY_INDEX_MISMATCH),
      (hdr_vendor_pqc_pub_key_idx hdr = hi_vendor_pqc_pub_key_idx info,
       IMAGE_VERIFIER_ERR_VENDOR_PQC_PUB_KEY_INDEX_MISMATCH),
      (hdr_flags hdr AND IMAGE_FLAGS_DEBUG_IMAGE \<noteq> 0 \<longrightarrow> debug_image_allowed v,
       IMAGE_VERIFIER_ERR_DEBUG_IMAGE_NOT_ALLOWED)] @
     sig_checks C True (ImageHeader_as_bytes hdr) (hi_owner_ecc_info info) (hi_owner_pqc_info info)"

definition toc_bytes :: "ImageManifest \<Rightarrow> u8 list" where
  "toc_bytes man = slice toc_range (ImageManifest_as_bytes man)"

definition image_end :: "ImageTocEntry \<Rightarrow> nat" where
  "image_end t = unat (toc_offset t) + unat (toc_size t)"

definition load_end :: "ImageTocEntry \<Rightarrow> u32" where
  "load_end t = load_addr t + toc_size t - 1"

definition toc_checks :: "crypto \<Rightarrow> ImageManifest \<Rightarrow> TocInfo \<Rightarrow> u32 \<Rightarrow> check list" where
  "toc_checks C man ti sz =
     [(ti_len ti = MAX_TOC_ENTRY_COUNT, IMAGE_VERIFIER_ERR_TOC_ENTRY_COUNT_INVALID),
      (ti_digest ti = SHA384 C (toc_bytes man), IMAGE_VERIFIER_ERR_TOC_DIGEST_MISMATCH),
      (toc_size (fmc man) \<noteq> 0, IMAGE_VERIFIER_ERR_FMC_SIZE_ZERO),
      (toc_size (runtime man) \<noteq> 0, IMAGE_VERIFIER_ERR_RUNTIME_SIZE_ZERO),
      (unat (toc_offset (fmc man)) = IMAGE_MANIFEST_BYTE_SIZE, IMAGE_VERIFIER_ERR_FMC_OFFSET_INVALID),
      (unat (man_size man) + unat (toc_size (fmc man)) + unat (toc_size (runtime man)) \<le> unat sz,
       IMAGE_VERIFIER_ERR_IMAGE_LEN_MORE_THAN_BUNDLE_SIZE),
      (image_end (fmc man) < 2 ^ 32, IMAGE_VERIFIER_ERR_TOC_ENTRY_RANGE_ARITHMETIC_OVERFLOW),
      (image_end (runtime man) < 2 ^ 32, IMAGE_VERIFIER_ERR_TOC_ENTRY_RANGE_ARITHMETIC_OVERFLOW),
      (image_end (runtime man) \<le> unat (toc_offset (fmc man)) \<or>
       image_end (fmc man) \<le> unat (toc_offset (runtime man)), IMAGE_VERIFIER_ERR_FMC_RUNTIME_OVERLAP),
      (image_end (fmc man) \<le> unat (toc_offset (runtime man)),
       IMAGE_VERIFIER_ERR_FMC_RUNTIME_INCORRECT_ORDER),
      (image_end (fmc man) \<le> unat sz \<and> image_end (runtime man) \<le> unat sz,
       IMAGE_VERIFIER_ERR_IMAGE_LEN_MORE_THAN_BUNDLE_SIZE),
      (unat (toc_offset (runtime man)) = image_end (fmc man), IMAGE_VERIFIER_ERR_RUNTIME_OFFSET_INVALID),
      (unat (load_addr (fmc man)) + unat (toc_size (fmc man)) \<le> 2 ^ 32,
       IMAGE_VERIFIER_ERR_FMC_LOAD_ADDRESS_IMAGE_SIZE_ARITHMETIC_OVERFLOW),
      (unat (load_addr (runtime man)) + unat (toc_size (runtime man)) \<le> 2 ^ 32,
       IMAGE_VERIFIER_ERR_RUNTIME_LOAD_ADDRESS_IMAGE_SIZE_ARITHMETIC_OVERFLOW),
      (load_end (runtime man) < load_addr (fmc man) \<or> load_end (fmc man) < load_addr (runtime man),
       IMAGE_VERIFIER_ERR_FMC_RUNTIME_LOAD_ADDR_OVERLAP)]"

definition image_bytes :: "u8 list \<Rightarrow> ImageTocEntry \<Rightarrow> u8 list" where
  "image_bytes img t = take (unat (toc_size t)) (drop (unat (toc_offset t)) img)"

definition exe_info :: "ImageTocEntry \<Rightarrow> ImageVerificationExeInfo" where
  "exe_info t = \<lparr>exe_load_addr = load_addr t, exe_size = toc_size t, exe_entry_point = entry_point t,
     exe_digest = toc_entry_digest t\<rparr>"

definition fmc_checks ::
  "crypto \<Rightarrow> env_view \<Rightarrow> u8 list \<Rightarrow> ImageTocEntry \<Rightarrow> ResetReason \<Rightarrow> check list" where
  "fmc_checks C v img t reason =
     [(image_end t < 2 ^ 32, IMAGE_VERIFIER_ERR_TOC_ENTRY_RANGE_ARITHMETIC_OVERFLOW),
      (toc_entry_digest t = SHA384 C (image_bytes img t), IMAGE_VERIFIER_ERR_FMC_DIGEST_MISMATCH),
      (range_contains (iccm_range v) (load_addr t) \<and> range_contains (iccm_range v) (load_end t),
       IMAGE_VERIFIER_ERR_FMC_LOAD_ADDR_INVALID),
      (is_multiple_of_4 (load_addr t), IMAGE_VERIFIER_ERR_FMC_LOAD_ADDR_UNALIGNED),
      (range_contains (iccm_range v) (entry_point t) \<and> load_addr t \<le> entry_point t \<and>
         entry_point t \<le> load_end t, IMAGE_VERIFIER_ERR_FMC_ENTRY_POINT_INVALID),
      (is_multiple_of_4 (entry_point t), IMAGE_VERIFIER_ERR_FMC_ENTRY_POINT_UNALIGNED),
      (entry_point t = load_addr t, IMAGE_VERIFIER_ERR_FMC_ENTRY_POINT_NOT_AT_LOAD_ADDR),
      (reason = UpdateReset \<longrightarrow> get_fmc_digest_dv v = toc_entry_digest t,
       IMAGE_VERIFIER_ERR_UPDATE_RESET_FMC_DIGEST_MISMATCH),
      (reason = UpdateReset \<longrightarrow> load_addr t = get_cold_reset_fmc_load_addr v \<and>
         toc_size t = get_cold_reset_fmc_size v,
       IMAGE_VERIFIER_ERR_UPDATE_RESET_FMC_LOAD_ADDR_MISMATCH)]"

definition runtime_checks :: "crypto \<Rightarrow> env_view \<Rightarrow> u8 list \<Rightarrow> ImageTocEntry \<Rightarrow> check list" where
  "runtime_checks C v img t =
     [(image_end t < 2 ^ 32, IMAGE_VERIFIER_ERR_TOC_ENTRY_RANGE_ARITHMETIC_OVERFLOW),
      (toc_entry_digest t = SHA384 C (image_bytes img t), IMAGE_VERIFIER_ERR_RUNTIME_DIGEST_MISMATCH),
      (range_contains (iccm_range v) (load_addr t) \<and> range_contains (iccm_range v) (load_end t),
       IMAGE_VERIFIER_ERR_RUNTIME_LOAD_ADDR_INVALID),
      (is_multiple_of_4 (load_addr t), IMAGE_VERIFIER_ERR_RUNTIME_LOAD_ADDR_UNALIGNED),
      (range_contains (iccm_range v) (entry_point t) \<and> load_addr t \<le> entry_point t \<and>
         entry_point t \<le> load_end t, IMAGE_VERIFIER_ERR_RUNTIME_ENTRY_POINT_INVALID),
      (is_multiple_of_4 (entry_point t), IMAGE_VERIFIER_ERR_RUNTIME_ENTRY_POINT_UNALIGNED),
      (entry_point t = load_addr t, IMAGE_VERIFIER_ERR_RUNTIME_ENTRY_POINT_NOT_AT_LOAD_ADDR)]"

definition manifest_pqc_type :: "ImageManifest \<Rightarrow> FwVerificationPqcKeyType" where
  "manifest_pqc_type man = the (pqc_key_type_from_u8 (man_pqc_key_type man))"

definition pqc_fuse_checks :: "env_view \<Rightarrow> FwVerificationPqcKeyType \<Rightarrow> check list" where
  "pqc_fuse_checks v ty =
     (if dev_lifecycle v = Unprovisioned then []
      else case pqc_key_type_fuse v of
        Ok f \<Rightarrow> [(ty = f, IMAGE_VERIFIER_ERR_PQC_KEY_TYPE_MISMATCH)]
      | Err e \<Rightarrow> [(False, e)]
      | _ \<Rightarrow> [(False, 0)])"

definition manifest_checks :: "env_view \<Rightarrow> ImageManifest \<Rightarrow> check list" where
  "manifest_checks v man =
     [(marker man = MANIFEST_MARKER, IMAGE_VERIFIER_ERR_MANIFEST_MARKER_MISMATCH),
      (unat (man_size man) = IMAGE_MANIFEST_BYTE_SIZE, IMAGE_VERIFIER_ERR_MANIFEST_SIZE_MISMATCH),
      (pqc_key_type_from_u8 (man_pqc_key_type man) \<noteq> None, IMAGE_VERIFIER_ERR_PQC_KEY_TYPE_INVALID)] @
     pqc_fuse_checks v (manifest_pqc_type man)"

definition manifest_toc_info :: "ImageManifest \<Rightarrow> TocInfo" where
  "manifest_toc_info man = \<lparr>ti_len = toc_len (header man), ti_digest = toc_digest (header man)\<rparr>"

definition verify_checks ::
  "crypto \<Rightarrow> env_view \<Rightarrow> u8 list \<Rightarrow> ImageManifest \<Rightarrow> u32 \<Rightarrow> ResetReason \<Rightarrow> check list" where
  "verify_checks C v img man sz reason =
     (let ty = manifest_pqc_type man
      in manifest_checks v man @
         preamble_checks C v (preamble man) reason ty @
         header_checks C v (header man) (preamble_info C v (preamble man) ty) @
         toc_checks C man (manifest_toc_info man) sz @
         fmc_checks C v img (fmc man) reason @
         runtime_checks C v img (runtime man) @
         svn_checks v (hdr_svn (header man)))"

definition verified_info :: "crypto \<Rightarrow> env_view \<Rightarrow> ImageManifest \<Rightarrow> ImageVerificationInfo" where
  "verified_info C v man =
     (let ty = manifest_pqc_type man; pre = preamble man; svn = hdr_svn (header man)
      in \<lparr>info_vendor_ecc_pub_key_idx = pre_vendor_ecc_pub_key_idx pre,
          info_vendor_pqc_pub_key_idx = pre_vendor_pqc_pub_key_idx pre,
          info_pqc_key_type = ty,
          info_owner_pub_keys_digest = owner_keys_digest C pre,
          info_owner_pub_keys_digest_in_fuses = (owner_pub_key_digest_fuses v \<noteq> ZERO_DIGEST),
          info_fw_svn = svn,
          info_effective_fuse_svn = effective_svn v,
          info_fmc = exe_info (fmc man),
          info_runtime = exe_info (runtime man),
          info_log_info =
            \<lparr>log_vendor_ecc_pub_key_idx = pre_vendor_ecc_pub_key_idx pre,
             log_fuse_vendor_ecc_pub_key_revocation = vendor_ecc_pub_key_revocation v,
             log_vendor_pqc_pub_key_idx = pre_vendor_pqc_pub_key_idx pre,
             log_fuse_vendor_pqc_pub_key_revocation = pqc_revocation v ty,
             fw_log_info = \<lparr>log_manifest_svn = svn, log_reserved = 0, log_fuse_svn = fw_fuse_svn v\<rparr>\<rparr>\<rparr>)"

end
