(* ===== verification/ImageVerifyCorrect.thy ===== *)
theory ImageVerifyCorrect
  imports ImageVerifySpec
begin

unbundle bit_operations_syntax

text \<open>
  The contract of the trait \<^verbatim>\<open>ImageVerificationEnv\<close> as a locale, and the proof, inside it, that every
  method of the verifier meets its list of checks.
\<close>

section \<open>The contract of the environment\<close>

text \<open>
  \<open>computes\<close>: an operation that returns yields the value of the function it implements, and in an
  environment without faults it fails only where the function is undefined.
\<close>

definition computes ::
  "('s \<Rightarrow> bool) \<Rightarrow> ('s \<Rightarrow> bool) \<Rightarrow> ('s, 'a) action \<Rightarrow> 'a option \<Rightarrow> bool" where
  "computes I L m r \<longleftrightarrow> (\<forall>s. I s \<longrightarrow> (case m s of
      (Ok y, t) \<Rightarrow> r = Some y \<and> I t \<and> (L s \<longrightarrow> L t)
    | (Err e, t) \<Rightarrow> L s \<longrightarrow> r = None
    | (CfiPanic _, _) \<Rightarrow> False
    | (RustPanic, _) \<Rightarrow> False))"

lemma computesD:
  assumes "computes I L m r" "I s"
  shows "m s = (Ok y, t) \<Longrightarrow> r = Some y \<and> I t \<and> (L s \<longrightarrow> L t)"
    "m s = (Err e, t) \<Longrightarrow> L s \<Longrightarrow> r = None"
    "m s \<noteq> (CfiPanic p, t)" "m s \<noteq> (RustPanic, t)"
  using assms(1) [unfolded computes_def, rule_format, OF assms(2)] by auto

lemma meets_mapErrExt:
  assumes "computes I L m r"
  shows "meets I L (mapErrExt E e m) [(r \<noteq> None, e)] (the r)"
proof (rule meetsI)
  fix s y t assume "I s" "mapErrExt E e m s = (Ok y, t)"
  then show "y = the r \<and> all_pass [(r \<noteq> None, e)] \<and> I t \<and> (L s \<longrightarrow> L t)"
    using computesD(1) [OF assms \<open>I s\<close>, of y t]
    by (auto simp: mapErrExt_def split: prod.splits outcome.splits)
next
  fix s e' t assume "I s" "mapErrExt E e m s = (Err e', t)" "L s"
  then show "run_checks [(r \<noteq> None, e)] = Err e'"
    using computesD(2) [OF assms \<open>I s\<close>]
    by (fastforce simp: mapErrExt_def split: prod.splits outcome.splits)
next
  fix s p t assume "I s"
  then show "mapErrExt E e m s \<noteq> (CfiPanic p, t)" "mapErrExt E e m s \<noteq> (RustPanic, t)"
    using computesD(3,4) [OF assms \<open>I s\<close>]
    by (auto simp: mapErrExt_def split: prod.splits outcome.splits)
qed

lemma the_None: "the x = y \<Longrightarrow> x \<noteq> Some y \<Longrightarrow> x = None"
  by (cases x) auto

text \<open>
  The states with a given view and image source, in which the invariant of the devices holds.
  \<open>bytes\<close> are the bytes of the image source, \<open>readable\<close> the ranges the digest engine can read
  from it, \<open>slice_ok\<close> the lengths of the slices it digests correctly, \<open>ecc_ok\<close> and \<open>mldsa_ok\<close> the
  public keys the signature engines accept.
\<close>

definition env_at ::
  "'s ImageVerificationEnv \<Rightarrow> ('s \<Rightarrow> 'i) \<Rightarrow> ('s \<Rightarrow> bool) \<Rightarrow> env_view \<Rightarrow> 'i \<Rightarrow> 's \<Rightarrow> bool" where
  "env_at E img devs v im s \<longleftrightarrow> env_view E s = v \<and> img s = im \<and> devs s"

definition manifest_slices :: "nat list" where
  "manifest_slices = [1736, 96, 48, 2592, 2688, 120, 160, 208]"

lemma meets_liftO_option:
  "x \<noteq> None \<Longrightarrow> meets I L (liftO (case x of None \<Rightarrow> RustPanic | Some d \<Rightarrow> Ok d)) [] (the x)"
  by (auto simp: meets_def)

lemma meets_option:
  "(x = None \<Longrightarrow> meets I L a cs y) \<Longrightarrow> (\<And>d. x = Some d \<Longrightarrow> meets I L (f d) (ds d) (z d)) \<Longrightarrow>
     meets I L (case x of None \<Rightarrow> a | Some d \<Rightarrow> f d) (case x of None \<Rightarrow> cs | Some d \<Rightarrow> ds d)
       (case x of None \<Rightarrow> y | Some d \<Rightarrow> z d)"
  by (cases x) auto

lemma lifecycle_eq: "lifecycle_as_u32 l = lifecycle_as_u32 Unprovisioned \<longleftrightarrow> l = Unprovisioned"
  by (cases l) (simp_all add: lifecycle_as_u32_def)

lemma meets_pqc_type:
  "(ty = LMS \<Longrightarrow> meets I L a cs x) \<Longrightarrow> (ty = MLDSA \<Longrightarrow> meets I L b ds y) \<Longrightarrow>
     meets I L (case ty of MLDSA \<Rightarrow> b | LMS \<Rightarrow> a) (case ty of MLDSA \<Rightarrow> ds | LMS \<Rightarrow> cs)
       (case ty of MLDSA \<Rightarrow> y | LMS \<Rightarrow> x)"
  by (cases ty) auto

definition wf_PqcKeyInfo :: "(u32 list \<Rightarrow> bool) \<Rightarrow> PqcKeyInfo \<Rightarrow> bool" where
  "wf_PqcKeyInfo mldsa_ok i \<longleftrightarrow> (case i of
      Lms pk sig \<Rightarrow> wf_LmsPublicKey 6 pk \<and> wf_LmsSignature 6 51 15 sig
    | Mldsa pk sig \<Rightarrow> mldsa_ok pk \<and> length sig = 1157)"

text \<open>The public keys of a manifest are keys that the engines accept.\<close>

definition keys_accepted :: "(ImageEccPubKey \<Rightarrow> bool) \<Rightarrow> (u32 list \<Rightarrow> bool) \<Rightarrow> ImageManifest \<Rightarrow> bool" where
  "keys_accepted ecc_ok mldsa_ok man \<longleftrightarrow>
     (let pre = preamble man
      in ecc_ok (vendor_ecc_active_pub_key pre) \<and> ecc_ok (owner_ecc_pub_key (owner_pub_keys pre)) \<and>
         (manifest_pqc_type man = MLDSA \<longrightarrow>
            mldsa_ok (the (mldsa_pub_key_from (vendor_pqc_active_pub_key pre))) \<and>
            mldsa_ok (the (mldsa_pub_key_from (owner_pqc_pub_key (owner_pub_keys pre))))))"

section \<open>Arithmetic of the table of contents\<close>

lemma unat_ucast_u64: "unat (ucast w :: u64) = unat w" for w :: u32
proof -
  have "unat w < 2 ^ 32" using unsigned_less [of w] by simp
  then show ?thesis by (simp add: unsigned_ucast_eq take_bit_nat_eq_self_iff)
qed

lemma img_len_le:
  "(ucast sz :: u64) < ucast a + ucast b + ucast c \<longleftrightarrow> \<not> unat a + unat b + unat c \<le> unat sz"
  for a b c sz :: u32
proof -
  have lt: "unat w < 2 ^ 32" for w :: u32 using unsigned_less [of w] by simp
  have "unat (ucast a + ucast b + ucast c :: u64) = unat a + unat b + unat c"
    using lt [of a] lt [of b] lt [of c] by (simp add: unat_word_ariths unat_ucast_u64)
  then show ?thesis by (simp add: word_less_nat_alt unat_ucast_u64 not_le)
qed

lemma overflow_last:
  fixes a s :: u32
  assumes "s \<noteq> 0"
  shows "snd (overflowing_add a (s - 1)) \<longleftrightarrow> \<not> unat a + unat s \<le> 2 ^ 32"
    "fst (overflowing_add a (s - 1)) = a + s - 1"
proof -
  have "unat (s - 1) = unat s - 1" "0 < unat s"
    using assms by (simp_all add: unat_minus_one unat_gt_0)
  then show "snd (overflowing_add a (s - 1)) \<longleftrightarrow> \<not> unat a + unat s \<le> 2 ^ 32"
    by (auto simp: overflowing_add_def)
qed (simp add: overflowing_add_def)

lemma manifest_offset: "off = of_nat IMAGE_MANIFEST_BYTE_SIZE \<longleftrightarrow> unat off = IMAGE_MANIFEST_BYTE_SIZE"
  for off :: u32
  by (auto simp: IMAGE_MANIFEST_BYTE_SIZE_def word_unat_eq_iff)

lemma unat_image_end: "image_end t < 2 ^ 32 \<Longrightarrow> unat (toc_offset t + toc_size t) = image_end t"
  by (simp add: image_end_def unat_add_no_overflow)

lemma image_range_meets:
  "meets I L (liftO (image_range t))
     [(image_end t < 2 ^ 32, IMAGE_VERIFIER_ERR_TOC_ENTRY_RANGE_ARITHMETIC_OVERFLOW)]
     (toc_offset t, toc_offset t + toc_size t)"
  by (simp add: meets_def image_range_def checked_add_def image_end_def)

lemma wf_pqc_info:
  assumes "length pk = PQC_PUB_KEY_BYTE_SIZE" "length sig = PQC_SIGNATURE_BYTE_SIZE"
    and "ty = MLDSA \<longrightarrow> mldsa_ok (the (mldsa_pub_key_from pk))"
  shows "wf_PqcKeyInfo mldsa_ok (pqc_info ty pk sig)"
proof -
  have "wf_LmsPublicKey 6 (fst (LmsPublicKey_read 6 pk))"
    "wf_LmsSignature 6 51 15 (fst (LmsSignature_read 6 51 15 sig))"
    using assms by (simp_all add: lms_pk.dec_wf lms_sig.dec_wf)
  moreover have "wf_words 1157 (fst (dec_array 1157 (dec_le 4) sig))"
    using assms by (simp add: words.dec_wf)
  ultimately show ?thesis
    using assms by (cases ty) (simp_all add: wf_PqcKeyInfo_def pqc_info_def lms_pub_key_from_def
        lms_sig_from_def mldsa_sig_from_def ref_from_prefix_def wf_words_def)
qed

lemma is_Mldsa_pqc_info [simp]: "is_Mldsa (pqc_info ty pk sig) \<longleftrightarrow> ty = MLDSA"
  by (cases ty) (simp_all add: pqc_info_def)

locale image_verification_env =
  fixes E :: "'s ImageVerificationEnv" and img :: "'s \<Rightarrow> 'i" and live :: "'s \<Rightarrow> bool" and C :: crypto
    and bytes :: "'i \<Rightarrow> u8 list" and readable :: "'i \<Rightarrow> u32 \<Rightarrow> u32 \<Rightarrow> bool" and slice_ok :: "nat \<Rightarrow> bool"
    and devs :: "'s \<Rightarrow> bool" and ecc_ok :: "ImageEccPubKey \<Rightarrow> bool" and mldsa_ok :: "u32 list \<Rightarrow> bool"
  assumes sha_slice_meets: "slice_ok (length data) \<Longrightarrow>
      meets (env_at E img devs v im) live (sha384_acc_digest_slice E data e) [] (SHA384 C data)"
    and slices_ok: "list_all slice_ok manifest_slices"
    and sha_image_meets: "readable im off len \<Longrightarrow>
      meets (env_at E img devs v im) live (sha384_acc_digest E off len e) []
        (SHA384 C (take (unat len) (drop (unat off) (bytes im))))"
    and ecc_computes: "length d = 12 \<Longrightarrow> ecc_ok pk \<Longrightarrow> wf_ImageEccSignature sig \<Longrightarrow>
      computes (env_at E img devs v im) live (ecc384_verify E d pk sig) (ECC384_R C d pk sig)"
    and lms_computes: "length d = 12 \<Longrightarrow> wf_LmsPublicKey 6 lpk \<Longrightarrow> wf_LmsSignature 6 51 15 lsig \<Longrightarrow>
      computes (env_at E img devs v im) live (lms_verify E d lpk lsig) (LMS_KEY C d lpk lsig)"
    and mldsa_computes: "mldsa_ok mpk \<Longrightarrow> length msig = 1157 \<Longrightarrow>
      computes (env_at E img devs v im) live (mldsa87_verify E msg mpk msig) (MLDSA87 C msg mpk msig)"
    and sha_length: "length (SHA384 C data) = 12"
begin

abbreviation "sat v im \<equiv> meets (env_at E img devs v im) live"

lemma slice_ok_simps:
  "slice_ok 1736" "slice_ok 96" "slice_ok 48" "slice_ok 2592" "slice_ok 2688" "slice_ok 120"
  "slice_ok 160" "slice_ok 208"
  using slices_ok by (simp_all add: manifest_slices_def)

lemma sat_asks: "sat v im (asks E f) [] (f v)"
  by (rule meets_gets) (simp add: env_at_def)

lemmas sat_rules = meets_guard meets_if meets_throw meets_rules sat_asks

lemma verify_svn_meets: "sat v im (verify_svn E svn) (svn_checks v svn) ()"
  unfolding verify_svn_def svn_check_required_def
  by (rule meets_weaken, (rule sat_rules | (simp; fail))+)
    (auto simp: svn_checks_def svn_enforced_def lifecycle_as_u32_def split: Lifecycle.splits)

lemma effective_fuse_svn_meets: "sat v im (effective_fuse_svn E) [] (effective_svn v)"
  unfolding effective_fuse_svn_def
  by (rule meets_weaken, (rule sat_rules | (simp; fail))+) (auto simp: effective_svn_def)

lemma ecc_pk_idx_meets:
  "sat v im (verify_vendor_ecc_pk_idx E pre reason) (ecc_idx_checks v pre reason)
     (pre_vendor_ecc_pub_key_idx pre, vendor_ecc_pub_key_revocation v)"
  unfolding verify_vendor_ecc_pk_idx_def Let_def
  by (rule meets_weaken, (rule sat_rules | (simp; fail))+)
    (auto simp: ecc_idx_checks_def last_ecc_key_idx_def Let_def)

lemma pqc_pk_idx_meets:
  "sat v im (verify_vendor_pqc_pk_idx E pre reason revocation) (pqc_idx_checks v pre reason revocation)
     (pre_vendor_pqc_pub_key_idx pre)"
  unfolding verify_vendor_pqc_pk_idx_def Let_def
  by (rule meets_weaken, (rule sat_rules | (simp; fail))+)
    (auto simp: pqc_idx_checks_def last_pqc_key_idx_def Let_def)

lemma active_ecc_key_meets:
  assumes "wf_ImageEccPubKey (vendor_ecc_active_pub_key pre)"
  shows "sat v im (verify_active_ecc_pub_key_digest E pre) (active_ecc_key_checks C pre) ()"
  unfolding verify_active_ecc_pub_key_digest_def Let_def
  by (rule meets_weaken, (rule sat_rules sha_slice_meets | (simp add: ecc_pub_key_bytes.enc_len assms slice_ok_simps; fail))+)
    (auto simp: active_ecc_key_checks_def Let_def dest: the_None)

lemma active_pqc_key_meets:
  assumes "length (vendor_pqc_active_pub_key pre) = PQC_PUB_KEY_BYTE_SIZE"
  shows "sat v im (verify_active_pqc_pub_key_digest E pre ty) (active_pqc_key_checks C pre ty) ()"
  unfolding verify_active_pqc_pub_key_digest_def Let_def
  by (rule meets_weaken, (rule sat_rules sha_slice_meets meets_liftO_option |
        (simp add: assms slice_ok_simps; fail))+,
      cases "list_get (pqc_key_hash (pqc_key_descriptor (vendor_pub_key_info pre)))
        (pre_vendor_pqc_pub_key_idx pre)"; cases ty)
    (simp_all add: active_pqc_key_checks_def Let_def pqc_key_byte_size_def pqc_max_key_count_def not_le)

lemma vendor_key_meets:
  assumes "wf_ImagePreamble pre"
  shows "sat v im (verify_vendor_pub_key_info_digest E pre ty) (vendor_key_checks C v pre ty) ()"
proof -
  have len: "length (ImageVendorPubKeyInfo_as_bytes (vendor_pub_key_info pre)) = 1736"
    "wf_ImageEccPubKey (vendor_ecc_active_pub_key pre)"
    "length (vendor_pqc_active_pub_key pre) = PQC_PUB_KEY_BYTE_SIZE"
    using assms by (auto simp: wf_ImagePreamble_def vendor_info_bytes.enc_len)
  note subs = active_ecc_key_meets [OF len(2)] active_pqc_key_meets [OF len(3)]
  show ?thesis
    unfolding verify_vendor_pub_key_info_digest_def Let_def
    by (rule meets_weaken, (rule sat_rules sha_slice_meets subs | (simp add: len slice_ok_simps; fail))+)
      (auto simp: vendor_key_checks_def Let_def run_checks_append lifecycle_eq pqc_max_key_count_def
        not_less split: FwVerificationPqcKeyType.splits)
qed

lemma owner_key_meets:
  assumes "wf_ImagePreamble pre"
  shows "sat v im (verify_owner_pk_digest E pre reason) (owner_key_checks C v pre reason)
    (owner_keys_digest C pre, owner_pub_key_digest_fuses v \<noteq> ZERO_DIGEST)"
proof -
  have len: "length (ImageOwnerPubKeys_as_bytes (owner_pub_keys pre)) = 2688"
    using assms by (auto simp: wf_ImagePreamble_def owner_keys_bytes.enc_len)
  show ?thesis
    unfolding verify_owner_pk_digest_def Let_def
    by (rule meets_weaken, (rule sat_rules sha_slice_meets meets_option | (simp add: len slice_ok_simps; fail))+)
      (auto simp: owner_key_checks_def owner_keys_digest_def Let_def split: option.splits)
qed

lemma preamble_meets:
  assumes wf: "wf_ImagePreamble pre"
  shows "sat v im (verify_preamble E pre reason ty) (preamble_checks C v pre reason ty)
    (preamble_info C v pre ty)"
  unfolding verify_preamble_def Let_def case_prod_beta
  by (rule meets_weaken, (rule meets_pqc_type sat_rules vendor_key_meets [OF wf] owner_key_meets [OF wf]
        ecc_pk_idx_meets pqc_pk_idx_meets)+)
    (cases ty; simp add: preamble_checks_def preamble_info_def run_checks_append vendor_pqc_read_checks_def
      owner_pqc_read_checks_def pqc_revocation_def pqc_info_def)+

lemma ecc_sig_meets:
  assumes "length d = 12" "ecc_ok pk" "wf_ImageEccSignature sig"
  shows "sat v im (verify_ecc_sig E d pk sig is_owner) (ecc_sig_checks C is_owner d pk sig) ()"
  unfolding verify_ecc_sig_def Let_def
  by (rule meets_weaken, (rule sat_rules meets_mapErrExt [OF ecc_computes [OF assms]] | (simp; fail))+)
    (auto simp: ecc_sig_checks_def dest: the_None)

lemma lms_sig_meets:
  assumes "length d = 12" "wf_LmsPublicKey 6 pk" "wf_LmsSignature 6 51 15 sig"
  shows "sat v im (verify_lms_sig E d pk sig is_owner) (lms_sig_checks C is_owner d pk sig) ()"
  unfolding verify_lms_sig_def Let_def
  by (rule meets_weaken, (rule sat_rules meets_mapErrExt [OF lms_computes [OF assms]] | (simp; fail))+)
    (auto simp: lms_sig_checks_def dest: the_None)

lemma mldsa_sig_meets:
  assumes "mldsa_ok pk" "length sig = 1157"
  shows "sat v im (verify_mldsa_sig E msg pk sig is_owner) (mldsa_sig_checks C is_owner msg pk sig) ()"
  unfolding verify_mldsa_sig_def Let_def
  by (rule meets_weaken, (rule sat_rules meets_mapErrExt [OF mldsa_computes [OF assms]] | (simp; fail))+)
    (auto simp: mldsa_sig_checks_def dest: the_None)

lemma pqc_sig_meets:
  assumes "wf_PqcKeyInfo mldsa_ok pqc" "length (digest_384 h) = 12"
  shows "sat v im (case pqc of
        Lms lms_pub_key lms_sig \<Rightarrow> verify_lms_sig E (digest_384 h) lms_pub_key lms_sig is_owner
      | Mldsa mldsa_pub_key mldsa_sig \<Rightarrow>
          (case mldsa_msg h of
             Some msg \<Rightarrow> verify_mldsa_sig E msg mldsa_pub_key mldsa_sig is_owner
           | None \<Rightarrow> throw e))
     (case pqc of Lms pk sig \<Rightarrow> lms_sig_checks C is_owner (digest_384 h) pk sig
      | Mldsa pk sig \<Rightarrow> (case mldsa_msg h of Some msg \<Rightarrow> mldsa_sig_checks C is_owner msg pk sig
          | None \<Rightarrow> [(False, e)])) ()"
  using assms by (auto simp: wf_PqcKeyInfo_def intro: lms_sig_meets mldsa_sig_meets meets_throw
      split: PqcKeyInfo.splits option.splits)

lemma vendor_sig_meets:
  assumes "length (digest_384 h) = 12" "ecc_ok pk" "wf_ImageEccSignature sig" "wf_PqcKeyInfo mldsa_ok pqc"
  shows "sat v im (verify_vendor_sig E h (pk, sig) pqc)
    (ecc_sig_checks C False (digest_384 h) pk sig @
     (case pqc of Lms pk sig \<Rightarrow> lms_sig_checks C False (digest_384 h) pk sig
      | Mldsa pk sig \<Rightarrow> (case mldsa_msg h of Some msg \<Rightarrow> mldsa_sig_checks C False msg pk sig
          | None \<Rightarrow> [(False, IMAGE_VERIFIER_ERR_VENDOR_MLDSA_MSG_MISSING)]))) ()"
  unfolding verify_vendor_sig_def prod.case
  by (rule meets_weaken, (rule pqc_sig_meets [OF assms(4,1)] sat_rules
        meets_mapErrExt [OF ecc_computes [OF assms(1-3)]] | (simp; fail))+)
    (auto simp: ecc_sig_checks_def run_checks_append dest: the_None)

lemma owner_sig_meets:
  assumes "length (digest_384 h) = 12" "ecc_ok pk" "wf_ImageEccSignature sig" "wf_PqcKeyInfo mldsa_ok pqc"
  shows "sat v im (verify_owner_sig E h (pk, sig) pqc)
    (ecc_sig_checks C True (digest_384 h) pk sig @
     (case pqc of Lms pk sig \<Rightarrow> lms_sig_checks C True (digest_384 h) pk sig
      | Mldsa pk sig \<Rightarrow> (case mldsa_msg h of Some msg \<Rightarrow> mldsa_sig_checks C True msg pk sig
          | None \<Rightarrow> [(False, IMAGE_VERIFIER_ERR_OWNER_MLDSA_MSG_MISSING)]))) ()"
  unfolding verify_owner_sig_def prod.case
  by (rule meets_bind [OF ecc_sig_meets [OF assms(1-3)]], rule pqc_sig_meets [OF assms(4,1)])

lemma header_meets:
  assumes "wf_ImageHeader hdr" "hi_vendor_ecc_info info = (vk, vs)" "hi_owner_ecc_info info = (ok, os)"
    and "ecc_ok vk" "wf_ImageEccSignature vs" "ecc_ok ok" "wf_ImageEccSignature os"
    and "wf_PqcKeyInfo mldsa_ok (hi_vendor_pqc_info info)" "wf_PqcKeyInfo mldsa_ok (hi_owner_pqc_info info)"
    and same: "is_Mldsa (hi_vendor_pqc_info info) = is_Mldsa (hi_owner_pqc_info info)"
  shows "sat v im (verify_header E hdr info) (header_checks C v hdr info)
    \<lparr>ti_len = toc_len hdr, ti_digest = toc_digest hdr\<rparr>"
  unfolding verify_header_def Let_def assms(2,3)
  by (rule meets_weaken, (rule sat_rules sha_slice_meets
        vendor_sig_meets [OF _ assms(4,5,8)] owner_sig_meets [OF _ assms(6,7,9)] |
        (simp add: sha_length header_bytes.enc_len [OF assms(1)] slice_ok_simps vendor_header_len_def
          split: if_splits; fail))+)
    (insert same, cases "hi_vendor_pqc_info info"; cases "hi_owner_pqc_info info";
      simp add: header_checks_def sig_checks_def vendor_signed_bytes_def assms(2,3) run_checks_append)+

lemma toc_meets:
  assumes "wf_ImageManifest man"
  shows "sat v im (verify_toc E man ti sz) (toc_checks C man ti sz)
    \<lparr>ii_fmc = fmc man, ii_runtime = runtime man\<rparr>"
proof -
  have len: "slice_ok (length (toc_bytes man))"
    using toc_slice [OF assms, of "[]"] manifest_layout(5,6) [OF assms]
    by (simp add: toc_bytes_def slice_ok_simps)
  note sha = meets_bind0 [OF sha_slice_meets [OF len]]
  note arith = overflow_last unat_image_end word_less_nat_alt word_le_nat_alt
    word_unat_eq_iff range_start_def range_end_def load_end_def not_le not_less
  show ?thesis
    unfolding verify_toc_def toc_checks_def Let_def case_prod_beta image_size_def toc_bytes_def [symmetric]
    by (rule meets_step meets_step_guard sha meets_step_bind [OF image_range_meets] meets_ret |
        (simp; fail) | (simp add: img_len_le manifest_offset; fail) |
        (simp add: arith; fail))+
qed

lemma sha_toc_meets:
  assumes "image_end t < 2 ^ 32" "readable im (toc_offset t) (toc_size t)"
  defines "r \<equiv> (toc_offset t, toc_offset t + toc_size t)"
  shows "sat v im (sha384_acc_digest E (range_start r) (of_nat (range_len r)) e) []
    (SHA384 C (image_bytes (bytes im) t))"
proof -
  have "of_nat (range_len r) = toc_size t"
    using unat_image_end [OF assms(1)]
    by (simp add: r_def range_len_def range_start_def range_end_def image_end_def)
  moreover have "range_start r = toc_offset t" by (simp add: r_def range_start_def)
  ultimately show ?thesis
    using sha_image_meets [OF assms(2), of v e] by (simp add: image_bytes_def)
qed

lemma fmc_meets:
  assumes "readable im (toc_offset t) (toc_size t)"
  shows "sat v im (verify_fmc E t reason) (fmc_checks C v (bytes im) t reason) (exe_info t)"
  unfolding verify_fmc_def fmc_checks_def Let_def exe_info_def [symmetric] load_end_def [symmetric]
  by ((rule meets_step meets_step_guard meets_bind0 [OF sat_asks] meets_bind0 [OF sha_toc_meets]
        meets_step_bind [OF image_range_meets] | (simp add: assms not_le not_less; fail))+,
      rule meets_weaken, (rule sat_rules | (simp; fail))+)

lemma runtime_meets:
  assumes "readable im (toc_offset t) (toc_size t)"
  shows "sat v im (verify_runtime E t) (runtime_checks C v (bytes im) t) (exe_info t)"
  unfolding verify_runtime_def runtime_checks_def Let_def exe_info_def [symmetric] load_end_def [symmetric]
  by (rule meets_step meets_step_guard meets_bind0 [OF sat_asks] meets_bind0 [OF sha_toc_meets] meets_ret
      meets_step_bind [OF image_range_meets] | (simp add: assms not_le not_less; fail))+

lemma preamble_header_meets:
  assumes "wf_ImageHeader (header man)" "wf_ImagePreamble (preamble man)" "keys_accepted ecc_ok mldsa_ok man"
  shows "sat v im (verify_header E (header man) (preamble_info C v (preamble man) (manifest_pqc_type man)))
    (header_checks C v (header man) (preamble_info C v (preamble man) (manifest_pqc_type man)))
    \<lparr>ti_len = toc_len (header man), ti_digest = toc_digest (header man)\<rparr>"
  by (rule header_meets [OF assms(1)])
    (use assms(2,3) in \<open>auto simp: preamble_info_def wf_ImagePreamble_def wf_ImageSignatures_def
      wf_ImageOwnerPubKeys_def keys_accepted_def Let_def intro: wf_pqc_info\<close>)

lemma pqc_fuse_meets:
  assumes "\<not> is_panic (pqc_key_type_fuse v)"
  shows "sat v im
    (if dev_lifecycle v \<noteq> Unprovisioned then
       bindE (asks E pqc_key_type_fuse) (\<lambda>fuse.
       bindE (liftO fuse) (\<lambda>f. failIf (ty \<noteq> f) IMAGE_VERIFIER_ERR_PQC_KEY_TYPE_MISMATCH))
     else ret ()) (pqc_fuse_checks v ty) ()"
  using assms
  by (cases "pqc_key_type_fuse v") (auto simp: meets_def env_at_def pqc_fuse_checks_def bindE_def failIf_def)

text \<open>
  The keys need to be acceptable only where the checks on the preamble hold, as keys with the fused
  digests are, and the images readable only where the checks on the table of contents hold.
\<close>

lemma verify_meets:
  assumes wf: "wf_ImageManifest man" and fuse: "\<not> is_panic (pqc_key_type_fuse v)"
    and keys: "all_pass (preamble_checks C v (preamble man) reason (manifest_pqc_type man)) \<Longrightarrow> keys_accepted ecc_ok mldsa_ok man"
    and rd: "all_pass (toc_checks C man (manifest_toc_info man) sz) \<Longrightarrow> readable im (toc_offset (fmc man)) (toc_size (fmc man))"
      "all_pass (toc_checks C man (manifest_toc_info man) sz) \<Longrightarrow> readable im (toc_offset (runtime man)) (toc_size (runtime man))"
  shows "sat v im (verify E man sz reason) (verify_checks C v (bytes im) man sz reason)
    (verified_info C v man)"
proof -
  have "wf_ImagePreamble (preamble man)" "wf_ImageHeader (header man)"
    using wf by (simp_all add: wf_ImageManifest_def)
  note subs = preamble_meets [OF this(1)] preamble_header_meets [OF this(2,1) keys, unfolded manifest_pqc_type_def] toc_meets [OF wf]
    fmc_meets [OF rd(1), unfolded manifest_toc_info_def] runtime_meets [OF rd(2), unfolded manifest_toc_info_def]
    verify_svn_meets effective_fuse_svn_meets pqc_fuse_meets [OF fuse]
  show ?thesis
    unfolding verify_def
    by (rule meets_weaken, (rule subs sat_rules | assumption | simp only: ImageInfo.simps)+)
      (simp_all add: verify_checks_def manifest_checks_def run_checks_append manifest_toc_info_def
        manifest_pqc_type_def verified_info_def preamble_info_def Let_def)
qed

end

end
