(* ===== verification/Sha256.thy ===== *)
theory Sha256
  imports Blocks EmuBus
begin

unbundle bit_operations_syntax

text \<open>
  The SHA-256 engine of the emulator: the hash state of \<^verbatim>\<open>sw-emulator/lib/crypto/src/sha256.rs\<close> and
  the peripheral of \<^verbatim>\<open>sw-emulator/lib/periph/src/hash_sha256.rs\<close>, with the Winternitz chaining
  mode. The compression function of the sha2 crate is the parameter \<open>compress256\<close>.
\<close>

section \<open>The hash state\<close>

type_synonym compress256 = "u32 list \<Rightarrow> u8 list \<Rightarrow> u32 list"

datatype Sha256Mode = Mode_Sha224 | Mode_Sha256

record Sha256 =
  sha256_hash :: "u32 list"
  sha256_mode :: Sha256Mode

definition HASH_IV_256_224 :: "u32 list" where
  "HASH_IV_256_224 = [0xc1059ed8, 0x367cd507, 0x3070dd17, 0xf70e5939,
     0xffc00b31, 0x68581511, 0x64f98fa7, 0xbefa4fa4]"

definition HASH_IV_256_256 :: "u32 list" where
  "HASH_IV_256_256 = [0x6a09e667, 0xbb67ae85, 0x3c6ef372, 0xa54ff53a,
     0x510e527f, 0x9b05688c, 0x1f83d9ab, 0x5be0cd19]"

definition sha256_iv :: "Sha256Mode \<Rightarrow> u32 list" where
  "sha256_iv mode = (case mode of Mode_Sha224 \<Rightarrow> HASH_IV_256_224 | Mode_Sha256 \<Rightarrow> HASH_IV_256_256)"

definition Sha256_new :: "Sha256Mode \<Rightarrow> Sha256" where
  "Sha256_new mode = \<lparr>sha256_hash = sha256_iv mode, sha256_mode = mode\<rparr>"

definition Sha256_reset :: "Sha256Mode \<Rightarrow> Sha256 \<Rightarrow> Sha256" where
  "Sha256_reset mode sha = sha\<lparr>sha256_mode := mode, sha256_hash := sha256_iv mode\<rparr>"

definition Sha256_update :: "compress256 \<Rightarrow> u8 list \<Rightarrow> Sha256 \<Rightarrow> Sha256" where
  "Sha256_update compress256 block sha =
     sha\<lparr>sha256_hash := compress256 (sha256_hash sha) (swap4 block)\<rparr>"

definition Sha256_hash_len :: "Sha256 \<Rightarrow> nat" where
  "Sha256_hash_len sha = (case sha256_mode sha of Mode_Sha224 \<Rightarrow> 28 | Mode_Sha256 \<Rightarrow> 32)"

text \<open>\<^verbatim>\<open>hash\<close> overwrites the front of the buffer it is given.\<close>

definition Sha256_hash_into :: "Sha256 \<Rightarrow> u8 list \<Rightarrow> u8 list" where
  "Sha256_hash_into sha buf =
     (let bytes = take (length buf) (take (Sha256_hash_len sha) (concat (map le32 (sha256_hash sha))))
      in bytes @ drop (length bytes) buf)"

section \<open>The peripheral\<close>

record HashSha256 =
  s256_control :: u32
  s256_status :: u32
  s256_block :: "u8 list"
  s256_hash :: "u8 list"
  s256_engine :: Sha256
  s256_action :: "nat option"

definition s256_init :: "HashSha256 \<Rightarrow> bool" where "s256_init r \<longleftrightarrow> bit (s256_control r) 0"
definition s256_next :: "HashSha256 \<Rightarrow> bool" where "s256_next r \<longleftrightarrow> bit (s256_control r) 1"
definition s256_ready :: "HashSha256 \<Rightarrow> bool" where "s256_ready r \<longleftrightarrow> bit (s256_status r) 0"
definition s256_valid :: "HashSha256 \<Rightarrow> bool" where "s256_valid r \<longleftrightarrow> bit (s256_status r) 1"

definition HashSha256_new :: HashSha256 where
  "HashSha256_new = \<lparr>s256_control = 0, s256_status = 1, s256_block = replicate 64 0,
     s256_hash = replicate 32 0, s256_engine = Sha256_new Mode_Sha256, s256_action = None\<rparr>"

definition s256_mode_bits :: "HashSha256 \<Rightarrow> Sha256Mode" where
  "s256_mode_bits r = (if bit (s256_control r) 2 then Mode_Sha256 else Mode_Sha224)"

definition hash_block :: "compress256 \<Rightarrow> u8 list \<Rightarrow> HashSha256 \<Rightarrow> HashSha256" where
  "hash_block c blk r =
     (if s256_init r \<or> s256_next r then
        let r = r\<lparr>s256_status := s256_status r AND NOT 3\<rparr> in
        if s256_init r then
          r\<lparr>s256_engine := Sha256_update c blk (Sha256_reset (s256_mode_bits r) (s256_engine r)),
            s256_action := Some 1000\<rparr>
        else
          r\<lparr>s256_engine := Sha256_update c (s256_block r) (s256_engine r), s256_action := Some 1000\<rparr>
      else r)"

record WntzParams =
  wntz_mode :: bool
  wntz_w :: nat
  wntz_n_mode :: bool
  wntz_init :: bool

datatype WntzError = WntzDisabled | WntzParamInvalid

definition is_wntz_enabled :: "HashSha256 \<Rightarrow> WntzError + WntzParams" where
  "is_wntz_enabled r =
     (let params = \<lparr>wntz_mode = bit (s256_control r) 4, wntz_w = unat (drop_bit 5 (s256_control r) AND 15),
            wntz_n_mode = bit (s256_control r) 9, wntz_init = s256_init r\<rparr>
      in if wntz_mode params \<and> wntz_init params
         then if wntz_w params \<in> {1, 2, 4, 8} then Inr params else Inl WntzParamInvalid
         else Inl WntzDisabled)"

text \<open>
  One turn of the Winternitz loop: the first hashes the block as written, a later one the block
  with the counter and the previous digest put in. The state is the registers and the working
  copy of the block, in big-endian order.
\<close>

definition wntz_step ::
  "compress256 \<Rightarrow> WntzParams \<Rightarrow> nat \<Rightarrow> HashSha256 \<times> u8 list \<Rightarrow> nat \<Rightarrow> HashSha256 \<times> u8 list" where
  "wntz_step c params coeff s j = (case s of (r, blk) \<Rightarrow>
     if j = coeff then
       (r\<lparr>s256_status := s256_status r AND NOT 3,
          s256_engine := Sha256_update c (s256_block r) (Sha256_reset (s256_mode_bits r) (s256_engine r)),
          s256_action := Some 1000\<rparr>, blk)
     else
       let blk = blk[22 := of_nat j];
           hash_len = (if wntz_n_mode params then 32 else 24);
           digest = swap4 (Sha256_hash_into (s256_engine r) (replicate 32 0));
           blk = take 23 blk @ take hash_len digest @ drop (23 + hash_len) blk
       in (r\<lparr>s256_engine := Sha256_update c (swap4 blk) (Sha256_reset (s256_mode_bits r) (s256_engine r)),
             s256_action := Some 1000\<rparr>, blk))"

definition s256_zeroize :: "HashSha256 \<Rightarrow> HashSha256" where
  "s256_zeroize r = r\<lparr>s256_block := replicate (length (s256_block r)) 0,
     s256_hash := replicate (length (s256_hash r)) 0\<rparr>"

definition s256_on_write_control :: "compress256 \<Rightarrow> RvSize \<Rightarrow> u32 \<Rightarrow> (HashSha256, unit) bus_io" where
  "s256_on_write_control c sz val r =
     (if sz \<noteq> Word then bus_fault StoreAccessFault r
      else let r = r\<lparr>s256_control := val\<rparr>;
        r = (case is_wntz_enabled r of
            Inr params \<Rightarrow>
              let iter_count = 2 ^ wntz_w params - 1;
                  blk = swap4 (s256_block r);
                  coeff = unat (blk ! 22)
              in fst (foldl (wntz_step c params coeff) (r, blk) [coeff..<iter_count])
          | Inl _ \<Rightarrow> hash_block c (s256_block r) r)
        in (Ok (Inr ()), if bit (s256_control r) 3 then s256_zeroize r else r))"

text \<open>What \<^verbatim>\<open>poll\<close> does when the timer has fired.\<close>

definition s256_complete :: "HashSha256 \<Rightarrow> HashSha256" where
  "s256_complete r = r\<lparr>s256_action := None, s256_hash := Sha256_hash_into (s256_engine r) (s256_hash r),
     s256_status := s256_status r OR 3\<rparr>"

definition s256_poll :: "HashSha256 \<Rightarrow> HashSha256" where
  "s256_poll r = (if s256_action r = Some 0 then s256_complete r else r)"

definition s256_tick :: "HashSha256 \<Rightarrow> HashSha256" where
  "s256_tick r = s256_poll (r\<lparr>s256_action := map_option (\<lambda>n. n - 1) (s256_action r)\<rparr>)"

definition s256_hash_out :: "HashSha256 \<Rightarrow> u8 list" where
  "s256_hash_out r = take (Sha256_hash_len (s256_engine r)) (s256_hash r)"

lemma bit_or_3: "bit (w OR 3) 0" "bit (w OR 3) (Suc 0)" for w :: u32
  by (simp_all add: bit_simps bit_numeral_rec)

interpretation s256_ready_device: timed_device s256_action "\<lambda>r n. r\<lparr>s256_action := Some n\<rparr>"
  s256_complete s256_tick s256_ready
  by unfold_locales
    (auto simp: s256_tick_def s256_poll_def s256_complete_def s256_ready_def bit_or_3 le_Suc_eq)

interpretation s256_valid_device: timed_device s256_action "\<lambda>r n. r\<lparr>s256_action := Some n\<rparr>"
  s256_complete s256_tick s256_valid
  by unfold_locales
    (auto simp: s256_tick_def s256_poll_def s256_complete_def s256_valid_def bit_or_3 le_Suc_eq)

end
