(* ===== verification/Sha256Driver.thy ===== *)
theory Sha256Driver
  imports Sha256 BlockHash CaliptraError
begin

unbundle bit_operations_syntax

text \<open>
  The SHA-256 driver \<^verbatim>\<open>drivers/src/sha256.rs\<close> on the emulated peripheral: the one-shot digest and
  the multi-step operation with its Winternitz variant. The lemmas show that both compute the
  SHA-256 reference of the bytes they were given, in whatever pieces these come, and that the
  Winternitz operation computes the hash chain.
\<close>

section \<open>Blocks\<close>

abbreviation SHA256_BLOCK_BYTE_SIZE :: nat where "SHA256_BLOCK_BYTE_SIZE \<equiv> 64"
abbreviation SHA256_BLOCK_LEN_OFFSET :: nat where "SHA256_BLOCK_LEN_OFFSET \<equiv> 56"
abbreviation SHA256_MAX_DATA_SIZE :: nat where "SHA256_MAX_DATA_SIZE \<equiv> 1024 * 1024"

abbreviation wait_ready :: "(HashSha256, unit) action" where
  "wait_ready \<equiv> wait_for s256_ready s256_tick"

abbreviation wait_valid256 :: "(HashSha256, unit) action" where
  "wait_valid256 \<equiv> wait_for s256_valid s256_tick"

text \<open>\<^verbatim>\<open>Array4x16::from(block).write_to_reg(block)\<close>\<close>

definition write_block_reg :: "u8 list \<Rightarrow> (HashSha256, unit) action" where
  "write_block_reg blk r = (Ok (), r\<lparr>s256_block := concat (map le32 (u8_to_u32_be 16 blk))\<rparr>)"

definition ctrl_word :: "bool \<Rightarrow> bool \<Rightarrow> u8 \<Rightarrow> bool \<Rightarrow> u32" where
  "ctrl_word first wntz w_value n_mode =
     (if first then 1 else 2) OR 4 OR
     (if wntz then 16 OR push_bit 5 (ucast w_value AND 15) OR (if n_mode then 512 else 0) else 0)"

definition digest_op :: "compress256 \<Rightarrow> bool \<Rightarrow> (HashSha256, unit) action" where
  "digest_op c first =
     bindE wait_ready (\<lambda>_.
     bindE (mmio (s256_on_write_control c Word (ctrl_word first False 0 False))) (\<lambda>_.
     wait_valid256))"

definition digest_wntz_op :: "compress256 \<Rightarrow> bool \<Rightarrow> u8 \<Rightarrow> bool \<Rightarrow> (HashSha256, unit) action" where
  "digest_wntz_op c first w_value n_mode =
     bindE wait_ready (\<lambda>_.
     bindE (mmio (s256_on_write_control c Word (ctrl_word first True w_value n_mode))) (\<lambda>_.
     wait_valid256))"

definition digest_block :: "compress256 \<Rightarrow> u8 list \<Rightarrow> bool \<Rightarrow> (HashSha256, unit) action" where
  "digest_block c blk first = bindE (write_block_reg blk) (\<lambda>_. digest_op c first)"

definition digest_wntz_block ::
  "compress256 \<Rightarrow> u8 \<Rightarrow> bool \<Rightarrow> u8 list \<Rightarrow> bool \<Rightarrow> (HashSha256, unit) action" where
  "digest_wntz_block c w_value n_mode blk first =
     bindE (write_block_reg blk) (\<lambda>_. digest_wntz_op c first w_value n_mode)"

text \<open>The two instances of the block operation.\<close>

definition sha256_engine :: "compress256 \<Rightarrow> HashSha256 engine" where
  "sha256_engine c = \<lparr>blk_size = SHA256_BLOCK_BYTE_SIZE,
     len_size = SHA256_BLOCK_BYTE_SIZE - SHA256_BLOCK_LEN_OFFSET,
     blk_op = (\<lambda>blk first _ _. digest_block c blk first),
     err_index = DRIVER_SHA256_INDEX_OUT_OF_BOUNDS, err_slice = DRIVER_SHA256_INVALID_SLICE,
     err_state = DRIVER_SHA256_INVALID_STATE\<rparr>"

definition sha256_wntz_engine :: "compress256 \<Rightarrow> u8 \<Rightarrow> bool \<Rightarrow> HashSha256 engine" where
  "sha256_wntz_engine c w_value n_mode =
     (sha256_engine c)\<lparr>blk_op := (\<lambda>blk first _ _. digest_wntz_block c w_value n_mode blk first)\<rparr>"

definition digest_partial_block :: "compress256 \<Rightarrow> u8 list \<Rightarrow> bool \<Rightarrow> nat \<Rightarrow> (HashSha256, unit) action" where
  "digest_partial_block c slc first buf_size = partial_block (sha256_engine c) slc first buf_size False"

definition digest_wntz_partial_block ::
  "compress256 \<Rightarrow> u8 list \<Rightarrow> bool \<Rightarrow> nat \<Rightarrow> u8 \<Rightarrow> bool \<Rightarrow> (HashSha256, unit) action" where
  "digest_wntz_partial_block c slc first buf_size w_value n_mode =
     partial_block (sha256_wntz_engine c w_value n_mode) slc first buf_size False"

definition copy_digest :: "(HashSha256, u32 list) action" where
  "copy_digest = gets (\<lambda>r. map (\<lambda>i. from_le_bytes (take 4 (drop (4 * i) (s256_hash r)))) [0..<8])"

definition zeroize_internal :: "compress256 \<Rightarrow> (HashSha256, unit) action" where
  "zeroize_internal c = mmio (s256_on_write_control c Word 8)"

section \<open>Digests\<close>

definition sha256_digest :: "compress256 \<Rightarrow> u8 list \<Rightarrow> (HashSha256, u32 list) action" where
  "sha256_digest c buf =
     bindE (failIf (length buf > SHA256_MAX_DATA_SIZE) DRIVER_SHA256_MAX_DATA) (\<lambda>_.
     bindE (digest_loop (sha256_engine c) (length buf) buf True) (\<lambda>_.
     bindE copy_digest (\<lambda>digest.
     bindE (zeroize_internal c) (\<lambda>_. ret digest))))"

text \<open>The multi-step operation. SHA-256 has no \<open>Restore\<close> state.\<close>

definition sha256_digest_init :: DigestOp where
  "sha256_digest_init = op_new SHA256_BLOCK_BYTE_SIZE"

definition sha256_update :: "compress256 \<Rightarrow> u8 list \<Rightarrow> DigestOp \<Rightarrow> (HashSha256, DigestOp) action" where
  "sha256_update c data op =
     bindE (failIf (op_state op = Final) DRIVER_SHA256_INVALID_STATE) (\<lambda>_.
     bindE (failIf (op_data_size op + length data > SHA256_MAX_DATA_SIZE) DRIVER_SHA256_MAX_DATA) (\<lambda>_.
     update_loop (sha256_engine c) data op))"

definition sha256_update_wntz ::
  "compress256 \<Rightarrow> u8 list \<Rightarrow> u8 \<Rightarrow> bool \<Rightarrow> DigestOp \<Rightarrow> (HashSha256, DigestOp) action" where
  "sha256_update_wntz c data w_value n_mode op =
     bindE (failIf (op_state op = Final) DRIVER_SHA256_INVALID_STATE) (\<lambda>_.
     bindE (failIf (op_data_size op + length data > SHA256_MAX_DATA_SIZE) DRIVER_SHA256_MAX_DATA) (\<lambda>_.
     update_loop (sha256_wntz_engine c w_value n_mode) data op))"

definition sha256_finalize :: "compress256 \<Rightarrow> DigestOp \<Rightarrow> (HashSha256, u32 list) action" where
  "sha256_finalize c op = bindE (finalize_op (sha256_engine c) op) (\<lambda>_. copy_digest)"

definition sha256_finalize_wntz ::
  "compress256 \<Rightarrow> u8 \<Rightarrow> bool \<Rightarrow> DigestOp \<Rightarrow> (HashSha256, u32 list) action" where
  "sha256_finalize_wntz c w_value n_mode op =
     bindE (finalize_op (sha256_wntz_engine c w_value n_mode) op) (\<lambda>_. copy_digest)"

section \<open>One block\<close>

text \<open>The documented shape of the compression function.\<close>

definition compress256_ok :: "compress256 \<Rightarrow> bool" where
  "compress256_ok c \<longleftrightarrow> (\<forall>h b. length h = 8 \<longrightarrow> length (c h b) = 8)"

text \<open>The engine is idle, in SHA-256 mode; \<open>s256_shows\<close>: the digest registers show its state.\<close>

definition s256_idle :: "HashSha256 \<Rightarrow> bool" where
  "s256_idle r \<longleftrightarrow> s256_ready r \<and> s256_action r = None \<and> length (s256_hash r) = 32 \<and>
     length (sha256_hash (s256_engine r)) = 8 \<and> sha256_mode (s256_engine r) = Mode_Sha256"

definition s256_shows :: "HashSha256 \<Rightarrow> bool" where
  "s256_shows r \<longleftrightarrow> s256_hash r = concat (map le32 (sha256_hash (s256_engine r)))"

lemma s256_idle_new: "s256_idle HashSha256_new"
  by (simp add: s256_idle_def HashSha256_new_def s256_ready_def Sha256_new_def sha256_iv_def HASH_IV_256_256_def)

lemma ctrl_word_bits:
  "bit (ctrl_word first wntz w n_mode) 0 \<longleftrightarrow> first"
  "bit (ctrl_word first wntz w n_mode) (Suc 0) \<longleftrightarrow> \<not> first"
  "bit (ctrl_word first wntz w n_mode) 2"
  "\<not> bit (ctrl_word first wntz w n_mode) 3"
  "bit (ctrl_word first wntz w n_mode) 4 \<longleftrightarrow> wntz"
  "wntz \<Longrightarrow> bit (ctrl_word first wntz w n_mode) 9 \<longleftrightarrow> n_mode"
  by (simp_all add: ctrl_word_def bit_simps bit_numeral_rec)

lemma s256_complete_shows:
  assumes "length (s256_hash r) = 32" "length (sha256_hash (s256_engine r)) = 8"
    "sha256_mode (s256_engine r) = Mode_Sha256"
  shows "s256_idle (s256_complete r) \<and> s256_shows (s256_complete r) \<and> s256_engine (s256_complete r) = s256_engine r"
  using assms
  by (simp add: s256_complete_def s256_idle_def s256_shows_def s256_ready_def bit_or_3
      Sha256_hash_into_def Sha256_hash_len_def Let_def)

text \<open>A command that has been accepted completes.\<close>

lemma wait_valid_complete:
  "s256_action r = Some 1000 \<Longrightarrow> \<not> s256_valid r \<Longrightarrow> wait_valid256 r = (Ok (), s256_complete r)"
  using s256_valid_device.wait_completes [of r 1000] by simp

lemma not_valid_cleared: "s256_status r = s AND NOT 3 \<Longrightarrow> \<not> s256_valid r"
  by (simp add: s256_valid_def bit_simps bit_numeral_rec)

lemma digest_block_hashes:
  assumes c: "compress256_ok c" and r: "s256_idle r" and blk: "length blk = 64"
  shows "\<exists>t. digest_block c blk first r = (Ok (), t) \<and> s256_idle t \<and> s256_shows t \<and>
    sha256_hash (s256_engine t) = c (if first then HASH_IV_256_256 else sha256_hash (s256_engine r)) blk"
proof -
  define r1 where "r1 = r\<lparr>s256_block := swap4 blk, s256_control := ctrl_word first False 0 False\<rparr>"
  define r2 where "r2 = hash_block c (swap4 blk) r1"
  have flags: "s256_init r1 = first" "s256_next r1 = (\<not> first)" "s256_mode_bits r1 = Mode_Sha256"
    using ctrl_word_bits [of first False 0 False] by (simp_all add: r1_def s256_init_def s256_next_def s256_mode_bits_def)
  have upd: "s256_init (r1\<lparr>s256_status := w\<rparr>) = first" "s256_mode_bits (r1\<lparr>s256_status := w\<rparr>) = Mode_Sha256" for w
    using flags by (simp_all add: s256_init_def s256_mode_bits_def)
  have wn: "is_wntz_enabled r1 = Inl WntzDisabled"
    using ctrl_word_bits(5) [of first False 0 False] by (simp add: is_wntz_enabled_def r1_def)
  have r2: "s256_action r2 = Some 1000" "s256_status r2 = s256_status r AND NOT 3" "s256_hash r2 = s256_hash r"
    "sha256_hash (s256_engine r2) = c (if first then HASH_IV_256_256 else sha256_hash (s256_engine r)) blk"
    "sha256_mode (s256_engine r2) = Mode_Sha256" "s256_control r2 = ctrl_word first False 0 False"
    using r unfolding r2_def hash_block_def Let_def flags upd
    by (auto simp: r1_def Sha256_update_def Sha256_reset_def sha256_iv_def s256_idle_def)
  have "wait_ready (r\<lparr>s256_block := swap4 blk\<rparr>) = (Ok (), r\<lparr>s256_block := swap4 blk\<rparr>)"
    using r by (intro wait_for_now) (simp add: s256_idle_def s256_ready_def)
  moreover have "mmio (s256_on_write_control c Word (ctrl_word first False 0 False)) (r\<lparr>s256_block := swap4 blk\<rparr>) = (Ok (), r2)"
  proof -
    have "r\<lparr>s256_block := swap4 blk, s256_control := ctrl_word first False 0 False\<rparr> = r1" "s256_block r1 = swap4 blk"
      by (simp_all add: r1_def)
    then show ?thesis
      using wn r2(6) ctrl_word_bits(4) [of first False 0 False]
      by (simp add: mmio_def s256_on_write_control_def Let_def r2_def [symmetric])
  qed
  moreover have "wait_valid256 r2 = (Ok (), s256_complete r2)"
    using r2 by (intro wait_valid_complete not_valid_cleared)
  ultimately have "digest_block c blk first r = (Ok (), s256_complete r2)"
    using blk by (simp add: digest_block_def digest_op_def write_block_reg_def bindE_def concat_le32_be)
  moreover have "length (sha256_hash (s256_engine r2)) = 8"
    using c r r2(4) by (simp add: compress256_ok_def s256_idle_def HASH_IV_256_256_def)
  ultimately show ?thesis
    using s256_complete_shows [of r2] r2 r by (auto simp: s256_idle_def)
qed

interpretation sha256_hasher: block_hasher "sha256_engine c" c HASH_IV_256_256
  "\<lambda>r. compress256_ok c \<and> s256_idle r" "\<lambda>r. sha256_hash (s256_engine r)" "\<lambda>r. sha256_hash (s256_engine r)"
  s256_shows for c
  using digest_block_hashes by unfold_locales (simp_all add: sha256_engine_def split del: if_split cong: if_cong)

section \<open>Digests are SHA-256\<close>

definition sha256_ref :: "compress256 \<Rightarrow> u8 list \<Rightarrow> u32 list" where
  "sha256_ref c msg = sha_ref c 64 8 HASH_IV_256_256 msg"

lemma copy_digest_shows:
  assumes "s256_idle r" "s256_shows r"
  shows "copy_digest r = (Ok (sha256_hash (s256_engine r)), r)"
proof -
  have "map (\<lambda>i. from_le_bytes (take 4 (drop (4 * i) (concat (map le32 ws))))) [0..<8] = ws"
    if "length ws = 8" for ws :: "u32 list"
    using u8_to_u32_le_inverse [OF that] by (simp add: u8_to_u32_le_def u32_le_to_u8_def mult.commute)
  from this [of "sha256_hash (s256_engine r)"] show ?thesis
    using assms by (simp add: copy_digest_def s256_idle_def s256_shows_def)
qed

lemma sha256_digest_ref:
  assumes "compress256_ok c" "s256_idle r" "length msg \<le> SHA256_MAX_DATA_SIZE"
  shows "\<exists>t. sha256_digest c msg r = (Ok (sha256_ref c msg), t) \<and> s256_idle t"
proof -
  obtain t where t: "digest_loop (sha256_engine c) (length msg) msg True r = (Ok (), t)" "s256_idle t" "s256_shows t"
    "sha256_hash (s256_engine t) = sha256_ref c msg"
    using sha256_hasher.digest_loop_ref [of c r msg] assms(1,2) by (auto simp: sha256_ref_def sha256_engine_def)
  have "zeroize_internal c t = (Ok (), s256_zeroize (t\<lparr>s256_control := 8\<rparr>))"
    by (simp add: zeroize_internal_def mmio_def s256_on_write_control_def is_wntz_enabled_def hash_block_def
        s256_init_def s256_next_def bit_numeral_rec Let_def)
  moreover have "s256_idle (s256_zeroize (t\<lparr>s256_control := 8\<rparr>))"
    using t(2) by (simp add: s256_idle_def s256_zeroize_def s256_ready_def)
  ultimately show ?thesis
    using assms(3) t copy_digest_shows [OF t(2,3)] by (simp add: sha256_digest_def bindE_def failIf_def)
qed

text \<open>The operation object and the engine have taken in \<open>msg\<close>.\<close>

definition hashing :: "compress256 \<Rightarrow> u8 list \<Rightarrow> DigestOp \<Rightarrow> HashSha256 \<Rightarrow> bool" where
  "hashing c msg op r \<longleftrightarrow> sha256_hasher.holds c msg op r"

lemma hashing_init: "compress256_ok c \<Longrightarrow> s256_idle r \<Longrightarrow> hashing c [] sha256_digest_init r"
  using sha256_hasher.holds_new [of c r] by (simp add: hashing_def sha256_digest_init_def sha256_engine_def)

lemma hashing_update:
  assumes "hashing c msg op r" "length msg + length data \<le> SHA256_MAX_DATA_SIZE"
  shows "\<exists>op' t. sha256_update c data op r = (Ok op', t) \<and> hashing c (msg @ data) op' t"
proof -
  have "op_state op \<noteq> Final" "op_data_size op = length msg"
    using assms(1) by (auto simp: hashing_def sha256_hasher.holds_def split: if_splits)
  then show ?thesis
    using sha256_hasher.update_loop_holds [of c msg op r data] assms
    by (simp add: hashing_def sha256_update_def failIf_def)
qed

lemma hashing_finalize:
  assumes "hashing c msg op r"
  shows "\<exists>t. sha256_finalize c op r = (Ok (sha256_ref c msg), t) \<and> s256_idle t"
proof -
  obtain t where t: "finalize_op (sha256_engine c) op r = (Ok (), t)" "s256_idle t" "s256_shows t"
    "sha256_hash (s256_engine t) = sha256_ref c msg"
    using sha256_hasher.finalize_op_ref [of c msg op r] assms
    by (auto simp: hashing_def sha256_ref_def sha256_engine_def)
  then show ?thesis using copy_digest_shows [OF t(2,3)] by (simp add: sha256_finalize_def bindE_def)
qed

text \<open>Updates with several pieces of data in a row.\<close>

fun sha256_updates :: "compress256 \<Rightarrow> u8 list list \<Rightarrow> DigestOp \<Rightarrow> (HashSha256, DigestOp) action" where
  "sha256_updates c [] op = ret op"
| "sha256_updates c (data # parts) op = bindE (sha256_update c data op) (sha256_updates c parts)"

definition sha256_of :: "compress256 \<Rightarrow> u8 list list \<Rightarrow> (HashSha256, u32 list) action" where
  "sha256_of c parts = bindE (sha256_updates c parts sha256_digest_init) (sha256_finalize c)"

lemma hashing_updates:
  "hashing c msg op r \<Longrightarrow> length msg + length (concat parts) \<le> SHA256_MAX_DATA_SIZE \<Longrightarrow>
     \<exists>op' t. sha256_updates c parts op r = (Ok op', t) \<and> hashing c (msg @ concat parts) op' t"
proof (induction parts arbitrary: msg op r)
  case (Cons data parts)
  obtain op' t where t: "sha256_update c data op r = (Ok op', t)" "hashing c (msg @ data) op' t"
    using hashing_update [OF Cons.prems(1), of data] Cons.prems(2) by auto
  then show ?case using Cons.IH [OF t(2)] Cons.prems(2) by (simp add: bindE_def)
qed auto

lemma sha256_of_ref:
  assumes "compress256_ok c" "s256_idle r" "length (concat parts) \<le> SHA256_MAX_DATA_SIZE"
  shows "\<exists>t. sha256_of c parts r = (Ok (sha256_ref c (concat parts)), t) \<and> s256_idle t"
proof -
  obtain op t where "sha256_updates c parts sha256_digest_init r = (Ok op, t)" "hashing c (concat parts) op t"
    using hashing_updates [OF hashing_init [OF assms(1,2)], of parts] assms(3) by auto
  then show ?thesis using hashing_finalize by (simp add: sha256_of_def bindE_def)
qed

lemma length_sha256_ref: "compress256_ok c \<Longrightarrow> length (sha256_ref c msg) = 8"
proof -
  assume c: "compress256_ok c"
  have "length (absorb c 64 HASH_IV_256_256 k bs) = 8" for k bs
    using c by (induction k) (simp_all add: absorb_Suc compress256_ok_def HASH_IV_256_256_def)
  then show ?thesis by (simp add: sha256_ref_def sha_ref_def)
qed

section \<open>The Winternitz chain\<close>

text \<open>One step of the chain of RFC 8554 with a hash of \<open>n\<close> bytes, and the chain from \<open>a\<close> up to \<open>b\<close>.\<close>

definition wntz_hash :: "compress256 \<Rightarrow> nat \<Rightarrow> u8 list \<Rightarrow> u8 list" where
  "wntz_hash c n msg = take n (u32_be_to_u8 (sha256_ref c msg))"

definition wntz_chain :: "compress256 \<Rightarrow> nat \<Rightarrow> u8 list \<Rightarrow> nat \<Rightarrow> nat \<Rightarrow> u8 list \<Rightarrow> u8 list" where
  "wntz_chain c n prefix a b tmp =
     foldl (\<lambda>tmp j. wntz_hash c n (prefix @ [of_nat j] @ tmp)) tmp [a..<b]"

text \<open>A message that fits in one block with its padding.\<close>

definition one_block :: "u8 list \<Rightarrow> u8 list" where
  "one_block msg = msg @ [0x80] @ replicate (55 - length msg) 0 @ be_nat 8 (8 * length msg)"

lemma length_one_block [simp]: "length msg < 56 \<Longrightarrow> length (one_block msg) = 64"
  by (simp add: one_block_def)

lemma sha256_ref_one_block: "length msg < 56 \<Longrightarrow> sha256_ref c msg = c HASH_IV_256_256 (one_block msg)"
  by (simp add: sha256_ref_def sha_ref_tail tail_blocks_def one_block_def)

text \<open>The loop leaves the digest of the last message of the chain in the engine.\<close>

definition chain_state ::
  "compress256 \<Rightarrow> nat \<Rightarrow> u8 list \<Rightarrow> nat \<Rightarrow> u8 list \<Rightarrow> HashSha256 \<times> u8 list \<Rightarrow> bool" where
  "chain_state c n prefix j tmp s \<longleftrightarrow> (case s of (r, blk) \<Rightarrow>
     blk = one_block (prefix @ [of_nat j] @ tmp) \<and>
     sha256_hash (s256_engine r) = sha256_ref c (prefix @ [of_nat j] @ tmp) \<and>
     sha256_mode (s256_engine r) = Mode_Sha256 \<and> s256_mode_bits r = Mode_Sha256 \<and>
     s256_action r = Some 1000 \<and> \<not> s256_valid r \<and> length (s256_hash r) = 32)"

lemma swap_hash_into:
  assumes "length (sha256_hash sha) = 8" "sha256_mode sha = Mode_Sha256"
  shows "swap4 (Sha256_hash_into sha (replicate 32 0)) = u32_be_to_u8 (sha256_hash sha)"
proof -
  have "Sha256_hash_into sha (replicate 32 0) = concat (map le32 (sha256_hash sha))"
    using assms by (simp add: Sha256_hash_into_def Sha256_hash_len_def Let_def)
  also have "\<dots> = swap4 (u32_be_to_u8 (sha256_hash sha))"
    by (simp add: u32_be_to_u8_def swap4_concat_be32)
  finally show ?thesis by simp
qed

lemma one_block_update:
  assumes "length prefix = 22" "length tmp = n" "n = 24 \<or> n = 32" "length d = 32"
  shows "(let b = (one_block (prefix @ [x] @ tmp))[22 := y] in take 23 b @ take n d @ drop (23 + n) b) =
    one_block (prefix @ [y] @ take n d)"
proof -
  have "(one_block (prefix @ [x] @ tmp))[22 := y] = one_block (prefix @ [y] @ tmp)"
    using assms(1) by (simp add: one_block_def list_update_append)
  then show ?thesis using assms by (auto simp: one_block_def)
qed

lemma wntz_step_chain:
  assumes s: "chain_state c n prefix j tmp s" and j: "coeff \<le> j"
    and len: "length prefix = 22" "length tmp = n" "n = (if wntz_n_mode params then 32 else 24)"
    and c: "compress256_ok c"
  shows "chain_state c n prefix (Suc j) (wntz_hash c n (prefix @ [of_nat j] @ tmp))
    (wntz_step c params coeff s (Suc j))"
proof -
  obtain r blk where s': "s = (r, blk)" by fastforce
  let ?msg = "prefix @ [of_nat j] @ tmp" and ?next = "prefix @ [of_nat (Suc j)] @ wntz_hash c n (prefix @ [of_nat j] @ tmp)"
  have r: "blk = one_block ?msg" "sha256_hash (s256_engine r) = sha256_ref c ?msg"
    "sha256_mode (s256_engine r) = Mode_Sha256" "s256_mode_bits r = Mode_Sha256"
    "s256_action r = Some 1000" "\<not> s256_valid r" "length (s256_hash r) = 32"
    using s unfolding s' chain_state_def by simp_all
  have n: "n = 24 \<or> n = 32" using len(3) by auto
  have d: "swap4 (Sha256_hash_into (s256_engine r) (replicate 32 0)) = u32_be_to_u8 (sha256_ref c ?msg)"
    using swap_hash_into [of "s256_engine r"] r length_sha256_ref [OF c] by simp
  have blk: "(let b = blk[22 := of_nat (Suc j)] in
      take 23 b @ take n (u32_be_to_u8 (sha256_ref c ?msg)) @ drop (23 + n) b) = one_block ?next"
    unfolding r(1) wntz_hash_def
    using one_block_update [OF len(1,2) n, of "u32_be_to_u8 (sha256_ref c ?msg)" "of_nat j" "of_nat (Suc j)"]
      length_sha256_ref [OF c, of ?msg] by simp
  have short: "length ?next < 56" using len n length_sha256_ref [OF c, of ?msg] by (auto simp: wntz_hash_def)
  have step: "wntz_step c params coeff s (Suc j) =
      (r\<lparr>s256_engine := Sha256_update c (swap4 (one_block ?next)) (Sha256_reset Mode_Sha256 (s256_engine r)),
         s256_action := Some 1000\<rparr>, one_block ?next)"
    using blk j unfolding s' wntz_step_def by (simp add: Let_def d r(4) len(3) [symmetric])
  show ?thesis
    unfolding step chain_state_def
    using r sha256_ref_one_block [OF short, of c]
    by (simp add: Sha256_update_def Sha256_reset_def sha256_iv_def s256_mode_bits_def s256_valid_def)
qed

lemma length_wntz_chain:
  "compress256_ok c \<Longrightarrow> n \<le> 32 \<Longrightarrow> length tmp = n \<Longrightarrow> length (wntz_chain c n prefix a b tmp) = n"
  by (induction b) (simp_all add: wntz_chain_def wntz_hash_def length_sha256_ref min_absorb2)

lemma wntz_chain_Suc:
  "a \<le> b \<Longrightarrow> wntz_chain c n prefix a (Suc b) tmp = wntz_hash c n (prefix @ [of_nat b] @ wntz_chain c n prefix a b tmp)"
  by (simp add: wntz_chain_def)

lemma wntz_loop_chain:
  assumes r: "s256_block r = swap4 (one_block (prefix @ [of_nat a] @ tmp))" "s256_mode_bits r = Mode_Sha256"
      "length (s256_hash r) = 32"
    and len: "length prefix = 22" "length tmp = n" "n = (if wntz_n_mode params then 32 else 24)"
    and c: "compress256_ok c"
  shows "chain_state c n prefix (a + k) (wntz_chain c n prefix a (a + k) tmp)
    (foldl (wntz_step c params a) (r, one_block (prefix @ [of_nat a] @ tmp)) [a..<Suc (a + k)])"
proof (induction k)
  case 0
  have short: "length (prefix @ [of_nat a] @ tmp) < 56" using len by auto
  show ?case
    using r sha256_ref_one_block [OF short, of c]
    by (simp add: chain_state_def wntz_step_def wntz_chain_def Sha256_update_def Sha256_reset_def sha256_iv_def
        s256_mode_bits_def not_valid_cleared)
next
  case (Suc k)
  have "length (wntz_chain c n prefix a (a + k) tmp) = n"
    using c len by (intro length_wntz_chain) auto
  with wntz_step_chain [OF Suc.IH, where params = params and coeff = a] len c show ?case
    by (simp add: wntz_chain_Suc)
qed

lemma ctrl_word_wntz:
  assumes "w \<in> {1, 2, 4, 8}"
  shows "unat (drop_bit 5 (ctrl_word True True w n_mode) AND 15) = unat w"
  using assms by (auto simp: ctrl_word_def)

lemma digest_wntz_block_chain:
  fixes w :: u8
  defines "b \<equiv> 2 ^ unat w - 1"
  assumes c: "compress256_ok c" and r: "s256_idle r" and w: "w \<in> {1, 2, 4, 8}" and a: "unat a < b"
    and len: "length prefix = 22" "length tmp = n" "n = (if n_mode then 32 else 24)"
  shows "\<exists>t. digest_wntz_block c w n_mode (one_block (prefix @ [a] @ tmp)) True r = (Ok (), t) \<and>
    s256_idle t \<and> s256_shows t \<and>
    take n (u32_be_to_u8 (sha256_hash (s256_engine t))) = wntz_chain c n prefix (unat a) b tmp"
proof -
  define msg where "msg = prefix @ [a] @ tmp"
  have short: "length msg < 56" using len by (auto simp: msg_def)
  define r1 where "r1 = r\<lparr>s256_block := swap4 (one_block msg), s256_control := ctrl_word True True w n_mode\<rparr>"
  define params where "params = \<lparr>wntz_mode = True, wntz_w = unat w, wntz_n_mode = n_mode, wntz_init = True\<rparr>"
  obtain k where k: "b = Suc (unat a + k)" using a by (metis less_imp_Suc_add add_Suc_right)
  define s where "s = foldl (wntz_step c params (unat a)) (r1, one_block msg) [unat a..<b]"
  have bits: "s256_init r1" "s256_mode_bits r1 = Mode_Sha256"
    using ctrl_word_bits [of True True w n_mode] by (simp_all add: r1_def s256_init_def s256_mode_bits_def)
  have "chain_state c n prefix (unat a + k) (wntz_chain c n prefix (unat a) (unat a + k) tmp) s"
    unfolding s_def k msg_def
    using wntz_loop_chain [of r1 prefix "unat a" tmp n params c k] len c bits r
    by (simp add: r1_def msg_def params_def s256_idle_def)
  then obtain r2 blk where s2: "s = (r2, blk)" and r2: "s256_action r2 = Some 1000" "\<not> s256_valid r2"
    "sha256_hash (s256_engine r2) = sha256_ref c (prefix @ [of_nat (unat a + k)] @ wntz_chain c n prefix (unat a) (unat a + k) tmp)"
    "sha256_mode (s256_engine r2) = Mode_Sha256" "length (s256_hash r2) = 32"
    by (cases s) (auto simp: chain_state_def)
  have ctl: "s256_control (fst (foldl (wntz_step c p x) q js)) = s256_control (fst q)" for p x q js
    by (induction js arbitrary: q) (auto simp: wntz_step_def Let_def split: prod.splits)
  have "s256_control r2 = ctrl_word True True w n_mode"
    using ctl [of params "unat a" "(r1, one_block msg)" "[unat a..<b]"] s2 unfolding s_def by (simp add: r1_def)
  moreover have "is_wntz_enabled r1 = Inr params"
    using bits ctrl_word_bits [of True True w n_mode] ctrl_word_wntz [OF w, of n_mode] w
    by (auto simp: is_wntz_enabled_def Let_def params_def r1_def)
  moreover have "swap4 (s256_block r1) ! 22 = a"
    using len(1) by (simp add: r1_def one_block_def msg_def nth_append)
  ultimately have wr: "mmio (s256_on_write_control c Word (ctrl_word True True w n_mode))
      (r\<lparr>s256_block := swap4 (one_block msg)\<rparr>) = (Ok (), r2)"
    using s2 ctrl_word_bits(4) [of True True w n_mode]
    by (simp add: mmio_def s256_on_write_control_def Let_def r1_def [symmetric] params_def s_def b_def)
      (simp add: r1_def)
  have "wait_ready (r\<lparr>s256_block := swap4 (one_block msg)\<rparr>) = (Ok (), r\<lparr>s256_block := swap4 (one_block msg)\<rparr>)"
    using r by (intro wait_for_now) (simp add: s256_idle_def s256_ready_def)
  then have "digest_wntz_block c w n_mode (one_block msg) True r = (Ok (), s256_complete r2)"
    using wr wait_valid_complete [OF r2(1,2)] short
    by (simp add: digest_wntz_block_def digest_wntz_op_def write_block_reg_def bindE_def concat_le32_be)
  moreover have "take n (u32_be_to_u8 (sha256_hash (s256_engine r2))) = wntz_chain c n prefix (unat a) b tmp"
    unfolding k r2(3) by (subst wntz_chain_Suc) (simp_all add: wntz_hash_def)
  ultimately show ?thesis
    using s256_complete_shows [of r2] r2 length_sha256_ref [OF c] unfolding msg_def by auto
qed

lemma sha256_wntz_chain:
  fixes w :: u8
  assumes c: "compress256_ok c" and r: "s256_idle r" and w: "w \<in> {1, 2, 4, 8}"
    and a: "unat a < 2 ^ unat w - 1"
    and len: "length prefix = 22" "length tmp = n" "n = (if n_mode then 32 else 24)"
  shows "\<exists>t d. bindE (sha256_update_wntz c (prefix @ [a] @ tmp) w n_mode sha256_digest_init)
      (sha256_finalize_wntz c w n_mode) r = (Ok d, t) \<and> s256_idle t \<and> length d = 8 \<and>
    take n (u32_be_to_u8 d) = wntz_chain c n prefix (unat a) (2 ^ unat w - 1) tmp"
proof -
  let ?D = "sha256_wntz_engine c w n_mode" and ?msg = "prefix @ [a] @ tmp"
  have short: "length ?msg < 56" using len by auto
  obtain t where t: "digest_wntz_block c w n_mode (one_block ?msg) True r = (Ok (), t)"
    "s256_idle t" "s256_shows t"
    "take n (u32_be_to_u8 (sha256_hash (s256_engine t))) = wntz_chain c n prefix (unat a) (2 ^ unat w - 1) tmp"
    using digest_wntz_block_chain [OF c r w a len] by blast
  define op where "op = \<lparr>op_state = Init, op_buf = ?msg @ replicate (64 - length ?msg) 0,
    op_buf_idx = length ?msg, op_data_size = length ?msg\<rparr>"
  have "sha256_update_wntz c ?msg w n_mode sha256_digest_init r = (Ok op, r)"
    unfolding sha256_update_wntz_def
    using short update_loop_short [of "op_new 64" ?msg ?D r]
    by (simp add: sha256_digest_init_def op_new_def op_def failIf_def)
  moreover have "finalize_op ?D op r = digest_wntz_block c w n_mode (one_block ?msg) True r"
  proof -
    have blk: "set_block_len 64 8 (length ?msg) (?msg @ [0x80] @ replicate (64 - length ?msg - 1) 0) = one_block ?msg"
      using short by (simp add: set_block_len_def one_block_def min_absorb1 take_Cons')
    have "finalize_op ?D op r = partial_block ?D ?msg True (length ?msg) False r"
      by (simp add: finalize_op_def op_def is_first_def is_restore_def)
    also have "\<dots> = bindE (digest_wntz_block c w n_mode (one_block ?msg) True) (\<lambda>_. ret ()) r"
      using short blk by (simp add: partial_block_def sha256_wntz_engine_def sha256_engine_def Let_def)
    finally show ?thesis using t(1) by (simp add: bindE_def)
  qed
  ultimately show ?thesis
    using t copy_digest_shows [OF t(2,3)]
    by (auto simp: sha256_finalize_wntz_def bindE_def s256_idle_def)
qed

section \<open>What the driver guarantees\<close>

definition keep_hash256 :: compress256 where "keep_hash256 h blk = h"

lemma compress256_ok_keep: "compress256_ok keep_hash256"
  by (simp add: compress256_ok_def keep_hash256_def)

text \<open>C27: The driver computes SHA-256: from an idle engine, the one-shot digest of a message and the
  incremental digest of any pieces of it both return the SHA-256 digest of the message and leave the
  engine idle. The waits for the engine end.\<close>

theorem sha256_any_pieces:
  assumes "compress256_ok c" "s256_idle r" "length (concat parts) \<le> SHA256_MAX_DATA_SIZE"
  shows "(\<exists>t. sha256_digest c (concat parts) r = (Ok (sha256_ref c (concat parts)), t) \<and> s256_idle t) \<and>
    (\<exists>t. bindE (sha256_updates c parts sha256_digest_init) (sha256_finalize c) r =
      (Ok (sha256_ref c (concat parts)), t) \<and> s256_idle t)"
  using sha256_digest_ref [OF assms] sha256_of_ref [OF assms] by (simp add: sha256_of_def)

theorem sha256_any_pieces_witness:
  "\<exists>t. bindE (sha256_updates keep_hash256 [[1, 2], [3]] sha256_digest_init) (sha256_finalize keep_hash256) HashSha256_new =
      (Ok (sha256_ref keep_hash256 [1, 2, 3]), t) \<and> s256_idle t"
  using sha256_any_pieces [OF compress256_ok_keep s256_idle_new, of "[[1, 2], [3]]"] by simp

text \<open>C28: The Winternitz mode of the engine computes the chain of RFC 8554: one command with the prefix,
  the counter and the value returns, in its first bytes, the value after all remaining iterations of
  the chain.\<close>

theorem sha256_wntz_mode_chain:
  fixes w :: u8
  assumes "compress256_ok c" "s256_idle r" "w \<in> {1, 2, 4, 8}" "unat a < 2 ^ unat w - 1"
    and "length prefix = 22" "length tmp = n" "n = (if n_mode then 32 else 24)"
  shows "\<exists>t d. bindE (sha256_update_wntz c (prefix @ [a] @ tmp) w n_mode sha256_digest_init)
      (sha256_finalize_wntz c w n_mode) r = (Ok d, t) \<and> s256_idle t \<and>
    take n (u32_be_to_u8 d) = wntz_chain c n prefix (unat a) (2 ^ unat w - 1) tmp"
  using sha256_wntz_chain [OF assms] by blast

theorem sha256_wntz_mode_chain_witness:
  "\<exists>t d. bindE (sha256_update_wntz keep_hash256 (replicate 22 0 @ [3] @ replicate 24 0) 4 False sha256_digest_init)
      (sha256_finalize_wntz keep_hash256 4 False) HashSha256_new = (Ok d, t) \<and> s256_idle t \<and>
    take 24 (u32_be_to_u8 d) = wntz_chain keep_hash256 24 (replicate 22 0) 3 15 (replicate 24 0)"
  using sha256_wntz_mode_chain [OF compress256_ok_keep s256_idle_new, of 4 3 "replicate 22 0" "replicate 24 0" 24 False]
  by simp

end
