(* ===== verification/Lms.thy ===== *)
theory Lms
  imports Sha256Driver LmsTypes
begin

unbundle bit_operations_syntax

text \<open>
  LMS signature verification, \<^verbatim>\<open>drivers/src/lms.rs\<close>, on the SHA-256 driver. The const generics \<open>N\<close>,
  \<open>P\<close> and \<open>H\<close> are arguments where the code uses them. \<open>LmsCorrect\<close> shows that
  verification computes the candidate key of RFC 8554 (chains, leaf and path to the root), with the
  error code of the first check that fails, and leaves the hash engine idle.
\<close>

section \<open>Parameters\<close>

definition D_PBLC :: u16 where "D_PBLC = 0x8080"
definition D_MESG :: u16 where "D_MESG = 0x8181"
definition D_LEAF :: u16 where "D_LEAF = 0x8282"
definition D_INTR :: u16 where "D_INTR = 0x8383"

record Lms =
  kat_complete :: bool

definition kat_is_complete :: "Lms \<Rightarrow> bool" where
  "kat_is_complete self = kat_complete self"

definition mark_kat_complete :: "Lms \<Rightarrow> Lms" where
  "mark_kat_complete self = self\<lparr>kat_complete := True\<rparr>"

datatype LmsResult = LmsSuccess | LmsSigVerifyFailed

record LmotsParameter =
  algorithm_name :: LmotsAlgorithmType
  par_n :: u8
  par_w :: u8
  par_p :: u16
  par_ls :: u8

definition lmots :: "LmotsAlgorithmType \<Rightarrow> u8 \<Rightarrow> u8 \<Rightarrow> u16 \<Rightarrow> u8 \<Rightarrow> LmotsParameter" where
  "lmots a n w p ls = \<lparr>algorithm_name = a, par_n = n, par_w = w, par_p = p, par_ls = ls\<rparr>"

definition LMOTS_P :: "LmotsParameter list" where
  "LMOTS_P = [
     lmots LmotsReserved 0 0 0 0,
     lmots LmotsSha256N32W1 32 1 265 7,
     lmots LmotsSha256N32W2 32 2 133 6,
     lmots LmotsSha256N32W4 32 4 67 4,
     lmots LmotsSha256N32W8 32 8 34 0,
     lmots LmotsSha256N24W1 24 1 200 8,
     lmots LmotsSha256N24W2 24 2 101 6,
     lmots LmotsSha256N24W4 24 4 51 4,
     lmots LmotsSha256N24W8 24 8 26 0]"

definition get_lmots_parameters :: "LmotsAlgorithmType \<Rightarrow> LmotsParameter outcome" where
  "get_lmots_parameters algo_type =
     (case find (\<lambda>p. algorithm_name p = algo_type) LMOTS_P of
        Some p \<Rightarrow> Ok p | None \<Rightarrow> Err DRIVER_LMS_INVALID_LMOTS_ALGO_TYPE)"

definition get_lms_parameters :: "LmsAlgorithmType \<Rightarrow> (u8 \<times> u8) outcome" where
  "get_lms_parameters algo_type =
     (if algo_type = LmsSha256N32H5 then Ok (32, 5)
      else if algo_type = LmsSha256N32H10 then Ok (32, 10)
      else if algo_type = LmsSha256N32H15 then Ok (32, 15)
      else if algo_type = LmsSha256N32H20 then Ok (32, 20)
      else if algo_type = LmsSha256N32H25 then Ok (32, 25)
      else if algo_type = LmsSha256N24H5 then Ok (24, 5)
      else if algo_type = LmsSha256N24H10 then Ok (24, 10)
      else if algo_type = LmsSha256N24H15 then Ok (24, 15)
      else if algo_type = LmsSha256N24H20 then Ok (24, 20)
      else if algo_type = LmsSha256N24H25 then Ok (24, 25)
      else Err DRIVER_LMS_INVALID_LMS_ALGO_TYPE)"

section \<open>Coefficients and checksum\<close>

definition coefficient :: "u8 list \<Rightarrow> nat \<Rightarrow> nat \<Rightarrow> u8 outcome" where
  "coefficient s i w =
     (if w \<notin> {1, 2, 4, 8} then Err DRIVER_LMS_INVALID_WINTERNITS_PARAM
      else
        let bitmask = (push_bit w 1 - 1 :: u16);
            index = i * w div 8
        in if index \<ge> length s then Err DRIVER_LMS_INVALID_INDEX
           else
             let b = s ! index;
                 shift = (if w \<noteq> 0 then 8 - (w * (i mod (8 div w)) + w) else 8);
                 rs = (if shift < 8 then drop_bit shift b else 0)
             in Ok (ucast bitmask AND rs))"

definition checksum :: "LmotsAlgorithmType \<Rightarrow> u8 list \<Rightarrow> u16 outcome" where
  "checksum algo_type input_string =
     bindO (get_lmots_parameters algo_type) (\<lambda>params.
     if unat (par_w params) \<notin> {1, 2, 4, 8} then Err DRIVER_LMS_INVALID_WINTERNITS_PARAM
     else
       let upper_bound = (ucast (par_n params) * (8 div ucast (par_w params)) :: u16);
           bitmask = (push_bit (unat (par_w params)) 1 - 1 :: u16)
       in bindO (mapO (\<lambda>i. coefficient input_string i (unat (par_w params))) [0..<unat upper_bound]) (\<lambda>cs.
          Ok (push_bit (unat (par_ls params)) (sum_list (map (\<lambda>a. bitmask - ucast a) cs)))))"

section \<open>Verification\<close>

text \<open>\<^verbatim>\<open>HashValue::<N>::from(Array4x8)\<close> keeps the first \<open>N\<close> words.\<close>

definition hash_value :: "nat \<Rightarrow> u32 list \<Rightarrow> HashValue" where
  "hash_value N digest = take N digest"

definition hash_message ::
  "compress256 \<Rightarrow> nat \<Rightarrow> u8 list \<Rightarrow> LmsIdentifier \<Rightarrow> u8 list \<Rightarrow> u32 list \<Rightarrow> (HashSha256, HashValue) action" where
  "hash_message c N message lms_identifier q nonce =
     bindE (sha256_of c [lms_identifier, q, be16 D_MESG, enc_array le32 nonce, message]) (\<lambda>digest.
     ret (hash_value N digest))"

text \<open>The prefix buffer is shared by all chains; \<^verbatim>\<open>hash_chain\<close> writes the counter and the value into it.\<close>

definition hash_chain ::
  "compress256 \<Rightarrow> u8 list \<Rightarrow> u8 \<Rightarrow> LmotsParameter \<Rightarrow> HashValue \<Rightarrow> (HashSha256, HashValue \<times> u8 list) action" where
  "hash_chain c wnt_prefix coeff params tmp =
     (let N = length tmp;
          iteration_count = (ucast (push_bit (unat (par_w params)) 1 - 1 :: u16) :: u8)
      in if coeff < iteration_count
         then
           let wnt_prefix = wnt_prefix[22 := coeff];
               wnt_prefix = take 23 wnt_prefix @ u32_be_to_u8 tmp @ drop (23 + 4 * N) wnt_prefix;
               n_mode = (par_n params = 32)
           in bindE (sha256_update_wntz c (take (23 + N * 4) wnt_prefix) (par_w params) n_mode sha256_digest_init) (\<lambda>op.
              bindE (sha256_finalize_wntz c (par_w params) n_mode op) (\<lambda>digest.
              ret (hash_value N digest, wnt_prefix)))
         else ret (tmp, wnt_prefix))"

text \<open>The loop over the chains, from the chain \<open>i\<close> on.\<close>

fun ots_chains ::
  "compress256 \<Rightarrow> LmotsParameter \<Rightarrow> u8 list \<Rightarrow> nat \<Rightarrow> u32 list list \<Rightarrow> u8 list \<Rightarrow> (HashSha256, HashValue list) action" where
  "ots_chains c params digest_ck i [] chain_block = ret []"
| "ots_chains c params digest_ck i (y # ys) chain_block =
     bindE (liftO (coefficient digest_ck i (unat (par_w params)))) (\<lambda>a.
     let tmp = swap_bytes y;
         chain_block = take 20 chain_block @ be16 (of_nat i) @ drop 22 chain_block
     in bindE (hash_chain c chain_block a params tmp) (\<lambda>(z, chain_block).
        bindE (ots_chains c params digest_ck (i + 1) ys chain_block) (\<lambda>zs. ret (z # zs))))"

definition candidate_ots_signature ::
  "compress256 \<Rightarrow> nat \<Rightarrow> nat \<Rightarrow> LmsIdentifier \<Rightarrow> LmotsAlgorithmType \<Rightarrow> u8 list \<Rightarrow> u32 list list \<Rightarrow> HashValue \<Rightarrow>
     (HashSha256, HashValue) action" where
  "candidate_ots_signature c N P lms_identifier algo_type q y message_digest =
     bindE (liftO (get_lmots_parameters algo_type)) (\<lambda>params.
     bindE (failIf (unat (par_p params) \<noteq> P) DRIVER_LMS_INVALID_PVALUE) (\<lambda>_.
     bindE (failIf (par_n params > 32) DRIVER_LMS_INVALID_HASH_WIDTH) (\<lambda>_.
     bindE (failIf (unat (par_n params) \<noteq> N * 4) DRIVER_LMS_INVALID_HASH_WIDTH) (\<lambda>_.
     let buf = u32_be_to_u8 message_digest @ replicate (34 - 4 * N) 0 in
     bindE (liftO (checksum algo_type buf)) (\<lambda>checksum_q.
     let be_checksum = be16 checksum_q;
         buf = buf[N * 4 := be_checksum ! 0, N * 4 + 1 := be_checksum ! 1];
         chain_block = lms_identifier @ q @ replicate 35 0
     in bindE (ots_chains c params buf 0 y chain_block) (\<lambda>z.
        bindE (sha256_of c ([lms_identifier, q, be16 D_PBLC] @ concat (map (map be32) z))) (\<lambda>digest.
        ret (hash_value N digest))))))))"

text \<open>The climb from the leaf to the root; \<open>update_sibling\<close> is \<^verbatim>\<open>hasher.update(lms_sig.tree_path.get(i).ok_or(..)?)\<close>.\<close>

definition update_sibling ::
  "compress256 \<Rightarrow> u32 list list \<Rightarrow> nat \<Rightarrow> DigestOp \<Rightarrow> (HashSha256, DigestOp) action" where
  "update_sibling c tree_path i op =
     bindE (okOr (if i < length tree_path then Some (tree_path ! i) else None) DRIVER_LMS_PATH_OUT_OF_BOUNDS)
       (\<lambda>sibling. sha256_update c (enc_array le32 sibling) op)"

function climb ::
  "compress256 \<Rightarrow> nat \<Rightarrow> LmsIdentifier \<Rightarrow> u32 list list \<Rightarrow> nat \<Rightarrow> u32 \<Rightarrow> HashValue \<Rightarrow> (HashSha256, HashValue) action" where
  "climb c N ident tree_path i node_num temp =
     (if node_num > 1 then
        bindE (sha256_updates c [ident, be32 (node_num div 2), be16 D_INTR] sha256_digest_init) (\<lambda>op.
        bindE (if node_num mod 2 = 1 then update_sibling c tree_path i op else ret op) (\<lambda>op.
        bindE (sha256_updates c (map be32 temp) op) (\<lambda>op.
        bindE (if node_num mod 2 = 0 then update_sibling c tree_path i op else ret op) (\<lambda>op.
        bindE (sha256_finalize c op) (\<lambda>digest.
        climb c N ident tree_path (i + 1) (node_num div 2) (hash_value N digest))))))
      else ret temp)"
  by pat_completeness auto
termination
proof (relation "measure (\<lambda>(_, _, _, _, _, node_num, _). unat node_num)", goal_cases)
  case (2 c N ident tree_path i node_num temp op op' op'' op3 digest)
  then have "1 < unat node_num" by (simp add: word_less_nat_alt)
  then show ?case by (simp add: unat_div)
qed simp

declare climb.simps [simp del]

definition verify_lms_signature_cfi_generic ::
  "compress256 \<Rightarrow> nat \<Rightarrow> nat \<Rightarrow> nat \<Rightarrow> u8 list \<Rightarrow> LmsPublicKey \<Rightarrow> LmsSignature \<Rightarrow> (HashSha256, HashValue) action" where
  "verify_lms_signature_cfi_generic c N P H input_string pk sig =
     bindE (failIf (ots_type (sig_ots sig) \<noteq> pk_otstype pk)
              DRIVER_LMS_SIGNATURE_LMOTS_DOESNT_MATCH_PUBKEY_LMOTS) (\<lambda>_.
     let q_str = be32 (sig_q sig) in
     bindE (liftO (get_lms_parameters (sig_tree_type sig))) (\<lambda>(_, tree_height).
     bindE (failIf (unat tree_height \<noteq> H) DRIVER_LMS_INVALID_TREE_HEIGHT) (\<lambda>_.
     bindE (failIf (sig_q sig \<ge> push_bit H 1) DRIVER_LMS_INVALID_Q_VALUE) (\<lambda>_.
     let node_num = push_bit (unat tree_height) 1 + sig_q sig in
     bindE (failIf (node_num \<ge> push_bit (unat tree_height) 2) DRIVER_LMS_INVALID_Q_VALUE) (\<lambda>_.
     bindE (hash_message c N input_string (pk_id pk) q_str (ots_nonce (sig_ots sig))) (\<lambda>message_digest.
     bindE (candidate_ots_signature c N P (pk_id pk) (ots_type (sig_ots sig)) q_str (ots_y (sig_ots sig))
              message_digest) (\<lambda>candidate_key.
     bindE (failIf (unat tree_height \<notin> {5, 10, 15, 20, 25}) DRIVER_LMS_INVALID_TREE_HEIGHT) (\<lambda>_.
     bindE (sha256_of c ([pk_id pk, be32 node_num, be16 D_LEAF] @ map be32 candidate_key)) (\<lambda>digest.
     climb c N (pk_id pk) (sig_tree_path sig) 0 node_num (hash_value N digest))))))))))"

definition verify_lms_signature_cfi ::
  "compress256 \<Rightarrow> u8 list \<Rightarrow> LmsPublicKey \<Rightarrow> LmsSignature \<Rightarrow> (HashSha256, HashValue) action" where
  "verify_lms_signature_cfi c = verify_lms_signature_cfi_generic c 6 51 15"

definition verify_lms_signature_generic ::
  "compress256 \<Rightarrow> nat \<Rightarrow> nat \<Rightarrow> nat \<Rightarrow> u8 list \<Rightarrow> LmsPublicKey \<Rightarrow> LmsSignature \<Rightarrow> (HashSha256, LmsResult) action" where
  "verify_lms_signature_generic c N P H input_string pk sig =
     bindE (verify_lms_signature_cfi_generic c N P H input_string pk sig) (\<lambda>candidate_key.
     ret (if candidate_key \<noteq> swap_bytes (pk_digest pk) then LmsSigVerifyFailed else LmsSuccess))"

definition verify_lms_signature ::
  "compress256 \<Rightarrow> u8 list \<Rightarrow> LmsPublicKey \<Rightarrow> LmsSignature \<Rightarrow> (HashSha256, LmsResult) action" where
  "verify_lms_signature c input_string pk sig =
     bindE (verify_lms_signature_cfi c input_string pk sig) (\<lambda>candidate_key.
     ret (if candidate_key \<noteq> swap_bytes (pk_digest pk) then LmsSigVerifyFailed else LmsSuccess))"

end
