(* ===== verification/LmsCorrect.thy ===== *)
theory LmsCorrect
  imports Lms
begin

text \<open>
  The LMS driver against RFC 8554. The reference works on byte strings: the \<open>w\<close>-bit digits of a
  string read as a big-endian number, the checksum, the chains, the one-time public key and the
  hash path to the root.
\<close>

section \<open>Digits\<close>

definition be_value :: "u8 list \<Rightarrow> nat" where
  "be_value bs = foldl (\<lambda>v b. 256 * v + unat b) 0 bs"

definition digit :: "u8 list \<Rightarrow> nat \<Rightarrow> nat \<Rightarrow> nat" where
  "digit s i w = be_value s div 2 ^ (8 * length s - w * (i + 1)) mod 2 ^ w"

definition winternitz :: "nat \<Rightarrow> bool" where
  "winternitz w \<longleftrightarrow> w \<in> {1, 2, 4, 8}"

lemma be_value_Nil [simp]: "be_value [] = 0"
  by (simp add: be_value_def)

lemma be_value_snoc: "be_value (bs @ [b]) = 256 * be_value bs + unat b"
  by (simp add: be_value_def)

lemma be_value_append: "be_value (xs @ ys) = be_value xs * 256 ^ length ys + be_value ys"
proof (induction ys rule: rev_induct)
  case (snoc y ys)
  then show ?case
    using be_value_snoc [of "xs @ ys" y] by (simp add: be_value_snoc algebra_simps)
qed simp

lemma unat_u8_lt [simp]: "unat (b :: u8) < 256"
  using unsigned_less [of b, where ?'a = nat] by simp

lemma be_value_lt: "be_value bs < 256 ^ length bs"
proof (induction bs rule: rev_induct)
  case (snoc b bs)
  have "256 * be_value bs + unat b < 256 * (be_value bs + 1)" by simp
  also have "\<dots> \<le> 256 * 256 ^ length bs" using snoc by (intro mult_le_mono) simp_all
  finally show ?case by (simp add: be_value_snoc)
qed simp

lemma be_value_take: "k \<le> length s \<Longrightarrow> be_value s div 256 ^ (length s - k) = be_value (take k s)"
  using be_value_append [of "take k s" "drop k s"] be_value_lt [of "drop k s"] by simp

lemma digit_take:
  assumes "w * (i + 1) \<le> 8 * k" "k \<le> length s"
  shows "digit s i w = digit (take k s) i w"
proof -
  have e: "8 * length s - w * (i + 1) = 8 * (length s - k) + (8 * k - w * (i + 1))"
    using assms by simp
  have "be_value s div 2 ^ (8 * length s - w * (i + 1)) = be_value s div 256 ^ (length s - k) div 2 ^ (8 * k - w * (i + 1))"
    by (simp only: e power_add div_mult2_eq power_mult) simp
  then show ?thesis using assms by (simp add: digit_def be_value_take min_def)
qed

lemma digit_append: "w * (i + 1) \<le> 8 * length s \<Longrightarrow> digit (s @ t) i w = digit s i w"
  using digit_take [of w i "length s" "s @ t"] by simp

lemma digit_lt [simp]: "digit s i w < 2 ^ w"
  by (simp add: digit_def)

text \<open>A digit lies within one byte.\<close>

lemma digit_byte:
  assumes "w * m = 8" "j < m" "k < length s"
  shows "digit s (m * k + j) w = unat (s ! k) div 2 ^ (8 - (w * j + w)) mod 2 ^ w"
proof -
  have le: "w * j + w \<le> 8" using assms(1,2) mult_le_mono2 [of "j + 1" m w] by simp
  have "w * (m * k + j + 1) = 8 * k + (w * j + w)"
    by (simp add: algebra_simps assms(1) [symmetric])
  then have wle: "w * (m * k + j + 1) \<le> 8 * Suc k" "8 * Suc k - w * (m * k + j + 1) = 8 - (w * j + w)"
    using le by simp_all
  have v: "be_value (take (Suc k) s) = 256 * be_value (take k s) + unat (s ! k)"
    using assms(3) by (simp add: take_Suc_conv_app_nth be_value_snoc)
  have "digit s (m * k + j) w = be_value (take (Suc k) s) div 2 ^ (8 - (w * j + w)) mod 2 ^ w"
    using digit_take [OF wle(1)] assms(3) wle(2) by (simp add: digit_def min_def)
  also have "\<dots> = take_bit w (drop_bit (8 - (w * j + w)) (take_bit 8 (be_value (take (Suc k) s))))"
    using le by (simp add: take_bit_drop_bit take_bit_eq_mod [symmetric] drop_bit_eq_div [symmetric] min_def)
  also have "take_bit 8 (be_value (take (Suc k) s)) = unat (s ! k)"
    by (simp add: v take_bit_eq_mod)
  finally show ?thesis by (simp add: take_bit_eq_mod drop_bit_eq_div)
qed

lemma bitmask_u8: "winternitz w \<Longrightarrow> (ucast (push_bit w 1 - 1 :: u16) :: u8) = mask w"
  by (auto simp: winternitz_def mask_eq_exp_minus_1)

lemma coefficient_digit:
  assumes w: "winternitz w" and i: "i * w < 8 * length s"
  shows "coefficient s i w = Ok (of_nat (digit s i w))"
proof -
  define m where "m = 8 div w"
  define k where "k = i div m"
  define j where "j = i mod m"
  have m: "w * m = 8" "0 < m" using w by (auto simp: winternitz_def m_def)
  then have ij: "i = m * k + j" "j < m" by (simp_all add: k_def j_def)
  have k: "i * w div 8 = k"
    using m w by (auto simp: winternitz_def m_def k_def)
  have "k < length s" using i k by simp
  then have d: "digit s i w = unat (s ! k) div 2 ^ (8 - (w * j + w)) mod 2 ^ w"
    using digit_byte [OF m(1) ij(2), of k s] ij(1) by simp
  have jm: "w * (i mod m) + w \<le> 8" using m(1) ij(2) mult_le_mono2 [of "j + 1" m w] by (simp add: j_def)
  have w0: "0 < w" using w by (auto simp: winternitz_def)
  have "digit s i w = unat (take_bit w (drop_bit (8 - (w * j + w)) (s ! k)))"
    by (simp add: d unsigned_take_bit_eq unsigned_drop_bit_eq take_bit_nat_eq_self take_bit_eq_mod [symmetric]
        drop_bit_eq_div [symmetric])
  then have "of_nat (digit s i w) = take_bit w (drop_bit (8 - (w * j + w)) (s ! k))"
    by simp
  then show ?thesis
    using w k i jm w0 bitmask_u8 [OF w]
    by (simp add: coefficient_def winternitz_def Let_def m_def j_def take_bit_eq_mask and.commute less_mult_imp_div_less)
qed

section \<open>The reference\<close>

abbreviation nbytes :: "LmotsParameter \<Rightarrow> nat" where "nbytes p \<equiv> unat (par_n p)"
abbreviation wbits :: "LmotsParameter \<Rightarrow> nat" where "wbits p \<equiv> unat (par_w p)"
abbreviation nchains :: "LmotsParameter \<Rightarrow> nat" where "nchains p \<equiv> unat (par_p p)"

text \<open>\<^verbatim>\<open>Cksm\<close> of section 4.4 and the digits of the hash followed by its checksum.\<close>

definition rfc_cksm :: "LmotsParameter \<Rightarrow> u8 list \<Rightarrow> nat" where
  "rfc_cksm p Q = sum_list (map (\<lambda>i. 2 ^ wbits p - 1 - digit Q i (wbits p)) [0..<8 * nbytes p div wbits p]) * 2 ^ unat (par_ls p)"

definition rfc_coefs :: "LmotsParameter \<Rightarrow> u8 list \<Rightarrow> nat list" where
  "rfc_coefs p Q = map (\<lambda>i. digit (Q @ be_nat 2 (rfc_cksm p Q)) i (wbits p)) [0..<nchains p]"

definition rfc_chain_ends :: "compress256 \<Rightarrow> LmotsParameter \<Rightarrow> u8 list \<Rightarrow> nat \<Rightarrow> nat list \<Rightarrow> u8 list list \<Rightarrow> u8 list list" where
  "rfc_chain_ends c p pre i as ys =
     map (\<lambda>(k, a, y). wntz_chain c (nbytes p) (pre @ be_nat 2 k) a (2 ^ wbits p - 1) y) (enumerate i (zip as ys))"

text \<open>The one-time public key of algorithm 4b, with \<open>pre\<close> the identifier and the leaf number.\<close>

definition rfc_ots_key :: "compress256 \<Rightarrow> LmotsParameter \<Rightarrow> u8 list \<Rightarrow> u8 list \<Rightarrow> u8 list list \<Rightarrow> u8 list" where
  "rfc_ots_key c p pre Q ys =
     wntz_hash c (nbytes p) (pre @ be16 D_PBLC @ concat (rfc_chain_ends c p pre 0 (rfc_coefs p Q) ys))"

text \<open>The root of algorithm 6a from a node value and the siblings on its path.\<close>

fun rfc_root :: "compress256 \<Rightarrow> nat \<Rightarrow> u8 list \<Rightarrow> u8 list list \<Rightarrow> nat \<Rightarrow> u8 list \<Rightarrow> u8 list" where
  "rfc_root c n ident [] node tmp = tmp"
| "rfc_root c n ident (sibling # path) node tmp =
     rfc_root c n ident path (node div 2)
       (wntz_hash c n (ident @ be_nat 4 (node div 2) @ be16 D_INTR @
         (if odd node then sibling @ tmp else tmp @ sibling)))"

definition rfc_lms_key ::
  "compress256 \<Rightarrow> LmotsParameter \<Rightarrow> nat \<Rightarrow> u8 list \<Rightarrow> u8 list \<Rightarrow> nat \<Rightarrow> u8 list \<Rightarrow> u8 list list \<Rightarrow> u8 list list \<Rightarrow> u8 list" where
  "rfc_lms_key c p H msg ident q nonce ys path =
     (let n = nbytes p;
          pre = ident @ be_nat 4 q;
          Q = wntz_hash c n (pre @ be16 D_MESG @ nonce @ msg);
          leaf = 2 ^ H + q
      in rfc_root c n ident path leaf
           (wntz_hash c n (ident @ be_nat 4 leaf @ be16 D_LEAF @ rfc_ots_key c p pre Q ys)))"

section \<open>Checksum\<close>

text \<open>What the parameter table gives for the types other than the reserved one.\<close>

lemma lmots_parameters:
  assumes "get_lmots_parameters a = Ok p" "par_n p \<noteq> 0"
  shows "winternitz (wbits p)" "nbytes p \<in> {24, 32}" "nchains p * wbits p \<le> 8 * (nbytes p + 2)"
    "8 * nbytes p div wbits p * (2 ^ wbits p - 1) * 2 ^ unat (par_ls p) < 2 ^ 16"
    "unat (ucast (par_n p) * (8 div ucast (par_w p)) :: u16) = 8 * nbytes p div wbits p"
    "wbits p dvd 8 * nbytes p" "par_w p \<in> {1, 2, 4, 8}" "par_n p \<in> {24, 32}"
    "2 ^ unat (par_ls p) * 2 ^ (nchains p * wbits p) = (2 ^ (8 * nbytes p + 16) :: nat)"
    "8 * nbytes p \<le> nchains p * wbits p" "nchains p \<le> 265"
  using assms by (auto simp: get_lmots_parameters_def LMOTS_P_def lmots_def winternitz_def split: if_splits)

lemma lmots_width: "get_lmots_parameters a = Ok p \<Longrightarrow> \<not> 32 < par_n p"
  by (auto simp: get_lmots_parameters_def LMOTS_P_def lmots_def split: if_splits)

lemma sum_list_of_nat_u16:
  "sum_list (map (\<lambda>x. of_nat (f x)) xs) = (of_nat (sum_list (map f xs)) :: u16)"
  by (induction xs) simp_all

lemma unat_digit:
  assumes "winternitz w"
  shows "unat (of_nat (digit s i w) :: u8) = digit s i w"
proof -
  have "(2::nat) ^ w \<le> 2 ^ 8"
    using assms by (intro power_increasing) (auto simp: winternitz_def)
  then have "digit s i w < 2 ^ 8" using digit_lt by (rule less_le_trans [rotated])
  then show ?thesis by (simp add: unat_of_nat del: digit_lt)
qed

lemma bitmask_minus_digit:
  assumes "winternitz w"
  shows "2 ^ w - 1 - ucast (of_nat (digit s i w) :: u8) = (of_nat (2 ^ w - Suc (digit s i w)) :: u16)"
proof -
  have "ucast (of_nat (digit s i w) :: u8) = (of_nat (digit s i w) :: u16)"
    using unat_digit [OF assms, of s i] unsigned_of_nat [of "digit s i w", where ?'b = 8 and ?'a = u16]
    by (simp add: unat_of_nat take_bit_eq_mod of_nat_mod)
  then show ?thesis using of_nat_diff [OF Suc_leI [OF digit_lt], where ?'a = u16] by simp
qed

lemma checksum_ref:
  assumes p: "get_lmots_parameters a = Ok p" "par_n p \<noteq> 0" and len: "length Q = nbytes p"
  shows "checksum a (Q @ rest) = Ok (of_nat (rfc_cksm p Q))"
proof -
  note P = lmots_parameters [OF p]
  let ?w = "wbits p"
  have lt: "?w * (i + 1) \<le> 8 * length Q" if "i < 8 * nbytes p div ?w" for i
  proof -
    have "?w * (i + 1) \<le> ?w * (8 * nbytes p div ?w)" using that by (intro mult_le_mono2) simp
    then show ?thesis using P(6) len by simp
  qed
  have coef: "coefficient (Q @ rest) i ?w = Ok (of_nat (digit Q i ?w))" if "i < 8 * nbytes p div ?w" for i
  proof -
    have "0 < ?w" using P(1) by (auto simp: winternitz_def)
    then have "i * ?w < 8 * length (Q @ rest)" using lt [OF that] by (simp add: algebra_simps)
    then show ?thesis using coefficient_digit [OF P(1)] digit_append [OF lt [OF that]] by simp
  qed
  have "mapO (\<lambda>i. coefficient (Q @ rest) i ?w) [0..<8 * nbytes p div ?w] =
      Ok (map (\<lambda>i. of_nat (digit Q i ?w)) [0..<8 * nbytes p div ?w])"
    using coef by (intro mapO_Ok) simp
  then show ?thesis
    using p(1) P(1)
    by (simp add: checksum_def P(5) Let_def winternitz_def rfc_cksm_def comp_def push_bit_eq_mult
        bitmask_minus_digit [OF P(1)] sum_list_of_nat_u16 [symmetric])
qed

section \<open>Runs of the hash engine\<close>

text \<open>From every idle engine the operation ends with the given outcome, in an idle engine.\<close>

definition sha_run :: "(HashSha256, 'a) action \<Rightarrow> 'a outcome \<Rightarrow> bool" where
  "sha_run m y \<longleftrightarrow> (\<forall>r. s256_idle r \<longrightarrow> (\<exists>t. m r = (y, t) \<and> s256_idle t))"

lemma sha_runD: "sha_run m y \<Longrightarrow> s256_idle r \<Longrightarrow> \<exists>t. m r = (y, t) \<and> s256_idle t"
  by (simp add: sha_run_def)

lemma sha_run_pure:
  "sha_run (ret x) (Ok x)" "sha_run (liftO y) y" "sha_run (failIf b e) (if b then Err e else Ok ())"
  by (simp_all add: sha_run_def failIf_def)

lemma sha_run_bind:
  assumes m: "sha_run m y" and f: "\<And>x. y = Ok x \<Longrightarrow> sha_run (f x) (g x)"
  shows "sha_run (bindE m f) (bindO y g)"
  unfolding sha_run_def
proof (intro allI impI)
  fix r assume "s256_idle r"
  from sha_runD [OF m this] obtain t where t: "m r = (y, t)" "s256_idle t" by blast
  show "\<exists>t. bindE m f r = (bindO y g, t) \<and> s256_idle t"
  proof (cases y)
    case (Ok x)
    then show ?thesis using sha_runD [OF f [OF Ok] t(2)] t(1) by (simp add: bindE_def)
  qed (use t in \<open>simp_all add: bindE_def\<close>)
qed

lemma sha_run_Ok: "sha_run m (Ok x) \<Longrightarrow> sha_run (f x) y \<Longrightarrow> sha_run (bindE m f) y"
  using sha_run_bind [of m "Ok x" f "\<lambda>_. y"] by simp

lemma sha_run_of:
  assumes "compress256_ok c" "length (concat parts) \<le> SHA256_MAX_DATA_SIZE"
  shows "sha_run (sha256_of c parts) (Ok (sha256_ref c (concat parts)))"
  using sha256_of_ref [OF assms(1) _ assms(2)] by (simp add: sha_run_def)

lemma u32_be_to_u8_take: "u32_be_to_u8 (take N v) = take (4 * N) (u32_be_to_u8 v)"
proof (induction v arbitrary: N)
  case (Cons x v)
  then show ?case by (cases N) simp_all
qed simp

text \<open>The words of a digest and its bytes.\<close>

lemma hash_value_bytes:
  assumes "length d = 8" "N \<le> 8"
  shows "hash_value N d = u8_to_u32_be N (take (4 * N) (u32_be_to_u8 d))"
  using assms u8_to_u32_be_inverse [of "take N d" N] by (simp add: hash_value_def u32_be_to_u8_take)

lemma hash_value_ref:
  assumes "compress256_ok c" "N \<le> 8"
  shows "u32_be_to_u8 (hash_value N (sha256_ref c msg)) = wntz_hash c (4 * N) msg"
  by (simp add: hash_value_def wntz_hash_def u32_be_to_u8_take)

lemma length_wntz_hash [simp]: "compress256_ok c \<Longrightarrow> n \<le> 32 \<Longrightarrow> length (wntz_hash c n msg) = n"
  by (simp add: wntz_hash_def length_sha256_ref)

section \<open>Chains\<close>

lemma winternitz_exp: "winternitz w \<Longrightarrow> unat (ucast (push_bit w 1 - 1 :: u16) :: u8) = 2 ^ w - 1"
  by (auto simp: winternitz_def)

lemma take_Suc_update: "k < length xs \<Longrightarrow> take (Suc k) (xs[k := a]) = take k xs @ [a]"
  by (simp add: take_Suc_conv_app_nth)

lemma hash_chain_run:
  assumes c: "compress256_ok c" and p: "get_lmots_parameters t = Ok p" "par_n p \<noteq> 0"
    and N: "length tmp = N" "nbytes p = 4 * N" and a: "unat a \<le> 2 ^ wbits p - 1"
    and blk: "length blk = 55"
  shows "\<exists>blk'. length blk' = 55 \<and> take 20 blk' = take 20 blk \<and>
    sha_run (hash_chain c blk a p tmp)
      (Ok (u8_to_u32_be N (wntz_chain c (4 * N) (take 22 blk) (unat a) (2 ^ wbits p - 1) (u32_be_to_u8 tmp)), blk'))"
proof (cases "unat a < 2 ^ wbits p - 1")
  case False
  then have "wntz_chain c (4 * N) (take 22 blk) (unat a) (2 ^ wbits p - 1) (u32_be_to_u8 tmp) = u32_be_to_u8 tmp"
    using a by (simp add: wntz_chain_def)
  moreover have "\<not> a < ucast (push_bit (wbits p) 1 - 1 :: u16)"
    using False winternitz_exp [OF lmots_parameters(1) [OF p]] by (simp add: word_less_nat_alt)
  ultimately show ?thesis
    using blk N(1) by (auto simp: hash_chain_def sha_run_pure u8_to_u32_be_inverse Let_def intro!: exI [of _ blk])
next
  case True
  note P = lmots_parameters [OF p]
  have N8: "N \<le> 8" "23 + 4 * N \<le> 55" and mode: "4 * N = (if par_n p = 32 then 32 else 24)"
    using P(2,8) N(2) by auto
  let ?blk = "take 22 blk @ [a] @ u32_be_to_u8 tmp @ drop (23 + 4 * N) blk"
  have up: "take 23 (blk[22 := a]) = take 22 blk @ [a]" "drop (23 + 4 * N) (blk[22 := a]) = drop (23 + 4 * N) blk"
    using take_Suc_update [of 22 blk a] blk by simp_all
  have blk': "take (23 + N * 4) ?blk = take 22 blk @ [a] @ u32_be_to_u8 tmp"
    using blk N(1) N8 by simp
  have lt: "a < ucast (push_bit (wbits p) 1 - 1 :: u16)"
    using True winternitz_exp [OF P(1)] by (simp add: word_less_nat_alt)
  have "sha_run (hash_chain c blk a p tmp)
    (Ok (u8_to_u32_be N (wntz_chain c (4 * N) (take 22 blk) (unat a) (2 ^ wbits p - 1) (u32_be_to_u8 tmp)), ?blk))"
    unfolding sha_run_def
  proof (intro allI impI)
    fix r assume "s256_idle r"
    from sha256_wntz_chain [OF c this P(7) True, of "take 22 blk" "u32_be_to_u8 tmp" "4 * N" "par_n p = 32"]
    obtain t d where t: "bindE (sha256_update_wntz c (take 22 blk @ [a] @ u32_be_to_u8 tmp) (par_w p) (par_n p = 32)
        sha256_digest_init) (sha256_finalize_wntz c (par_w p) (par_n p = 32)) r = (Ok d, t)"
      "s256_idle t" "length d = 8"
      "take (4 * N) (u32_be_to_u8 d) = wntz_chain c (4 * N) (take 22 blk) (unat a) (2 ^ wbits p - 1) (u32_be_to_u8 tmp)"
      using blk N(1) mode by auto
    have "hash_chain c blk a p tmp r = (Ok (hash_value N d, ?blk), t)"
      using t(1) lt N(1) up blk'
      by (simp add: hash_chain_def Let_def bindE_assoc [symmetric] bindE_Ok del: take_append)
    then show "\<exists>t'. hash_chain c blk a p tmp r = (Ok (u8_to_u32_be N (wntz_chain c (4 * N) (take 22 blk)
        (unat a) (2 ^ wbits p - 1) (u32_be_to_u8 tmp)), ?blk), t') \<and> s256_idle t'"
      using t(2,3,4) N8(1) by (simp add: hash_value_bytes)
  qed
  then show ?thesis
    by (intro exI [of _ ?blk] conjI) (use blk N(1) N8 in simp_all)
qed

lemma rfc_chain_ends_Cons:
  "rfc_chain_ends c p pre i (a # as) (y # ys) =
     wntz_chain c (nbytes p) (pre @ be_nat 2 i) a (2 ^ wbits p - 1) y # rfc_chain_ends c p pre (Suc i) as ys"
  by (simp add: rfc_chain_ends_def)

lemma ots_chains_run:
  assumes c: "compress256_ok c" and p: "get_lmots_parameters t = Ok p" "par_n p \<noteq> 0" "nbytes p = 4 * N"
  shows "list_all (wf_words N) ys \<Longrightarrow> (i + length ys) * wbits p \<le> 8 * length S \<Longrightarrow>
    length blk = 55 \<Longrightarrow> take 20 blk = pre \<Longrightarrow>
    sha_run (ots_chains c p S i ys blk)
      (Ok (map (u8_to_u32_be N) (rfc_chain_ends c p pre i
        (map (\<lambda>k. digit S k (wbits p)) [i..<i + length ys]) (map (enc_array le32) ys))))"
proof (induction ys arbitrary: i blk)
  case Nil
  then show ?case by (simp add: rfc_chain_ends_def sha_run_def)
next
  case (Cons y ys)
  note w = lmots_parameters(1) [OF p(1,2)]
  let ?d = "digit S i (wbits p)" and ?blk = "take 20 blk @ be16 (of_nat i) @ drop 22 blk"
  have w0: "0 < wbits p" using w by (auto simp: winternitz_def)
  have "i * wbits p + wbits p \<le> (i + length (y # ys)) * wbits p" by (simp add: algebra_simps)
  then have i: "i * wbits p < 8 * length S" using Cons.prems(2) w0 by linarith
  have blk: "length ?blk = 55" "take 22 ?blk = pre @ be_nat 2 i" "take 20 ?blk = pre"
    using Cons.prems(3) by (simp_all add: be_bytes_of_nat Cons.prems(4) [symmetric])
  have y: "length (swap_bytes y) = N" using Cons.prems(1) by (simp add: wf_words_def)
  have d: "unat (of_nat ?d :: u8) \<le> 2 ^ wbits p - 1"
    using digit_lt [of S i "wbits p"] by (simp add: unat_digit [OF w] del: digit_lt)
  obtain blk' where blk': "length blk' = 55" "take 20 blk' = take 20 ?blk"
    "sha_run (hash_chain c ?blk (of_nat ?d) p (swap_bytes y))
      (Ok (u8_to_u32_be N (wntz_chain c (4 * N) (pre @ be_nat 2 i) ?d (2 ^ wbits p - 1) (enc_array le32 y)), blk'))"
    using hash_chain_run [OF c p(1,2) y p(3) d blk(1), unfolded blk(2) unat_digit [OF w] u32_be_to_u8_swap] by blast
  have "list_all (wf_words N) ys" "(Suc i + length ys) * wbits p \<le> 8 * length S" "take 20 blk' = pre"
    using Cons.prems(1,2) blk'(2) blk(3) by simp_all
  note IH = Cons.IH [OF this(1,2) blk'(1) this(3)]
  have up: "[i..<i + length (y # ys)] = i # [Suc i..<Suc i + length ys]"
    using upt_conv_Cons [of i "i + length (y # ys)"] by simp
  show ?case
    unfolding ots_chains.simps coefficient_digit [OF w i] Let_def Suc_eq_plus1 [symmetric]
    by (rule sha_run_Ok [OF sha_run_pure(2)], rule sha_run_Ok [OF blk'(3)], simp only: split_conv,
        rule sha_run_Ok [OF IH],
        simp only: up list.map rfc_chain_ends_Cons p(3) sha_run_pure(1))
qed

section \<open>The one-time key\<close>

lemma update_checksum:
  assumes "length Q = n" "length ck = 2" "length z = Suc (Suc k)"
  shows "(Q @ z)[n := ck ! 0, n + 1 := ck ! 1] = Q @ ck @ drop 2 z"
proof -
  obtain a b where ck: "ck = [a, b]" using assms(2) by (auto simp: length_Suc_conv eval_nat_numeral)
  obtain x y zs where "z = x # y # zs" using assms(3) by (auto simp: length_Suc_conv)
  then show ?thesis using assms(1) ck by (simp add: list_update_append)
qed

lemma length_rfc_chain_ends:
  assumes c: "compress256_ok c" and n: "nbytes p \<le> 32"
  shows "\<forall>y \<in> set ys. length y = nbytes p \<Longrightarrow> z \<in> set (rfc_chain_ends c p pre i as ys) \<Longrightarrow> length z = nbytes p"
  by (auto simp: rfc_chain_ends_def enumerate_eq_zip length_wntz_chain [OF c n] dest!: set_zip_rightD)

lemma concat_be_words:
  assumes "\<forall>z \<in> set zs. length z = 4 * N"
  shows "concat (concat (map (map be32) (map (u8_to_u32_be N) zs))) = concat zs"
proof -
  have "concat (map be32 (u8_to_u32_be N z)) = z" if "length z = 4 * N" for z
    using u32_be_to_u8_inverse [of z N] that by (simp add: u32_be_to_u8_def)
  then show ?thesis using assms by (induction zs) simp_all
qed

lemma length_concat_le: "\<forall>z \<in> set zs. length z = n \<Longrightarrow> length (concat zs) = n * length zs"
  by (induction zs) simp_all

definition ots_key_ref ::
  "compress256 \<Rightarrow> nat \<Rightarrow> nat \<Rightarrow> LmotsAlgorithmType \<Rightarrow> u8 list \<Rightarrow> u8 list \<Rightarrow> u32 list list \<Rightarrow> u8 list outcome" where
  "ots_key_ref c N P a pre Q ys =
     bindO (get_lmots_parameters a) (\<lambda>p.
     if nchains p \<noteq> P then Err DRIVER_LMS_INVALID_PVALUE
     else if nbytes p \<noteq> 4 * N then Err DRIVER_LMS_INVALID_HASH_WIDTH
     else Ok (rfc_ots_key c p pre Q (map (enc_array le32) ys)))"

lemma ots_chains_checksum_run:
  assumes c: "compress256_ok c" and p: "get_lmots_parameters t = Ok p" "par_n p \<noteq> 0" "nbytes p = 4 * N"
    and ys: "list_all (wf_words N) ys" "length ys = nchains p" and Q: "length Q = 4 * N" and pre: "length pre = 20"
  shows "sha_run (ots_chains c p (Q @ be16 (of_nat (rfc_cksm p Q)) @ zs) 0 ys (pre @ replicate 35 0))
    (Ok (map (u8_to_u32_be N) (rfc_chain_ends c p pre 0 (rfc_coefs p Q) (map (enc_array le32) ys))))"
proof -
  note P = lmots_parameters [OF p(1,2)]
  let ?S = "Q @ be_nat 2 (rfc_cksm p Q)"
  have lt: "wbits p * (k + 1) \<le> 8 * length ?S" if "k < nchains p" for k
  proof -
    have "wbits p * (k + 1) \<le> wbits p * nchains p" using that by (intro mult_le_mono2) simp
    then show ?thesis using P(3) Q p(3) by (simp add: mult.commute)
  qed
  have "digit (?S @ zs) k (wbits p) = digit ?S k (wbits p)" if "k < nchains p" for k
    using digit_append [OF lt [OF that]] .
  then have "rfc_coefs p Q = map (\<lambda>k. digit (?S @ zs) k (wbits p)) [0..<0 + length ys]"
    by (simp add: rfc_coefs_def ys(2) del: append_assoc)
  moreover have "(0 + length ys) * wbits p \<le> 8 * length (?S @ zs)"
    using P(3) Q p(3) ys(2) by simp
  ultimately show ?thesis
    using ots_chains_run [OF c p ys(1), of 0 "?S @ zs" "pre @ replicate 35 0" pre] pre
    by (simp add: be_bytes_of_nat)
qed

lemma liftO_outcome: "liftO (Ok x) = ret x" "liftO (Err e) = throw e"
  by (simp_all add: fun_eq_iff)

lemma candidate_ots_signature_unfold:
  assumes p: "get_lmots_parameters a = Ok p" "par_n p \<noteq> 0" "nbytes p = 4 * N" "nchains p = P"
    and len: "length md = N"
  shows "candidate_ots_signature c N P ident a q ys md =
    bindE (ots_chains c p (u32_be_to_u8 md @ be16 (of_nat (rfc_cksm p (u32_be_to_u8 md))) @ drop 2 (replicate (34 - 4 * N) 0))
      0 ys (ident @ q @ replicate 35 0)) (\<lambda>z.
    bindE (sha256_of c ([ident, q, be16 D_PBLC] @ concat (map (map be32) z))) (\<lambda>digest. ret (hash_value N digest)))"
proof -
  let ?Q = "u32_be_to_u8 md"
  have "4 * N \<le> 32" using lmots_parameters(2) [OF p(1,2)] p(3) by auto
  then have buf: "(?Q @ replicate (34 - 4 * N) 0)[N * 4 := be16 ck ! 0, N * 4 + 1 := be16 ck ! 1] =
      ?Q @ be16 ck @ drop 2 (replicate (34 - 4 * N) 0)" for ck
    using len by (intro update_checksum [where k = "32 - 4 * N"]) simp_all
  have cks: "checksum a (?Q @ replicate (34 - 4 * N) 0) = Ok (of_nat (rfc_cksm p ?Q))"
    using checksum_ref [OF p(1,2), of ?Q] len p(3) by simp
  have n: "\<not> nbytes p \<noteq> N * 4" "\<not> nchains p \<noteq> P" using p(3,4) by simp_all
  show ?thesis
    unfolding candidate_ots_signature_def p(1) liftO_outcome bindE_ret
    by (simp only: n lmots_width [OF p(1)] if_False failIf_False bindE_ret Let_def cks liftO_outcome buf)
qed

lemma candidate_ots_signature_run:
  assumes c: "compress256_ok c" and N: "0 < N" and ys: "list_all (wf_words N) ys" "length ys = P"
    and len: "length md = N" "length ident = 16" "length q = 4"
  shows "sha_run (candidate_ots_signature c N P ident a q ys md)
    (bindO (ots_key_ref c N P a (ident @ q) (u32_be_to_u8 md) ys) (\<lambda>k. Ok (u8_to_u32_be N k)))"
proof (cases "get_lmots_parameters a")
  case (Ok p)
  show ?thesis
  proof (cases "nchains p = P \<and> nbytes p = 4 * N")
    case True
    then have p: "get_lmots_parameters a = Ok p" "par_n p \<noteq> 0" "nbytes p = 4 * N" "nchains p = P"
      using N Ok by auto
    note PP = lmots_parameters [OF p(1,2)]
    let ?Q = "u32_be_to_u8 md" and ?ys = "map (enc_array le32) ys"
    let ?zs = "rfc_chain_ends c p (ident @ q) 0 (rfc_coefs p ?Q) ?ys"
    have N8: "N \<le> 8" "4 * N \<le> 32" using PP(2) p(3) by auto
    have y: "\<forall>y \<in> set ?ys. length y = nbytes p"
      using ys(1) p(3) by (auto simp: list_all_iff wf_words_def enc_array_def length_concat comp_def sum_list_triv)
    have z: "\<forall>z \<in> set ?zs. length z = 4 * N"
      using length_rfc_chain_ends [OF c _ y] p(3) N8 by simp
    have zl: "length ?zs \<le> P" by (simp add: rfc_chain_ends_def ys(2))
    have "length (concat ?zs) \<le> 32 * 265"
      using length_concat_le [OF z] zl N8 PP(11) p(4) mult_le_mono [of "4 * N" 32 "length ?zs" 265] by simp
    then have ends: "length (concat ([ident, q, be16 D_PBLC] @ concat (map (map be32) (map (u8_to_u32_be N) ?zs)))) \<le> SHA256_MAX_DATA_SIZE"
      using len concat_be_words [OF z] by simp
    have key: "hash_value N (sha256_ref c (concat ([ident, q, be16 D_PBLC] @ concat (map (map be32) (map (u8_to_u32_be N) ?zs))))) =
        u8_to_u32_be N (rfc_ots_key c p (ident @ q) ?Q ?ys)"
      using N8(1) concat_be_words [OF z] p(3)
      by (simp add: hash_value_bytes length_sha256_ref [OF c] rfc_ots_key_def wntz_hash_def)
    have chains: "sha_run (ots_chains c p (?Q @ be16 (of_nat (rfc_cksm p ?Q)) @ zs) 0 ys (ident @ q @ replicate 35 0))
        (Ok (map (u8_to_u32_be N) ?zs))" for zs
      using ots_chains_checksum_run [OF c p(1,2,3) ys(1), of ?Q "ident @ q" zs] ys(2) p(4) len by simp
    have "sha_run (candidate_ots_signature c N P ident a q ys md) (Ok (u8_to_u32_be N (rfc_ots_key c p (ident @ q) ?Q ?ys)))"
      unfolding candidate_ots_signature_unfold [OF p len(1)]
      by (intro sha_run_Ok [OF chains] sha_run_Ok [OF sha_run_of [OF c ends]]) (simp only: key sha_run_pure(1))
    then show ?thesis using p by (simp add: ots_key_ref_def)
  next
    case False
    then show ?thesis
      using Ok lmots_width [OF Ok]
      by (auto simp: candidate_ots_signature_def ots_key_ref_def sha_run_def bindE_def failIf_def)
  qed
qed (simp_all add: candidate_ots_signature_def ots_key_ref_def sha_run_def bindE_def)

section \<open>The path to the root\<close>

lemma sha256_updates_append:
  "sha256_updates c (xs @ ys) op = bindE (sha256_updates c xs op) (sha256_updates c ys)"
proof (induction xs arbitrary: op)
  case (Cons x xs)
  then have "sha256_updates c (xs @ ys) = (\<lambda>op. bindE (sha256_updates c xs op) (sha256_updates c ys))" by blast
  then show ?case by (simp add: bindE_assoc)
qed simp

lemma sha256_updates_single: "sha256_updates c [x] op = sha256_update c x op"
  by (simp add: fun_eq_iff bindE_def split: prod.split outcome.split)

lemma u32_parity: "node mod 2 = (1 :: u32) \<longleftrightarrow> odd (unat node)" "node mod 2 = (0 :: u32) \<longleftrightarrow> even (unat node)"
  by (simp_all add: word_unat_eq_iff unat_mod odd_iff_mod_2_eq_one even_iff_mod_2_eq_zero)

lemma climb_step:
  assumes "1 < node" "i < length path"
  shows "climb c N ident path i node temp =
    bindE (sha256_of c ([ident, be32 (node div 2), be16 D_INTR] @
      (if odd (unat node) then enc_array le32 (path ! i) # map be32 temp
       else map be32 temp @ [enc_array le32 (path ! i)])))
      (\<lambda>digest. climb c N ident path (i + 1) (node div 2) (hash_value N digest))"
proof -
  have sib: "update_sibling c path i op = sha256_update c (enc_array le32 (path ! i)) op" for op
    using assms(2) by (simp add: update_sibling_def okOr_def)
  show ?thesis
  proof (cases "odd (unat node)")
    case True
    then show ?thesis using assms(1)
      by (subst climb.simps)
        (simp only: sib u32_parity not_False_eq_True if_True if_False sha256_of_def sha256_updates_append
          sha256_updates.simps bindE_assoc bindE_ret)
  next
    case False
    then show ?thesis using assms(1)
      by (subst climb.simps)
        (simp only: sib u32_parity if_True if_False not_not not_True_eq_False sha256_of_def sha256_updates_append
          sha256_updates_single sha256_updates.simps bindE_assoc bindE_ret)
  qed
qed

lemma be32_unat: "be32 w = be_nat 4 (unat w)"
  using be_bytes_of_nat [where ?'a = 32, of 4 "unat w"] by simp

lemma length_enc_array_le32: "length (enc_array le32 ws) = 4 * length ws"
  by (simp add: enc_array_def length_concat comp_def sum_list_triv)

lemma climb_run:
  assumes c: "compress256_ok c" and N: "N \<le> 8" and ident: "length ident = 16"
    and path: "list_all (wf_words N) path"
  shows "length path - i = k \<Longrightarrow> i \<le> length path \<Longrightarrow> 2 ^ k \<le> unat node \<Longrightarrow> unat node < 2 * 2 ^ k \<Longrightarrow> length temp = N \<Longrightarrow>
    sha_run (climb c N ident path i node temp)
      (Ok (u8_to_u32_be N (rfc_root c (4 * N) ident (map (enc_array le32) (drop i path)) (unat node) (u32_be_to_u8 temp))))"
proof (induction k arbitrary: i node temp)
  case 0
  then have "node = 1" "drop i path = []" by (simp_all add: word_unat_eq_iff)
  then show ?case
    using 0 by (subst climb.simps) (simp add: u8_to_u32_be_inverse sha_run_def)
next
  case (Suc k)
  let ?sib = "enc_array le32 (path ! i)"
  let ?parts = "[ident, be32 (node div 2), be16 D_INTR] @
      (if odd (unat node) then ?sib # map be32 temp else map be32 temp @ [?sib])"
  let ?msg = "ident @ be_nat 4 (unat node div 2) @ be16 D_INTR @
      (if odd (unat node) then ?sib @ u32_be_to_u8 temp else u32_be_to_u8 temp @ ?sib)"
  have i: "i < length path" using Suc.prems(1) by simp
  have n2: "2 \<le> unat node" using Suc.prems(3) one_le_power [of "2::nat" k] unfolding power_Suc by linarith
  then have n1: "1 < node" by (simp add: word_less_nat_alt)
  have half: "be32 (node div 2) = be_nat 4 (unat node div 2)" "unat (node div 2) = unat node div 2"
    using be32_unat [of "node div 2"] by (simp_all add: unat_div)
  have msg: "concat ?parts = ?msg" by (simp add: half(1) u32_be_to_u8_def)
  have sib: "length ?sib = 4 * N"
    using path i by (simp add: length_enc_array_le32 list_all_length wf_words_def)
  have len: "length (concat ?parts) \<le> SHA256_MAX_DATA_SIZE"
    unfolding msg using sib ident Suc.prems(5) N by simp
  have temp: "hash_value N (sha256_ref c ?msg) = u8_to_u32_be N (wntz_hash c (4 * N) ?msg)"
    using N by (simp add: hash_value_bytes length_sha256_ref [OF c] wntz_hash_def)
  have bytes: "u32_be_to_u8 (hash_value N (sha256_ref c ?msg)) = wntz_hash c (4 * N) ?msg"
    using N by (rule hash_value_ref [OF c])
  have ln: "length (hash_value N (sha256_ref c ?msg)) = N" by (simp only: temp length_u8_to_u32)
  have k: "length path - (i + 1) = k" "i + 1 \<le> length path" "2 ^ k \<le> unat (node div 2)" "unat (node div 2) < 2 * 2 ^ k"
    using Suc.prems i by (simp_all add: half(2) less_mult_imp_div_less)
  have d: "drop i path = path ! i # drop (i + 1) path" using i by (simp add: Cons_nth_drop_Suc)
  show ?case
    unfolding climb_step [OF n1 i] d
    using Suc.IH [OF k ln] unfolding bytes half(2)
    by (intro sha_run_Ok [OF sha_run_of [OF c len]]) (simp only: msg list.map rfc_root.simps)
qed

section \<open>Verification\<close>

text \<open>The candidate key of a signature, with the error of the first check that fails.\<close>

definition lms_ref ::
  "compress256 \<Rightarrow> nat \<Rightarrow> nat \<Rightarrow> nat \<Rightarrow> u8 list \<Rightarrow> LmsPublicKey \<Rightarrow> LmsSignature \<Rightarrow> HashValue outcome" where
  "lms_ref c N P H msg pk sig =
     (if ots_type (sig_ots sig) \<noteq> pk_otstype pk then Err DRIVER_LMS_SIGNATURE_LMOTS_DOESNT_MATCH_PUBKEY_LMOTS
      else bindO (get_lms_parameters (sig_tree_type sig)) (\<lambda>(_, h).
        if unat h \<noteq> H then Err DRIVER_LMS_INVALID_TREE_HEIGHT
        else if 2 ^ H \<le> unat (sig_q sig) then Err DRIVER_LMS_INVALID_Q_VALUE
        else bindO (get_lmots_parameters (ots_type (sig_ots sig))) (\<lambda>p.
          if nchains p \<noteq> P then Err DRIVER_LMS_INVALID_PVALUE
          else if nbytes p \<noteq> 4 * N then Err DRIVER_LMS_INVALID_HASH_WIDTH
          else Ok (u8_to_u32_be N (rfc_lms_key c p H msg (pk_id pk) (unat (sig_q sig))
            (enc_array le32 (ots_nonce (sig_ots sig))) (map (enc_array le32) (ots_y (sig_ots sig)))
            (map (enc_array le32) (sig_tree_path sig)))))))"

lemma lms_heights: "get_lms_parameters t = Ok (n, h) \<Longrightarrow> unat h \<in> {5, 10, 15, 20, 25}"
  by (auto simp: get_lms_parameters_def split: if_splits)

lemma node_num_bounds:
  assumes "unat h \<in> {5, 10, 15, 20, 25}" "unat q < 2 ^ unat h"
  shows "unat (push_bit (unat h) 1 + q :: u32) = 2 ^ unat h + unat q"
    "\<not> push_bit (unat h) 2 \<le> (push_bit (unat h) 1 + q :: u32)"
proof -
  have p: "unat (push_bit (unat h) 1 :: u32) = 2 ^ unat h" "unat (push_bit (unat h) 2 :: u32) = 2 * 2 ^ unat h"
    "2 ^ unat h \<le> (2 ^ 25 :: nat)"
    using assms(1) by (auto simp: push_bit_eq_mult)
  have "unat (push_bit (unat h) 1 :: u32) + unat q < 2 ^ LENGTH(32)" using assms(2) p by simp
  from unat_add_no_overflow [OF this] show s: "unat (push_bit (unat h) 1 + q :: u32) = 2 ^ unat h + unat q"
    using p by simp
  show "\<not> push_bit (unat h) 2 \<le> (push_bit (unat h) 1 + q :: u32)"
    unfolding word_le_nat_alt s p using assms(2) by simp
qed

lemma hash_message_run:
  assumes c: "compress256_ok c" and N: "N \<le> 8" "length nonce = N" "length ident = 16" "length q = 4"
    and msg: "length msg \<le> 1000000"
  shows "sha_run (hash_message c N msg ident q nonce)
    (Ok (u8_to_u32_be N (wntz_hash c (4 * N) (ident @ q @ be16 D_MESG @ enc_array le32 nonce @ msg))))"
proof -
  let ?parts = "[ident, q, be16 D_MESG, enc_array le32 nonce, msg]"
  have len: "length (concat ?parts) \<le> SHA256_MAX_DATA_SIZE"
    using N msg by (simp add: length_enc_array_le32)
  have "hash_value N (sha256_ref c (concat ?parts)) =
      u8_to_u32_be N (wntz_hash c (4 * N) (ident @ q @ be16 D_MESG @ enc_array le32 nonce @ msg))"
    using N(1) by (simp add: hash_value_bytes length_sha256_ref [OF c] wntz_hash_def)
  then show ?thesis
    unfolding hash_message_def
    by (intro sha_run_Ok [OF sha_run_of [OF c len]]) (simp only: sha_run_pure(1))
qed

text \<open>The leaf and the path, from the one-time key.\<close>

lemma leaf_to_root_run:
  assumes c: "compress256_ok c" and N: "N \<le> 8" and ident: "length ident = 16"
    and path: "list_all (wf_words N) path" "length path = H" and node: "unat node = 2 ^ H + q" "q < 2 ^ H"
    and k: "length k = 4 * N"
  shows "sha_run (bindE (sha256_of c ([ident, be32 node, be16 D_LEAF] @ map be32 (u8_to_u32_be N k)))
      (\<lambda>digest. climb c N ident path 0 node (hash_value N digest)))
    (Ok (u8_to_u32_be N (rfc_root c (4 * N) ident (map (enc_array le32) path) (2 ^ H + q)
      (wntz_hash c (4 * N) (ident @ be_nat 4 (2 ^ H + q) @ be16 D_LEAF @ k)))))"
proof -
  let ?parts = "[ident, be32 node, be16 D_LEAF] @ map be32 (u8_to_u32_be N k)"
  let ?msg = "ident @ be_nat 4 (2 ^ H + q) @ be16 D_LEAF @ k"
  have msg: "concat ?parts = ?msg"
    using u32_be_to_u8_inverse [of k N] k node(1) by (simp add: u32_be_to_u8_def be32_unat)
  have len: "length (concat ?parts) \<le> SHA256_MAX_DATA_SIZE"
    unfolding msg using ident k N by simp
  have ln: "length (hash_value N (sha256_ref c ?msg)) = N"
    using N by (simp add: hash_value_def length_sha256_ref [OF c])
  have climb: "length path - 0 = H" "0 \<le> length path" "2 ^ H \<le> unat node" "unat node < 2 * 2 ^ H"
    using path(2) node by simp_all
  show ?thesis
    using climb_run [OF c N ident path(1) climb ln] hash_value_ref [OF c N, of ?msg]
    by (intro sha_run_Ok [OF sha_run_of [OF c len]], unfold msg) (simp add: node(1))
qed

lemma length_rfc_ots_key: "compress256_ok c \<Longrightarrow> nbytes p \<le> 32 \<Longrightarrow> length (rfc_ots_key c p pre Q ys) = nbytes p"
  by (simp add: rfc_ots_key_def)

lemma verify_tail_run:
  assumes c: "compress256_ok c" and N: "0 < N" "N \<le> 8" and ident: "length ident = 16" and H: "length path = H"
    and path: "list_all (wf_words N) path" and node: "unat node = 2 ^ H + unat q" "unat q < 2 ^ H"
    and ys: "list_all (wf_words N) ys" "length ys = P" and Q: "length Q = 4 * N"
  shows "sha_run (bindE (candidate_ots_signature c N P ident a (be32 q) ys (u8_to_u32_be N Q)) (\<lambda>key.
      bindE (sha256_of c ([ident, be32 node, be16 D_LEAF] @ map be32 key)) (\<lambda>digest.
      climb c N ident path 0 node (hash_value N digest))))
    (bindO (ots_key_ref c N P a (ident @ be_nat 4 (unat q)) Q ys) (\<lambda>k.
      Ok (u8_to_u32_be N (rfc_root c (4 * N) ident (map (enc_array le32) path) (2 ^ H + unat q)
        (wntz_hash c (4 * N) (ident @ be_nat 4 (2 ^ H + unat q) @ be16 D_LEAF @ k))))))"
proof -
  have cand: "sha_run (candidate_ots_signature c N P ident a (be32 q) ys (u8_to_u32_be N Q))
      (bindO (ots_key_ref c N P a (ident @ be_nat 4 (unat q)) Q ys) (\<lambda>k. Ok (u8_to_u32_be N k)))"
    using candidate_ots_signature_run [OF c N(1) ys, of "u8_to_u32_be N Q" ident "be32 q" a] ident Q
    by (simp add: u32_be_to_u8_inverse be32_unat [of q])
  show ?thesis
  proof (cases "ots_key_ref c N P a (ident @ be_nat 4 (unat q)) Q ys")
    case (Ok k)
    then have "length k = 4 * N"
      using N by (auto simp: ots_key_ref_def bindO_eq_Ok length_rfc_ots_key [OF c] split: if_splits)
    from leaf_to_root_run [OF c N(2) ident path H node this] show ?thesis
      using cand Ok by (auto intro: sha_run_Ok)
  qed (use sha_run_bind [OF cand] in auto)
qed

lemma height_bit: "unat h \<in> {5, 10, 15, 20, 25} \<Longrightarrow> push_bit (unat h) 1 \<le> q \<longleftrightarrow> 2 ^ unat h \<le> unat q" for q :: u32
  by (auto simp: word_le_nat_alt push_bit_eq_mult)

lemma verify_lms_checked_run:
  assumes c: "compress256_ok c" and N: "0 < N" "N \<le> 8" and msg: "length msg \<le> 1000000"
    and pk: "wf_LmsPublicKey N pk" and sig: "wf_LmsSignature N P H sig"
    and ots: "\<not> ots_type (sig_ots sig) \<noteq> pk_otstype pk" and Ok: "get_lms_parameters (sig_tree_type sig) = Ok (n, h)"
    and H: "unat h = H" "unat (sig_q sig) < 2 ^ H"
  shows "sha_run (verify_lms_signature_cfi_generic c N P H msg pk sig) (lms_ref c N P H msg pk sig)"
proof -
  have h: "unat h \<in> {5, 10, 15, 20, 25}" using lms_heights [OF Ok] .
  have nn: "unat (push_bit (unat h) 1 + sig_q sig) = 2 ^ H + unat (sig_q sig)" "unat (sig_q sig) < 2 ^ H"
    "\<not> push_bit (unat h) 2 \<le> push_bit (unat h) 1 + sig_q sig" "\<not> unat h \<noteq> H" "\<not> push_bit H 1 \<le> sig_q sig"
    using node_num_bounds [OF h, of "sig_q sig"] height_bit [OF h] H by auto
  have wf: "length (pk_id pk) = 16" "length (ots_nonce (sig_ots sig)) = N"
    "list_all (wf_words N) (ots_y (sig_ots sig))" "length (ots_y (sig_ots sig)) = P"
    "list_all (wf_words N) (sig_tree_path sig)" "length (sig_tree_path sig) = H"
    using pk sig by (auto simp: wf_LmsPublicKey_def wf_LmsSignature_def wf_LmotsSignature_def wf_words_def)
  let ?Q = "wntz_hash c (4 * N) (pk_id pk @ be32 (sig_q sig) @ be16 D_MESG @ enc_array le32 (ots_nonce (sig_ots sig)) @ msg)"
  have Q: "length ?Q = 4 * N" using N by (simp add: length_wntz_hash [OF c])
  have hm: "sha_run (hash_message c N msg (pk_id pk) (be32 (sig_q sig)) (ots_nonce (sig_ots sig))) (Ok (u8_to_u32_be N ?Q))"
    using hash_message_run [OF c N(2) wf(2) wf(1) _ msg] by simp
  have "lms_ref c N P H msg pk sig =
      bindO (ots_key_ref c N P (ots_type (sig_ots sig)) (pk_id pk @ be_nat 4 (unat (sig_q sig))) ?Q (ots_y (sig_ots sig)))
        (\<lambda>k. Ok (u8_to_u32_be N (rfc_root c (4 * N) (pk_id pk) (map (enc_array le32) (sig_tree_path sig)) (2 ^ H + unat (sig_q sig))
          (wntz_hash c (4 * N) (pk_id pk @ be_nat 4 (2 ^ H + unat (sig_q sig)) @ be16 D_LEAF @ k)))))"
    using ots Ok nn
    by (cases "get_lmots_parameters (ots_type (sig_ots sig))")
      (auto simp: lms_ref_def ots_key_ref_def rfc_lms_key_def Let_def be32_unat)
  moreover have "verify_lms_signature_cfi_generic c N P H msg pk sig =
      bindE (hash_message c N msg (pk_id pk) (be32 (sig_q sig)) (ots_nonce (sig_ots sig))) (\<lambda>md.
      bindE (candidate_ots_signature c N P (pk_id pk) (ots_type (sig_ots sig)) (be32 (sig_q sig)) (ots_y (sig_ots sig)) md) (\<lambda>key.
      bindE (sha256_of c ([pk_id pk, be32 (push_bit (unat h) 1 + sig_q sig), be16 D_LEAF] @ map be32 key)) (\<lambda>digest.
      climb c N (pk_id pk) (sig_tree_path sig) 0 (push_bit (unat h) 1 + sig_q sig) (hash_value N digest))))"
    using ots h unfolding verify_lms_signature_cfi_generic_def Ok
    by (simp only: liftO_outcome failIf_False bindE_ret split_conv Let_def nn if_False not_not simp_thms)
  ultimately show ?thesis
    using verify_tail_run [OF c N wf(1,6,5) nn(1,2) wf(3,4) Q, where a = "ots_type (sig_ots sig)"]
    by (simp only:) (intro sha_run_Ok [OF hm])
qed

lemma verify_lms_run:
  assumes c: "compress256_ok c" and N: "0 < N" "N \<le> 8" and msg: "length msg \<le> 1000000"
    and pk: "wf_LmsPublicKey N pk" and sig: "wf_LmsSignature N P H sig"
  shows "sha_run (verify_lms_signature_cfi_generic c N P H msg pk sig) (lms_ref c N P H msg pk sig)"
proof (cases "ots_type (sig_ots sig) \<noteq> pk_otstype pk")
  case True
  then show ?thesis by (simp add: verify_lms_signature_cfi_generic_def lms_ref_def sha_run_def)
next
  case ots: False
  show ?thesis
  proof (cases "get_lms_parameters (sig_tree_type sig)")
    case (Ok x)
    obtain n h where x: "x = (n, h)" by (cases x)
    have h: "unat h \<in> {5, 10, 15, 20, 25}" using lms_heights [of "sig_tree_type sig" n h] Ok x by simp
    show ?thesis
    proof (cases "unat h = H \<and> unat (sig_q sig) < 2 ^ H")
      case True
      then show ?thesis
        using verify_lms_checked_run [OF c N msg pk sig ots] Ok x by simp
    next
      case False
      then show ?thesis
        using ots Ok x height_bit [OF h]
        by (auto simp: verify_lms_signature_cfi_generic_def lms_ref_def sha_run_def bindE_def failIf_def)
    qed
  qed (use ots in \<open>simp_all add: verify_lms_signature_cfi_generic_def lms_ref_def sha_run_def bindE_def\<close>)
qed

section \<open>Why the checksum protects the chains\<close>

text \<open>
  The number formed by the first \<open>k\<close> digits of a string. A digest whose digits are nowhere smaller
  than those of another one has a smaller checksum, so some digit of its checksum is smaller: a
  signature can not be turned into one for another digest by walking its chains forward only.
\<close>

definition prefix_value :: "u8 list \<Rightarrow> nat \<Rightarrow> nat \<Rightarrow> nat" where
  "prefix_value s w k = be_value s div 2 ^ (8 * length s - w * k)"

lemma prefix_value_0 [simp]: "prefix_value s w 0 = 0"
  using be_value_lt [of s] by (simp add: prefix_value_def power_mult)

lemma prefix_value_Suc:
  assumes "w * (k + 1) \<le> 8 * length s"
  shows "prefix_value s w (Suc k) = prefix_value s w k * 2 ^ w + digit s k w"
proof -
  have e: "8 * length s - w * k = (8 * length s - w * (k + 1)) + w" using assms by simp
  have "prefix_value s w k = prefix_value s w (Suc k) div 2 ^ w"
    by (simp add: prefix_value_def e power_add div_mult2_eq del: mult_Suc_right)
  then show ?thesis
    using div_mult_mod_eq [of "prefix_value s w (Suc k)" "2 ^ w"]
    by (simp add: digit_def prefix_value_def del: mult_Suc_right)
qed

lemma prefix_value_mono:
  assumes "w * k \<le> 8 * length s" "length s' = length s" "\<forall>i<k. digit s i w \<le> digit s' i w"
  shows "prefix_value s w k \<le> prefix_value s' w k"
  using assms
proof (induction k)
  case (Suc k)
  then have "prefix_value s w k \<le> prefix_value s' w k" by simp
  then show ?case using Suc.prems by (simp add: prefix_value_Suc add_mono)
qed simp

lemma prefix_value_cong:
  assumes "w * k \<le> 8 * length s" "length s' = length s" "\<forall>i<k. digit s i w = digit s' i w"
  shows "prefix_value s w k = prefix_value s' w k"
  by (rule antisym) (rule prefix_value_mono; use assms in simp)+

lemma be_value_inj: "length s = length t \<Longrightarrow> be_value s = be_value t \<Longrightarrow> s = t"
proof (induction s arbitrary: t rule: rev_induct)
  case (snoc x xs)
  then obtain y ys where t: "t = ys @ [y]" by (cases t rule: rev_cases) auto
  have "unat x = (256 * be_value xs + unat x) mod 256" "unat y = (256 * be_value ys + unat y) mod 256"
    "be_value xs = (256 * be_value xs + unat x) div 256" "be_value ys = (256 * be_value ys + unat y) div 256"
    by simp_all
  then have "unat x = unat y" "be_value xs = be_value ys"
    using snoc.prems(2) by (simp_all only: t be_value_snoc)
  then show ?case using snoc.IH [of ys] snoc.prems(1) by (simp add: t word_unat_eq_iff)
qed simp

lemma digit_append_right:
  assumes "w * u = 8 * length s" "w * (j + 1) \<le> 8 * length t"
  shows "digit (s @ t) (u + j) w = digit t j w"
proof -
  let ?e = "8 * length t - w * (j + 1)"
  have e: "8 * length (s @ t) - w * (u + j + 1) = ?e"
    using assms by (simp add: algebra_simps)
  have "8 * length t = ?e + (w * j + w)" using assms(2) by simp
  then have "256 ^ length t = (2::nat) ^ ?e * (2 ^ w * 2 ^ (w * j))"
    using power_mult [of "2::nat" 8 "length t"] by (simp flip: power_add)
  then have "be_value (s @ t) = be_value t + be_value s * (2 ^ w * 2 ^ (w * j)) * 2 ^ ?e"
    by (simp add: be_value_append mult.assoc mult.commute [of "2 ^ ?e"])
  then have "be_value (s @ t) div 2 ^ ?e = (be_value s * (2 ^ w * 2 ^ (w * j))) + be_value t div 2 ^ ?e"
    by (simp only: div_mult_self1 [of "2 ^ ?e"]) simp
  then show ?thesis unfolding digit_def e by (simp add: mult.left_commute [of _ "2 ^ w"])
qed

lemma be_value_be_nat: "be_value (be_nat n v) = v mod 256 ^ n"
proof (induction n arbitrary: v)
  case (Suc n)
  have "be_nat (Suc n) v = be_nat n (v div 256) @ [of_nat v]"
    by (simp add: be_nat_def upt_conv_Cons map_Suc_upt [symmetric] div_mult2_eq comp_def del: upt_Suc)
  then show ?case
    using mod_mult2_eq [of v 256 "256 ^ n"] by (simp add: be_value_snoc Suc unat_of_nat)
qed (simp add: be_nat_def)

definition cksm_sum :: "LmotsParameter \<Rightarrow> u8 list \<Rightarrow> nat" where
  "cksm_sum p Q = sum_list (map (\<lambda>i. 2 ^ wbits p - 1 - digit Q i (wbits p)) [0..<8 * nbytes p div wbits p])"

lemma cksm_sum_lt:
  assumes "get_lmots_parameters a = Ok p" "par_n p \<noteq> 0"
  shows "cksm_sum p Q * 2 ^ unat (par_ls p) < 2 ^ 16"
proof -
  let ?u = "8 * nbytes p div wbits p"
  have "cksm_sum p Q \<le> sum_list (map (\<lambda>i. 2 ^ wbits p - 1) [0..<?u])"
    unfolding cksm_sum_def by (rule sum_list_mono) simp
  then have "cksm_sum p Q \<le> ?u * (2 ^ wbits p - 1)" by (simp add: sum_list_triv)
  then have "cksm_sum p Q * 2 ^ unat (par_ls p) \<le> ?u * (2 ^ wbits p - 1) * 2 ^ unat (par_ls p)"
    by (rule mult_le_mono1)
  then show ?thesis using lmots_parameters(4) [OF assms] by (rule le_less_trans)
qed

text \<open>The digits after those of the hash spell the sum.\<close>

lemma checksum_digits_value:
  assumes "get_lmots_parameters a = Ok p" "par_n p \<noteq> 0"
  shows "prefix_value (be_nat 2 (rfc_cksm p Q)) (wbits p) (nchains p - 8 * nbytes p div wbits p) = cksm_sum p Q"
proof -
  have e: "16 - wbits p * (nchains p - 8 * nbytes p div wbits p) = unat (par_ls p)"
    using assms by (auto simp: get_lmots_parameters_def LMOTS_P_def lmots_def split: if_splits)
  have "be_value (be_nat 2 (rfc_cksm p Q)) = cksm_sum p Q * 2 ^ unat (par_ls p)"
    using cksm_sum_lt [OF assms, of Q] by (simp add: be_value_be_nat rfc_cksm_def cksm_sum_def)
  then show ?thesis by (simp add: prefix_value_def e)
qed

lemma coefs_split:
  assumes p: "get_lmots_parameters a = Ok p" "par_n p \<noteq> 0" and Q: "length Q = nbytes p"
  shows "i < 8 * nbytes p div wbits p \<Longrightarrow> rfc_coefs p Q ! i = digit Q i (wbits p)"
    "j < nchains p - 8 * nbytes p div wbits p \<Longrightarrow>
       rfc_coefs p Q ! (8 * nbytes p div wbits p + j) = digit (be_nat 2 (rfc_cksm p Q)) j (wbits p)"
proof -
  note P = lmots_parameters [OF p]
  let ?u = "8 * nbytes p div wbits p"
  have wu: "wbits p * ?u = 8 * nbytes p" using P(6) by simp
  have w0: "0 < wbits p" using P(1) by (auto simp: winternitz_def)
  have "wbits p * ?u \<le> wbits p * nchains p" using wu P(10) by (simp add: mult.commute)
  then have le: "?u \<le> nchains p" using w0 by simp
  {
    assume i: "i < ?u"
    then have "wbits p * (i + 1) \<le> wbits p * ?u" by (intro mult_le_mono2) simp
    then show "rfc_coefs p Q ! i = digit Q i (wbits p)"
      using i le wu Q digit_append [of "wbits p" i Q] by (simp add: rfc_coefs_def)
  next
    assume j: "j < nchains p - ?u"
    then have "wbits p * (?u + (j + 1)) \<le> wbits p * nchains p" by (intro mult_le_mono2) simp
    then have "wbits p * (j + 1) \<le> 16" using wu P(3) by (simp add: algebra_simps)
    then show "rfc_coefs p Q ! (?u + j) = digit (be_nat 2 (rfc_cksm p Q)) j (wbits p)"
      using j wu Q digit_append_right [of "wbits p" ?u Q j "be_nat 2 (rfc_cksm p Q)"]
      by (simp add: rfc_coefs_def less_diff_conv add.commute [of j])
  }
qed

lemma sum_list_le_strict:
  fixes f g :: "'a \<Rightarrow> nat"
  assumes "\<And>x. x \<in> set xs \<Longrightarrow> f x \<le> g x" "x \<in> set xs" "f x < g x"
  shows "sum_list (map f xs) < sum_list (map g xs)"
  using assms
proof (induction xs)
  case (Cons y ys)
  have "sum_list (map f ys) \<le> sum_list (map g ys)" using Cons.prems(1) by (intro sum_list_mono) simp
  then show ?case
    using Cons by (cases "x = y") (simp_all add: add_less_le_mono add_le_less_mono)
qed simp

lemma coefs_not_dominated:
  assumes p: "get_lmots_parameters a = Ok p" "par_n p \<noteq> 0"
    and Q: "length Q = nbytes p" "length Q' = nbytes p" "Q \<noteq> Q'"
  shows "\<exists>i<nchains p. rfc_coefs p Q' ! i < rfc_coefs p Q ! i"
proof (rule ccontr)
  let ?u = "8 * nbytes p div wbits p" and ?w = "wbits p"
  note P = lmots_parameters [OF p]
  assume "\<not> ?thesis"
  then have le: "rfc_coefs p Q ! i \<le> rfc_coefs p Q' ! i" if "i < nchains p" for i
    using that by (meson not_less)
  have wu: "?w * ?u = 8 * nbytes p" using P(6) by simp
  then have u: "?u \<le> nchains p" using P(10) P(1) by (auto simp: winternitz_def)
  have d: "digit Q i ?w \<le> digit Q' i ?w" if "i < ?u" for i
    using le [of i] coefs_split(1) [OF p Q(1) that] coefs_split(1) [OF p Q(2) that] that u by simp
  have "digit (be_nat 2 (rfc_cksm p Q)) j ?w \<le> digit (be_nat 2 (rfc_cksm p Q')) j ?w" if "j < nchains p - ?u" for j
    using le [of "?u + j"] coefs_split(2) [OF p Q(1) that] coefs_split(2) [OF p Q(2) that] that by simp
  moreover have "?w * (nchains p - ?u) \<le> 8 * length (be_nat 2 (rfc_cksm p Q))"
    using P(3) wu by (simp add: diff_mult_distrib2 mult.commute)
  ultimately have "cksm_sum p Q \<le> cksm_sum p Q'"
    using prefix_value_mono [of ?w "nchains p - ?u" "be_nat 2 (rfc_cksm p Q)" "be_nat 2 (rfc_cksm p Q')"]
    by (simp add: checksum_digits_value [OF p])
  moreover obtain i where i: "i < ?u" "digit Q i ?w \<noteq> digit Q' i ?w"
  proof (rule ccontr)
    assume "\<not> thesis"
    then have "prefix_value Q ?w ?u = prefix_value Q' ?w ?u"
      using that wu Q by (intro prefix_value_cong) auto
    then show False using be_value_inj [of Q Q'] Q wu by (simp add: prefix_value_def)
  qed
  have "cksm_sum p Q' < cksm_sum p Q"
    unfolding cksm_sum_def
  proof (rule sum_list_le_strict)
    show "i \<in> set [0..<?u]" using i(1) by simp
    show "2 ^ ?w - 1 - digit Q' i ?w < 2 ^ ?w - 1 - digit Q i ?w"
      using d [OF i(1)] i(2) digit_lt [of Q' i ?w] by linarith
  qed (use d in \<open>simp add: diff_le_mono2\<close>)
  ultimately show False by simp
qed

section \<open>What a verification guarantees\<close>

text \<open>
  A sample, hashed with a compression function that keeps its state: then every digest is the initial
  state, and the key with that root accepts every signature of the right form.
\<close>

definition sample_lms_pk :: LmsPublicKey where
  "sample_lms_pk = \<lparr>pk_tree_type = LmsSha256N24H15, pk_otstype = LmotsSha256N24W4, pk_id = replicate 16 1,
     pk_digest = swap_bytes (take 6 HASH_IV_256_256)\<rparr>"

definition sample_lms_sig :: LmsSignature where
  "sample_lms_sig = \<lparr>sig_q = 5, sig_ots = \<lparr>ots_type = LmotsSha256N24W4, ots_nonce = replicate 6 2,
     ots_y = replicate 51 (replicate 6 3)\<rparr>, sig_tree_type = LmsSha256N24H15, sig_tree_path = replicate 15 (replicate 6 4)\<rparr>"

lemma wf_sample_lms: "wf_LmsPublicKey 6 sample_lms_pk" "wf_LmsSignature 6 51 15 sample_lms_sig"
  by (simp_all add: sample_lms_pk_def sample_lms_sig_def wf_LmsPublicKey_def wf_LmsSignature_def
      wf_LmotsSignature_def wf_words_def length_swap_bytes HASH_IV_256_256_def list_all_length)

lemma wntz_hash_keep: "wntz_hash keep_hash256 n msg = take n (u32_be_to_u8 HASH_IV_256_256)"
proof -
  have "absorb keep_hash256 B iv k m = iv" for B k m and iv :: "u32 list"
    by (induction k) (simp_all add: absorb_Suc keep_hash256_def)
  then show ?thesis by (simp add: wntz_hash_def sha256_ref_def sha_ref_def)
qed

lemma rfc_root_keep:
  "path \<noteq> [] \<Longrightarrow> rfc_root keep_hash256 n ident path node tmp = take n (u32_be_to_u8 HASH_IV_256_256)"
  by (induction path arbitrary: node tmp) (case_tac path; simp add: wntz_hash_keep)+

text \<open>C9: LMS verification is exact: from an idle hash engine, and for every tree height, number of
  chains and hash width that occurs, the driver ends with the outcome of the reference, the candidate
  key of RFC 8554 computed from the message, the public key and the signature, or the error of the
  first check that fails, and leaves the engine idle. It never panics, and its loops end.\<close>

theorem lms_verify_exact:
  assumes "compress256_ok c" "0 < N" "N \<le> 8" "length msg \<le> 1000000"
    and "wf_LmsPublicKey N pk" "wf_LmsSignature N P H sig" "s256_idle r"
  shows "\<exists>t. verify_lms_signature_cfi_generic c N P H msg pk sig r = (lms_ref c N P H msg pk sig, t) \<and> s256_idle t"
  using verify_lms_run [OF assms(1-6)] assms(7) by (rule sha_runD)

theorem lms_verify_exact_witness:
  "\<exists>t. verify_lms_signature_cfi_generic keep_hash256 6 51 15 [1, 2, 3] sample_lms_pk sample_lms_sig HashSha256_new =
     (lms_ref keep_hash256 6 51 15 [1, 2, 3] sample_lms_pk sample_lms_sig, t) \<and> s256_idle t"
  using lms_verify_exact [OF compress256_ok_keep _ _ _ wf_sample_lms s256_idle_new, of "[1, 2, 3]"] by simp

abbreviation lmots_n24_w4 :: LmotsParameter where "lmots_n24_w4 \<equiv> lmots LmotsSha256N24W4 24 4 51 4"

lemma lms_ref_firmware:
  "lms_ref c 6 51 15 msg pk sig = Ok k \<longleftrightarrow>
     ots_type (sig_ots sig) = pk_otstype pk \<and> pk_otstype pk = LmotsSha256N24W4 \<and>
     sig_tree_type sig \<in> {LmsSha256N24H15, LmsSha256N32H15} \<and> unat (sig_q sig) < 2 ^ 15 \<and>
     k = u8_to_u32_be 6 (rfc_lms_key c lmots_n24_w4 15 msg (pk_id pk) (unat (sig_q sig))
       (enc_array le32 (ots_nonce (sig_ots sig))) (map (enc_array le32) (ots_y (sig_ots sig)))
       (map (enc_array le32) (sig_tree_path sig)))"
  by (auto simp: lms_ref_def get_lms_parameters_def get_lmots_parameters_def LMOTS_P_def lmots_def split: if_splits)

lemma length_rfc_root:
  "compress256_ok c \<Longrightarrow> n \<le> 32 \<Longrightarrow> length tmp = n \<Longrightarrow> length (rfc_root c n ident path node tmp) = n"
  by (induction path arbitrary: node tmp) simp_all

text \<open>C19: A firmware LMS signature is accepted exactly when the one-time signature type of the signature
  is that of the key and is the one of 24-byte hashes and 4-bit digits, the tree has height 15, the
  leaf number is below the number of leaves, and the root that RFC 8554 computes from the message and
  the signature is the one in the public key.\<close>

theorem lms_accepts_iff:
  assumes c: "compress256_ok c" and msg: "length msg \<le> 1000000" and pk: "wf_LmsPublicKey 6 pk"
    and sig: "wf_LmsSignature 6 51 15 sig" and r: "s256_idle r"
  shows "fst (verify_lms_signature c msg pk sig r) = Ok LmsSuccess \<longleftrightarrow>
    ots_type (sig_ots sig) = pk_otstype pk \<and> pk_otstype pk = LmotsSha256N24W4 \<and>
    sig_tree_type sig \<in> {LmsSha256N24H15, LmsSha256N32H15} \<and> unat (sig_q sig) < 2 ^ 15 \<and>
    rfc_lms_key c lmots_n24_w4 15 msg (pk_id pk) (unat (sig_q sig)) (enc_array le32 (ots_nonce (sig_ots sig)))
      (map (enc_array le32) (ots_y (sig_ots sig))) (map (enc_array le32) (sig_tree_path sig)) =
    enc_array le32 (pk_digest pk)"
    (is "_ \<longleftrightarrow> _ \<and> _ \<and> _ \<and> _ \<and> ?key = _")
proof -
  have len: "length ?key = 24"
    using c by (simp add: rfc_lms_key_def Let_def length_rfc_root lmots_def)
  have "u8_to_u32_be 6 ?key = swap_bytes (pk_digest pk) \<longleftrightarrow> ?key = u32_be_to_u8 (swap_bytes (pk_digest pk))"
  proof
    assume "u8_to_u32_be 6 ?key = swap_bytes (pk_digest pk)"
    then show "?key = u32_be_to_u8 (swap_bytes (pk_digest pk))" using u32_be_to_u8_inverse [of ?key 6] len by simp
  next
    assume "?key = u32_be_to_u8 (swap_bytes (pk_digest pk))"
    then show "u8_to_u32_be 6 ?key = swap_bytes (pk_digest pk)"
      using u8_to_u32_be_inverse [of "swap_bytes (pk_digest pk)" 6] pk
      by (simp add: wf_LmsPublicKey_def wf_words_def length_swap_bytes)
  qed
  then have key: "u8_to_u32_be 6 ?key = swap_bytes (pk_digest pk) \<longleftrightarrow> ?key = enc_array le32 (pk_digest pk)"
    by (simp add: u32_be_to_u8_swap)
  obtain t where "verify_lms_signature_cfi c msg pk sig r = (lms_ref c 6 51 15 msg pk sig, t)"
    using sha_runD [OF verify_lms_run [OF c _ _ msg pk sig] r] by (auto simp: verify_lms_signature_cfi_def)
  then have "fst (verify_lms_signature c msg pk sig r) = Ok LmsSuccess \<longleftrightarrow>
      lms_ref c 6 51 15 msg pk sig = Ok (swap_bytes (pk_digest pk))"
    by (cases "lms_ref c 6 51 15 msg pk sig") (simp_all add: verify_lms_signature_def bindE_def)
  then show ?thesis unfolding lms_ref_firmware using key by auto
qed

theorem lms_accepts_iff_witness:
  "fst (verify_lms_signature keep_hash256 [1, 2, 3] sample_lms_pk sample_lms_sig HashSha256_new) = Ok LmsSuccess"
proof -
  have "take 24 (u32_be_to_u8 HASH_IV_256_256) = enc_array le32 (pk_digest sample_lms_pk)"
    by code_simp
  then show ?thesis
    unfolding lms_accepts_iff [OF compress256_ok_keep _ wf_sample_lms s256_idle_new, of "[1, 2, 3]", simplified]
    by (simp add: rfc_lms_key_def Let_def rfc_root_keep lmots_def sample_lms_pk_def sample_lms_sig_def)
qed


text \<open>C20: The checksum protects the chains: of two different digests of the width of the parameter set,
  each has a chain on which the coefficient the driver computes from the digest and its checksum is
  smaller than for the other one. So a signature of one cannot be turned into one of the other by
  iterating the hash forward.\<close>

theorem lms_checksum_protects:
  assumes p: "get_lmots_parameters a = Ok p" "par_n p \<noteq> 0"
    and Q: "length Q = unat (par_n p)" "length Q' = unat (par_n p)" "Q \<noteq> Q'"
    and ck: "checksum a Q = Ok k" "checksum a Q' = Ok k'"
  shows "\<exists>i x x'. i < unat (par_p p) \<and> coefficient (Q @ be16 k) i (unat (par_w p)) = Ok x \<and>
    coefficient (Q' @ be16 k') i (unat (par_w p)) = Ok x' \<and> x' < x"
proof -
  note P = lmots_parameters [OF p]
  obtain i where i: "i < nchains p" "rfc_coefs p Q' ! i < rfc_coefs p Q ! i"
    using coefs_not_dominated [OF p Q] by blast
  have "Suc i * wbits p \<le> nchains p * wbits p" using i(1) by (intro mult_le_mono1) simp
  then have "i * wbits p < 8 * (nbytes p + 2)" using P(1,3) by (auto simp: winternitz_def)
  then have coef: "coefficient (R @ be16 l) i (wbits p) = Ok (of_nat (rfc_coefs p R ! i))"
    if "length R = nbytes p" "checksum a R = Ok l" for R l
  proof -
    have "be16 l = be_nat 2 (rfc_cksm p R)"
      using checksum_ref [OF p that(1), of "[]"] that(2) be_bytes_of_nat [where ?'a = 16 and n = 2] by simp
    then show ?thesis
      using coefficient_digit [OF P(1), of i "R @ be16 l"] i(1) that(1) \<open>i * wbits p < 8 * (nbytes p + 2)\<close>
      by (simp add: rfc_coefs_def)
  qed
  have "(of_nat (rfc_coefs p Q' ! i) :: u8) < of_nat (rfc_coefs p Q ! i)"
    using i unat_digit [OF P(1)] by (simp add: word_less_nat_alt rfc_coefs_def)
  with coef [OF Q(1) ck(1)] coef [OF Q(2) ck(2)] i(1) show ?thesis by blast
qed

theorem lms_checksum_protects_witness:
  "\<exists>k k' i x x'. checksum LmotsSha256N24W4 (replicate 24 0) = Ok k \<and> checksum LmotsSha256N24W4 (replicate 24 255) = Ok k' \<and>
     i < 51 \<and> coefficient (replicate 24 0 @ be16 k) i 4 = Ok x \<and> coefficient (replicate 24 255 @ be16 k') i 4 = Ok x' \<and> x' < x"
proof -
  have p: "get_lmots_parameters LmotsSha256N24W4 = Ok lmots_n24_w4"
    by (simp add: get_lmots_parameters_def LMOTS_P_def lmots_def)
  have n: "par_n lmots_n24_w4 \<noteq> 0" "length (replicate 24 0 :: u8 list) = unat (par_n lmots_n24_w4)"
    "length (replicate 24 255 :: u8 list) = unat (par_n lmots_n24_w4)" "replicate 24 0 \<noteq> (replicate 24 255 :: u8 list)"
    by (simp_all add: lmots_def replicate_eq_replicate)
  from checksum_ref [OF p n(1,2), of "[]"] checksum_ref [OF p n(1,3), of "[]"] show ?thesis
    using lms_checksum_protects [OF p n] by (fastforce simp: lmots_def)
qed

end
