(* ===== verification/SocIfc.thy ===== *)
theory SocIfc
  imports ImageVerifyEnv KeyVault
begin

unbundle bit_operations_syntax

text \<open>
  What the drivers read from the device: the fuse bank \<^verbatim>\<open>drivers/src/fuse_bank.rs\<close>, the SoC interface
  \<^verbatim>\<open>drivers/src/soc_ifc.rs\<close> and the data vault \<^verbatim>\<open>drivers/src/data_vault.rs\<close>. The registers are a
  record, the field positions those of \<^verbatim>\<open>hw/latest/registers/src/soc_ifc.rs\<close>. The lemmas show what
  the fuse encodings mean.
\<close>

section \<open>Registers\<close>

record SocIfcRegs =
  fuse_idevid_cert_attr :: "u32 list"
  fuse_vendor_pk_hash :: "u32 list"
  fuse_ecc_revocation :: u32
  fuse_lms_revocation :: u32
  fuse_mldsa_revocation :: u32
  cptra_owner_pk_hash :: "u32 list"
  fuse_anti_rollback_disable :: u32
  fuse_runtime_svn :: "u32 list"
  fuse_soc_manifest_svn :: "u32 list"
  fuse_soc_manifest_max_svn :: u32
  fuse_pqc_key_type :: u32
  cptra_security_state :: u32
  cptra_reset_reason :: u32
  cptra_hw_config :: u32
  cptra_timer_config :: u32
  ss_debug_intent :: u32
  ss_strap_generic :: "u32 list"
  ss_dbg_service_reg_req :: u32
  ss_prod_debug_unlock_auth_pk_hash_reg_bank_offset :: u32
  ss_num_of_prod_debug_unlock_auth_pk_hashes :: u32
  cptra_fw_extended_error_info :: "u32 list"

definition wf_SocIfcRegs :: "SocIfcRegs \<Rightarrow> bool" where
  "wf_SocIfcRegs s \<longleftrightarrow> length (fuse_idevid_cert_attr s) = 24 \<and> length (fuse_vendor_pk_hash s) = 12 \<and>
     length (cptra_owner_pk_hash s) = 12 \<and> length (fuse_runtime_svn s) = 4 \<and>
     length (fuse_soc_manifest_svn s) = 4 \<and> length (ss_strap_generic s) = 4 \<and>
     length (cptra_fw_extended_error_info s) = 8"

section \<open>Fuse bank\<close>

text \<open>Rust's \<^verbatim>\<open>leading_zeros\<close>.\<close>

definition leading_zeros :: "'a::len word \<Rightarrow> nat" where
  "leading_zeros w = length (takeWhile (\<lambda>i. \<not> bit w i) (rev [0..<LENGTH('a)]))"

definition first_set_msbit :: "u32 list \<Rightarrow> u32" where
  "first_set_msbit num_le = 128 - of_nat (leading_zeros (from_le_bytes (u32_le_to_u8 num_le) :: u128))"

datatype X509KeyIdAlgo = X509_Sha1 | X509_Sha256 | X509_Sha384 | X509_Sha512 | X509_Fuse

definition idev_id_x509_key_id_algo :: "bool \<Rightarrow> SocIfcRegs \<Rightarrow> X509KeyIdAlgo" where
  "idev_id_x509_key_id_algo ecc_key_id_algo s =
     (let flags = fuse_idevid_cert_attr s ! 0;
          flags = (if \<not> ecc_key_id_algo then drop_bit 3 flags else flags);
          v = flags AND 7
      in if v = 0 then X509_Sha1 else if v = 1 then X509_Sha256 else if v = 2 then X509_Sha384
         else if v = 4 then X509_Sha512 else X509_Fuse)"

definition ueid :: "SocIfcRegs \<Rightarrow> u8 list" where
  "ueid s = ucast (fuse_idevid_cert_attr s ! 11) # concat (map (\<lambda>i. le32 (fuse_idevid_cert_attr s ! i)) [12, 13, 14, 15])"

definition subject_key_id :: "bool \<Rightarrow> SocIfcRegs \<Rightarrow> u8 list" where
  "subject_key_id ecc_subject_key_id s =
     concat (map (\<lambda>i. le32 (fuse_idevid_cert_attr s ! i))
       (if ecc_subject_key_id then [1, 2, 3, 4, 5] else [6, 7, 8, 9, 10]))"

definition fuse_vendor_ecc_pub_key_revocation :: "SocIfcRegs \<Rightarrow> VendorEccPubKeyRevocation" where
  "fuse_vendor_ecc_pub_key_revocation s = from_bits_truncate (fuse_ecc_revocation s)"

definition fuse_anti_rollback_disabled :: "SocIfcRegs \<Rightarrow> bool" where
  "fuse_anti_rollback_disabled s \<longleftrightarrow> bit (fuse_anti_rollback_disable s) 0"

definition fuse_fw_svn :: "SocIfcRegs \<Rightarrow> u32" where
  "fuse_fw_svn s = first_set_msbit (fuse_runtime_svn s)"

definition soc_manifest_fuse_svn :: "SocIfcRegs \<Rightarrow> u32" where
  "soc_manifest_fuse_svn s = first_set_msbit (fuse_soc_manifest_svn s)"

definition max_soc_manifest_fuse_svn :: "SocIfcRegs \<Rightarrow> u32" where
  "max_soc_manifest_fuse_svn s = fuse_soc_manifest_max_svn s AND 0xff"

section \<open>SoC interface\<close>

definition soc_reset_reason :: "SocIfcRegs \<Rightarrow> ResetReason" where
  "soc_reset_reason s =
     (case (bit (cptra_reset_reason s) 0, bit (cptra_reset_reason s) 1) of
        (True, True) \<Rightarrow> Unknown | (False, True) \<Rightarrow> WarmReset
      | (True, False) \<Rightarrow> UpdateReset | (False, False) \<Rightarrow> ColdReset)"

definition soc_lifecycle :: "SocIfcRegs \<Rightarrow> Lifecycle" where
  "soc_lifecycle s = (let v = field_read 0 2 (cptra_security_state s) in
     if v = 0 then Unprovisioned else if v = 1 then Manufacturing else if v = 2 then Reserved2 else Production)"

definition debug_locked :: "SocIfcRegs \<Rightarrow> bool" where
  "debug_locked s \<longleftrightarrow> bit (cptra_security_state s) 2"

definition ss_debug_intent_set :: "SocIfcRegs \<Rightarrow> bool" where
  "ss_debug_intent_set s \<longleftrightarrow> bit (ss_debug_intent s) 0"

definition soc_subsystem_mode :: "SocIfcRegs \<Rightarrow> bool" where
  "soc_subsystem_mode s \<longleftrightarrow> bit (cptra_hw_config s) 5"

definition ocp_lock_enabled :: "SocIfcRegs \<Rightarrow> bool" where
  "ocp_lock_enabled s \<longleftrightarrow> bit (cptra_hw_config s) 6"

definition vendor_debug_image_allowed :: "SocIfcRegs \<Rightarrow> bool" where
  "vendor_debug_image_allowed s \<longleftrightarrow>
     (let vendor_debug_images_disabled = ss_strap_generic s ! 3 AND push_bit 31 1 \<noteq> 0
      in soc_subsystem_mode s \<and> ss_debug_intent_set s \<and> \<not> vendor_debug_images_disabled)"

definition ss_debug_unlock_req :: "SocIfcRegs \<Rightarrow> bool outcome" where
  "ss_debug_unlock_req s =
     (if \<not> ss_debug_intent_set s then Ok False
      else
        let lifecycle = soc_lifecycle s; manuf = bit (ss_dbg_service_reg_req s) 0; prod = bit (ss_dbg_service_reg_req s) 1
        in if manuf \<and> \<not> prod \<and> lifecycle = Manufacturing \<or> \<not> manuf \<and> prod \<and> lifecycle = Production then Ok True
           else if manuf \<or> prod then Err SS_DBG_UNLOCK_INVALID_REQ_REG_VALUE
           else Ok False)"

definition debug_unlock_pk_hash_offset :: "u32 \<Rightarrow> SocIfcRegs \<Rightarrow> u32 outcome" where
  "debug_unlock_pk_hash_offset level s =
     (if level = 0 \<or> level > ss_num_of_prod_debug_unlock_auth_pk_hashes s then Err SS_DBG_UNLOCK_PROD_INVALID_LEVEL
      else Ok (ss_prod_debug_unlock_auth_pk_hash_reg_bank_offset s + 48 * (level - 1)))"

definition get_cycle_count :: "u32 \<Rightarrow> SocIfcRegs \<Rightarrow> u64 outcome" where
  "get_cycle_count seconds s =
     (let clock_period_picosecs = cptra_timer_config s
      in if clock_period_picosecs = 0 then Err DRIVER_SOC_IFC_INVALID_TIMER_CONFIG
         else let frequency_khz = 1000000000 div clock_period_picosecs
              in Ok (ucast seconds * ucast frequency_khz * 1000))"

definition stable_owner_key_enabled :: "SocIfcRegs \<Rightarrow> bool" where
  "stable_owner_key_enabled s \<longleftrightarrow> ss_strap_generic s ! 3 AND 1 \<noteq> 0"

definition stable_owner_key_available :: "SocIfcRegs \<Rightarrow> bool" where
  "stable_owner_key_available s \<longleftrightarrow> soc_subsystem_mode s \<and> stable_owner_key_enabled s \<and> \<not> ocp_lock_enabled s"

definition ss_owner_manifest_min_svn :: "SocIfcRegs \<Rightarrow> u32" where
  "ss_owner_manifest_min_svn s = drop_bit 8 (ss_strap_generic s ! 3) AND 0xFF"

definition soc_set_fw_extended_error :: "u32 \<Rightarrow> SocIfcRegs \<Rightarrow> SocIfcRegs" where
  "soc_set_fw_extended_error err s = s\<lparr>cptra_fw_extended_error_info := (cptra_fw_extended_error_info s)[0 := err]\<rparr>"

section \<open>Data vault\<close>

text \<open>The entries the verification environment reads.\<close>

record DataVault =
  dv_fmc_tci :: "u32 list"
  dv_owner_pk_hash :: "u32 list"
  dv_cold_boot_fw_svn :: u32
  dv_fmc_entry_point :: u32
  dv_vendor_ecc_pk_index :: u32
  dv_vendor_pqc_pk_index :: u32
  dv_rt_tci :: "u32 list"
  dv_fw_svn :: u32
  dv_rt_entry_point :: u32
  dv_manifest_addr :: u32
  dv_fw_min_svn :: u32

section \<open>Fuse encodings\<close>

lemma length_takeWhile_rev:
  assumes "P n" "n < m" "\<And>i. n < i \<Longrightarrow> i < m \<Longrightarrow> \<not> P i"
  shows "length (takeWhile (\<lambda>i. \<not> P i) (rev [0..<m])) = m - Suc n"
proof -
  have "[0..<m] = [0..<Suc n] @ [Suc n..<m]"
    using upt_add_eq_append [of 0 "Suc n" "m - Suc n"] assms(2) by simp
  then have "rev [0..<m] = rev [Suc n..<m] @ n # rev [0..<n]" by simp
  moreover have "takeWhile (\<lambda>i. \<not> P i) (rev [Suc n..<m] @ n # rev [0..<n]) = rev [Suc n..<m]"
    using assms(1,3) by (subst takeWhile_append2) auto
  ultimately show ?thesis by simp
qed

lemma leading_zeros_msb:
  fixes w :: "'a::len word"
  assumes "bit w n" "\<And>i. n < i \<Longrightarrow> \<not> bit w i"
  shows "leading_zeros w = LENGTH('a) - Suc n"
  using length_takeWhile_rev [of "bit w" n "LENGTH('a)"] assms bit_imp_le_length [OF assms(1)]
  by (simp add: leading_zeros_def)

lemma leading_zeros_0: "leading_zeros (0 :: 'a::len word) = LENGTH('a)"
proof -
  have "takeWhile (\<lambda>i. \<not> bit (0 :: 'a word) i) (rev [0..<LENGTH('a)]) = rev [0..<LENGTH('a)]"
    by (simp only: takeWhile_eq_all_conv) simp
  then show ?thesis unfolding leading_zeros_def by (simp only: length_rev length_upt diff_zero)
qed

text \<open>The number that the fuse words stand for, least significant word first.\<close>

abbreviation fuse_bits :: "u32 list \<Rightarrow> u128" where
  "fuse_bits ws \<equiv> from_le_bytes (u32_le_to_u8 ws)"

lemma first_set_msbit_cases:
  "fuse_bits ws = 0 \<Longrightarrow> first_set_msbit ws = 0"
  "bit (fuse_bits ws) n \<Longrightarrow> (\<And>i. n < i \<Longrightarrow> \<not> bit (fuse_bits ws) i) \<Longrightarrow> first_set_msbit ws = of_nat (n + 1)"
proof -
  assume "fuse_bits ws = 0"
  then show "first_set_msbit ws = 0" by (simp add: first_set_msbit_def leading_zeros_0)
next
  assume b: "bit (fuse_bits ws) n" "\<And>i. n < i \<Longrightarrow> \<not> bit (fuse_bits ws) i"
  have "n < 128" using bit_imp_le_length [OF b(1)] by simp
  then have "of_nat (128 - Suc n) = (128 :: u32) - of_nat (Suc n)" by (subst of_nat_diff) simp_all
  then show "first_set_msbit ws = of_nat (n + 1)"
    using leading_zeros_msb [OF b] by (simp add: first_set_msbit_def)
qed

lemma nth_u32_le_to_u8:
  "k < 4 * length ws \<Longrightarrow> u32_le_to_u8 ws ! k = ucast (drop_bit (8 * (k mod 4)) (ws ! (k div 4)))"
proof (induction ws arbitrary: k)
  case (Cons w ws)
  have step: "u32_le_to_u8 (w # ws) = le32 w @ u32_le_to_u8 ws" by (simp add: u32_le_to_u8_def)
  show ?case
  proof (cases "k < 4")
    case True
    then show ?thesis by (simp add: step nth_append nth_le_bytes)
  next
    case False
    then have "k mod 4 = (k - 4) mod 4" "k div 4 = Suc ((k - 4) div 4)" by (simp_all add: le_mod_geq le_div_geq)
    then show ?thesis using Cons False by (simp add: step nth_append)
  qed
qed simp

lemma bit_fuse_bits:
  "bit (fuse_bits ws) i \<longleftrightarrow> i < 128 \<and> i < 32 * length ws \<and> bit (ws ! (i div 32)) (i mod 32)"
proof (cases "i < 32 * length ws")
  case True
  have "i div 8 < 4 * length ws" "i div 8 div 4 = i div 32" "8 * (i div 8 mod 4) + i mod 8 = i mod 32"
    using True mod_mult2_eq [of i 8 4] by (simp_all add: div_mult2_eq [symmetric])
  then show ?thesis using True
    by (auto simp: bit_from_le_bytes nth_u32_le_to_u8 bit_simps)
qed (simp add: bit_from_le_bytes)

text \<open>The encoding: the number exceeds \<open>n\<close> exactly when a fuse of position \<open>n\<close> or above is burnt.\<close>

lemma first_set_msbit_less: "n < unat (first_set_msbit ws) \<longleftrightarrow> (\<exists>m\<ge>n. bit (fuse_bits ws) m)"
proof (cases "fuse_bits ws = 0")
  case True
  then show ?thesis by (simp add: first_set_msbit_cases(1))
next
  case False
  let ?S = "{i. bit (fuse_bits ws) i}"
  have "?S \<subseteq> {..<128}" using bit_imp_le_length [of "fuse_bits ws"] by auto
  then have fin: "finite ?S" and lt: "\<And>i. i \<in> ?S \<Longrightarrow> i < 128" by (auto intro: finite_subset)
  have ne: "?S \<noteq> {}" using False by (auto simp: bit_eq_iff)
  note m = Max_in [OF fin ne]
  have "first_set_msbit ws = of_nat (Max ?S + 1)"
    by (rule first_set_msbit_cases(2)) (use m Max_ge [OF fin] in \<open>auto simp: not_le [symmetric]\<close>)
  then have "unat (first_set_msbit ws) = Suc (Max ?S)"
    using lt [OF m] by (simp add: unat_of_nat del: of_nat_Suc)
  then show ?thesis using Max_ge_iff [OF fin ne, of n] by (auto simp: less_Suc_eq_le)
qed

section \<open>What the fuses guarantee\<close>

definition sample_fuses :: "u32 list \<Rightarrow> SocIfcRegs" where
  "sample_fuses svn =
     \<lparr>fuse_idevid_cert_attr = replicate 24 3, fuse_vendor_pk_hash = replicate 12 0, fuse_ecc_revocation = 0,
      fuse_lms_revocation = 0, fuse_mldsa_revocation = 0, cptra_owner_pk_hash = replicate 12 0,
      fuse_anti_rollback_disable = 0, fuse_runtime_svn = svn, fuse_soc_manifest_svn = replicate 4 0,
      fuse_soc_manifest_max_svn = 0, fuse_pqc_key_type = 1, cptra_security_state = 3, cptra_reset_reason = 0,
      cptra_hw_config = 0, cptra_timer_config = 0, ss_debug_intent = 0, ss_strap_generic = [0, 0, 0, 0],
      ss_dbg_service_reg_req = 0, ss_prod_debug_unlock_auth_pk_hash_reg_bank_offset = 0,
      ss_num_of_prod_debug_unlock_auth_pk_hashes = 0, cptra_fw_extended_error_info = replicate 8 0\<rparr>"

text \<open>C38: The security version number in the fuses only grows. It exceeds n exactly when a fuse of
  position n or above is burnt; so it is at most 128, the number of fuses, and burning further fuses
  never lowers it.\<close>

theorem fuse_svn_grows:
  assumes "wf_SocIfcRegs s" "wf_SocIfcRegs t"
    and burnt: "\<forall>i<4. fuse_runtime_svn s ! i AND fuse_runtime_svn t ! i = fuse_runtime_svn s ! i"
  shows "(n < unat (fuse_fw_svn s) \<longleftrightarrow> (\<exists>m\<ge>n. m < 128 \<and> bit (fuse_runtime_svn s ! (m div 32)) (m mod 32))) \<and>
    fuse_fw_svn t \<le> 128 \<and> fuse_fw_svn s \<le> fuse_fw_svn t"
proof -
  have len: "length (fuse_runtime_svn s) = 4" "length (fuse_runtime_svn t) = 4"
    using assms(1,2) by (simp_all add: wf_SocIfcRegs_def)
  have "bit (fuse_bits (fuse_runtime_svn t)) m" if "bit (fuse_bits (fuse_runtime_svn s)) m" for m
  proof -
    have "m div 32 < 4" "bit (fuse_runtime_svn s ! (m div 32)) (m mod 32)"
      using that len by (simp_all add: bit_fuse_bits less_mult_imp_div_less)
    then have "bit (fuse_runtime_svn t ! (m div 32)) (m mod 32)" using burnt by (metis bit_and_iff)
    then show ?thesis using that len by (simp add: bit_fuse_bits)
  qed
  then have "k < unat (fuse_fw_svn t)" if "k < unat (fuse_fw_svn s)" for k
    using that by (auto simp: fuse_fw_svn_def first_set_msbit_less)
  then have "fuse_fw_svn s \<le> fuse_fw_svn t"
    by (metis less_irrefl linorder_not_le word_le_nat_alt)
  moreover have "\<not> 128 < unat (fuse_fw_svn t)"
    by (auto simp: fuse_fw_svn_def first_set_msbit_less bit_fuse_bits)
  then have "fuse_fw_svn t \<le> 128" by (simp add: word_le_nat_alt)
  moreover have "n < unat (fuse_fw_svn s) \<longleftrightarrow> (\<exists>m\<ge>n. m < 128 \<and> bit (fuse_runtime_svn s ! (m div 32)) (m mod 32))"
    using len by (auto simp: fuse_fw_svn_def first_set_msbit_less bit_fuse_bits)
  ultimately show ?thesis by blast
qed

theorem fuse_svn_grows_witness:
  "fuse_fw_svn (sample_fuses [3, 0, 0, 0]) \<le> fuse_fw_svn (sample_fuses [7, 0, 1, 0])"
proof -
  have "\<forall>i<4. fuse_runtime_svn (sample_fuses [3, 0, 0, 0]) ! i AND fuse_runtime_svn (sample_fuses [7, 0, 1, 0]) ! i =
      fuse_runtime_svn (sample_fuses [3, 0, 0, 0]) ! i"
    by (auto simp: sample_fuses_def less_Suc_eq numeral_eq_Suc)
  from fuse_svn_grows [OF _ _ this] show ?thesis by (simp add: wf_SocIfcRegs_def sample_fuses_def)
qed

end
