(* ===== verification/FirmwareEnv.thy ===== *)
theory FirmwareEnv
  imports ImageVerifyCorrect Sha2Correct LmsCorrect Ecc384Driver Mldsa87Driver SocIfc
begin

unbundle bit_operations_syntax

text \<open>
  The environment that the ROM gives to the image verifier, \<^verbatim>\<open>common/src/verifier.rs\<close>: the trait methods
  of \<^verbatim>\<open>FirmwareImageVerificationEnv\<close> on the drivers and the emulated devices. The compression
  functions, the curve and the lattice arithmetic are parameters, as in the devices; so are the two
  digests over AXI memory of the DMA driver. \<open>FirmwareCorrect\<close> discharges the contract of the
  trait for these definitions.
\<close>

section \<open>State\<close>

text \<open>Where the image is: in the mailbox, behind the DMA, or in the memories it was loaded to.\<close>

datatype ImageSource =
    MboxMemory "u8 list"
  | Axi u64
  | FipsTest "u8 list" "u8 list" "u8 list"

record RomPersistentData =
  rom_manifest1 :: ImageManifest
  rom_owner_pk_hash :: "u32 list"
  rom_owner_pk_hash_valid :: bool

record FirmwareImageVerificationEnv =
  fw_sha256 :: HashSha256
  fw_sha2_512_384 :: HashSha512Regs
  fw_sha2_512_384_acc :: Sha512AcceleratorRegs
  fw_soc_ifc :: SocIfcRegs
  fw_ecc384 :: AsymEcc384
  fw_mldsa87 :: Abr
  fw_data_vault :: DataVault
  fw_image_source :: ImageSource
  fw_persistent_data :: RomPersistentData

type_synonym 'a fw_action = "(FirmwareImageVerificationEnv, 'a) action"

record engines =
  eng_sha512 :: compress512
  eng_sha256 :: compress256
  eng_p384 :: p384
  eng_fips204 :: fips204
  eng_dma_sha384 :: "u64 \<Rightarrow> u32 \<Rightarrow> (Sha512AcceleratorRegs, u32 list) action"
  eng_dma_sha512 :: "u64 \<Rightarrow> u32 \<Rightarrow> (Sha512AcceleratorRegs, u32 list) action"

text \<open>
  A driver works on its device. The devices with access to the key vault reach it through the hash
  peripheral, of which there is one.
\<close>

definition on_acc :: "(Sha512AcceleratorRegs, 'a) action \<Rightarrow> 'a fw_action" where
  "on_acc = zoom fw_sha2_512_384_acc (\<lambda>d s. s\<lparr>fw_sha2_512_384_acc := d\<rparr>)"

definition on_sha2 :: "(HashSha512Regs, 'a) action \<Rightarrow> 'a fw_action" where
  "on_sha2 = zoom fw_sha2_512_384 (\<lambda>d s. s\<lparr>fw_sha2_512_384 := d\<rparr>)"

definition on_sha256 :: "(HashSha256, 'a) action \<Rightarrow> 'a fw_action" where
  "on_sha256 = zoom fw_sha256 (\<lambda>d s. s\<lparr>fw_sha256 := d\<rparr>)"

definition on_ecc :: "(AsymEcc384, 'a) action \<Rightarrow> 'a fw_action" where
  "on_ecc = zoom (\<lambda>s. (fw_ecc384 s)\<lparr>ecc_hash_sha512 := fw_sha2_512_384 s\<rparr>)
     (\<lambda>d s. s\<lparr>fw_ecc384 := d, fw_sha2_512_384 := ecc_hash_sha512 d\<rparr>)"

definition on_mldsa :: "(Abr, 'a) action \<Rightarrow> 'a fw_action" where
  "on_mldsa = zoom (\<lambda>s. (fw_mldsa87 s)\<lparr>abr_hash_sha512 := fw_sha2_512_384 s\<rparr>)
     (\<lambda>d s. s\<lparr>fw_mldsa87 := d, fw_sha2_512_384 := abr_hash_sha512 d\<rparr>)"

section \<open>Digests\<close>

text \<open>\<^verbatim>\<open>slice.get(start..end)\<close>, with the machine's 32-bit sizes.\<close>

definition slice_get :: "u8 list \<Rightarrow> u32 \<Rightarrow> u32 \<Rightarrow> u8 list option" where
  "slice_get xs start stop =
     (if start \<le> stop \<and> unat stop \<le> length xs then Some (take (unat stop - unat start) (drop (unat start) xs)) else None)"

definition read_fips_test_slice :: "u8 list \<Rightarrow> u8 list \<Rightarrow> u8 list \<Rightarrow> u32 \<Rightarrow> u32 \<Rightarrow> u8 list outcome" where
  "read_fips_test_slice manifest_image fmc_image runtime_image offset len =
     (let manifest_len = of_nat (length manifest_image); fmc_len = of_nat (length fmc_image);
          total_len = manifest_len + fmc_len + of_nat (length runtime_image);
          err = Err IMAGE_VERIFIER_ERR_DIGEST_OUT_OF_BOUNDS;
          get = (\<lambda>xs off. case slice_get xs off (off + len) of None \<Rightarrow> err | Some data \<Rightarrow> Ok data)
      in if offset \<ge> total_len \<or> offset + len > total_len then err
         else if offset + len \<le> manifest_len then get manifest_image offset
         else if offset \<ge> manifest_len \<and> offset + len \<le> manifest_len + fmc_len then get fmc_image (offset - manifest_len)
         else if offset \<ge> manifest_len + fmc_len then get runtime_image (offset - manifest_len - fmc_len)
         else err)"

definition AxiAddr_checked_offset :: "u64 \<Rightarrow> u64 \<Rightarrow> u64 \<Rightarrow> u64 outcome" where
  "AxiAddr_checked_offset addr offset len =
     (case checked_add addr offset of
        None \<Rightarrow> Err DRIVER_DMA_AXI_ADDRESS_OVERFLOW
      | Some start \<Rightarrow>
          (case checked_add start (if len = 0 then 0 else len - 1) of
             None \<Rightarrow> Err DRIVER_DMA_AXI_ADDRESS_OVERFLOW
           | Some _ \<Rightarrow> Ok start))"

definition mbox_slice :: "u8 list \<Rightarrow> u32 \<Rightarrow> u32 \<Rightarrow> 'a fw_action \<Rightarrow> (u8 list \<Rightarrow> 'a fw_action) \<Rightarrow> 'a fw_action" where
  "mbox_slice mbox offset len fail f =
     (if unat offset \<le> length mbox \<and> unat len \<le> length mbox - unat offset
      then f (take (unat len) (drop (unat offset) mbox)) else fail)"

definition fw_sha384_digest :: "engines \<Rightarrow> u32 \<Rightarrow> u32 \<Rightarrow> u32 list fw_action" where
  "fw_sha384_digest P offset len =
     bindE (gets fw_image_source) (\<lambda>source. case source of
       MboxMemory mbox \<Rightarrow>
         mbox_slice mbox offset len (throw IMAGE_VERIFIER_ERR_DIGEST_OUT_OF_BOUNDS) (\<lambda>data.
         on_sha2 (sha2_384_digest (eng_sha512 P) data))
     | FipsTest manifest_image fmc_image runtime_image \<Rightarrow>
         bindE (mapErr IMAGE_VERIFIER_ERR_DIGEST_OUT_OF_BOUNDS
           (liftO (read_fips_test_slice manifest_image fmc_image runtime_image offset len))) (\<lambda>data.
         on_sha2 (sha2_384_digest (eng_sha512 P) data))
     | Axi axi_start \<Rightarrow>
         bindE (liftO (AxiAddr_checked_offset axi_start (ucast offset) (ucast len))) (\<lambda>source.
         on_acc (eng_dma_sha384 P source len)))"

definition fw_sha512_digest :: "engines \<Rightarrow> u32 \<Rightarrow> u32 \<Rightarrow> u32 list fw_action" where
  "fw_sha512_digest P offset len =
     bindE (gets fw_image_source) (\<lambda>source. case source of
       MboxMemory mbox \<Rightarrow>
         mbox_slice mbox offset len (throw IMAGE_VERIFIER_ERR_DIGEST_OUT_OF_BOUNDS) (\<lambda>data.
         on_sha2 (sha2_512_digest (eng_sha512 P) data))
     | FipsTest manifest_image fmc_image runtime_image \<Rightarrow>
         bindE (mapErr IMAGE_VERIFIER_ERR_DIGEST_OUT_OF_BOUNDS
           (liftO (read_fips_test_slice manifest_image fmc_image runtime_image offset len))) (\<lambda>data.
         on_sha2 (sha2_512_digest (eng_sha512 P) data))
     | Axi axi_start \<Rightarrow>
         bindE (liftO (AxiAddr_checked_offset axi_start (ucast offset) (ucast len))) (\<lambda>source.
         on_acc (eng_dma_sha512 P source len)))"

text \<open>Take the lock of the accelerator, run an operation, drop the lock.\<close>

definition acc_session :: "u32 \<Rightarrow> (Sha512AcceleratorRegs, u32 list) action \<Rightarrow> u32 list fw_action" where
  "acc_session digest_failure m =
     on_acc (bindE (try_start_operation NotAcquired) (\<lambda>op. case op of
       None \<Rightarrow> throw DRIVER_SHA2_512_384_ACC_DIGEST_START_OP_FAILURE
     | Some _ \<Rightarrow> with_op (mapErr digest_failure m)))"

definition fw_sha384_acc_digest_slice :: "engines \<Rightarrow> u8 list \<Rightarrow> u32 \<Rightarrow> u32 list fw_action" where
  "fw_sha384_acc_digest_slice P data digest_failure =
     acc_session digest_failure (digest_384_slice (eng_sha512 P) data Reorder)"

definition fw_sha384_acc_digest :: "engines \<Rightarrow> u32 \<Rightarrow> u32 \<Rightarrow> u32 \<Rightarrow> u32 list fw_action" where
  "fw_sha384_acc_digest P offset len digest_failure =
     bindE (gets fw_image_source) (\<lambda>source. case source of
       Axi _ \<Rightarrow> mapErr digest_failure (fw_sha384_digest P offset len)
     | MboxMemory _ \<Rightarrow>
         bindE (gets (\<lambda>s. soc_subsystem_mode (fw_soc_ifc s))) (\<lambda>subsystem_mode.
         acc_session digest_failure (digest_384 (eng_sha512 P) subsystem_mode len offset Reorder))
     | FipsTest manifest_image fmc_image runtime_image \<Rightarrow>
         bindE (mapErr digest_failure (liftO (read_fips_test_slice manifest_image fmc_image runtime_image offset len))) (\<lambda>data.
         fw_sha384_acc_digest_slice P data digest_failure))"

definition fw_sha512_acc_digest :: "engines \<Rightarrow> u32 \<Rightarrow> u32 \<Rightarrow> u32 \<Rightarrow> u32 list fw_action" where
  "fw_sha512_acc_digest P offset len digest_failure =
     bindE (gets fw_image_source) (\<lambda>source. case source of
       Axi _ \<Rightarrow> mapErr digest_failure (fw_sha512_digest P offset len)
     | MboxMemory _ \<Rightarrow>
         bindE (gets (\<lambda>s. soc_subsystem_mode (fw_soc_ifc s))) (\<lambda>subsystem_mode.
         acc_session digest_failure (digest_512 (eng_sha512 P) subsystem_mode len offset Reorder))
     | FipsTest manifest_image fmc_image runtime_image \<Rightarrow>
         bindE (mapErr digest_failure (liftO (read_fips_test_slice manifest_image fmc_image runtime_image offset len))) (\<lambda>data.
         acc_session digest_failure (digest_512_slice (eng_sha512 P) data Reorder)))"

section \<open>Signatures\<close>

definition fw_ecc384_verify ::
  "engines \<Rightarrow> ImageDigest384 \<Rightarrow> ImageEccPubKey \<Rightarrow> ImageEccSignature \<Rightarrow> u32 list fw_action" where
  "fw_ecc384_verify P digest pub_key sig =
     (let pub_key = \<lparr>ec_x = ecc_pk_x pub_key, ec_y = ecc_pk_y pub_key\<rparr>;
          sig = \<lparr>ec_r = ecc_sig_r sig, ec_s = ecc_sig_s sig\<rparr>
      in on_ecc (Ecc384_verify_r (eng_p384 P) pub_key digest sig))"

definition fw_lms_verify ::
  "engines \<Rightarrow> ImageDigest384 \<Rightarrow> ImageLmsPublicKey \<Rightarrow> ImageLmsSignature \<Rightarrow> HashValue fw_action" where
  "fw_lms_verify P digest pub_key sig =
     on_sha256 (verify_lms_signature_cfi (eng_sha256 P) (u32_be_to_u8 digest) pub_key sig)"

definition fw_mldsa87_verify ::
  "engines \<Rightarrow> u8 list \<Rightarrow> ImageMldsaPubKey \<Rightarrow> ImageMldsaSignature \<Rightarrow> Mldsa87Result fw_action" where
  "fw_mldsa87_verify P msg pub_key sig =
     (let pub_key_bytes = u32_le_to_u8 pub_key; sig_bytes = u32_le_to_u8 sig
      in bindE (failIf (length pub_key_bytes \<noteq> 2592) IMAGE_VERIFIER_ERR_MLDSA_TYPE_CONVERSION_FAILED) (\<lambda>_.
         bindE (failIf (length sig_bytes \<noteq> 4628) IMAGE_VERIFIER_ERR_MLDSA_TYPE_CONVERSION_FAILED) (\<lambda>_.
         on_mldsa (verify_var (eng_fips204 P) (u8_to_u32_le 648 pub_key_bytes) msg (u8_to_u32_le 1157 sig_bytes)))))"

section \<open>Fuses and vaults\<close>

definition ICCM_RANGE :: u32_range where
  "ICCM_RANGE = (0x40000000, 0x40000000 + 256 * 1024)"

definition fw_pqc_key_type_fuse :: "SocIfcRegs \<Rightarrow> FwVerificationPqcKeyType outcome" where
  "fw_pqc_key_type_fuse soc =
     (case pqc_key_type_from_u8 (ucast (fuse_pqc_key_type soc)) of
        None \<Rightarrow> Err IMAGE_VERIFIER_ERR_INVALID_PQC_KEY_TYPE_IN_FUSE
      | Some ty \<Rightarrow> Ok ty)"

definition fw_dot_owner_pk_hash :: "RomPersistentData \<Rightarrow> ImageDigest384 option" where
  "fw_dot_owner_pk_hash p = (if rom_owner_pk_hash_valid p then Some (rom_owner_pk_hash p) else None)"

definition fw_view :: "FirmwareImageVerificationEnv \<Rightarrow> env_view" where
  "fw_view s =
     (let soc = fw_soc_ifc s; dv = fw_data_vault s; p = fw_persistent_data s
      in \<lparr>vendor_pub_key_info_digest_fuses = fuse_vendor_pk_hash soc,
          vendor_ecc_pub_key_revocation = fuse_vendor_ecc_pub_key_revocation soc,
          vendor_lms_pub_key_revocation = fuse_lms_revocation soc,
          vendor_mldsa_pub_key_revocation = fuse_mldsa_revocation soc,
          owner_pub_key_digest_fuses = cptra_owner_pk_hash soc,
          anti_rollback_disable = fuse_anti_rollback_disabled soc,
          dev_lifecycle = soc_lifecycle soc,
          vendor_ecc_pub_key_idx_dv = dv_vendor_ecc_pk_index dv,
          vendor_pqc_pub_key_idx_dv = dv_vendor_pqc_pk_index dv,
          owner_pub_key_digest_dv = dv_owner_pk_hash dv,
          get_fmc_digest_dv = dv_fmc_tci dv,
          get_cold_reset_fmc_load_addr = load_addr (fmc (rom_manifest1 p)),
          get_cold_reset_fmc_size = toc_size (fmc (rom_manifest1 p)),
          fw_fuse_svn = fuse_fw_svn soc,
          iccm_range = ICCM_RANGE,
          pqc_key_type_fuse = fw_pqc_key_type_fuse soc,
          dot_owner_pk_hash = fw_dot_owner_pk_hash p,
          debug_image_allowed = vendor_debug_image_allowed soc\<rparr>)"

definition FirmwareEnv :: "engines \<Rightarrow> FirmwareImageVerificationEnv ImageVerificationEnv" where
  "FirmwareEnv P =
     \<lparr>sha384_digest = fw_sha384_digest P,
      sha512_digest = fw_sha512_digest P,
      sha384_acc_digest_slice = fw_sha384_acc_digest_slice P,
      sha384_acc_digest = fw_sha384_acc_digest P,
      sha512_acc_digest = fw_sha512_acc_digest P,
      ecc384_verify = fw_ecc384_verify P,
      lms_verify = fw_lms_verify P,
      mldsa87_verify = fw_mldsa87_verify P,
      set_fw_extended_error = (\<lambda>err s. s\<lparr>fw_soc_ifc := soc_set_fw_extended_error err (fw_soc_ifc s)\<rparr>),
      env_view = fw_view\<rparr>"

end
