(* ===== verification/FirmwareCorrect.thy ===== *)
theory FirmwareCorrect
  imports FirmwareEnv
begin

unbundle bit_operations_syntax

text \<open>
  The environment of the ROM meets the contract of the trait \<^verbatim>\<open>ImageVerificationEnv\<close>: its digests are
  SHA-384 digests, its signature checks compute what the engines decide, and none of them panics or
  hangs. The interpretation of \<open>image_verification_env\<close> then gives the correctness of the image
  verifier on the drivers and devices.
\<close>

section \<open>What the environment computes\<close>

definition engines_ok :: "engines \<Rightarrow> bool" where
  "engines_ok P \<longleftrightarrow> compress_ok (eng_sha512 P) \<and> compress256_ok (eng_sha256 P) \<and> p384_scalars_law (eng_p384 P)"

definition fw_crypto :: "engines \<Rightarrow> crypto" where
  "fw_crypto P =
     \<lparr>SHA384 = sha384_ref (eng_sha512 P),
      ECC384_R = (\<lambda>d pk sig. if scalar_range_check (ecc_sig_r sig) \<and> scalar_range_check (ecc_sig_s sig)
        then Some (ecdsa_r (eng_p384 P) \<lparr>ec_x = ecc_pk_x pk, ec_y = ecc_pk_y pk\<rparr> d \<lparr>ec_r = ecc_sig_r sig, ec_s = ecc_sig_s sig\<rparr>)
        else None),
      LMS_KEY = (\<lambda>d pk sig. case lms_ref (eng_sha256 P) 6 51 15 (u32_be_to_u8 d) pk sig of Ok k \<Rightarrow> Some k | _ \<Rightarrow> None),
      MLDSA87 = (\<lambda>msg pk sig. if take 16 sig = replicate 16 0 then None
        else Some (if mldsa_verdict (eng_fips204 P) pk msg sig then Mldsa87_Success else Mldsa87_SigVerifyFailed))\<rparr>"

text \<open>The public keys the engines accept.\<close>

definition fw_ecc_ok :: "engines \<Rightarrow> ImageEccPubKey \<Rightarrow> bool" where
  "fw_ecc_ok P pk \<longleftrightarrow> p384_point_ok (eng_p384 P) (u32_be_to_u8 (ecc_pk_x pk)) (u32_be_to_u8 (ecc_pk_y pk))"

definition fw_mldsa_ok :: "engines \<Rightarrow> u32 list \<Rightarrow> bool" where
  "fw_mldsa_ok P pk \<longleftrightarrow> length pk = 648 \<and> fips204_pk_ok (eng_fips204 P) (u32_le_to_u8 pk)"

text \<open>The devices between operations: the accelerator is free, or held by the SoC; the others are idle.\<close>

definition acc_held :: "Sha512AcceleratorRegs \<Rightarrow> bool" where
  "acc_held r \<longleftrightarrow> machine_ok (state_machine r) \<and> acc_state (state_machine r) = RdyForExc"

definition fw_devices :: "engines \<Rightarrow> FirmwareImageVerificationEnv \<Rightarrow> bool" where
  "fw_devices P s \<longleftrightarrow> engines_ok P \<and> (acc_free (fw_sha2_512_384_acc s) \<or> acc_held (fw_sha2_512_384_acc s)) \<and>
     s256_idle (fw_sha256 s) \<and> ecc_idle (fw_ecc384 s) \<and> mldsa_idle (fw_mldsa87 s)"

definition fw_live :: "FirmwareImageVerificationEnv \<Rightarrow> bool" where
  "fw_live s \<longleftrightarrow> acc_free (fw_sha2_512_384_acc s)"

text \<open>The image: its source, the mailbox memory and the mode that limits the mailbox.\<close>

definition fw_image :: "FirmwareImageVerificationEnv \<Rightarrow> ImageSource \<times> RamImpl \<times> bool" where
  "fw_image s = (fw_image_source s, mailbox_ram (fw_sha2_512_384_acc s), soc_subsystem_mode (fw_soc_ifc s))"

definition fw_bytes :: "ImageSource \<times> RamImpl \<times> bool \<Rightarrow> u8 list" where
  "fw_bytes im = (case im of (source, ram, _) \<Rightarrow> (case source of
      MboxMemory _ \<Rightarrow> ram_data ram
    | Axi _ \<Rightarrow> []
    | FipsTest m f r \<Rightarrow> m @ f @ r))"

text \<open>
  The ranges that can be digested: word-aligned ranges of the mailbox, and ranges inside one of the
  loaded parts. The emulator takes only start addresses below the number of words, and pads
  streamed messages of length 111 modulo 128 with a block too many.
\<close>

definition fw_readable :: "ImageSource \<times> RamImpl \<times> bool \<Rightarrow> u32 \<Rightarrow> u32 \<Rightarrow> bool" where
  "fw_readable im off len = (case im of (source, ram, subsystem_mode) \<Rightarrow> (case source of
      MboxMemory _ \<Rightarrow> mbox_range_ok subsystem_mode off len \<and> mbox_msg_ok ram off len \<and> unat off < MAX_MAILBOX_CAPACITY_WORDS
    | Axi _ \<Rightarrow> False
    | FipsTest m f r \<Rightarrow>
        length m + length f + length r < 2 ^ 32 \<and> unat len mod 128 \<noteq> 111 \<and> 0 < unat len \<and>
        (unat off + unat len \<le> length m \<or>
         length m \<le> unat off \<and> unat off + unat len \<le> length m + length f \<or>
         length m + length f \<le> unat off \<and> unat off + unat len \<le> length m + length f + length r)))"

definition fw_slice_ok :: "nat \<Rightarrow> bool" where
  "fw_slice_ok n \<longleftrightarrow> n < 2 ^ 32 \<and> n mod 128 \<noteq> 111"

abbreviation fw_at :: "engines \<Rightarrow> env_view \<Rightarrow> ImageSource \<times> RamImpl \<times> bool \<Rightarrow> FirmwareImageVerificationEnv \<Rightarrow> bool" where
  "fw_at P \<equiv> env_at (FirmwareEnv P) fw_image (fw_devices P)"

section \<open>Digests\<close>

lemma with_op_mapErr: "with_op m r = (Ok x, t) \<Longrightarrow> with_op (mapErr e m) r = (Ok x, t)"
  by (cases "m r"; cases "fst (m r)") (auto simp: with_op_def mapErr_def bindE_def split: prod.splits outcome.splits)

lemma fw_at_acc:
  assumes "fw_at P v im s" "acc_free r" "mailbox_ram r = mailbox_ram (fw_sha2_512_384_acc s)"
  shows "fw_at P v im (s\<lparr>fw_sha2_512_384_acc := r\<rparr>)"
  using assms by (simp add: env_at_def FirmwareEnv_def fw_view_def fw_image_def fw_devices_def Let_def)

lemma acc_session_meets:
  assumes "\<And>s. fw_at P v im s \<Longrightarrow> acc_free (fw_sha2_512_384_acc s) \<Longrightarrow>
    \<exists>t. bindE (try_start_operation NotAcquired) (\<lambda>op. with_op m) (fw_sha2_512_384_acc s) = (Ok x, t) \<and> acc_free t \<and>
      mailbox_ram t = mailbox_ram (fw_sha2_512_384_acc s)"
  shows "meets (fw_at P v im) fw_live (acc_session e m) [] x"
  unfolding meets_def
proof (intro allI impI)
  fix s assume s: "fw_at P v im s"
  let ?acc = "fw_sha2_512_384_acc s"
  show "case acc_session e m s of
      (Ok y, t) \<Rightarrow> y = x \<and> all_pass [] \<and> fw_at P v im t \<and> (fw_live s \<longrightarrow> fw_live t)
    | (Err e, t) \<Rightarrow> fw_live s \<longrightarrow> run_checks [] = Err e | (CfiPanic _, _) \<Rightarrow> False | (RustPanic, _) \<Rightarrow> False"
  proof (cases "acc_free ?acc")
    case True
    from assms [OF s True] obtain t where
      t: "with_op m (lock_acc ?acc) = (Ok x, t)" "acc_free t" "mailbox_ram t = mailbox_ram ?acc"
      using try_start_free [OF True] by (auto simp: bindE_def)
    then have "acc_session e m s = (Ok x, s\<lparr>fw_sha2_512_384_acc := t\<rparr>)"
      using try_start_free [OF True] with_op_mapErr [OF t(1), of e]
      by (simp add: acc_session_def on_acc_def zoom_def bindE_def)
    then show ?thesis using fw_at_acc [OF s t(2,3)] t(2) by (simp add: fw_live_def)
  next
    case False
    then have "acc_held ?acc" using s by (simp add: env_at_def fw_devices_def)
    then have "try_start_operation NotAcquired ?acc = (Ok None, ?acc)"
      by (simp add: acc_held_def try_start_held)
    then show ?thesis using False by (simp add: acc_session_def on_acc_def zoom_def bindE_def fw_live_def)
  qed
qed

lemma fw_slice_meets:
  assumes "fw_slice_ok (length data)"
  shows "meets (fw_at P v im) fw_live (fw_sha384_acc_digest_slice P data e) [] (sha384_ref (eng_sha512 P) data)"
  unfolding fw_sha384_acc_digest_slice_def
proof (rule acc_session_meets)
  fix s assume "fw_at P v im s" "acc_free (fw_sha2_512_384_acc s)"
  then show "\<exists>t. bindE (try_start_operation NotAcquired) (\<lambda>op. with_op (digest_384_slice (eng_sha512 P) data Reorder))
      (fw_sha2_512_384_acc s) = (Ok (sha384_ref (eng_sha512 P) data), t) \<and> acc_free t \<and>
      mailbox_ram t = mailbox_ram (fw_sha2_512_384_acc s)"
    using slice_session_run [of "fw_sha2_512_384_acc s" "eng_sha512 P" data] assms
    by (simp add: env_at_def fw_devices_def engines_ok_def fw_slice_ok_def)
qed

lemma slice_get_inside:
  assumes "unat off + unat len \<le> length xs" "length xs < 2 ^ 32"
  shows "slice_get xs off (off + len) = Some (take (unat len) (drop (unat off) xs))"
proof -
  have "unat (off + len) = unat off + unat len" using assms by (simp add: unat_word_ariths)
  then show ?thesis using assms by (simp add: slice_get_def word_le_nat_alt)
qed

text \<open>A range inside one of the loaded parts is read as the same range of their concatenation.\<close>

lemma read_fips_test_slice_inside:
  assumes "fw_readable (FipsTest m f r, ram, sub) off len"
  shows "read_fips_test_slice m f r off len = Ok (take (unat len) (drop (unat off) (m @ f @ r)))"
proof -
  let ?total = "length m + length f + length r"
  have sum: "?total < 2 ^ 32" and len: "0 < unat len"
    and part: "unat off + unat len \<le> length m \<or>
         length m \<le> unat off \<and> unat off + unat len \<le> length m + length f \<or>
         length m + length f \<le> unat off \<and> unat off + unat len \<le> ?total"
    using assms by (simp_all add: fw_readable_def)
  have words: "unat (of_nat (length m) :: u32) = length m" "unat (of_nat (length m) + of_nat (length f) :: u32) = length m + length f"
    "unat (of_nat (length m) + of_nat (length f) + of_nat (length r) :: u32) = ?total"
    using sum by (simp_all add: unat_word_ariths unat_of_nat)
  have off_len: "unat (off + len) = unat off + unat len"
    using part sum by (auto simp: unat_word_ariths)
  note cmp = word_le_nat_alt word_less_nat_alt words off_len
  consider (m) "unat off + unat len \<le> length m"
    | (f) "\<not> unat off + unat len \<le> length m" "length m \<le> unat off" "unat off + unat len \<le> length m + length f"
    | (r) "\<not> unat off + unat len \<le> length m + length f" "length m + length f \<le> unat off" "unat off + unat len \<le> ?total"
    using part by linarith
  then show ?thesis
  proof cases
    case m
    then show ?thesis using sum len
      by (simp add: read_fips_test_slice_def Let_def cmp slice_get_inside)
  next
    case f
    then have "unat (off - of_nat (length m)) = unat off - length m"
      by (simp add: unat_sub cmp)
    then show ?thesis using f sum len slice_get_inside [of "off - of_nat (length m)" len f]
      by (simp add: read_fips_test_slice_def Let_def cmp)
  next
    case r
    then have "unat (off - of_nat (length m) - of_nat (length f)) = unat off - length m - length f"
      using unat_sub [of "of_nat (length m) + of_nat (length f)" off] by (simp add: cmp diff_diff_eq)
    then show ?thesis using r sum len slice_get_inside [of "off - of_nat (length m) - of_nat (length f)" len r]
      by (simp add: read_fips_test_slice_def Let_def cmp diff_diff_eq)
  qed
qed

lemma fw_image_meets:
  assumes "fw_readable im off len"
  shows "meets (fw_at P v im) fw_live (fw_sha384_acc_digest P off len e) []
    (sha384_ref (eng_sha512 P) (take (unat len) (drop (unat off) (fw_bytes im))))"
proof -
  obtain src ram sub where im: "im = (src, ram, sub)" by (cases im)
  have src: "fw_image_source s = src" "mailbox_ram (fw_sha2_512_384_acc s) = ram" "soc_subsystem_mode (fw_soc_ifc s) = sub"
    if "fw_at P v im s" for s
    using that by (simp_all add: env_at_def fw_image_def im)
  show ?thesis
  proof (cases src)
    case (MboxMemory mbox)
    have "meets (fw_at P v im) fw_live (acc_session e (digest_384 (eng_sha512 P) sub len off Reorder)) []
        (sha384_ref (eng_sha512 P) (take (unat len) (drop (unat off) (ram_data ram))))"
    proof (rule acc_session_meets)
      fix s assume s: "fw_at P v im s" "acc_free (fw_sha2_512_384_acc s)"
      then show "\<exists>t. bindE (try_start_operation NotAcquired) (\<lambda>op. with_op (digest_384 (eng_sha512 P) sub len off Reorder))
          (fw_sha2_512_384_acc s) = (Ok (sha384_ref (eng_sha512 P) (take (unat len) (drop (unat off) (ram_data ram)))), t) \<and>
          acc_free t \<and> mailbox_ram t = mailbox_ram (fw_sha2_512_384_acc s)"
        using mailbox_session_run [OF s(2), of "eng_sha512 P" sub off len] assms src [OF s(1)]
        by (simp add: im MboxMemory fw_readable_def env_at_def fw_devices_def engines_ok_def)
    qed
    then show ?thesis using src
      by (simp add: meets_def fw_sha384_acc_digest_def bindE_def MboxMemory im fw_bytes_def)
  next
    case (FipsTest m f r)
    let ?data = "take (unat len) (drop (unat off) (m @ f @ r))"
    have "length ?data = unat len" using assms by (auto simp: im FipsTest fw_readable_def)
    then have "fw_slice_ok (length ?data)"
      using assms unsigned_less [of len] by (simp add: im FipsTest fw_readable_def fw_slice_ok_def)
    from fw_slice_meets [OF this] show ?thesis
      using src read_fips_test_slice_inside [OF assms [unfolded im FipsTest]]
      by (simp add: meets_def fw_sha384_acc_digest_def bindE_def mapErr_def FipsTest im fw_bytes_def)
  qed (use assms in \<open>simp add: im fw_readable_def\<close>)
qed

section \<open>Signatures\<close>

lemma computes_run:
  assumes "\<And>s. fw_at P v im s \<Longrightarrow> \<exists>x t. m s = (x, t) \<and> \<not> is_panic x \<and> r = (case x of Ok y \<Rightarrow> Some y | _ \<Rightarrow> None) \<and>
    fw_at P v im t \<and> (fw_live s \<longrightarrow> fw_live t)"
  shows "computes (fw_at P v im) fw_live m r"
  unfolding computes_def
proof (intro allI impI)
  fix s assume "fw_at P v im s"
  from assms [OF this] obtain x t where "m s = (x, t)" "\<not> is_panic x" "r = (case x of Ok y \<Rightarrow> Some y | _ \<Rightarrow> None)"
    "fw_at P v im t" "fw_live s \<longrightarrow> fw_live t" by blast
  then show "case m s of (Ok y, t) \<Rightarrow> r = Some y \<and> fw_at P v im t \<and> (fw_live s \<longrightarrow> fw_live t)
    | (Err e, t) \<Rightarrow> fw_live s \<longrightarrow> r = None | (CfiPanic _, _) \<Rightarrow> False | (RustPanic, _) \<Rightarrow> False"
    by (cases x) simp_all
qed

lemma fw_at_engines:
  assumes "fw_at P v im s"
  shows "ecc_idle d \<Longrightarrow> ecc_hash_sha512 d = fw_sha2_512_384 s \<Longrightarrow>
      fw_at P v im (s\<lparr>fw_ecc384 := d, fw_sha2_512_384 := ecc_hash_sha512 d\<rparr>)"
    "mldsa_idle a \<Longrightarrow> abr_hash_sha512 a = fw_sha2_512_384 s \<Longrightarrow>
      fw_at P v im (s\<lparr>fw_mldsa87 := a, fw_sha2_512_384 := abr_hash_sha512 a\<rparr>)"
    "s256_idle h \<Longrightarrow> fw_at P v im (s\<lparr>fw_sha256 := h\<rparr>)"
  using assms by (simp_all add: env_at_def FirmwareEnv_def fw_view_def fw_image_def fw_devices_def Let_def)

lemma fw_ecc_computes:
  assumes "fw_ecc_ok P pk" "wf_ImageEccSignature sig"
  shows "computes (fw_at P v im) fw_live (fw_ecc384_verify P d pk sig) (ECC384_R (fw_crypto P) d pk sig)"
proof (rule computes_run)
  fix s assume s: "fw_at P v im s"
  let ?r = "(fw_ecc384 s)\<lparr>ecc_hash_sha512 := fw_sha2_512_384 s\<rparr>"
  have "ecc_idle ?r" "p384_scalars_law (eng_p384 P)"
    using s by (simp_all add: env_at_def fw_devices_def engines_ok_def ecc_idle_def ecc_ready_def ecc_err_condition_def)
  from Ecc384_verify_r_run [OF this(2,1), of "\<lparr>ec_r = ecc_sig_r sig, ec_s = ecc_sig_s sig\<rparr>" "\<lparr>ec_x = ecc_pk_x pk, ec_y = ecc_pk_y pk\<rparr>" d]
  obtain t where t: "Ecc384_verify_r (eng_p384 P) \<lparr>ec_x = ecc_pk_x pk, ec_y = ecc_pk_y pk\<rparr> d
      \<lparr>ec_r = ecc_sig_r sig, ec_s = ecc_sig_s sig\<rparr> ?r =
      (case ECC384_R (fw_crypto P) d pk sig of Some y \<Rightarrow> Ok y | None \<Rightarrow> Err DRIVER_ECC384_SCALAR_RANGE_CHECK_FAILED, t)"
    "ecc_idle t" "ecc_hash_sha512 t = fw_sha2_512_384 s"
    using assms by (auto simp: fw_ecc_ok_def wf_ImageEccSignature_def wf_words_def fw_crypto_def)
  show "\<exists>x t. fw_ecc384_verify P d pk sig s = (x, t) \<and> \<not> is_panic x \<and>
      ECC384_R (fw_crypto P) d pk sig = (case x of Ok y \<Rightarrow> Some y | _ \<Rightarrow> None) \<and> fw_at P v im t \<and> (fw_live s \<longrightarrow> fw_live t)"
    using t fw_at_engines(1) [OF s t(2,3)]
    by (cases "ECC384_R (fw_crypto P) d pk sig") (simp_all add: fw_ecc384_verify_def on_ecc_def zoom_def fw_live_def)
qed

lemma fw_mldsa_computes:
  assumes "fw_mldsa_ok P pk" "length sig = 1157"
  shows "computes (fw_at P v im) fw_live (fw_mldsa87_verify P msg pk sig) (MLDSA87 (fw_crypto P) msg pk sig)"
proof (rule computes_run)
  fix s assume s: "fw_at P v im s"
  let ?r = "(fw_mldsa87 s)\<lparr>abr_hash_sha512 := fw_sha2_512_384 s\<rparr>"
  have "mldsa_idle ?r" using s
    by (simp add: env_at_def fw_devices_def mldsa_idle_def mldsa_ready_def abr_err_condition_def mldsa_only_def)
  from verify_var_run [OF this assms(2), of "eng_fips204 P" pk msg]
  obtain t where t: "verify_var (eng_fips204 P) pk msg sig ?r =
      (case MLDSA87 (fw_crypto P) msg pk sig of Some y \<Rightarrow> Ok y | None \<Rightarrow> Err DRIVER_MLDSA87_UNSUPPORTED_SIGNATURE, t)"
    "mldsa_idle t" "abr_hash_sha512 t = fw_sha2_512_384 s"
    using assms by (auto simp: fw_mldsa_ok_def fw_crypto_def)
  show "\<exists>x t. fw_mldsa87_verify P msg pk sig s = (x, t) \<and> \<not> is_panic x \<and>
      MLDSA87 (fw_crypto P) msg pk sig = (case x of Ok y \<Rightarrow> Some y | _ \<Rightarrow> None) \<and> fw_at P v im t \<and> (fw_live s \<longrightarrow> fw_live t)"
    using t fw_at_engines(2) [OF s t(2,3)] assms
    by (cases "MLDSA87 (fw_crypto P) msg pk sig")
      (simp_all add: fw_mldsa87_verify_def on_mldsa_def zoom_def fw_live_def fw_mldsa_ok_def u8_to_u32_le_inverse bindE_def)
qed

lemma lms_ref_no_panic: "\<not> is_panic (lms_ref c N P H msg pk sig)"
  by (auto simp: lms_ref_def get_lms_parameters_def get_lmots_parameters_def split: if_splits option.splits)

lemma fw_lms_computes:
  assumes "length d = 12" "wf_LmsPublicKey 6 pk" "wf_LmsSignature 6 51 15 sig"
  shows "computes (fw_at P v im) fw_live (fw_lms_verify P d pk sig) (LMS_KEY (fw_crypto P) d pk sig)"
proof (rule computes_run)
  fix s assume s: "fw_at P v im s"
  have "compress256_ok (eng_sha256 P)" "s256_idle (fw_sha256 s)"
    using s by (simp_all add: env_at_def fw_devices_def engines_ok_def)
  then obtain t where t: "verify_lms_signature_cfi (eng_sha256 P) (u32_be_to_u8 d) pk sig (fw_sha256 s) =
      (lms_ref (eng_sha256 P) 6 51 15 (u32_be_to_u8 d) pk sig, t)" "s256_idle t"
    using sha_runD [OF verify_lms_run [of "eng_sha256 P" 6 "u32_be_to_u8 d" pk 51 15 sig]] assms
    by (auto simp: verify_lms_signature_cfi_def)
  show "\<exists>x t. fw_lms_verify P d pk sig s = (x, t) \<and> \<not> is_panic x \<and>
      LMS_KEY (fw_crypto P) d pk sig = (case x of Ok y \<Rightarrow> Some y | _ \<Rightarrow> None) \<and> fw_at P v im t \<and> (fw_live s \<longrightarrow> fw_live t)"
    using t fw_at_engines(3) [OF s t(2)]
    by (simp add: fw_lms_verify_def on_sha256_def zoom_def fw_live_def fw_crypto_def lms_ref_no_panic)
qed

section \<open>The contract of the trait\<close>

lemma FirmwareEnv_methods [simp]:
  "sha384_acc_digest_slice (FirmwareEnv P) = fw_sha384_acc_digest_slice P"
  "sha384_acc_digest (FirmwareEnv P) = fw_sha384_acc_digest P" "ecc384_verify (FirmwareEnv P) = fw_ecc384_verify P"
  "lms_verify (FirmwareEnv P) = fw_lms_verify P" "mldsa87_verify (FirmwareEnv P) = fw_mldsa87_verify P"
  "env_view (FirmwareEnv P) = fw_view"
  by (simp_all add: FirmwareEnv_def)

lemma SHA384_fw_crypto [simp]: "SHA384 (fw_crypto P) = sha384_ref (eng_sha512 P)"
  by (simp add: fw_crypto_def)

interpretation fw: image_verification_env "FirmwareEnv P" fw_image fw_live "fw_crypto P" fw_bytes fw_readable fw_slice_ok
    "fw_devices P" "fw_ecc_ok P" "fw_mldsa_ok P" for P
  by unfold_locales
    (simp_all add: manifest_slices_def fw_slice_ok_def fw_slice_meets fw_image_meets fw_ecc_computes fw_lms_computes
      fw_mldsa_computes)

section \<open>Verification on the drivers and devices\<close>

abbreviation fw_checks :: "engines \<Rightarrow> ImageManifest \<Rightarrow> u32 \<Rightarrow> ResetReason \<Rightarrow> FirmwareImageVerificationEnv \<Rightarrow> check list" where
  "fw_checks P man sz reason s \<equiv> verify_checks (fw_crypto P) (fw_view s) (fw_bytes (fw_image s)) man sz reason"

text \<open>
  Where the theorems apply: the devices are between operations, the manifest has the shape of its
  type, keys that pass the checks on the preamble are keys the engines take, and images that pass
  the checks on the table of contents are in memory that the accelerator can read.
\<close>

definition verifiable :: "engines \<Rightarrow> ImageManifest \<Rightarrow> u32 \<Rightarrow> ResetReason \<Rightarrow> FirmwareImageVerificationEnv \<Rightarrow> bool" where
  "verifiable P man sz reason s \<longleftrightarrow> fw_devices P s \<and> wf_ImageManifest man \<and>
     (all_pass (preamble_checks (fw_crypto P) (fw_view s) (preamble man) reason (manifest_pqc_type man)) \<longrightarrow>
        keys_accepted (fw_ecc_ok P) (fw_mldsa_ok P) man) \<and>
     (all_pass (toc_checks (fw_crypto P) man (manifest_toc_info man) sz) \<longrightarrow>
        fw_readable (fw_image s) (toc_offset (fmc man)) (toc_size (fmc man)) \<and>
        fw_readable (fw_image s) (toc_offset (runtime man)) (toc_size (runtime man)))"

lemma fw_verify_meets:
  assumes "verifiable P man sz reason s"
  shows "meets (fw_at P (fw_view s) (fw_image s)) fw_live (verify (FirmwareEnv P) man sz reason) (fw_checks P man sz reason s)
    (verified_info (fw_crypto P) (fw_view s) man)"
  by (rule fw.verify_meets)
    (use assms in \<open>auto simp: verifiable_def fw_view_def fw_pqc_key_type_fuse_def Let_def split: option.splits\<close>)

lemma fw_at_self: "verifiable P man sz reason s \<Longrightarrow> fw_at P (fw_view s) (fw_image s) s"
  by (simp add: verifiable_def env_at_def)

lemma fw_verify_Ok:
  assumes "verifiable P man sz reason s" "verify (FirmwareEnv P) man sz reason s = (Ok info, t)"
  shows "all_pass (fw_checks P man sz reason s)" "info = verified_info (fw_crypto P) (fw_view s) man"
  using meets_Ok [OF fw_verify_meets [OF assms(1)] fw_at_self [OF assms(1)] assms(2)] by simp_all

lemma fw_verify_live:
  assumes "verifiable P man sz reason s" "acc_free (fw_sha2_512_384_acc s)"
  shows "fst (verify (FirmwareEnv P) man sz reason s) =
    bindO (run_checks (fw_checks P man sz reason s)) (\<lambda>_. Ok (verified_info (fw_crypto P) (fw_view s) man))"
  using meets_live [OF fw_verify_meets [OF assms(1)] fw_at_self [OF assms(1)]] assms(2) by (simp add: fw_live_def)

section \<open>What acceptance by the engines means\<close>

definition ecdsa_accepts :: "engines \<Rightarrow> ImageEccPubKey \<Rightarrow> u32 list \<Rightarrow> ImageEccSignature \<Rightarrow> bool" where
  "ecdsa_accepts P pk digest sig \<longleftrightarrow>
     0 < words_num (ecc_sig_r sig) \<and> words_num (ecc_sig_r sig) < SECP384_ORDER \<and>
     0 < words_num (ecc_sig_s sig) \<and> words_num (ecc_sig_s sig) < SECP384_ORDER \<and>
     p384_verify (eng_p384 P) (u32_be_to_u8 (ecc_pk_x pk)) (u32_be_to_u8 (ecc_pk_y pk)) (u32_be_to_u8 digest)
       (u32_be_to_u8 (ecc_sig_r sig)) (u32_be_to_u8 (ecc_sig_s sig))"

lemma ecc_sig_checks_accept:
  assumes "wf_ImageEccSignature sig"
  shows "all_pass (ecc_sig_checks (fw_crypto P) owner d pk sig) \<Longrightarrow> ecdsa_accepts P pk d sig"
proof -
  assume "all_pass (ecc_sig_checks (fw_crypto P) owner d pk sig)"
  moreover have "ecc_sig_r sig \<noteq> []" "length (ecc_sig_r sig) = 12" "length (ecc_sig_s sig) = 12"
    using assms by (auto simp: wf_ImageEccSignature_def wf_words_def)
  ultimately show ?thesis
    using map_not_neq by (auto simp: ecc_sig_checks_def fw_crypto_def ecdsa_r_def ecdsa_accepts_def scalar_range_check_num
      split: if_splits)
qed

text \<open>The signature of the post-quantum scheme the manifest names, LMS on the digest or ML-DSA on the bytes.\<close>

definition pqc_accepts :: "engines \<Rightarrow> FwVerificationPqcKeyType \<Rightarrow> u8 list \<Rightarrow> u8 list \<Rightarrow> u8 list \<Rightarrow> bool" where
  "pqc_accepts P ty pk msg sig \<longleftrightarrow> (case ty of
      LMS \<Rightarrow> (let key = the (lms_pub_key_from pk) in
        lms_ref (eng_sha256 P) 6 51 15 (u32_be_to_u8 (sha384_ref (eng_sha512 P) msg)) key (the (lms_sig_from sig)) =
          Ok (swap_bytes (pk_digest key)))
    | MLDSA \<Rightarrow> mldsa_verdict (eng_fips204 P) (the (mldsa_pub_key_from pk)) msg (the (mldsa_sig_from sig)))"

lemma sig_checks_accept:
  assumes "all_pass (sig_checks (fw_crypto P) owner msg (pk, sig) (pqc_info ty qpk qsig))" "wf_ImageEccSignature sig"
  shows "ecdsa_accepts P pk (sha384_ref (eng_sha512 P) msg) sig" "pqc_accepts P ty qpk msg qsig"
proof -
  show "ecdsa_accepts P pk (sha384_ref (eng_sha512 P) msg) sig"
    using assms ecc_sig_checks_accept [OF assms(2), of P owner "sha384_ref (eng_sha512 P) msg" pk] by (simp add: sig_checks_def)
  show "pqc_accepts P ty qpk msg qsig"
    using assms(1)
    by (auto simp: sig_checks_def pqc_info_def pqc_accepts_def lms_sig_checks_def mldsa_sig_checks_def fw_crypto_def Let_def
      split: FwVerificationPqcKeyType.splits outcome.splits if_splits)
qed

lemma header_checks_accept:
  assumes "wf_ImageManifest man" "all_pass (fw_checks P man sz reason s)"
  defines "pre \<equiv> preamble man" and "hdr \<equiv> header man" and "ty \<equiv> manifest_pqc_type man" and "H \<equiv> sha384_ref (eng_sha512 P)"
  shows "ecdsa_accepts P (vendor_ecc_active_pub_key pre) (H (vendor_signed_bytes hdr)) (ecc_sig (vendor_sigs pre))"
    "pqc_accepts P ty (vendor_pqc_active_pub_key pre) (vendor_signed_bytes hdr) (pqc_sig (vendor_sigs pre))"
    "ecdsa_accepts P (owner_ecc_pub_key (owner_pub_keys pre)) (H (ImageHeader_as_bytes hdr)) (ecc_sig (owner_sigs pre))"
    "pqc_accepts P ty (owner_pqc_pub_key (owner_pub_keys pre)) (ImageHeader_as_bytes hdr) (pqc_sig (owner_sigs pre))"
proof -
  have wf: "wf_ImageEccSignature (ecc_sig (vendor_sigs pre))" "wf_ImageEccSignature (ecc_sig (owner_sigs pre))"
    using assms(1) by (simp_all add: pre_def wf_ImageManifest_def wf_ImagePreamble_def wf_ImageSignatures_def)
  have "all_pass (sig_checks (fw_crypto P) False (vendor_signed_bytes hdr) (vendor_ecc_active_pub_key pre, ecc_sig (vendor_sigs pre))
      (pqc_info ty (vendor_pqc_active_pub_key pre) (pqc_sig (vendor_sigs pre))))"
    "all_pass (sig_checks (fw_crypto P) True (ImageHeader_as_bytes hdr)
      (owner_ecc_pub_key (owner_pub_keys pre), ecc_sig (owner_sigs pre))
      (pqc_info ty (owner_pqc_pub_key (owner_pub_keys pre)) (pqc_sig (owner_sigs pre))))"
    using assms(2) by (simp_all add: verify_checks_def header_checks_def preamble_info_def Let_def pre_def hdr_def ty_def)
  from sig_checks_accept [OF this(1) wf(1)] sig_checks_accept [OF this(2) wf(2)]
  show "ecdsa_accepts P (vendor_ecc_active_pub_key pre) (H (vendor_signed_bytes hdr)) (ecc_sig (vendor_sigs pre))"
    "pqc_accepts P ty (vendor_pqc_active_pub_key pre) (vendor_signed_bytes hdr) (pqc_sig (vendor_sigs pre))"
    "ecdsa_accepts P (owner_ecc_pub_key (owner_pub_keys pre)) (H (ImageHeader_as_bytes hdr)) (ecc_sig (owner_sigs pre))"
    "pqc_accepts P ty (owner_pqc_pub_key (owner_pub_keys pre)) (ImageHeader_as_bytes hdr) (pqc_sig (owner_sigs pre))"
    by (simp_all add: H_def)
qed

section \<open>Revocation\<close>

lemma key_bit_small: "unat idx < 32 \<Longrightarrow> key_bit idx = push_bit (unat idx) 1"
proof -
  assume a: "unat idx < 32"
  have "idx AND 31 = idx mod 32" using take_bit_eq_mask [of 5 idx] by (simp add: take_bit_eq_mod mask_eq_exp_minus_1)
  then have "unat (idx AND 31) = unat idx mod 32" by (simp add: unat_mod)
  then show ?thesis using a by (simp add: key_bit_def)
qed

lemma key_not_revoked:
  assumes "w AND key_bit idx = 0" "unat idx < 32"
  shows "\<not> bit w (unat idx)"
proof -
  have "\<not> bit (w AND key_bit idx) (unat idx)" using assms(1) by simp
  then show ?thesis using assms(2) by (auto simp: key_bit_small bit_and_iff bit_exp_iff)
qed

lemma ecc_key_not_revoked:
  assumes "\<not> revocation_contains (from_bits_truncate w) (from_bits_truncate (key_bit idx))" "unat idx < 4"
  shows "\<not> bit w (unat idx)"
proof
  assume "bit w (unat idx)"
  then have "(w AND 15) AND (push_bit (unat idx) 1 AND 15) = push_bit (unat idx) 1 AND 15"
    by (intro bit_eqI) (auto simp: bit_simps)
  then show False using assms by (simp add: revocation_contains_def from_bits_truncate_def key_bit_small)
qed

section \<open>The parts of an accepted image\<close>

lemma fw_checks_parts:
  assumes "all_pass (fw_checks P man sz reason s)"
  shows "all_pass (vendor_key_checks (fw_crypto P) (fw_view s) (preamble man) (manifest_pqc_type man))"
    "all_pass (owner_key_checks (fw_crypto P) (fw_view s) (preamble man) reason)"
    "all_pass (ecc_idx_checks (fw_view s) (preamble man) reason)"
    "all_pass (pqc_idx_checks (fw_view s) (preamble man) reason (pqc_revocation (fw_view s) (manifest_pqc_type man)))"
    "all_pass (toc_checks (fw_crypto P) man (manifest_toc_info man) sz)"
    "all_pass (fmc_checks (fw_crypto P) (fw_view s) (fw_bytes (fw_image s)) (fmc man) reason)"
    "all_pass (runtime_checks (fw_crypto P) (fw_view s) (fw_bytes (fw_image s)) (runtime man))"
    "all_pass (svn_checks (fw_view s) (hdr_svn (header man)))"
  using assms by (simp_all add: verify_checks_def preamble_checks_def Let_def)

lemma vendor_keys_trusted:
  assumes "all_pass (vendor_key_checks (fw_crypto P) (fw_view s) pre ty)"
  shows "soc_lifecycle (fw_soc_ifc s) \<noteq> Unprovisioned \<longrightarrow>
    fuse_vendor_pk_hash (fw_soc_ifc s) = sha384_ref (eng_sha512 P) (ImageVendorPubKeyInfo_as_bytes (vendor_pub_key_info pre)) \<and>
    list_get (ecc_key_hash (ecc_key_descriptor (vendor_pub_key_info pre))) (pre_vendor_ecc_pub_key_idx pre) =
      Some (sha384_ref (eng_sha512 P) (ImageEccPubKey_as_bytes (vendor_ecc_active_pub_key pre))) \<and>
    list_get (pqc_key_hash (pqc_key_descriptor (vendor_pub_key_info pre))) (pre_vendor_pqc_pub_key_idx pre) =
      Some (sha384_ref (eng_sha512 P) (take (pqc_key_byte_size ty) (vendor_pqc_active_pub_key pre)))"
  using assms
  by (simp add: vendor_key_checks_def active_ecc_key_checks_def active_pqc_key_checks_def fw_view_def Let_def split: if_splits)

lemma owner_keys_trusted:
  assumes "all_pass (owner_key_checks (fw_crypto P) (fw_view s) pre reason)"
  shows "cptra_owner_pk_hash (fw_soc_ifc s) \<noteq> ZERO_DIGEST \<longrightarrow>
    cptra_owner_pk_hash (fw_soc_ifc s) = sha384_ref (eng_sha512 P) (ImageOwnerPubKeys_as_bytes (owner_pub_keys pre))"
  using assms by (simp add: owner_key_checks_def owner_keys_digest_def fw_view_def Let_def)

lemma digests_trusted:
  assumes "all_pass (toc_checks (fw_crypto P) man (manifest_toc_info man) sz)"
    "all_pass (fmc_checks (fw_crypto P) v img (fmc man) reason)" "all_pass (runtime_checks (fw_crypto P) v img (runtime man))"
  shows "toc_digest (header man) = sha384_ref (eng_sha512 P) (toc_bytes man)"
    "toc_entry_digest (fmc man) = sha384_ref (eng_sha512 P) (image_bytes img (fmc man))"
    "toc_entry_digest (runtime man) = sha384_ref (eng_sha512 P) (image_bytes img (runtime man))"
  using assms by (simp_all add: toc_checks_def manifest_toc_info_def fmc_checks_def runtime_checks_def)

text \<open>Memory that an image takes up when loaded, without wrap-around.\<close>

definition loaded_at :: "ImageTocEntry \<Rightarrow> nat set" where
  "loaded_at t = {unat (load_addr t)..<unat (load_addr t) + unat (toc_size t)}"

lemma unat_load_end:
  assumes "toc_size t \<noteq> 0" "unat (load_addr t) + unat (toc_size t) \<le> 2 ^ 32"
  shows "unat (load_end t) = unat (load_addr t) + unat (toc_size t) - 1"
proof -
  have "unat (toc_size t - 1) = unat (toc_size t) - 1" "0 < unat (toc_size t)"
    using assms(1) by (simp_all add: unat_minus_one unat_gt_0)
  moreover have "load_end t = load_addr t + (toc_size t - 1)" by (simp add: load_end_def)
  ultimately show ?thesis using assms(2) by (simp add: unat_word_ariths)
qed

lemma range_contains_iccm: "range_contains ICCM_RANGE a \<longleftrightarrow> 0x40000000 \<le> unat a \<and> unat a < 0x40040000"
  by (simp add: range_contains_def range_start_def range_end_def ICCM_RANGE_def word_le_nat_alt word_less_nat_alt)

lemma loaded_inside_iccm:
  assumes "toc_size t \<noteq> 0" "unat (load_addr t) + unat (toc_size t) \<le> 2 ^ 32" "range_contains ICCM_RANGE (load_addr t)"
    "range_contains ICCM_RANGE (load_end t)"
  shows "loaded_at t \<subseteq> {0x40000000..<0x40040000}" "load_addr t = entry_point t \<Longrightarrow> unat (entry_point t) \<in> loaded_at t"
  using assms unat_load_end [OF assms(1,2)] unat_gt_0 [of "toc_size t"]
  by (auto simp: range_contains_iccm loaded_at_def)

lemma loaded_disjoint:
  assumes "toc_size a \<noteq> 0" "unat (load_addr a) + unat (toc_size a) \<le> 2 ^ 32"
    "toc_size b \<noteq> 0" "unat (load_addr b) + unat (toc_size b) \<le> 2 ^ 32"
    "load_end b < load_addr a \<or> load_end a < load_addr b"
  shows "loaded_at a \<inter> loaded_at b = {}"
  using assms(5) unat_load_end [OF assms(1,2)] unat_load_end [OF assms(3,4)]
  by (auto simp: word_less_nat_alt loaded_at_def)

end
