(* ===== verification/FirmwareSample.thy ===== *)
theory FirmwareSample
  imports FirmwareCorrect
begin

unbundle bit_operations_syntax

text \<open>
  A device and an image that the verifier accepts: a production device with fused key digests, an
  image of two words for each part in the mailbox, signed with ECDSA and ML-DSA. The compression
  functions keep their state and the engines accept every signature, so that the digests are
  constants.
\<close>

definition sample_engines :: engines where
  "sample_engines =
     \<lparr>eng_sha512 = keep_hash, eng_sha256 = keep_hash256,
      eng_p384 = sample_p384, eng_fips204 = sample_fips204,
      eng_dma_sha384 = (\<lambda>_ _. ret []), eng_dma_sha512 = (\<lambda>_ _. ret [])\<rparr>"

definition sample_digest :: "u32 list" where
  "sample_digest = digest_words 12 (hash_iv Mode384)"

lemma sha384_keep: "sha384_ref keep_hash msg = sample_digest"
proof -
  have "foldl keep_hash h bs = h" for h bs by (induction bs) (simp_all add: keep_hash_def)
  then show ?thesis by (simp add: sha384_ref_def sha_ref_def absorb_def sample_digest_def)
qed

lemma sample_digest_simps [simp]: "sample_digest \<noteq> ZERO_DIGEST" "length sample_digest = 12"
  by (code_simp, simp add: sample_digest_def)

definition sample_ecc_key :: ImageEccPubKey where
  "sample_ecc_key = \<lparr>ecc_pk_x = replicate 12 1, ecc_pk_y = replicate 12 1\<rparr>"

definition sample_sigs :: ImageSignatures where
  "sample_sigs = \<lparr>ecc_sig = \<lparr>ecc_sig_r = replicate 12 1, ecc_sig_s = replicate 12 1\<rparr>, pqc_sig = replicate 4628 1\<rparr>"

definition sample_toc :: "u32 \<Rightarrow> u32 \<Rightarrow> ImageTocEntry" where
  "sample_toc offset addr =
     \<lparr>toc_id = 1, toc_type = 1, toc_revision = replicate 20 0, toc_version = 1, toc_reserved = [0, 0], load_addr = addr,
      entry_point = addr, toc_offset = offset, toc_size = 8, toc_entry_digest = sample_digest\<rparr>"

definition accepted_manifest :: ImageManifest where
  "accepted_manifest =
     \<lparr>marker = MANIFEST_MARKER, man_size = 16956, man_pqc_key_type = 1, man_reserved = [0, 0, 0],
      preamble =
        \<lparr>vendor_pub_key_info =
           \<lparr>ecc_key_descriptor = \<lparr>ecc_version = 1, ecc_reserved = 0, ecc_key_hash_count = 4,
              ecc_key_hash = replicate 4 sample_digest\<rparr>,
            pqc_key_descriptor = \<lparr>pqc_version = 1, pqc_key_type = 1, pqc_key_hash_count = 4,
              pqc_key_hash = replicate 32 sample_digest\<rparr>\<rparr>,
         pre_vendor_ecc_pub_key_idx = 2, vendor_ecc_active_pub_key = sample_ecc_key,
         pre_vendor_pqc_pub_key_idx = 1, vendor_pqc_active_pub_key = replicate 2592 0,
         vendor_sigs = sample_sigs,
         owner_pub_keys = \<lparr>owner_ecc_pub_key = sample_ecc_key, owner_pqc_pub_key = replicate 2592 0\<rparr>,
         owner_sigs = sample_sigs, pre_rsvd = [0, 0]\<rparr>,
      header =
        \<lparr>hdr_revision = [0, 0], hdr_vendor_ecc_pub_key_idx = 2, hdr_vendor_pqc_pub_key_idx = 1, hdr_flags = 0, toc_len = 2,
         pl0_pauser = 0, toc_digest = sample_digest, hdr_svn = 5,
         vendor_data = \<lparr>vendor_not_before = replicate 15 0, vendor_not_after = replicate 15 0, vendor_reserved = replicate 10 0\<rparr>,
         owner_data = \<lparr>owner_not_before = replicate 15 0, owner_not_after = replicate 15 0, owner_reserved = replicate 10 0\<rparr>\<rparr>,
      fmc = sample_toc 16956 0x40000000, runtime = sample_toc 16964 0x40000008\<rparr>"

definition sample_soc_ifc :: SocIfcRegs where
  "sample_soc_ifc =
     \<lparr>fuse_idevid_cert_attr = replicate 24 0, fuse_vendor_pk_hash = sample_digest, fuse_ecc_revocation = 3,
      fuse_lms_revocation = 0, fuse_mldsa_revocation = 1, cptra_owner_pk_hash = sample_digest,
      fuse_anti_rollback_disable = 0, fuse_runtime_svn = [0xf, 0, 0, 0], fuse_soc_manifest_svn = [0, 0, 0, 0],
      fuse_soc_manifest_max_svn = 0, fuse_pqc_key_type = 1, cptra_security_state = 3, cptra_reset_reason = 0,
      cptra_hw_config = 0, cptra_timer_config = 0, ss_debug_intent = 0, ss_strap_generic = [0, 0, 0, 0],
      ss_dbg_service_reg_req = 0, ss_prod_debug_unlock_auth_pk_hash_reg_bank_offset = 0,
      ss_num_of_prod_debug_unlock_auth_pk_hashes = 0, cptra_fw_extended_error_info = replicate 8 0\<rparr>"

definition sample_env :: FirmwareImageVerificationEnv where
  "sample_env =
     \<lparr>fw_sha256 = HashSha256_new, fw_sha2_512_384 = sample_h512,
      fw_sha2_512_384_acc = (Sha512AcceleratorRegs_new (Ram_new True (replicate 20000 0)))\<lparr>state_machine := AccMachine_new\<rparr>,
      fw_soc_ifc = sample_soc_ifc, fw_ecc384 = AsymEcc384_new sample_h512, fw_mldsa87 = Abr_new sample_h512,
      fw_data_vault =
        \<lparr>dv_fmc_tci = sample_digest, dv_owner_pk_hash = sample_digest, dv_cold_boot_fw_svn = 0, dv_fmc_entry_point = 0,
         dv_vendor_ecc_pk_index = 2, dv_vendor_pqc_pk_index = 1, dv_rt_tci = [], dv_fw_svn = 0, dv_rt_entry_point = 0,
         dv_manifest_addr = 0, dv_fw_min_svn = 0\<rparr>,
      fw_image_source = MboxMemory (replicate 20000 0),
      fw_persistent_data = \<lparr>rom_manifest1 = accepted_manifest, rom_owner_pk_hash = [], rom_owner_pk_hash_valid = False\<rparr>\<rparr>"

lemma wf_accepted_manifest: "wf_ImageManifest accepted_manifest"
  by (simp add: accepted_manifest_def wf_ImageManifest_def wf_ImagePreamble_def wf_ImageVendorPubKeyInfo_def
      wf_ImageEccKeyDescriptor_def wf_ImagePqcKeyDescriptor_def wf_ImageOwnerPubKeys_def wf_ImageEccPubKey_def
      wf_ImageSignatures_def wf_ImageEccSignature_def wf_ImageHeader_def wf_VendorSignedData_def wf_OwnerSignedData_def
      wf_ImageTocEntry_def wf_words_def sample_ecc_key_def sample_sigs_def sample_toc_def list_all_iff)

lemma sample_acc_free: "acc_free (fw_sha2_512_384_acc sample_env)"
  by (simp add: sample_env_def acc_free_def Sha512AcceleratorRegs_new_def AccMachine_new_def status_valid_def)

lemma engines_ok_sample: "engines_ok sample_engines"
  by (simp add: engines_ok_def sample_engines_def compress_ok_keep compress256_ok_keep p384_scalars_law_sample)

lemma fw_devices_sample: "fw_devices sample_engines sample_env"
  using sample_acc_free engines_ok_sample s256_idle_new
  by (simp add: fw_devices_def)
    (simp add: sample_env_def ecc_idle_def AsymEcc384_new_def Let_def ecc_ready_def ecc_err_condition_def
      mldsa_idle_def mldsa_only_def Abr_new_def abr_err_condition_def mldsa_ready_def)

lemma hd_dec_array: "0 < n \<Longrightarrow> hd (fst (dec_array n (dec_le k) bs)) = from_le_bytes (take k bs)"
  by (cases n) (simp_all add: dec_le_def split: prod.splits)

lemma sample_pqc_reads:
  "mldsa_pub_key_from (replicate 2592 0) \<noteq> None" "length (the (mldsa_pub_key_from (replicate 2592 0))) = 648"
  "mldsa_sig_from (replicate 4628 1) \<noteq> None" "take 16 (the (mldsa_sig_from (replicate 4628 1))) \<noteq> replicate 16 0"
proof -
  show "mldsa_pub_key_from (replicate 2592 0) \<noteq> None" "mldsa_sig_from (replicate 4628 1) \<noteq> None"
    by (simp_all add: mldsa_pub_key_from_def mldsa_sig_from_def ref_from_prefix_def)
  show "length (the (mldsa_pub_key_from (replicate 2592 0))) = 648"
    using words.dec_wf [of 648 "replicate 2592 0"]
    by (simp add: mldsa_pub_key_from_def ref_from_prefix_def wf_words_def)
  have "hd (the (mldsa_sig_from (replicate 4628 1))) = from_le_bytes (replicate 4 1)"
    by (simp add: mldsa_sig_from_def ref_from_prefix_def hd_dec_array)
  moreover have "from_le_bytes (replicate 4 1) \<noteq> (0 :: u32)" by code_simp
  ultimately show "take 16 (the (mldsa_sig_from (replicate 4628 1))) \<noteq> replicate 16 0"
    using hd_take [of 16 "the (mldsa_sig_from (replicate 4628 1))"] by fastforce
qed

lemma sample_pqc_type: "manifest_pqc_type accepted_manifest = MLDSA"
  by (simp add: manifest_pqc_type_def accepted_manifest_def pqc_key_type_from_u8_def)

lemma keys_accepted_sample: "keys_accepted (fw_ecc_ok sample_engines) (fw_mldsa_ok sample_engines) accepted_manifest"
  using sample_pqc_reads(2)
  by (simp add: keys_accepted_def sample_pqc_type Let_def fw_ecc_ok_def fw_mldsa_ok_def sample_engines_def sample_p384_def sample_fips204_def)
    (simp add: accepted_manifest_def)

lemma sample_svn: "fuse_fw_svn sample_soc_ifc = 4"
proof -
  have bits: "fuse_bits [0xf, 0, 0, 0] = mask 4" by code_simp
  have "first_set_msbit [0xf, 0, 0, 0] = of_nat (3 + 1)"
    by (rule first_set_msbit_cases(2)) (simp_all add: bits bit_mask_iff)
  then show ?thesis by (simp add: fuse_fw_svn_def sample_soc_ifc_def)
qed

text \<open>The fields the checks look at.\<close>

lemmas sample_defs = accepted_manifest_def sample_env_def sample_soc_ifc_def sample_ecc_key_def sample_sigs_def sample_toc_def

lemma sample_view:
  "fw_view sample_env =
     \<lparr>vendor_pub_key_info_digest_fuses = sample_digest, vendor_ecc_pub_key_revocation = 3,
      vendor_lms_pub_key_revocation = 0, vendor_mldsa_pub_key_revocation = 1,
      owner_pub_key_digest_fuses = sample_digest, anti_rollback_disable = False, dev_lifecycle = Production,
      vendor_ecc_pub_key_idx_dv = 2, vendor_pqc_pub_key_idx_dv = 1, owner_pub_key_digest_dv = sample_digest,
      get_fmc_digest_dv = sample_digest, get_cold_reset_fmc_load_addr = 0x40000000, get_cold_reset_fmc_size = 8,
      fw_fuse_svn = 4, iccm_range = ICCM_RANGE, pqc_key_type_fuse = Ok MLDSA, dot_owner_pk_hash = None,
      debug_image_allowed = False\<rparr>"
proof -
  have "fw_soc_ifc sample_env = sample_soc_ifc" by (simp add: sample_env_def)
  then show ?thesis using sample_svn
    by (simp add: fw_view_def Let_def)
      (simp add: sample_defs fuse_vendor_ecc_pub_key_revocation_def from_bits_truncate_def fuse_anti_rollback_disabled_def
        soc_lifecycle_def field_read_def fw_pqc_key_type_fuse_def pqc_key_type_from_u8_def fw_dot_owner_pk_hash_def
        vendor_debug_image_allowed_def soc_subsystem_mode_def mask_eq_exp_minus_1)
qed

lemma sample_crypto:
  "sha384_ref (eng_sha512 sample_engines) msg = sample_digest"
  "ECC384_R (fw_crypto sample_engines) d pk \<lparr>ecc_sig_r = replicate 12 1, ecc_sig_s = replicate 12 1\<rparr> = Some (replicate 12 1)"
  "MLDSA87 (fw_crypto sample_engines) m k (the (mldsa_sig_from (replicate 4628 1))) = Some Mldsa87_Success"
proof -
  have "scalar_range_check (replicate 12 1)" by code_simp
  then show "ECC384_R (fw_crypto sample_engines) d pk \<lparr>ecc_sig_r = replicate 12 1, ecc_sig_s = replicate 12 1\<rparr> = Some (replicate 12 1)"
    by (simp add: fw_crypto_def ecdsa_r_def sample_engines_def sample_p384_def)
qed (use sample_pqc_reads(4) in \<open>simp_all add: fw_crypto_def sha384_keep sample_engines_def sample_fips204_def mldsa_verdict_def\<close>)

abbreviation "sample_crypto_fns \<equiv> fw_crypto sample_engines"

lemma ZERO_DIGEST_ones: "replicate 12 1 \<noteq> ZERO_DIGEST" "ZERO_DIGEST \<noteq> sample_digest"
  using sample_digest_simps(1) by (simp_all add: ZERO_DIGEST_def)

lemma sample_preamble_passes:
  "all_pass (preamble_checks sample_crypto_fns (fw_view sample_env) (preamble accepted_manifest) reason MLDSA)"
  unfolding preamble_checks_def vendor_key_checks_def active_ecc_key_checks_def active_pqc_key_checks_def
    owner_key_checks_def owner_keys_digest_def ecc_idx_checks_def pqc_idx_checks_def vendor_pqc_read_checks_def owner_pqc_read_checks_def
    last_ecc_key_idx_def last_pqc_key_idx_def Let_def
  using sample_pqc_reads
  by (simp add: sample_view sample_crypto ZERO_DIGEST_ones pqc_max_key_count_def pqc_revocation_def)
    (simp add: sample_defs KEY_DESCRIPTOR_VERSION_def list_get_def key_bit_def from_bits_truncate_def revocation_contains_def
      pqc_key_type_as_u8_def)

lemma sample_header_passes:
  "all_pass (header_checks sample_crypto_fns (fw_view sample_env) (header accepted_manifest)
     (preamble_info sample_crypto_fns (fw_view sample_env) (preamble accepted_manifest) MLDSA))"
  unfolding header_checks_def preamble_info_def sig_checks_def ecc_sig_checks_def mldsa_sig_checks_def pqc_info_def
  by (simp add: sample_defs sample_crypto ZERO_DIGEST_ones)

lemma sample_toc_passes:
  "all_pass (toc_checks sample_crypto_fns accepted_manifest (manifest_toc_info accepted_manifest) 20000)"
  unfolding toc_checks_def manifest_toc_info_def image_end_def load_end_def
  by (simp add: sample_crypto) (simp add: sample_defs IMAGE_MANIFEST_BYTE_SIZE_def)

lemma sample_images_pass:
  "all_pass (fmc_checks sample_crypto_fns (fw_view sample_env) bs (fmc accepted_manifest) reason)"
  "all_pass (runtime_checks sample_crypto_fns (fw_view sample_env) bs (runtime accepted_manifest))"
  unfolding fmc_checks_def runtime_checks_def image_end_def load_end_def
  by (simp_all add: sample_crypto sample_view)
    (simp_all add: sample_defs range_contains_def range_start_def range_end_def ICCM_RANGE_def is_multiple_of_4_def)

lemma sample_passes: "all_pass (fw_checks sample_engines accepted_manifest 20000 reason sample_env)"
  unfolding verify_checks_def Let_def sample_pqc_type manifest_checks_def pqc_fuse_checks_def svn_checks_def svn_enforced_def
  using sample_preamble_passes sample_header_passes sample_toc_passes sample_images_pass
  by (simp add: sample_view) (simp add: accepted_manifest_def pqc_key_type_from_u8_def IMAGE_MANIFEST_BYTE_SIZE_def MAX_FIRMWARE_SVN_def)

lemma sample_readable: "fw_readable (fw_image sample_env) 16956 8" "fw_readable (fw_image sample_env) 16964 8"
  by (simp_all add: fw_readable_def fw_image_def sample_defs mbox_range_ok_def mbox_msg_ok_def get_mbox_size_def
      MBOX_SIZE_PASSIVE_def soc_subsystem_mode_def Sha512AcceleratorRegs_new_def Ram_new_def)

lemma verifiable_sample: "verifiable sample_engines accepted_manifest 20000 reason sample_env"
  using fw_devices_sample wf_accepted_manifest keys_accepted_sample sample_readable
  by (simp add: verifiable_def) (simp add: accepted_manifest_def sample_toc_def)

lemma sample_accepted:
  "\<exists>info t. verify (FirmwareEnv sample_engines) accepted_manifest 20000 reason sample_env = (Ok info, t)"
  using fw_verify_live [OF verifiable_sample sample_acc_free, of reason] sample_passes
  by (cases "verify (FirmwareEnv sample_engines) accepted_manifest 20000 reason sample_env") simp

lemma sample_lifecycle: "soc_lifecycle (fw_soc_ifc sample_env) = Production"
  using sample_view by (simp add: fw_view_def Let_def)

end
