(* ===== verification/Spec2Isabelle.thy ===== *)
theory Spec2Isabelle
  imports SocManager FirmwareSample
begin

text \<open>
  Caliptra is a silicon root of trust. Its ROM verifies a firmware image before anything else runs,
  measures it into platform configuration registers (PCRs), and hands over to the runtime firmware,
  which serves commands that the SoC sends through a mailbox. This development models that path from
  the top to the registers: the image verifier of the ROM, the drivers under it, the runtime's
  command dispatcher, the mailbox from both sides, and the devices all of them run on, which are those
  of the software emulator. Paths are relative to \<^verbatim>\<open>src/\<close>.

  \<^bold>\<open>Parts and theories.\<close>

  \<^item> Vocabulary. \<open>Prelude\<close> has the outcomes and the state monad, \<open>Bytes\<close> the byte representations with
    the contract \<open>codec\<close>, \<open>CaliptraError\<close> the error codes of \<^verbatim>\<open>error/src/lib.rs\<close>, \<open>Blocks\<close>
    Merkle-Damgard hashing over a compression function, \<open>WordChannel\<close> the transfer of byte buffers
    through word registers with the contract \<open>word_channel\<close>.
  \<^item> Control-flow integrity. \<open>Cfi\<close> is \<^verbatim>\<open>cfi/lib\<close> and the wrapper of \<^verbatim>\<open>cfi/derive\<close>: assertions, the
    encoded counter, the generator, and the macro that counts entries and exits.
  \<^item> Image format. \<open>ImageTypes\<close> and \<open>LmsTypes\<close> are \<^verbatim>\<open>image/types\<close> and \<^verbatim>\<open>lms-types\<close>: every structure of the
    manifest with its bytes, the ranges of its parts and the layout of a bundle.
  \<^item> Image verifier. \<open>ImageVerifyEnv\<close> and \<open>ImageVerify\<close> are \<^verbatim>\<open>image/verify\<close>: the trait as a record of
    operations and each method of \<^verbatim>\<open>ImageVerifier\<close>. \<open>ImageVerifySpec\<close> states what each method promises
    as a list of checks with error codes, and \<open>ImageVerifyCorrect\<close> proves it under the contract
    \<open>image_verification_env\<close>.
  \<^item> Devices. \<open>EmuBus\<close> is the memory and bus of \<^verbatim>\<open>sw-emulator/lib/bus\<close> with the polling loops of
    \<^verbatim>\<open>drivers/src/wait.rs\<close> and the contract \<open>timed_device\<close>; \<open>Sha512\<close>, \<open>Sha512Acc\<close>, \<open>Sha256\<close>, \<open>HashSha512\<close>,
    \<open>KeyVault\<close>, \<open>AsymEcc384\<close>, \<open>Abr\<close> and \<open>MailboxPeriph\<close> are the engines and peripherals of
    \<^verbatim>\<open>sw-emulator/lib/crypto\<close> and \<^verbatim>\<open>sw-emulator/lib/periph\<close>: one record per device, one definition per
    register callback, completion and reset.
  \<^item> Drivers. \<open>BlockHash\<close> is what the hash drivers share, with the contract \<open>block_hasher\<close>;
    \<open>Sha256Driver\<close>, \<open>Sha2Driver\<close>, \<open>Sha2Acc\<close>, \<open>Lms\<close>, \<open>Ecc384Driver\<close>, \<open>Mldsa87Driver\<close>, \<open>PcrBank\<close>, \<open>SocIfc\<close> and
    \<open>MailboxDriver\<close> are the files of the same names in \<^verbatim>\<open>drivers/src\<close>. A driver operation is an action
    on the state of its device.
  \<^item> Environment of the ROM. \<open>FirmwareEnv\<close> is \<^verbatim>\<open>common/src/verifier.rs\<close>, the trait on the drivers;
    \<open>FirmwareCorrect\<close> interprets \<open>image_verification_env\<close> on it, and \<open>FirmwareSample\<close> has a device and an
    image that is accepted.
  \<^item> Runtime and SoC. \<open>RtMailbox\<close> is the mailbox interface, the packets and the dispatcher of \<^verbatim>\<open>runtime/src\<close>
    with the contract \<open>command_table\<close> of the handlers; \<open>RtCommands\<close> has the commands
    ECDSA384_SIGNATURE_VERIFY, MLDSA87_SIGNATURE_VERIFY and EXTEND_PCR and interprets the contract on
    them; \<open>MailboxChannel\<close> interprets \<open>word_channel\<close> on the data registers, for each accessor;
    \<open>SocManager\<close> is the SoC's side, \<^verbatim>\<open>api/src/soc_mgr.rs\<close>, acting on the same mailbox.

  \<^bold>\<open>Reading the model.\<close> A function of the source is a definition with its name; a prefix tells apart
  methods of the same name. State is passed explicitly: an action maps a state to an outcome and a
  state. An outcome is a value, an error code, a jump to the panic handler of the control-flow checks,
  or a Rust panic, which also stands for a refused bus access and for a wait that never ends. Integers
  are words of their width and wrap as in the firmware profile. Device time advances only while a
  driver waits. The control-flow wrappers of driver functions are left out of the drivers:
  \<open>cfi_fn_transparent\<close> shows that they do not change a result of a body that leaves the counter
  balanced, and a body changes the counter only through further wrapped calls, which restore it. The hash compression functions, the P-384
  and the ML-DSA arithmetic come from crates outside the repository; they are parameters, with the
  few laws that are used as named hypotheses (\<open>compress_ok\<close>, \<open>engines_ok\<close>, \<open>p384_scalars_law\<close>).

  \<^bold>\<open>What is shown.\<close>

  \<^item> The properties of this theory are about the whole stack: the verifier on its drivers and
    devices returns exactly the outcome of the list of checks, an accepted image is signed and measured
    all the way down to the bytes in memory, is not a rollback, loads inside the ICCM without overlap and
    keeps the identity of the device at an update reset; and verification neither panics nor hangs, also
    when the accelerator is held by the SoC.
  \<^item> Every driver computes the reference of its operation, on the inputs that the hypotheses below admit,
    and leaves its engine idle, and its waits end: LMS against RFC 8554, SHA-2 in any pieces, ECDSA and ML-DSA verification, the
    accelerator with its lock. PCRs hold the hash chain of their measurements.
  \<^item> Locks. What the vaults protect, against which accesses and until which reset, by induction over
    sequences of accesses; the exclusion of the mailbox lock, under any interleaving of its users.
  \<^item> Commands. What the SoC gets back from a mailbox command is what its handler comes to, from the
    registers on one side to the registers on the other; PCR extension, ECDSA and ML-DSA verification
    are followed down to the vault and the engines, with every refusal. A request and its response
    also pass unchanged between the SoC and the mailbox driver of the ROM.
  \<^item> Control-flow integrity. A wrapped function that returns leaves the counter as it was, a skipped
    entry is caught, and around a body that leaves the counter balanced the wrapper is invisible.

  \<^bold>\<open>Hypotheses.\<close> \<open>verifiable\<close> asks for idle devices, a well-formed manifest, keys that the engines accept
  as points or encodings (the emulator stops on others), and image ranges that the accelerator can read:
  inside the mailbox, whole words, starting at a word boundary below 64 KiB; or in the buffers of a FIPS
  test and of no length that is 111 modulo 128, for which the streaming hasher of the emulator pads
  wrongly (\<open>sha512_streaming_ref\<close>). Images behind the AXI bus are not covered. \<open>mbox_free\<close> asks for an
  idle mailbox with a clear status register, and \<open>device_serves\<close> that the firmware goes through its
  command loop within the polling limit of the SoC. \<open>plain_cmd\<close> leaves out the commands that do not take
  the path of the packets: FIRMWARE_LOAD, FIRMWARE_VERIFY and, in subsystem mode, EXTERNAL_MAILBOX_CMD.
  Handlers must not touch the mailbox before the reply, as \<^verbatim>\<open>runtime/src/packet.rs\<close> requires, and keep the
  size of the response buffer. That size, \<open>rt_max_resp\<close>, is the size of an enumeration whose layout the
  compiler chooses: it is only known to be at least that of \<open>InvokeDpeResp\<close>, which exceeds the mailbox of
  the subsystem mode, so a response that does not fit the mailbox is one of the errors. Each property
  with hypotheses has a witness.

  \<^bold>\<open>Loops.\<close> Loops are structural recursions or have a termination proof; the two that may not end, the
  wait for a device flag and the wait for the mailbox lock, are partial functions, and that they return
  is proved where they are used. No definition has fuel.

  \<^bold>\<open>Not modelled.\<close> The RISC-V core and the address decoding of the emulator, since firmware is modelled
  at the source level; the generated register accessors, whose fields are written out where they are
  used; the boot flows of ROM, FMC and runtime around verification and commands, and the remaining
  runtime commands, which build on the DPE library outside the repository and on the HMAC, AES, DMA,
  SHA-3, ML-KEM and random-number engines; key generation and signing of the drivers; certificates,
  which the build generates; the host tools, hardware models and tests; and the FIPS test hooks, which
  are off in production. The watchdog and the status registers that only report progress are left out
  of the command loop.
\<close>

unbundle bit_operations_syntax

section \<open>Firmware verification on the whole stack\<close>

text \<open>C1: The outcome of the verification is exactly that of the list of checks: on a device whose
  accelerator is free, the verifier of the ROM, with its drivers and the devices below them, returns
  the stated information when all checks hold and otherwise the error of the first check that fails.
  It neither panics nor hangs.\<close>

theorem verify_exact:
  assumes "verifiable P man sz reason s" "acc_free (fw_sha2_512_384_acc s)"
  shows "fst (verify (FirmwareEnv P) man sz reason s) =
    bindO (run_checks (verify_checks (fw_crypto P) (fw_view s) (fw_bytes (fw_image s)) man sz reason))
      (\<lambda>_. Ok (verified_info (fw_crypto P) (fw_view s) man))"
  using assms by (rule fw_verify_live)

theorem verify_exact_witness:
  "fst (verify (FirmwareEnv sample_engines) accepted_manifest 20000 ColdReset sample_env) =
     Ok (verified_info (fw_crypto sample_engines) (fw_view sample_env) accepted_manifest)"
  using verify_exact [OF verifiable_sample sample_acc_free, of ColdReset] sample_passes by simp

text \<open>C2: The chain of trust of an accepted image. The header was signed by the vendor and by the owner,
  with ECDSA and with the post-quantum scheme of the manifest; unless the device is unprovisioned the
  fuses hold the digest of the vendor key descriptors, which hold the digests of the two vendor keys;
  a fused owner key digest is that of the owner keys; the header holds the digest of the table of
  contents, whose entries hold the digests of exactly the bytes of the two images in memory; and what
  the verifier reports for loading are these entries.\<close>

theorem verify_chain_of_trust:
  assumes "verifiable P man sz reason s" "verify (FirmwareEnv P) man sz reason s = (Ok info, t)"
  defines "H \<equiv> sha384_ref (eng_sha512 P)" and "pre \<equiv> preamble man" and "hdr \<equiv> header man" and "ty \<equiv> manifest_pqc_type man"
  shows "ecdsa_accepts P (vendor_ecc_active_pub_key pre) (H (vendor_signed_bytes hdr)) (ecc_sig (vendor_sigs pre)) \<and>
    pqc_accepts P ty (vendor_pqc_active_pub_key pre) (vendor_signed_bytes hdr) (pqc_sig (vendor_sigs pre)) \<and>
    ecdsa_accepts P (owner_ecc_pub_key (owner_pub_keys pre)) (H (ImageHeader_as_bytes hdr)) (ecc_sig (owner_sigs pre)) \<and>
    pqc_accepts P ty (owner_pqc_pub_key (owner_pub_keys pre)) (ImageHeader_as_bytes hdr) (pqc_sig (owner_sigs pre)) \<and>
    (soc_lifecycle (fw_soc_ifc s) \<noteq> Unprovisioned \<longrightarrow>
       fuse_vendor_pk_hash (fw_soc_ifc s) = H (ImageVendorPubKeyInfo_as_bytes (vendor_pub_key_info pre)) \<and>
       list_get (ecc_key_hash (ecc_key_descriptor (vendor_pub_key_info pre))) (pre_vendor_ecc_pub_key_idx pre) =
         Some (H (ImageEccPubKey_as_bytes (vendor_ecc_active_pub_key pre))) \<and>
       list_get (pqc_key_hash (pqc_key_descriptor (vendor_pub_key_info pre))) (pre_vendor_pqc_pub_key_idx pre) =
         Some (H (take (pqc_key_byte_size ty) (vendor_pqc_active_pub_key pre)))) \<and>
    (cptra_owner_pk_hash (fw_soc_ifc s) \<noteq> ZERO_DIGEST \<longrightarrow>
       cptra_owner_pk_hash (fw_soc_ifc s) = H (ImageOwnerPubKeys_as_bytes (owner_pub_keys pre))) \<and>
    toc_digest hdr = H (toc_bytes man) \<and>
    toc_entry_digest (fmc man) = H (image_bytes (fw_bytes (fw_image s)) (fmc man)) \<and>
    toc_entry_digest (runtime man) = H (image_bytes (fw_bytes (fw_image s)) (runtime man)) \<and>
    info_fmc info = exe_info (fmc man) \<and> info_runtime info = exe_info (runtime man)"
proof -
  note pass = fw_verify_Ok [OF assms(1,2)]
  have "wf_ImageManifest man" using assms(1) by (simp add: verifiable_def)
  note sigs = header_checks_accept [OF this pass(1)]
  note parts = fw_checks_parts [OF pass(1)]
  show ?thesis
    using sigs vendor_keys_trusted [OF parts(1)] owner_keys_trusted [OF parts(2)] digests_trusted [OF parts(5-7)]
    unfolding H_def pre_def hdr_def ty_def by (simp add: pass(2) verified_info_def Let_def)
qed

theorem verify_chain_of_trust_witness:
  "ecdsa_accepts sample_engines sample_ecc_key
     (sha384_ref (eng_sha512 sample_engines) (ImageHeader_as_bytes (header accepted_manifest))) (ecc_sig (owner_sigs (preamble accepted_manifest))) \<and>
   fuse_vendor_pk_hash (fw_soc_ifc sample_env) =
     sha384_ref (eng_sha512 sample_engines) (ImageVendorPubKeyInfo_as_bytes (vendor_pub_key_info (preamble accepted_manifest)))"
proof -
  obtain info t where "verify (FirmwareEnv sample_engines) accepted_manifest 20000 ColdReset sample_env = (Ok info, t)"
    using sample_accepted by blast
  moreover have "owner_ecc_pub_key (owner_pub_keys (preamble accepted_manifest)) = sample_ecc_key"
    by (simp add: accepted_manifest_def)
  ultimately show ?thesis using verify_chain_of_trust [OF verifiable_sample, of ColdReset info t] sample_lifecycle by simp
qed

text \<open>C3: No rollback and no revoked keys. An accepted image has a security version number within the
  supported range; on a provisioned device with anti-rollback it is not below the number in the
  fuses, and the effective fuse value reported never exceeds it. A vendor key with a set revocation
  bit is accepted only if it is the last one of its descriptor, on any device.\<close>

theorem verify_no_rollback:
  assumes "verifiable P man sz reason s" "verify (FirmwareEnv P) man sz reason s = (Ok info, t)"
  defines "fuses \<equiv> fw_soc_ifc s" and "pre \<equiv> preamble man"
  shows "info_fw_svn info = hdr_svn (header man) \<and> info_fw_svn info \<le> 128 \<and>
    (soc_lifecycle fuses \<noteq> Unprovisioned \<longrightarrow> \<not> fuse_anti_rollback_disabled fuses \<longrightarrow> fuse_fw_svn fuses \<le> info_fw_svn info) \<and>
    (soc_lifecycle fuses \<noteq> Unprovisioned \<longrightarrow> info_effective_fuse_svn info \<le> info_fw_svn info) \<and>
    (pre_vendor_ecc_pub_key_idx pre < last_ecc_key_idx pre \<and> unat (pre_vendor_ecc_pub_key_idx pre) < 4 \<longrightarrow>
       \<not> bit (fuse_ecc_revocation fuses) (unat (pre_vendor_ecc_pub_key_idx pre))) \<and>
    (pre_vendor_pqc_pub_key_idx pre < last_pqc_key_idx pre \<and> unat (pre_vendor_pqc_pub_key_idx pre) < 32 \<longrightarrow>
       \<not> bit (case info_pqc_key_type info of LMS \<Rightarrow> fuse_lms_revocation fuses | MLDSA \<Rightarrow> fuse_mldsa_revocation fuses)
         (unat (pre_vendor_pqc_pub_key_idx pre)))"
proof -
  note pass = fw_verify_Ok [OF assms(1,2)]
  note parts = fw_checks_parts [OF pass(1), folded pre_def]
  show ?thesis
    using parts(3,4,8) key_not_revoked ecc_key_not_revoked unfolding pass(2) fuses_def
    by (auto simp: svn_checks_def svn_enforced_def verified_info_def effective_svn_def fw_view_def Let_def MAX_FIRMWARE_SVN_def
      ecc_idx_checks_def pqc_idx_checks_def pqc_revocation_def fuse_vendor_ecc_pub_key_revocation_def
      split: FwVerificationPqcKeyType.splits)
qed

theorem verify_no_rollback_witness:
  "\<exists>info. fst (verify (FirmwareEnv sample_engines) accepted_manifest 20000 ColdReset sample_env) = Ok info \<and>
     fuse_fw_svn (fw_soc_ifc sample_env) \<le> info_fw_svn info \<and> \<not> bit (fuse_ecc_revocation (fw_soc_ifc sample_env)) 2"
proof -
  obtain info t where run: "verify (FirmwareEnv sample_engines) accepted_manifest 20000 ColdReset sample_env = (Ok info, t)"
    using sample_accepted by blast
  have pre: "pre_vendor_ecc_pub_key_idx (preamble accepted_manifest) = 2" "last_ecc_key_idx (preamble accepted_manifest) = 3"
    "\<not> fuse_anti_rollback_disabled (fw_soc_ifc sample_env)"
    by (simp_all add: accepted_manifest_def last_ecc_key_idx_def sample_env_def sample_soc_ifc_def fuse_anti_rollback_disabled_def)
  show ?thesis using verify_no_rollback [OF verifiable_sample run] sample_lifecycle run by (auto simp: pre)
qed

text \<open>C4: Placement of an accepted image. The two images lie in the bundle right after the manifest, one
  after the other, inside the bundle; loaded at their addresses they lie inside the ICCM, without
  wrap-around and without overlap, and each entry point is the word-aligned start of its image.\<close>

theorem verify_placement:
  assumes "verifiable P man sz reason s" "verify (FirmwareEnv P) man sz reason s = (Ok info, t)"
  shows "unat (toc_offset (fmc man)) = IMAGE_MANIFEST_BYTE_SIZE \<and> unat (toc_offset (runtime man)) = image_end (fmc man) \<and>
    image_end (runtime man) \<le> unat sz \<and>
    loaded_at (fmc man) \<subseteq> {0x40000000..<0x40040000} \<and> loaded_at (runtime man) \<subseteq> {0x40000000..<0x40040000} \<and>
    loaded_at (fmc man) \<inter> loaded_at (runtime man) = {} \<and>
    unat (exe_entry_point (info_fmc info)) \<in> loaded_at (fmc man) \<and>
    unat (exe_entry_point (info_runtime info)) \<in> loaded_at (runtime man) \<and>
    exe_entry_point (info_fmc info) = exe_load_addr (info_fmc info) \<and> is_multiple_of_4 (exe_entry_point (info_fmc info)) \<and>
    exe_entry_point (info_runtime info) = exe_load_addr (info_runtime info) \<and> is_multiple_of_4 (exe_entry_point (info_runtime info))"
proof -
  note pass = fw_verify_Ok [OF assms(1,2)]
  have iccm: "iccm_range (fw_view s) = ICCM_RANGE" by (simp add: fw_view_def Let_def)
  note parts = fw_checks_parts(5-7) [OF pass(1), unfolded toc_checks_def fmc_checks_def runtime_checks_def iccm all_pass_simps fst_conv]
  have "loaded_at (fmc man) \<subseteq> {0x40000000..<0x40040000}" "unat (entry_point (fmc man)) \<in> loaded_at (fmc man)"
    "loaded_at (runtime man) \<subseteq> {0x40000000..<0x40040000}" "unat (entry_point (runtime man)) \<in> loaded_at (runtime man)"
    using parts loaded_inside_iccm [of "fmc man"] loaded_inside_iccm [of "runtime man"] by metis+
  moreover have "loaded_at (fmc man) \<inter> loaded_at (runtime man) = {}"
    using parts(1) by (intro loaded_disjoint) blast+
  ultimately show ?thesis
    using parts unfolding pass(2) verified_info_def Let_def exe_info_def
    by (simp only: ImageVerificationInfo.simps ImageVerificationExeInfo.simps simp_thms)
qed

theorem verify_placement_witness:
  "loaded_at (fmc accepted_manifest) \<inter> loaded_at (runtime accepted_manifest) = {} \<and> image_end (runtime accepted_manifest) \<le> 20000"
proof -
  obtain info t where "verify (FirmwareEnv sample_engines) accepted_manifest 20000 ColdReset sample_env = (Ok info, t)"
    using sample_accepted by blast
  from verify_placement [OF verifiable_sample this] show ?thesis by simp
qed

text \<open>C5: An update reset keeps the identity of the device. An image accepted for an update reset has the
  owner keys and vendor key indices of the cold boot, and the same FMC: the digest of the FMC in
  memory is the one measured then, and it is loaded to the same place.\<close>

theorem verify_update_reset_keeps_fmc:
  assumes "verifiable P man sz UpdateReset s" "verify (FirmwareEnv P) man sz UpdateReset s = (Ok info, t)"
  defines "dv \<equiv> fw_data_vault s" and "cold \<equiv> rom_manifest1 (fw_persistent_data s)"
  shows "info_owner_pub_keys_digest info = dv_owner_pk_hash dv \<and>
    info_vendor_ecc_pub_key_idx info = dv_vendor_ecc_pk_index dv \<and> info_vendor_pqc_pub_key_idx info = dv_vendor_pqc_pk_index dv \<and>
    sha384_ref (eng_sha512 P) (image_bytes (fw_bytes (fw_image s)) (fmc man)) = dv_fmc_tci dv \<and>
    exe_digest (info_fmc info) = dv_fmc_tci dv \<and> loaded_at (fmc man) = loaded_at (fmc cold)"
proof -
  note pass = fw_verify_Ok [OF assms(1,2)]
  note parts = fw_checks_parts [OF pass(1)]
  show ?thesis
    using parts(2-4,6) unfolding pass(2) dv_def cold_def
    by (simp add: owner_key_checks_def ecc_idx_checks_def pqc_idx_checks_def fmc_checks_def verified_info_def exe_info_def
      fw_view_def loaded_at_def Let_def)
qed

theorem verify_update_reset_keeps_fmc_witness:
  "\<exists>info. fst (verify (FirmwareEnv sample_engines) accepted_manifest 20000 UpdateReset sample_env) = Ok info \<and>
     exe_digest (info_fmc info) = dv_fmc_tci (fw_data_vault sample_env)"
proof -
  obtain info t where run: "verify (FirmwareEnv sample_engines) accepted_manifest 20000 UpdateReset sample_env = (Ok info, t)"
    using sample_accepted by blast
  from verify_update_reset_keeps_fmc [OF verifiable_sample run] run show ?thesis by auto
qed

text \<open>C6: Verification is fail-safe whether or not the accelerator is free, also while the SoC holds it. The
  devices are idle, the manifest has the shape of its type, keys that pass the checks on the preamble
  are points and encodings the engines take (the emulator stops on others), and images that pass the
  checks on the table of contents can be read: from the mailbox, as whole words from a word boundary
  below 64 KiB (the accelerator of the emulator refuses a later start), or from the buffers of a FIPS
  test, with no length 111 modulo 128; images behind the AXI bus are not covered. Then the verification
  ends without a panic of the control-flow checks, a crash or an endless wait, and when it returns
  with success all checks hold and the devices are idle again.\<close>

theorem verify_never_panics:
  assumes "verifiable P man sz reason s"
  shows "\<not> is_panic (fst (verify (FirmwareEnv P) man sz reason s)) \<and>
    (\<exists>x t. verify (FirmwareEnv P) man sz reason s = (x, t) \<and>
      (case x of Ok info \<Rightarrow> all_pass (verify_checks (fw_crypto P) (fw_view s) (fw_bytes (fw_image s)) man sz reason) \<and>
          fw_devices P t \<and> fw_view t = fw_view s \<and> fw_image t = fw_image s
       | _ \<Rightarrow> True))"
proof -
  note m = fw_verify_meets [OF assms] fw_at_self [OF assms]
  obtain x t where run: "verify (FirmwareEnv P) man sz reason s = (x, t)" by fastforce
  then have "case x of Ok info \<Rightarrow> all_pass (fw_checks P man sz reason s) \<and> fw_at P (fw_view s) (fw_image s) t | _ \<Rightarrow> True"
    using meets_Ok [OF m] by (auto split: outcome.splits)
  then show ?thesis
    using run meets_calm [OF m] by (auto simp: calm_def env_at_def split: outcome.splits)
qed

theorem verify_never_panics_witness:
  "\<not> is_panic (fst (verify (FirmwareEnv sample_engines) accepted_manifest 20000 WarmReset sample_env))"
  using verify_never_panics [OF verifiable_sample, of WarmReset] by simp

end
